(* ===== verification/Prelude.thy ===== *)
theory Prelude
  imports Main "HOL-Library.Word" "HOL-Library.AList"
begin

text \<open>
  The shared library of the development: the types the components have in common
  (bytes, Go slices of bytes, results), the big-endian readers and writers of
  \<^verbatim>\<open>encoding/binary\<close>, the decimal printer that \<^verbatim>\<open>fmt\<close> uses for \<^verbatim>\<open>%d\<close>, slices and the
  generic lemmas about them, and the collections of facts the component theories extend.

  Conventions used throughout:
  \<^item> a Go \<^verbatim>\<open>[]byte\<close> is a list of \<open>byte\<close>; a nil slice and an empty slice are the same list,
    because no code of the program distinguishes them except where a theory says so;
  \<^item> an \<open>int\<close> of Go (64 bits) that counts bytes, messages or elements of something that
    is held in memory is a \<open>nat\<close> or an \<open>int\<close> without wrap-around; a fixed-width field whose
    width the code relies on is a \<open>word\<close>;
  \<^item> a method \<^verbatim>\<open>(x *T) Op\<close> is a function \<open>T_Op\<close> that takes the receiver and returns the
    updated receiver first.
\<close>

unbundle bit_operations_syntax

named_theorems model_defs \<open>definitions a component proof may unfold\<close>
named_theorems inv_intros \<open>an operation preserves its component's invariant\<close>

type_synonym byte = "8 word"
type_synonym bytes = "byte list"

subsection \<open>Slices\<close>

text \<open>The Go slice expression \<^verbatim>\<open>xs[i:j]\<close> for indices in range.\<close>

definition slice :: "nat \<Rightarrow> nat \<Rightarrow> 'a list \<Rightarrow> 'a list" where
  "slice i j xs = take (j - i) (drop i xs)"

lemma length_slice [simp]: "length (slice i j xs) = min (j - i) (length xs - i)"
  by (simp add: slice_def)

lemma slice_empty [simp]: "slice i i xs = []"
  by (simp add: slice_def)

lemma slice_0_take: "slice 0 n xs = take n xs"
  by (simp add: slice_def)

lemma slice_append_left:
  "j \<le> length xs \<Longrightarrow> slice i j (xs @ ys) = slice i j xs"
  by (cases "i \<le> j") (auto simp: slice_def)

lemma slice_append_right:
  "length xs \<le> i \<Longrightarrow> slice i j (xs @ ys) = slice (i - length xs) (j - length xs) ys"
  by (auto simp: slice_def)

lemma slice_slice_append:
  "i \<le> j \<Longrightarrow> j \<le> k \<Longrightarrow> slice i j xs @ slice j k xs = slice i k xs"
proof -
  assume le: "i \<le> j" "j \<le> k"
  have "drop j xs = drop (j - i) (drop i xs)" using le by simp
  moreover have "k - i = (j - i) + (k - j)" using le by simp
  ultimately show ?thesis by (simp add: slice_def take_add)
qed

lemma drop_slice: "drop n (slice i j xs) = slice (i + n) j xs"
  by (simp add: slice_def drop_take add.commute)

lemma take_slice: "i + n \<le> j \<Longrightarrow> take n (slice i j xs) = slice i (i + n) xs"
  by (simp add: slice_def min_def)

lemma nth_slice: "k < j - i \<Longrightarrow> i + k < length xs \<Longrightarrow> slice i j xs ! k = xs ! (i + k)"
  by (simp add: slice_def add.commute)

text \<open>
  \<^verbatim>\<open>copy(dst, src)\<close>: the destination afterwards and the number of elements copied. The
  built-in behaves like a simultaneous copy even when the two slices overlap.
\<close>

definition go_copy :: "'a list \<Rightarrow> 'a list \<Rightarrow> 'a list" where
  "go_copy dst src = take (length dst) src @ drop (length src) dst"

definition go_copied :: "'a list \<Rightarrow> 'a list \<Rightarrow> nat" where
  "go_copied dst src = min (length dst) (length src)"

lemma length_go_copy [simp]: "length (go_copy dst src) = length dst"
  by (simp add: go_copy_def)

lemma take_go_copy: "length src \<le> length dst \<Longrightarrow> take (length src) (go_copy dst src) = src"
  by (simp add: go_copy_def)

subsection \<open>Big-endian integers (encoding/binary)\<close>

text \<open>
  \<open>be_put n v\<close> is what \<^verbatim>\<open>binary.BigEndian.PutUint16/32/64\<close> store for \<open>n = 2, 4, 8\<close>:
  the lowest byte last. \<open>be_get\<close> is the value \<^verbatim>\<open>binary.BigEndian.Uint16/32/64\<close> read.
\<close>

primrec be_put :: "nat \<Rightarrow> 'a::len word \<Rightarrow> bytes" where
  "be_put 0 v = []"
| "be_put (Suc n) v = be_put n (drop_bit 8 v) @ [ucast v]"

definition be_get :: "bytes \<Rightarrow> 'a::len word" where
  "be_get bs = foldl (\<lambda>acc b. push_bit 8 acc OR ucast b) 0 bs"

lemma length_be_put [simp]: "length (be_put n v) = n"
  by (induction n arbitrary: v) auto

text \<open>The bytes one by one, for evaluation.\<close>

lemma be_put_eval:
  "be_put 2 v = [ucast (drop_bit 8 v), ucast v]"
  "be_put 4 v = [ucast (drop_bit 24 v), ucast (drop_bit 16 v), ucast (drop_bit 8 v), ucast v]"
  "be_put 8 v = [ucast (drop_bit 56 v), ucast (drop_bit 48 v), ucast (drop_bit 40 v), ucast (drop_bit 32 v),
     ucast (drop_bit 24 v), ucast (drop_bit 16 v), ucast (drop_bit 8 v), ucast v]"
  by (simp_all add: numeral_eq_Suc)

lemma be_get_Nil [simp]: "be_get [] = 0"
  by (simp add: be_get_def)

lemma be_get_snoc: "be_get (bs @ [b]) = push_bit 8 (be_get bs) OR ucast b"
  by (simp add: be_get_def)

lemma be_get_put_take_bit: "be_get (be_put n v) = take_bit (8 * n) (v :: 'a::len word)"
proof (induction n arbitrary: v)
  case 0
  then show ?case by simp
next
  case (Suc n)
  have "be_get (be_put (Suc n) v) = push_bit 8 (take_bit (8 * n) (drop_bit 8 v)) OR ucast (ucast v :: byte)"
    by (simp add: be_get_snoc Suc)
  also have "\<dots> = take_bit (8 * Suc n) v"
    by (rule bit_word_eqI) (auto simp: bit_simps)
  finally show ?case .
qed

lemma be_get_put:
  "LENGTH('a) \<le> 8 * n \<Longrightarrow> be_get (be_put n v) = (v :: 'a::len word)"
  by (simp add: be_get_put_take_bit take_bit_word_eq_self)

lemma be_get_high_bits: "8 * length bs \<le> k \<Longrightarrow> \<not> bit (be_get bs :: 'a::len word) k"
proof (induction bs arbitrary: k rule: rev_induct)
  case Nil
  then show ?case by simp
next
  case (snoc b bs)
  then show ?case by (auto simp: be_get_snoc bit_simps dest: bit_imp_le_length)
qed

lemma be_put_get:
  "length bs = n \<Longrightarrow> 8 * n \<le> LENGTH('a) \<Longrightarrow> be_put n (be_get bs :: 'a::len word) = bs"
proof (induction n arbitrary: bs)
  case 0
  then show ?case by simp
next
  case (Suc n)
  then obtain cs c where bs: "bs = cs @ [c]" and len: "length cs = n"
    by (cases bs rule: rev_cases) auto
  let ?g = "be_get cs :: 'a word"
  have high: "\<not> bit ?g k" if "LENGTH('a) \<le> k + 8" for k
    using be_get_high_bits [of cs k] len Suc.prems(2) that by simp
  have "drop_bit 8 (push_bit 8 ?g OR ucast c) = ?g"
  proof (rule bit_word_eqI)
    fix k assume "k < LENGTH('a)"
    have "\<not> bit c (8 + k)" by (auto dest: bit_imp_le_length)
    moreover have "bit ?g k \<Longrightarrow> 8 + k < LENGTH('a)" using high [of k] by fastforce
    ultimately show "bit (drop_bit 8 (push_bit 8 ?g OR ucast c)) k = bit ?g k"
      using \<open>k < LENGTH('a)\<close> by (auto simp: bit_simps)
  qed
  moreover have "ucast (push_bit 8 ?g OR ucast c) = c"
    using Suc.prems(2) by (intro bit_word_eqI) (auto simp: bit_simps)
  ultimately show ?case
    using Suc len by (simp add: bs be_get_snoc)
qed

subsection \<open>Association lists\<close>

lemma update_new: "i \<notin> set (map fst xs) \<Longrightarrow> AList.update i p xs = xs @ [(i, p)]"
  by (induction xs) auto

subsection \<open>Decimal printing (fmt, strconv)\<close>

fun show_nat :: "nat \<Rightarrow> string" where
  "show_nat n = (if n < 10 then [char_of (n + 48)] else show_nat (n div 10) @ [char_of (n mod 10 + 48)])"

declare show_nat.simps [simp del]

definition show_int :: "int \<Rightarrow> string" where
  "show_int i = (if i < 0 then CHR ''-'' # show_nat (nat (- i)) else show_nat (nat i))"

definition digit_val :: "char \<Rightarrow> nat" where
  "digit_val c = of_char c - 48"

definition read_nat :: "string \<Rightarrow> nat" where
  "read_nat = foldl (\<lambda>acc c. 10 * acc + digit_val c) 0"

lemma digit_val_char_of [simp]: "n < 10 \<Longrightarrow> digit_val (char_of (n + 48)) = n"
  by (simp add: digit_val_def)

lemma read_show_nat [simp]: "read_nat (show_nat n) = n"
proof (induction n rule: show_nat.induct)
  case (1 n)
  then show ?case
    by (cases "n < 10") (simp_all add: show_nat.simps [of n] read_nat_def)
qed

lemma show_nat_inj [simp]: "show_nat m = show_nat n \<longleftrightarrow> m = n"
  by (metis read_show_nat)

lemma show_nat_digits: "c \<in> set (show_nat n) \<Longrightarrow> 48 \<le> (of_char c :: nat) \<and> (of_char c :: nat) < 58"
proof (induction n rule: show_nat.induct)
  case (1 n)
  show ?case
  proof (cases "n < 10")
    case True
    then show ?thesis using "1.prems" by (simp add: show_nat.simps [of n])
  next
    case False
    have "n mod 10 + 48 < 58" by simp
    then have last: "(of_char (char_of (n mod 10 + 48) :: char) :: nat) = n mod 10 + 48" by simp
    from False "1.prems" have "c \<in> set (show_nat (n div 10)) \<or> c = char_of (n mod 10 + 48)"
      by (auto simp: show_nat.simps [of n])
    then show ?thesis using "1.IH" [OF False] last by auto
  qed
qed

lemma show_nat_nonempty [simp]: "show_nat n \<noteq> []"
  by (simp add: show_nat.simps [of n])

text \<open>\<^verbatim>\<open>%q\<close> (\<^verbatim>\<open>strconv.Quote\<close>) on ASCII and on printable UTF-8, which it leaves as it is.\<close>

definition hex_digit :: "nat \<Rightarrow> char" where
  "hex_digit n = char_of (if n < 10 then n + 48 else n + 87)"

definition quote_char :: "char \<Rightarrow> string" where
  "quote_char c =
     (let n = of_char c :: nat; escape = (\<lambda>k. [CHR 0x5C, char_of (k :: nat)]) in
      if n = 34 \<or> n = 92 then escape n
      else if n = 7 then escape 97 else if n = 8 then escape 98 else if n = 12 then escape 102 else if n = 10 then escape 110
      else if n = 13 then escape 114 else if n = 9 then escape 116 else if n = 11 then escape 118
      else if n < 32 \<or> n = 127 then escape 120 @ [hex_digit (n div 16), hex_digit (n mod 16)]
      else [c])"

definition quoted :: "string \<Rightarrow> string" where
  "quoted s = CHR 0x22 # concat (map quote_char s) @ [CHR 0x22]"

subsection \<open>strings.TrimSpace\<close>

text \<open>The UTF-8 encodings of the white space characters of Unicode.\<close>

definition space_encodings :: "string list" where
  "space_encodings =
     [[CHR 0x09], [CHR 0x0A], [CHR 0x0B], [CHR 0x0C], [CHR 0x0D], [CHR 0x20], [CHR 0xC2, CHR 0x85],
      [CHR 0xC2, CHR 0xA0], [CHR 0xE1, CHR 0x9A, CHR 0x80], [CHR 0xE2, CHR 0x80, CHR 0x80],
      [CHR 0xE2, CHR 0x80, CHR 0x81], [CHR 0xE2, CHR 0x80, CHR 0x82], [CHR 0xE2, CHR 0x80, CHR 0x83],
      [CHR 0xE2, CHR 0x80, CHR 0x84], [CHR 0xE2, CHR 0x80, CHR 0x85], [CHR 0xE2, CHR 0x80, CHR 0x86],
      [CHR 0xE2, CHR 0x80, CHR 0x87], [CHR 0xE2, CHR 0x80, CHR 0x88], [CHR 0xE2, CHR 0x80, CHR 0x89],
      [CHR 0xE2, CHR 0x80, CHR 0x8A], [CHR 0xE2, CHR 0x80, CHR 0xA8], [CHR 0xE2, CHR 0x80, CHR 0xA9],
      [CHR 0xE2, CHR 0x80, CHR 0xAF], [CHR 0xE2, CHR 0x81, CHR 0x9F], [CHR 0xE3, CHR 0x80, CHR 0x80]]"

text \<open>\<open>strip n spaces s\<close> removes at most \<open>n\<close> of the given prefixes.\<close>

primrec strip :: "nat \<Rightarrow> string list \<Rightarrow> string \<Rightarrow> string" where
  "strip 0 spaces s = s"
| "strip (Suc n) spaces s =
     (case List.find (\<lambda>e. take (length e) s = e) spaces of
        None \<Rightarrow> s
      | Some e \<Rightarrow> strip n spaces (drop (length e) s))"

definition TrimSpace :: "string \<Rightarrow> string" where
  "TrimSpace s =
     (let left = strip (length s) space_encodings s in
      rev (strip (length left) (map rev space_encodings) (rev left)))"

lemma strip_Nil [simp]: "[] \<notin> set spaces \<Longrightarrow> strip n spaces [] = []"
  by (cases n) (auto simp: find_Some_iff dest: nth_mem split: option.splits)

lemma spaces_nonempty [simp]: "[] \<notin> set space_encodings" "[] \<notin> set (map rev space_encodings)"
  by (auto simp: space_encodings_def)

lemma TrimSpace_Nil [simp]: "TrimSpace [] = []"
  by (simp add: TrimSpace_def Let_def del: set_map)

end
