(* ===== verification/GoErrors.thy ===== *)
theory GoErrors
  imports Prelude
begin

text \<open>
  Go errors as values. \<open>go_error\<close> has one constructor per way the program makes an error:
  \<^verbatim>\<open>errors.New\<close> (\<open>Plain\<close>, identified by its text: no two sentinels of the program share
  one), the coded errors of \<^verbatim>\<open>actor/errors.go\<close> (\<open>Coded\<close>), \<^verbatim>\<open>fmt.Errorf\<close> with one \<^verbatim>\<open>%w\<close>
  (\<open>Wrap\<close>, with the text before and after the wrapped error) and \<^verbatim>\<open>errors.Join\<close>
  (\<open>Joined\<close>). \<open>error_string\<close> is \<^verbatim>\<open>Error()\<close>; \<open>errors_as_coded\<close> and \<open>errors_is\<close> are the
  depth-first searches of \<^verbatim>\<open>errors.As\<close> and \<^verbatim>\<open>errors.Is\<close>. A Go \<^verbatim>\<open>error\<close> result is a
  \<open>go_error option\<close>, \<open>None\<close> for nil.
\<close>

type_synonym error_code = "32 word"

datatype go_error =
    Plain string
  | Coded error_code string
  | Wrap string go_error string
  | Joined "go_error list"

type_synonym err = "go_error option"

text \<open>A result \<^verbatim>\<open>(T, error)\<close> of which the code uses one side only.\<close>

type_synonym 'a result = "go_error + 'a"

definition rbind :: "'a result \<Rightarrow> ('a \<Rightarrow> 'b result) \<Rightarrow> 'b result" where
  "rbind x f = (case x of Inl e \<Rightarrow> Inl e | Inr a \<Rightarrow> f a)"

lemma rbind_simps [simp]: "rbind (Inl e) f = Inl e" "rbind (Inr a) f = f a"
  by (simp_all add: rbind_def)

lemma rbind_eq_Inr: "rbind x f = Inr b \<longleftrightarrow> (\<exists>a. x = Inr a \<and> f a = Inr b)"
  by (cases x) auto

subsection \<open>Messages, errors.As and errors.Is\<close>

fun join_lines :: "string list \<Rightarrow> string" where
  "join_lines [] = []"
| "join_lines [s] = s"
| "join_lines (s # ss) = s @ [CHR 0x0A] @ join_lines ss"

fun error_string :: "go_error \<Rightarrow> string" where
  "error_string (Plain s) = s"
| "error_string (Coded c s) = s"
| "error_string (Wrap pre e post) = pre @ error_string e @ post"
| "error_string (Joined es) = join_lines (map error_string es)"

text \<open>\<^verbatim>\<open>errors.Join\<close> drops nil errors and is nil when nothing is left.\<close>

definition errors_join :: "err list \<Rightarrow> err" where
  "errors_join es = (case List.map_filter (\<lambda>e. e) es of [] \<Rightarrow> None | xs \<Rightarrow> Some (Joined xs))"

text \<open>
  \<^verbatim>\<open>errors.As(err, &coded)\<close>: the first error of the tree, in depth-first order, that
  implements \<^verbatim>\<open>CodedError\<close>; here its code.
\<close>

fun errors_as_coded :: "go_error \<Rightarrow> error_code option" 
  and errors_as_coded_list :: "go_error list \<Rightarrow> error_code option" where
  "errors_as_coded (Plain s) = None"
| "errors_as_coded (Coded c s) = Some c"
| "errors_as_coded (Wrap pre e post) = errors_as_coded e"
| "errors_as_coded (Joined es) = errors_as_coded_list es"
| "errors_as_coded_list [] = None"
| "errors_as_coded_list (e # es) =
     (case errors_as_coded e of Some c \<Rightarrow> Some c | None \<Rightarrow> errors_as_coded_list es)"

subsection \<open>actor/errors.go\<close>

definition ErrorCodeUnknown :: error_code where "ErrorCodeUnknown = 0"
definition ErrorCodeActorNotFound :: error_code where "ErrorCodeActorNotFound = 1001"
definition ErrorCodeActorProcessStopped :: error_code where "ErrorCodeActorProcessStopped = 1002"
definition ErrorCodeActorMailboxFull :: error_code where "ErrorCodeActorMailboxFull = 1003"

lemmas error_code_defs = ErrorCodeUnknown_def ErrorCodeActorNotFound_def
  ErrorCodeActorProcessStopped_def ErrorCodeActorMailboxFull_def

definition NewError :: "error_code \<Rightarrow> string \<Rightarrow> go_error" where
  "NewError code message = Coded code message"

text \<open>\<^verbatim>\<open>CodeOf\<close> returns the code and whether there is a non-zero one.\<close>

definition CodeOf :: "err \<Rightarrow> error_code \<times> bool" where
  "CodeOf e = (case Option.bind e errors_as_coded of
       None \<Rightarrow> (ErrorCodeUnknown, False)
     | Some c \<Rightarrow> if c = ErrorCodeUnknown then (ErrorCodeUnknown, False) else (c, True))"

definition codedError_Is :: "error_code \<Rightarrow> err \<Rightarrow> bool" where
  "codedError_Is code target =
     (if code = ErrorCodeUnknown then False
      else (case CodeOf target of (targetCode, ok) \<Rightarrow> ok \<and> code = targetCode))"

text \<open>
  \<^verbatim>\<open>errors.Is(err, target)\<close>: some error of the tree equals the target or says so itself
  through its \<^verbatim>\<open>Is\<close> method. A coded error made by \<^verbatim>\<open>NewError\<close> is a pointer, so two of them
  are equal only through \<^verbatim>\<open>Is\<close>; the sentinels are compared by their text.
\<close>

fun errors_is :: "go_error \<Rightarrow> go_error \<Rightarrow> bool" 
  and errors_is_list :: "go_error list \<Rightarrow> go_error \<Rightarrow> bool" where
  "errors_is (Plain s) t = (Plain s = t)"
| "errors_is (Coded c s) t = codedError_Is c (Some t)"
| "errors_is (Wrap pre e post) t = (Wrap pre e post = t \<or> errors_is e t)"
| "errors_is (Joined es) t = (Joined es = t \<or> errors_is_list es t)"
| "errors_is_list [] t = False"
| "errors_is_list (e # es) t = (errors_is e t \<or> errors_is_list es t)"

definition ErrActorProcessStopped :: go_error where
  "ErrActorProcessStopped = NewError ErrorCodeActorProcessStopped ''actor process is stopped''"
definition ErrNotFound :: go_error where
  "ErrNotFound = NewError ErrorCodeActorNotFound ''actor not found''"
definition ErrMailboxFull :: go_error where
  "ErrMailboxFull = NewError ErrorCodeActorMailboxFull ''mailbox is full''"

lemmas coded_error_defs = ErrActorProcessStopped_def ErrNotFound_def ErrMailboxFull_def NewError_def

definition ErrPidNil :: go_error where "ErrPidNil = Plain ''actor pid is nil''"
definition ErrHandlerNil :: go_error where "ErrHandlerNil = Plain ''actor handler is nil''"
definition ErrNameExists :: go_error where "ErrNameExists = Plain ''actor name already exists''"
definition ErrNotLocal :: go_error where "ErrNotLocal = Plain ''actor not local''"
definition ErrRequestNil :: go_error where "ErrRequestNil = Plain ''actor request nil''"
definition ErrRespondErrorNil :: go_error where
  "ErrRespondErrorNil = Plain ''actor respondError requires a non-nil error''"
definition ErrAlreadyResponded :: go_error where
  "ErrAlreadyResponded = Plain ''actor message already responded''"
definition ErrAskTimeout :: go_error where "ErrAskTimeout = Plain ''actor ask timeout''"
definition ErrAskCompletionNil :: go_error where
  "ErrAskCompletionNil = Plain ''actor ask completion callback is nil''"
definition ErrRequestLimit :: go_error where
  "ErrRequestLimit = Plain ''actor pending request limit reached''"
definition ErrRequestManagerClosed :: go_error where
  "ErrRequestManagerClosed = Plain ''actor request manager is closed''"
definition ErrActorTargetNil :: go_error where
  "ErrActorTargetNil = Plain ''actor message target pid is nil''"
definition ErrActorSenderNil :: go_error where
  "ErrActorSenderNil = Plain ''actor message sender pid is nil''"
definition ErrActorEnvelopeRequestInvalid :: go_error where
  "ErrActorEnvelopeRequestInvalid = Plain ''actor envelope request is invalid''"
definition ErrRemoteMessageKindInvalid :: go_error where
  "ErrRemoteMessageKindInvalid = Plain ''remote actor message kind is invalid''"
definition ErrRemoteMessageBodyInvalid :: go_error where
  "ErrRemoteMessageBodyInvalid = Plain ''remote actor message body is invalid''"
definition ErrRemoteCommonInvalid :: go_error where
  "ErrRemoteCommonInvalid = Plain ''remote actor common is invalid''"
definition ErrRemoteMessageNil :: go_error where
  "ErrRemoteMessageNil = Plain ''remote actor message is nil''"
definition ErrRemoteSourceNodeInvalid :: go_error where
  "ErrRemoteSourceNodeInvalid = Plain ''remote actor source node is invalid''"
definition ErrRequestNotExist :: go_error where
  "ErrRequestNotExist = Plain ''remote actor request not exist''"
definition ErrRemoteSenderNil :: go_error where
  "ErrRemoteSenderNil = Plain ''remote actor sender is nil''"

subsection \<open>Facts about codes\<close>

lemma CodeOf_None [simp]: "CodeOf None = (ErrorCodeUnknown, False)"
  by (simp add: CodeOf_def)

lemma CodeOf_Coded:
  "CodeOf (Some (Coded c s)) = (if c = ErrorCodeUnknown then (ErrorCodeUnknown, False) else (c, True))"
  by (simp add: CodeOf_def)

lemma CodeOf_Wrap [simp]: "CodeOf (Some (Wrap pre e post)) = CodeOf (Some e)"
  by (simp add: CodeOf_def)

lemma CodeOf_Plain [simp]: "CodeOf (Some (Plain s)) = (ErrorCodeUnknown, False)"
  by (simp add: CodeOf_def)

lemma CodeOf_ok_iff: "snd (CodeOf e) \<longleftrightarrow> fst (CodeOf e) \<noteq> ErrorCodeUnknown"
  by (auto simp: CodeOf_def split: option.splits)

end
