(* ===== verification/Codec.thy ===== *)
theory Codec
  imports GoErrors
begin

text \<open>
  \<^verbatim>\<open>network/codec\<close>: the pipeline of body transforms and the gzip transform. A \<^verbatim>\<open>Transform\<close> is the
  record of its three methods; a nil transform in the argument list of \<^verbatim>\<open>New\<close> is \<open>None\<close>. The
  gzip format itself (\<^verbatim>\<open>compress/gzip\<close>) is a parameter \<open>gzip_lib\<close>: a writer, the check of the
  header when a reader is opened, and the bytes and the error the reader then produces.
\<close>

definition ErrInvalidOptions :: go_error where "ErrInvalidOptions = Plain ''invalid codec options''"
definition ErrInvalidFlag :: go_error where
  "ErrInvalidFlag = Plain ''codec flag must contain exactly one bit''"
definition ErrDuplicateFlag :: go_error where "ErrDuplicateFlag = Plain ''duplicate codec flag''"
definition ErrUnknownFlags :: go_error where "ErrUnknownFlags = Plain ''unknown codec flags''"
definition ErrDecodedTooLarge :: go_error where
  "ErrDecodedTooLarge = Plain ''decoded payload exceeds limit''"

definition FlagCompressed :: byte where "FlagCompressed = 1"
definition FlagEncrypted :: byte where "FlagEncrypted = 2"

record Transform =
  tr_Flag :: byte
  tr_Encode :: "bytes \<Rightarrow> (bytes \<times> bool) result"
  tr_Decode :: "bytes \<Rightarrow> bytes result"

record Pipeline =
  transforms :: "Transform list"
  knownFlags :: byte

text \<open>\<^verbatim>\<open>bits.OnesCount8\<close>\<close>

definition OnesCount8 :: "byte \<Rightarrow> nat" where
  "OnesCount8 b = length (filter (bit b) [0..<8])"

fun New_loop :: "Transform option list \<Rightarrow> byte \<Rightarrow> byte result" where
  "New_loop [] known = Inr known"
| "New_loop (None # ts) known = Inl ErrInvalidFlag"
| "New_loop (Some t # ts) known =
     (if OnesCount8 (tr_Flag t) \<noteq> 1 then Inl ErrInvalidFlag
      else if known AND tr_Flag t \<noteq> 0 then Inl ErrDuplicateFlag
      else New_loop ts (known OR tr_Flag t))"

definition Pipeline_New :: "Transform option list \<Rightarrow> Pipeline result" where
  "Pipeline_New ts =
     rbind (New_loop ts 0) (\<lambda>known. Inr \<lparr>transforms = List.map_filter (\<lambda>t. t) ts, knownFlags = known\<rparr>)"

fun Encode_loop :: "Transform list \<Rightarrow> bytes \<Rightarrow> byte \<Rightarrow> (bytes \<times> byte) result" where
  "Encode_loop [] encoded flags = Inr (encoded, flags)"
| "Encode_loop (t # ts) encoded flags =
     (case tr_Encode t encoded of
        Inl e \<Rightarrow> Inl e
      | Inr (encoded1, applied) \<Rightarrow>
          Encode_loop ts encoded1 (if applied then flags OR tr_Flag t else flags))"

definition Pipeline_Encode :: "Pipeline \<Rightarrow> bytes \<Rightarrow> (bytes \<times> byte) result" where
  "Pipeline_Encode p data = Encode_loop (transforms p) data 0"

fun Decode_loop :: "Transform list \<Rightarrow> bytes \<Rightarrow> byte \<Rightarrow> bytes result" where
  "Decode_loop [] decoded flags = Inr decoded"
| "Decode_loop (t # ts) decoded flags =
     (if flags AND tr_Flag t = 0 then Decode_loop ts decoded flags
      else (case tr_Decode t decoded of Inl e \<Rightarrow> Inl e | Inr decoded1 \<Rightarrow> Decode_loop ts decoded1 flags))"

definition Pipeline_Decode :: "Pipeline \<Rightarrow> bytes \<Rightarrow> byte \<Rightarrow> bytes result" where
  "Pipeline_Decode p data flags =
     (if flags AND NOT (knownFlags p) \<noteq> 0 then Inl ErrUnknownFlags
      else Decode_loop (rev (transforms p)) data flags)"

subsection \<open>zlib.go: the gzip transform\<close>

record gzip_lib =
  gz_write :: "int \<Rightarrow> bytes \<Rightarrow> bytes result"
  gz_open :: "bytes \<Rightarrow> err"
  gz_read :: "bytes \<Rightarrow> bytes \<times> err"

record Gzip =
  gz_level :: int
  gz_minSize :: int
  gz_maxDecodedSize :: int

record GzipOptions =
  go_Level :: int
  go_MinSize :: int
  go_MaxDecodedSize :: int

definition NewGzip :: "GzipOptions \<Rightarrow> Gzip result" where
  "NewGzip options =
     (if go_Level options \<noteq> 0 \<and> (go_Level options < -2 \<or> go_Level options > 9) then Inl ErrInvalidOptions
      else if go_MinSize options < 0 \<or> go_MaxDecodedSize options < 0 then Inl ErrInvalidOptions
      else Inr \<lparr>gz_level = (if go_Level options = 0 then -1 else go_Level options),
                gz_minSize = go_MinSize options, gz_maxDecodedSize = go_MaxDecodedSize options\<rparr>)"

definition Gzip_Encode :: "gzip_lib \<Rightarrow> Gzip \<Rightarrow> bytes \<Rightarrow> (bytes \<times> bool) result" where
  "Gzip_Encode lib z data =
     (if int (length data) < gz_minSize z then Inr (data, False)
      else (case gz_write lib (gz_level z) data of Inl e \<Rightarrow> Inl e | Inr buf \<Rightarrow> Inr (buf, True)))"

text \<open>\<^verbatim>\<open>io.ReadAll(io.LimitReader(r, n))\<close>: at most \<open>n\<close> bytes; an error after them is not seen.\<close>

definition read_limited :: "nat \<Rightarrow> bytes \<times> err \<Rightarrow> bytes \<times> err" where
  "read_limited n r = (if n \<le> length (fst r) then (take n (fst r), None) else r)"

definition Gzip_Decode :: "gzip_lib \<Rightarrow> Gzip \<Rightarrow> bytes \<Rightarrow> bytes result" where
  "Gzip_Decode lib z data =
     (case gz_open lib data of
        Some e \<Rightarrow> Inl e
      | None \<Rightarrow>
          (let (decoded, e) = (if gz_maxDecodedSize z > 0
                               then read_limited (nat (gz_maxDecodedSize z) + 1) (gz_read lib data)
                               else gz_read lib data)
           in case e of
                Some e \<Rightarrow> Inl e
              | None \<Rightarrow>
                  if gz_maxDecodedSize z > 0 \<and> int (length decoded) > gz_maxDecodedSize z
                  then Inl ErrDecodedTooLarge
                  else Inr decoded))"

definition Gzip_Transform :: "gzip_lib \<Rightarrow> Gzip \<Rightarrow> Transform" where
  "Gzip_Transform lib z = \<lparr>tr_Flag = FlagCompressed, tr_Encode = Gzip_Encode lib z, tr_Decode = Gzip_Decode lib z\<rparr>"

subsection \<open>Flags\<close>

definition disjoint_flags :: "byte \<Rightarrow> byte \<Rightarrow> bool" where
  "disjoint_flags a b \<longleftrightarrow> a AND b = 0"

definition flags_of :: "Transform list \<Rightarrow> byte" where
  "flags_of ts = foldr (\<lambda>t acc. tr_Flag t OR acc) ts 0"

lemma flags_of_simps [simp]: "flags_of [] = 0" "flags_of (t # ts) = tr_Flag t OR flags_of ts"
  by (simp_all add: flags_of_def)

lemma and_or_zero: "a AND (b OR c) = 0 \<longleftrightarrow> a AND b = 0 \<and> a AND (c :: byte) = 0"
  by (simp add: and.commute [of a] bit.conj_disj_distrib bit.conj_disj_distrib2 or_eq_0_iff)

text \<open>What \<^verbatim>\<open>New\<close> guarantees of the list it accepts: every flag is one bit, no two share it.\<close>

fun flags_wf :: "Transform list \<Rightarrow> bool" where
  "flags_wf [] \<longleftrightarrow> True"
| "flags_wf (t # ts) \<longleftrightarrow> tr_Flag t \<noteq> 0 \<and> tr_Flag t AND flags_of ts = 0 \<and> flags_wf ts"

lemma flags_of_member: "a AND flags_of ts = 0 \<Longrightarrow> t \<in> set ts \<Longrightarrow> a AND tr_Flag t = 0"
  by (induction ts) (auto simp: and_or_zero)

lemma New_loop_accepts:
  assumes "New_loop xs known = Inr k"
  shows "\<exists>ts. xs = map Some ts \<and> flags_wf ts \<and> known AND flags_of ts = 0 \<and> k = known OR flags_of ts"
  using assms
proof (induction xs known arbitrary: k rule: New_loop.induct)
  case (3 t ts known)
  then have one: "OnesCount8 (tr_Flag t) = 1" and fresh: "known AND tr_Flag t = 0"
    and rest: "New_loop ts (known OR tr_Flag t) = Inr k" by (auto split: if_splits)
  from "3.IH" [OF _ _ rest] one fresh obtain us where
    us: "ts = map Some us" "flags_wf us" "(known OR tr_Flag t) AND flags_of us = 0"
      "k = (known OR tr_Flag t) OR flags_of us" by auto
  have "tr_Flag t \<noteq> 0" using one by (auto simp: OnesCount8_def)
  with us fresh show ?case
    by (intro exI [of _ "t # us"]) (auto simp: and_or_zero and.commute or.assoc bit.conj_disj_distrib2 or_eq_0_iff)
qed auto

lemma Encode_loop_flags:
  "Encode_loop ts d fl = rbind (Encode_loop ts d 0) (\<lambda>(e, f). Inr (e, fl OR f))"
proof (induction ts arbitrary: d fl)
  case (Cons t ts)
  show ?case
  proof (cases "tr_Encode t d")
    case (Inr r)
    then obtain y ap where r: "tr_Encode t d = Inr (y, ap)" by (cases r) auto
    show ?thesis
      using Cons [of y "if ap then fl OR tr_Flag t else fl"] Cons [of y "if ap then tr_Flag t else 0"]
      by (cases "Encode_loop ts y 0") (auto simp: r or.assoc)
  qed simp
qed simp

lemma Decode_loop_append:
  "Decode_loop (xs @ ys) d fl = rbind (Decode_loop xs d fl) (\<lambda>d'. Decode_loop ys d' fl)"
  by (induction xs arbitrary: d) (auto split: sum.splits)

lemma Decode_loop_cong:
  "\<forall>t \<in> set ts. (fl AND tr_Flag t = 0) = (fl' AND tr_Flag t = 0) \<Longrightarrow> Decode_loop ts d fl = Decode_loop ts d fl'"
  by (induction ts arbitrary: d) (auto split: sum.splits)

text \<open>What a transform promises: an applied encoding is undone, an encoding that was not applied is the input.\<close>

definition transform_ok :: "Transform \<Rightarrow> bytes \<Rightarrow> bool" where
  "transform_ok t x \<longleftrightarrow> (\<forall>y ap. tr_Encode t x = Inr (y, ap) \<longrightarrow> (if ap then tr_Decode t y = Inr x else y = x))"

lemma Encode_Decode_loop:
  assumes "flags_wf ts" and "\<forall>t \<in> set ts. \<forall>x. transform_ok t x" and "Encode_loop ts d 0 = Inr (e, fl)"
  shows "Decode_loop (rev ts) e fl = Inr d \<and> (\<forall>a. a AND flags_of ts = 0 \<longrightarrow> a AND fl = 0)"
  using assms
proof (induction ts arbitrary: d e fl)
  case (Cons t ts)
  from Cons.prems(3) obtain y ap where y: "tr_Encode t d = Inr (y, ap)"
    by (auto split: sum.splits)
  with Cons.prems(3) obtain fl1 where
    rest: "Encode_loop ts y 0 = Inr (e, fl1)" and fl: "fl = (if ap then tr_Flag t else 0) OR fl1"
    by (auto simp: Encode_loop_flags [of ts y "tr_Flag t"] rbind_eq_Inr split: if_splits)
  from Cons.IH [OF _ _ rest] Cons.prems have
    dec: "Decode_loop (rev ts) e fl1 = Inr y" and sub: "\<forall>a. a AND flags_of ts = 0 \<longrightarrow> a AND fl1 = 0" by auto
  have t_disj: "tr_Flag t AND flags_of ts = 0" and t_nz: "tr_Flag t \<noteq> 0" using Cons.prems(1) by auto
  then have fl1_t: "fl1 AND tr_Flag t = 0" using sub t_disj by (metis and.commute)
  have "Decode_loop (rev ts) e fl = Decode_loop (rev ts) e fl1"
    by (rule Decode_loop_cong)
      (auto simp: fl bit.conj_disj_distrib2 or_eq_0_iff flags_of_member [OF t_disj])
  moreover have "fl AND tr_Flag t = 0 \<longleftrightarrow> \<not> ap"
    using fl1_t t_nz by (auto simp: fl bit.conj_disj_distrib2)
  moreover have "if ap then tr_Decode t y = Inr d else y = d"
    using Cons.prems(2) y by (auto simp: transform_ok_def)
  ultimately have "Decode_loop (rev (t # ts)) e fl = Inr d"
    using dec by (auto simp: Decode_loop_append)
  moreover have "a AND fl = 0" if "a AND flags_of (t # ts) = 0" for a
    using that sub by (auto simp: fl and_or_zero)
  ultimately show ?case by blast
qed simp

lemma Pipeline_decodes:
  assumes new: "Pipeline_New ts = Inr p"
    and ok: "\<forall>t \<in> set (transforms p). \<forall>x. transform_ok t x"
    and enc: "Pipeline_Encode p data = Inr (encoded, flags)"
  shows "Pipeline_Decode p encoded flags = Inr data"
proof -
  from new obtain known where known: "New_loop ts 0 = Inr known"
    and p: "p = \<lparr>transforms = List.map_filter (\<lambda>t. t) ts, knownFlags = known\<rparr>"
    by (auto simp: Pipeline_New_def rbind_eq_Inr)
  from New_loop_accepts [OF known] obtain us where
    us: "ts = map Some us" "flags_wf us" "known = flags_of us" by auto
  have tr: "transforms p = us" by (simp add: p us(1) map_filter_def comp_def)
  from Encode_Decode_loop [OF us(2), of data encoded flags] ok enc tr have
    dec: "Decode_loop (rev us) encoded flags = Inr data"
    and sub: "\<forall>a. a AND flags_of us = 0 \<longrightarrow> a AND flags = 0" by (auto simp: Pipeline_Encode_def)
  have "flags AND NOT (knownFlags p) = 0"
    using sub us(3) p by (metis Pipeline.select_convs(2) and.commute bit.conj_cancel_right)
  with dec tr show ?thesis by (simp add: Pipeline_Decode_def)
qed

subsection \<open>Properties of the pipeline\<close>


text \<open>A transform for the examples: it flips every byte and marks the frame.\<close>

definition not_transform :: "byte \<Rightarrow> Transform" where
  "not_transform f = \<lparr>tr_Flag = f, tr_Encode = (\<lambda>d. Inr (map NOT d, d \<noteq> [])), tr_Decode = (\<lambda>d. Inr (map NOT d))\<rparr>"


text \<open>
  The gzip transform gives back the original body, or refuses with
  \<^verbatim>\<open>ErrDecodedTooLarge\<close> when the body is larger than the configured maximum; a body below the
  minimum size is not compressed. The hypothesis is that a gzip reader returns what was written.
\<close>

theorem gzip_roundtrip:
  assumes lib: "\<And>l d c. gz_write lib l d = Inr c \<Longrightarrow> gz_open lib c = None \<and> gz_read lib c = (d, None)"
    and enc: "Gzip_Encode lib z data = Inr (encoded, applied)"
  shows "applied = (gz_minSize z \<le> int (length data))
    \<and> (\<not> applied \<longrightarrow> encoded = data)
    \<and> (applied \<longrightarrow> Gzip_Decode lib z encoded =
         (if 0 < gz_maxDecodedSize z \<and> gz_maxDecodedSize z < int (length data)
          then Inl ErrDecodedTooLarge else Inr data))"
proof (cases "int (length data) < gz_minSize z")
  case True
  then show ?thesis using enc by (auto simp: Gzip_Encode_def)
next
  case False
  with enc have ap: "applied" and "gz_write lib (gz_level z) data = Inr encoded"
    by (auto simp: Gzip_Encode_def split: sum.splits)
  then have "gz_open lib encoded = None" "gz_read lib encoded = (data, None)" using lib by blast+
  with ap False show ?thesis
    by (auto simp: Gzip_Decode_def read_limited_def Let_def)
qed

text \<open>A stand-in for the format that stores the data behind a magic byte.\<close>

definition stored_gzip :: gzip_lib where
  "stored_gzip = \<lparr>gz_write = (\<lambda>_ d. Inr (0x1F # d)), gz_open = (\<lambda>c. if c = [] then Some (Plain ''EOF'') else None),
     gz_read = (\<lambda>c. (tl c, None))\<rparr>"

theorem gzip_roundtrip_witness:
  "Gzip_Decode stored_gzip \<lparr>gz_level = -1, gz_minSize = 0, gz_maxDecodedSize = 1\<rparr> [0x1F, 5, 6]
     = Inl ErrDecodedTooLarge"
  using gzip_roundtrip [of stored_gzip "\<lparr>gz_level = -1, gz_minSize = 0, gz_maxDecodedSize = 1\<rparr>" "[5, 6]" "[0x1F, 5, 6]" True]
  by (simp add: stored_gzip_def Gzip_Encode_def)

end
