(* ===== verification/Crc32.thy ===== *)
theory Crc32
  imports Prelude
begin

text \<open>
  \<^verbatim>\<open>hash/crc32.ChecksumIEEE\<close>, which \<^verbatim>\<open>network/protocol/codec.go\<close> uses to protect the body of
  a frame: the reflected CRC-32 with polynomial \<^verbatim>\<open>0xEDB88320\<close>, computed bit by bit. The lemmas
  show that one step of the register is injective, so a difference between two registers never
  goes away, and conclude that the checksum tells apart any two bodies that differ in one byte.
\<close>

definition crc_poly :: "32 word" where
  "crc_poly = 0xEDB88320"

definition crc_step :: "32 word \<Rightarrow> 32 word" where
  "crc_step x = (if x AND 1 = 1 then drop_bit 1 x XOR crc_poly else drop_bit 1 x)"

definition crc_byte :: "32 word \<Rightarrow> byte \<Rightarrow> 32 word" where
  "crc_byte s b = (crc_step ^^ 8) (s XOR ucast b)"

definition ChecksumIEEE :: "bytes \<Rightarrow> 32 word" where
  "ChecksumIEEE bs = foldl crc_byte 0xFFFFFFFF bs XOR 0xFFFFFFFF"

text \<open>Rules for evaluating a checksum by rewriting.\<close>

lemma crc_byte_unfold:
  "crc_byte s b =
     crc_step (crc_step (crc_step (crc_step (crc_step (crc_step (crc_step (crc_step (s XOR ucast b))))))))"
  by (simp add: crc_byte_def numeral_eq_Suc)

lemmas crc_eval = ChecksumIEEE_def crc_byte_unfold crc_step_def crc_poly_def

text \<open>The check value of the CRC-32/ISO-HDLC catalogue entry.\<close>

lemma ChecksumIEEE_check_value:
  "ChecksumIEEE [0x31, 0x32, 0x33, 0x34, 0x35, 0x36, 0x37, 0x38, 0x39] = 0xCBF43926"
  by (simp add: crc_eval)

lemma and_1_iff_bit: "x AND 1 = 1 \<longleftrightarrow> bit (x :: 32 word) 0"
  by (auto simp: and_one_eq bit_0 odd_iff_mod_2_eq_one)

lemma bit_31_crc_step: "bit (crc_step x) 31 \<longleftrightarrow> bit x 0"
proof -
  have "\<not> bit (drop_bit 1 x) 31"
    by (auto simp: bit_simps dest: bit_imp_le_length)
  moreover have "bit crc_poly 31"
    by (simp add: crc_poly_def bit_numeral_rec numeral_eq_Suc)
  ultimately show ?thesis by (auto simp: crc_step_def and_1_iff_bit bit_xor_iff)
qed

lemma xor_right_cancel: "a XOR c = b XOR c \<longleftrightarrow> a = (b :: 'a::len word)"
  by (metis xor.assoc xor_self_eq xor.right_neutral)

lemma inj_crc_step: "inj crc_step"
proof (rule injI)
  fix x y assume eq: "crc_step x = crc_step y"
  then have parity: "bit x 0 \<longleftrightarrow> bit y 0"
    by (metis bit_31_crc_step)
  have high: "drop_bit 1 x = drop_bit 1 y"
    using eq parity by (auto simp: crc_step_def xor_right_cancel and_1_iff_bit split: if_splits)
  show "x = y"
  proof (rule bit_word_eqI)
    fix n
    show "bit x n = bit y n"
    proof (cases n)
      case 0
      then show ?thesis using parity by simp
    next
      case (Suc m)
      have "bit (drop_bit 1 x) m = bit (drop_bit 1 y) m" using high by simp
      then show ?thesis using Suc by (simp add: bit_drop_bit_eq)
    qed
  qed
qed

lemma inj_crc_shift: "inj (crc_step ^^ n)"
proof (induction n)
  case (Suc n)
  then show ?case unfolding funpow.simps by (rule inj_compose [OF inj_crc_step])
qed simp

lemma crc_byte_inj_state: "crc_byte s b = crc_byte t b \<longleftrightarrow> s = t"
  unfolding crc_byte_def by (simp add: inj_eq [OF inj_crc_shift] xor_right_cancel)

lemma ucast_32_inj:
  assumes "(ucast b :: 32 word) = ucast (c :: byte)"
  shows "b = c"
proof -
  have "ucast (ucast x :: 32 word) = x" for x :: byte
    by (rule bit_word_eqI) (auto simp: bit_simps)
  with assms show ?thesis by metis
qed

lemma crc_byte_inj_byte: "crc_byte s b = crc_byte s c \<longleftrightarrow> b = c"
proof
  assume "crc_byte s b = crc_byte s c"
  then have "s XOR ucast b = s XOR ucast c"
    unfolding crc_byte_def by (rule injD [OF inj_crc_shift])
  then have "(ucast b :: 32 word) = ucast c"
    by (simp add: xor.commute [of s] xor_right_cancel)
  then show "b = c" by (rule ucast_32_inj)
qed simp

lemma crc_register_inj: "foldl crc_byte s bs = foldl crc_byte t bs \<longleftrightarrow> s = t"
  by (induction bs arbitrary: s t) (simp_all add: crc_byte_inj_state)

lemma ChecksumIEEE_one_byte:
  assumes "b \<noteq> c"
  shows "ChecksumIEEE (xs @ b # ys) \<noteq> ChecksumIEEE (xs @ c # ys)"
proof
  assume "ChecksumIEEE (xs @ b # ys) = ChecksumIEEE (xs @ c # ys)"
  then have "foldl crc_byte 0xFFFFFFFF (xs @ b # ys) = foldl crc_byte 0xFFFFFFFF (xs @ c # ys)"
    by (simp add: ChecksumIEEE_def xor_right_cancel)
  with assms show False
    by (simp add: crc_register_inj crc_byte_inj_byte)
qed

end
