(* ===== verification/Frame.thy ===== *)
theory Frame
  imports GoErrors Crc32
begin

text \<open>
  \<^verbatim>\<open>network/protocol\<close>: the unified message frame (17 byte header and body), its encoder and
  decoder with a limit on the whole frame, the internal command, and the UDP header. A Go
  \<^verbatim>\<open>(frame, consumed, err)\<close> result is a triple with \<open>None\<close> for a nil frame or a nil error. The
  lengths of slices are natural numbers; the length field of the header is 32 bits wide.
\<close>

subsection \<open>message.go\<close>

record MessageFrame =
  Cmd :: byte
  Act :: byte
  Flags :: byte
  Error :: "16 word"
  Index :: "32 word"
  frame_crc :: "32 word"
  Body :: bytes

definition NewMessageFrame :: "byte \<Rightarrow> byte \<Rightarrow> byte \<Rightarrow> bytes \<Rightarrow> MessageFrame" where
  "NewMessageFrame cmd act flags body =
     \<lparr>Cmd = cmd, Act = act, Flags = flags, Error = 0, Index = 0, frame_crc = 0, Body = body\<rparr>"

definition MessageFrame_Clone :: "MessageFrame \<Rightarrow> MessageFrame" where
  "MessageFrame_Clone m = m\<lparr>Body := Body m\<rparr>"

definition CmdAct :: "byte \<Rightarrow> byte \<Rightarrow> 16 word" where
  "CmdAct cmd act = push_bit 8 (ucast cmd) OR ucast act"

definition MessageFrame_ID :: "MessageFrame \<Rightarrow> 16 word" where
  "MessageFrame_ID m = CmdAct (Cmd m) (Act m)"

subsection \<open>internal.go\<close>

definition InternalCmd :: byte where "InternalCmd = 0"
definition InternalKeyExchange :: byte where "InternalKeyExchange = 1"
definition InternalActClose :: byte where "InternalActClose = 2"

lemmas internal_defs = InternalCmd_def InternalKeyExchange_def InternalActClose_def

definition ErrReservedCommand :: go_error where
  "ErrReservedCommand = Plain ''protocol: command is reserved for network internals''"
definition ErrUnknownInternalAct :: go_error where
  "ErrUnknownInternalAct = Plain ''protocol: unknown internal action''"

definition IsInternalCommand :: "byte \<Rightarrow> bool" where
  "IsInternalCommand cmd \<longleftrightarrow> cmd = InternalCmd"

definition ValidateBusinessCommand :: "byte \<Rightarrow> byte \<Rightarrow> err" where
  "ValidateBusinessCommand cmd act = (if IsInternalCommand cmd then Some ErrReservedCommand else None)"

definition ValidateInternalAction :: "byte \<Rightarrow> err" where
  "ValidateInternalAction act =
     (if act = InternalKeyExchange \<or> act = InternalActClose then None else Some ErrUnknownInternalAct)"

subsection \<open>codec.go\<close>

definition UnifiedFrameHeaderLen :: nat where "UnifiedFrameHeaderLen = 17"
definition MaxInt32 :: nat where "MaxInt32 = 2147483647"

definition ErrFrameTooLarge :: go_error where
  "ErrFrameTooLarge = Plain ''protocol: frame exceeds configured limit''"

text \<open>The error of the checksum test carries both sums.\<close>

definition ErrInvalidCrc :: "32 word \<Rightarrow> 32 word \<Rightarrow> go_error" where
  "ErrInvalidCrc headCrc bodyCrc =
     Plain (''invalid crc  headCrc:'' @ show_nat (unat headCrc) @ '' bodyCrc:'' @ show_nat (unat bodyCrc))"

definition FrameSize :: "nat \<Rightarrow> nat" where
  "FrameSize bodyLen = UnifiedFrameHeaderLen + bodyLen"

text \<open>The check of the command and the action that the encoder and the decoder share.\<close>

definition validate_command :: "byte \<Rightarrow> byte \<Rightarrow> err" where
  "validate_command cmd act =
     (if IsInternalCommand cmd then ValidateInternalAction act else ValidateBusinessCommand cmd act)"

definition EncodeMessageFrameWithLimit :: "MessageFrame \<Rightarrow> int \<Rightarrow> bytes result" where
  "EncodeMessageFrameWithLimit frame maxFrameSize =
     (case validate_command (Cmd frame) (Act frame) of
        Some e \<Rightarrow> Inl e
      | None \<Rightarrow>
          (let frameSize = FrameSize (length (Body frame)) in
           if frameSize > MaxInt32 then Inl ErrFrameTooLarge
           else if maxFrameSize > 0 \<and> int frameSize > maxFrameSize then Inl ErrFrameTooLarge
           else
             (let crc = ChecksumIEEE (Body frame) in
              Inr (be_put 4 (of_nat (length (Body frame)) :: 32 word)
                @ [Cmd frame, Act frame, Flags frame]
                @ be_put 2 (Error frame)
                @ be_put 4 (Index frame)
                @ be_put 4 crc
                @ Body frame))))"

definition EncodeMessageFrame :: "MessageFrame \<Rightarrow> bytes result" where
  "EncodeMessageFrame frame = EncodeMessageFrameWithLimit frame 0"

definition DecodeMessageFrameWithLimit :: "bytes \<Rightarrow> int \<Rightarrow> MessageFrame option \<times> nat \<times> err" where
  "DecodeMessageFrameWithLimit data maxFrameSize =
     (if length data < UnifiedFrameHeaderLen then (None, 0, None)
      else
        (let rawLength = (be_get (slice 0 4 data) :: 32 word) in
         if rawLength > of_nat (MaxInt32 - UnifiedFrameHeaderLen)
         then (None, UnifiedFrameHeaderLen, Some ErrFrameTooLarge)
         else
           (let payloadLength = unat rawLength; frameSize = FrameSize payloadLength in
            if maxFrameSize > 0 \<and> int frameSize > maxFrameSize
            then (None, UnifiedFrameHeaderLen, Some ErrFrameTooLarge)
            else
              (let total = frameSize in
               if total > length data then (None, 0, None)
               else
                 (let frame = \<lparr>Cmd = data ! 4, Act = data ! 5, Flags = data ! 6,
                                Error = be_get (slice 7 9 data),
                                Index = be_get (slice 9 13 data),
                                frame_crc = be_get (slice 13 17 data),
                                Body = slice UnifiedFrameHeaderLen total data\<rparr>;
                      bodyCrc = ChecksumIEEE (Body frame) in
                  if bodyCrc \<noteq> frame_crc frame
                  then (None, total, Some (ErrInvalidCrc (frame_crc frame) bodyCrc))
                  else
                    (case validate_command (Cmd frame) (Act frame) of
                       Some e \<Rightarrow> (None, total, Some e)
                     | None \<Rightarrow> (Some frame, total, None)))))))"

definition DecodeMessageFrame :: "bytes \<Rightarrow> MessageFrame option \<times> nat \<times> err" where
  "DecodeMessageFrame data = DecodeMessageFrameWithLimit data 0"

subsection \<open>udp\_header.go\<close>

definition UDPHeaderLen :: nat where "UDPHeaderLen = 16"

definition ErrInvalidUDPHeader :: go_error where
  "ErrInvalidUDPHeader = Plain ''invalid UDP header''"

record UDPHeader =
  SessionID :: "64 word"
  Sequence :: "64 word"

definition EncodeUDPHeader :: "UDPHeader \<Rightarrow> bytes result" where
  "EncodeUDPHeader header =
     (if SessionID header = 0 then Inl ErrInvalidUDPHeader
      else Inr (be_put 8 (SessionID header) @ be_put 8 (Sequence header)))"

definition DecodeUDPHeader :: "bytes \<Rightarrow> UDPHeader result" where
  "DecodeUDPHeader data =
     (if length data < UDPHeaderLen then Inl ErrInvalidUDPHeader
      else
        (let header = \<lparr>SessionID = be_get (slice 0 8 data), Sequence = be_get (slice 8 UDPHeaderLen data)\<rparr> in
         if SessionID header = 0 then Inl ErrInvalidUDPHeader else Inr header))"

subsection \<open>The header as a whole\<close>

text \<open>The seventeen bytes the encoder writes in front of the body, for a given checksum.\<close>

definition frame_header :: "MessageFrame \<Rightarrow> 32 word \<Rightarrow> bytes" where
  "frame_header f crc = be_put 4 (of_nat (length (Body f)) :: 32 word) @ [Cmd f, Act f, Flags f]
     @ be_put 2 (Error f) @ be_put 4 (Index f) @ be_put 4 crc"

lemma length_frame_header [simp]: "length (frame_header f crc) = 17"
  by (simp add: frame_header_def)

lemmas frame_len_defs = UnifiedFrameHeaderLen_def MaxInt32_def FrameSize_def

text \<open>What the encoder accepts, and what it then writes.\<close>

definition encodable :: "MessageFrame \<Rightarrow> int \<Rightarrow> bool" where
  "encodable f lim \<longleftrightarrow> validate_command (Cmd f) (Act f) = None
     \<and> FrameSize (length (Body f)) \<le> MaxInt32
     \<and> (lim > 0 \<longrightarrow> int (FrameSize (length (Body f))) \<le> lim)"

lemma Encode_iff:
  "EncodeMessageFrameWithLimit f lim = Inr bs \<longleftrightarrow>
     encodable f lim \<and> bs = frame_header f (ChecksumIEEE (Body f)) @ Body f"
  by (auto simp: EncodeMessageFrameWithLimit_def encodable_def frame_header_def Let_def split: option.splits)

lemma length_encoded:
  "EncodeMessageFrameWithLimit f lim = Inr bs \<Longrightarrow> length bs = FrameSize (length (Body f))"
  by (auto simp: Encode_iff frame_len_defs)

lemma header_fields:
  fixes f :: MessageFrame and crc :: "32 word"
  defines "h \<equiv> frame_header f crc"
  shows "slice 0 4 (h @ xs) = be_put 4 (of_nat (length (Body f)) :: 32 word)"
    and "(h @ xs) ! 4 = Cmd f" and "(h @ xs) ! 5 = Act f" and "(h @ xs) ! 6 = Flags f"
    and "slice 7 9 (h @ xs) = be_put 2 (Error f)"
    and "slice 9 13 (h @ xs) = be_put 4 (Index f)"
    and "slice 13 17 (h @ xs) = be_put 4 crc"
  by (simp_all add: h_def frame_header_def slice_def nth_append)

lemma unat_length_field: "n \<le> 2147483630 \<Longrightarrow> unat (of_nat n :: 32 word) = n"
  by (simp add: unat_of_nat)

text \<open>
  The decoder on bytes that start with a header and a body of the announced length: every
  later fact about encoded frames is an instance.
\<close>

lemma Decode_header:
  assumes size: "FrameSize (length (Body f)) \<le> MaxInt32"
    and lim: "lim > 0 \<longrightarrow> int (FrameSize (length (Body f))) \<le> lim"
    and body: "length body = length (Body f)"
  shows "DecodeMessageFrameWithLimit (frame_header f crc @ body @ rest) lim =
    (if ChecksumIEEE body \<noteq> crc
     then (None, FrameSize (length body), Some (ErrInvalidCrc crc (ChecksumIEEE body)))
     else (case validate_command (Cmd f) (Act f) of
             Some e \<Rightarrow> (None, FrameSize (length body), Some e)
           | None \<Rightarrow> (Some (f\<lparr>frame_crc := crc, Body := body\<rparr>), FrameSize (length body), None)))"
proof -
  let ?d = "frame_header f crc @ body @ rest"
  let ?n = "length (Body f)"
  have n: "?n \<le> 2147483630" using size by (simp add: frame_len_defs)
  have raw: "(be_get (slice 0 4 ?d) :: 32 word) = of_nat ?n"
    by (simp add: header_fields be_get_put)
  have small: "\<not> (of_nat ?n :: 32 word) > of_nat (MaxInt32 - UnifiedFrameHeaderLen)"
    using n by (simp add: frame_len_defs word_less_nat_alt unat_length_field)
  have body': "slice 17 (17 + ?n) ?d = body"
    using body by (simp add: slice_append_right slice_0_take)
  show ?thesis
    unfolding DecodeMessageFrameWithLimit_def Let_def raw unat_length_field [OF n]
    using small lim n body
    by (auto simp: frame_len_defs header_fields be_get_put body' split: option.splits)
qed

lemma Decode_short: "length data < 17 \<Longrightarrow> DecodeMessageFrameWithLimit data lim = (None, 0, None)"
  by (simp add: DecodeMessageFrameWithLimit_def frame_len_defs)

text \<open>A header whose body is not complete yet.\<close>

lemma Decode_partial:
  assumes "FrameSize (length (Body f)) \<le> MaxInt32"
    and "lim > 0 \<longrightarrow> int (FrameSize (length (Body f))) \<le> lim"
    and "length part < length (Body f)"
  shows "DecodeMessageFrameWithLimit (frame_header f crc @ part) lim = (None, 0, None)"
proof -
  have n: "length (Body f) \<le> 2147483630" using assms(1) by (simp add: frame_len_defs)
  have raw: "(be_get (slice 0 4 (frame_header f crc @ part)) :: 32 word) = of_nat (length (Body f))"
    by (simp add: header_fields be_get_put)
  show ?thesis
    unfolding DecodeMessageFrameWithLimit_def Let_def raw unat_length_field [OF n]
    using assms n by (auto simp: frame_len_defs word_less_nat_alt unat_length_field)
qed

text \<open>Every byte sequence of at least a header's length is a header followed by the rest.\<close>

lemma split_list_17:
  assumes "17 \<le> length data"
  shows "data = slice 0 4 data @ [data ! 4, data ! 5, data ! 6] @ slice 7 9 data @ slice 9 13 data
    @ slice 13 17 data @ drop 17 data"
proof -
  have "[data ! 4, data ! 5, data ! 6] = slice 4 7 data"
    using assms by (intro nth_equalityI) (auto simp: nth_slice less_Suc_eq numeral_eq_Suc)
  moreover have "slice 0 4 data @ slice 4 7 data @ slice 7 9 data @ slice 9 13 data @ slice 13 17 data = take 17 data"
    by (simp add: slice_slice_append slice_0_take [symmetric])
  ultimately show ?thesis by (metis append.assoc append_take_drop_id)
qed

lemma Decode_Some:
  assumes dec: "DecodeMessageFrameWithLimit data lim = (Some f, n, e)"
  shows "e = None" and "n = FrameSize (length (Body f))" and "n \<le> length data"
    and "encodable f lim" and "frame_crc f = ChecksumIEEE (Body f)"
    and "take n data = frame_header f (frame_crc f) @ Body f"
proof -
  let ?raw = "be_get (slice 0 4 data) :: 32 word"
  have parts: "\<not> length data < 17" "\<not> ?raw > 2147483630" "lim > 0 \<longrightarrow> int (17 + unat ?raw) \<le> lim"
    "17 + unat ?raw \<le> length data" "validate_command (Cmd f) (Act f) = None"
    and f: "f = \<lparr>Cmd = data ! 4, Act = data ! 5, Flags = data ! 6, Error = be_get (slice 7 9 data),
        Index = be_get (slice 9 13 data), frame_crc = be_get (slice 13 17 data),
        Body = slice 17 (17 + unat ?raw) data\<rparr>"
    and n: "n = 17 + unat ?raw" "e = None" "frame_crc f = ChecksumIEEE (Body f)"
    using dec unfolding DecodeMessageFrameWithLimit_def Let_def frame_len_defs
    by (simp_all split: if_splits option.splits) auto
  have len: "length (Body f) = unat ?raw" using parts f by simp
  show "e = None" "frame_crc f = ChecksumIEEE (Body f)" by fact+
  show "n = FrameSize (length (Body f))" "n \<le> length data"
    using n len parts by (simp_all add: frame_len_defs)
  show "encodable f lim"
    using parts len by (auto simp: encodable_def frame_len_defs word_less_nat_alt not_less)
  have "frame_header f (frame_crc f) = take 17 data"
  proof -
    have "frame_header f (frame_crc f) = slice 0 4 data @ [data ! 4, data ! 5, data ! 6] @ slice 7 9 data
        @ slice 9 13 data @ slice 13 17 data"
      using parts len f by (simp add: frame_header_def be_put_get)
    moreover have "take 17 data = take 17 (slice 0 4 data @ [data ! 4, data ! 5, data ! 6] @ slice 7 9 data
        @ slice 9 13 data @ slice 13 17 data @ drop 17 data)"
      using split_list_17 [of data] parts(1) by simp
    ultimately show ?thesis using parts(1) by simp
  qed
  then show "take n data = frame_header f (frame_crc f) @ Body f"
    using n f by (simp add: slice_def take_add)
qed

text \<open>The decoder on an encoded frame; the limits of both sides need not be the same.\<close>

lemma Decode_encoded_limit:
  assumes "EncodeMessageFrameWithLimit f lim = Inr bs" and "lim' > 0 \<longrightarrow> int (length bs) \<le> lim'"
  shows "DecodeMessageFrameWithLimit (bs @ rest) lim' =
    (Some (f\<lparr>frame_crc := ChecksumIEEE (Body f)\<rparr>), length bs, None)"
proof -
  from assms(1) have enc: "encodable f lim" and bs: "bs = frame_header f (ChecksumIEEE (Body f)) @ Body f"
    by (simp_all add: Encode_iff)
  then show ?thesis
    using Decode_header [of f lim' "Body f" "ChecksumIEEE (Body f)" rest] assms(2)
    by (simp add: encodable_def frame_len_defs)
qed

lemma Decode_encoded:
  assumes enc: "EncodeMessageFrameWithLimit f lim = Inr bs"
  shows "DecodeMessageFrameWithLimit (bs @ rest) lim =
    (Some (f\<lparr>frame_crc := ChecksumIEEE (Body f)\<rparr>), length bs, None)"
  using Decode_encoded_limit [OF enc, of lim] enc by (auto simp: Encode_iff encodable_def frame_len_defs)

subsection \<open>Properties of the frame codec\<close>

text \<open>
  C11: Every frame the encoder accepts is read back from the front of any byte stream that
  starts with its encoding: same fields and body, exactly its own bytes consumed, no error.
  The only field that changes is the checksum, which the encoder computes.
\<close>

theorem frame_roundtrip:
  assumes "EncodeMessageFrameWithLimit f lim = Inr bs"
  shows "DecodeMessageFrameWithLimit (bs @ rest) lim =
    (Some (f\<lparr>frame_crc := ChecksumIEEE (Body f)\<rparr>), length bs, None)"
  using Decode_encoded [OF assms] .

text \<open>An example frame: command 1, action 2, sequence number 7, body 0x2A.\<close>

definition sample_frame :: MessageFrame where
  "sample_frame = (NewMessageFrame 1 2 0 [42])\<lparr>Index := 7\<rparr>"

lemma crc_sample: "ChecksumIEEE [42] = 0x09B9265B"
  by (simp add: crc_eval)

lemma encode_sample_frame:
  "EncodeMessageFrameWithLimit sample_frame 64 =
     Inr [0, 0, 0, 1, 1, 2, 0, 0, 0, 0, 0, 0, 7, 0x09, 0xB9, 0x26, 0x5B, 42]"
  by (simp add: EncodeMessageFrameWithLimit_def sample_frame_def NewMessageFrame_def validate_command_def
      ValidateBusinessCommand_def IsInternalCommand_def InternalCmd_def frame_len_defs crc_sample
      be_put_eval Let_def)

theorem frame_roundtrip_witness:
  "\<exists>bs. EncodeMessageFrameWithLimit sample_frame 64 = Inr bs \<and>
     DecodeMessageFrameWithLimit (bs @ [0xFF]) 64 =
       (Some (sample_frame\<lparr>frame_crc := ChecksumIEEE (Body sample_frame)\<rparr>), length bs, None)"
  using frame_roundtrip [OF encode_sample_frame] encode_sample_frame by blast

text \<open>
  A half packet never fails and is never consumed: on every proper prefix of an encoded
  frame the decoder asks for more data.
\<close>

theorem frame_half_packet:
  assumes "EncodeMessageFrameWithLimit f lim = Inr bs" and "n < length bs"
  shows "DecodeMessageFrameWithLimit (take n bs) lim = (None, 0, None)"
proof (cases "n < 17")
  case True
  then show ?thesis by (simp add: Decode_short)
next
  case False
  from assms(1) have enc: "encodable f lim" and bs: "bs = frame_header f (ChecksumIEEE (Body f)) @ Body f"
    by (simp_all add: Encode_iff)
  have "take n bs = frame_header f (ChecksumIEEE (Body f)) @ take (n - 17) (Body f)"
    using False by (simp add: bs)
  moreover have "length (take (n - 17) (Body f)) < length (Body f)"
    using assms(2) False by (simp add: bs)
  ultimately show ?thesis
    using enc Decode_partial [of f lim "take (n - 17) (Body f)"] by (simp add: encodable_def)
qed

theorem frame_half_packet_witness:
  "DecodeMessageFrameWithLimit (take 17 [0, 0, 0, 1, 1, 2, 0, 0, 0, 0, 0, 0, 7, 0x09, 0xB9, 0x26, 0x5B, 42]) 64
     = (None, 0, None)"
  by (rule frame_half_packet [OF encode_sample_frame]) simp

text \<open>
  C22: The decoder accepts nothing but encodings: a frame it returns is well formed, within the
  limit, and encoding it again gives exactly the bytes that were consumed.
\<close>

theorem frame_decode_canonical:
  assumes "DecodeMessageFrameWithLimit data lim = (Some f, n, e)"
  shows "e = None \<and> n \<le> length data \<and> (lim > 0 \<longrightarrow> int n \<le> lim)
    \<and> EncodeMessageFrameWithLimit f lim = Inr (take n data)"
  using Decode_Some [OF assms] by (auto simp: Encode_iff encodable_def)

theorem frame_decode_canonical_witness:
  "\<exists>f. DecodeMessageFrameWithLimit [0, 0, 0, 0, 9, 9, 0, 0, 0, 0, 0, 0, 0, 0, 0, 0, 0, 5] 32 = (Some f, 17, None)
     \<and> EncodeMessageFrameWithLimit f 32 = Inr [0, 0, 0, 0, 9, 9, 0, 0, 0, 0, 0, 0, 0, 0, 0, 0, 0]"
proof -
  let ?f = "NewMessageFrame 9 9 0 []"
  have "DecodeMessageFrameWithLimit [0, 0, 0, 0, 9, 9, 0, 0, 0, 0, 0, 0, 0, 0, 0, 0, 0, 5] 32 = (Some ?f, 17, None)"
    by (simp add: DecodeMessageFrameWithLimit_def frame_len_defs slice_def be_get_def ChecksumIEEE_def
        validate_command_def IsInternalCommand_def ValidateBusinessCommand_def InternalCmd_def
        NewMessageFrame_def)
  from this frame_decode_canonical [OF this] show ?thesis by auto
qed

text \<open>
  C23: Corruption of any single byte of the body is detected: the decoder rejects the frame with
  an error, whatever the byte is changed to and whatever follows on the stream.
\<close>

theorem frame_body_corruption_detected:
  assumes enc: "EncodeMessageFrameWithLimit f lim = Inr bs"
    and i: "17 \<le> i" "i < length bs" and b: "b \<noteq> bs ! i"
  shows "\<exists>e. DecodeMessageFrameWithLimit (bs[i := b] @ rest) lim = (None, length bs, Some e)"
proof -
  let ?crc = "ChecksumIEEE (Body f)" and ?k = "i - 17"
  from enc have ok: "encodable f lim" and bs: "bs = frame_header f ?crc @ Body f"
    by (simp_all add: Encode_iff)
  have k: "?k < length (Body f)" and nth: "bs ! i = Body f ! ?k"
    using i by (auto simp: bs nth_append)
  have upd: "bs[i := b] = frame_header f ?crc @ (Body f)[?k := b]"
    using i by (simp add: bs list_update_append)
  have "Body f = take ?k (Body f) @ Body f ! ?k # drop (Suc ?k) (Body f)"
    using k by (simp add: id_take_nth_drop)
  then have "ChecksumIEEE ((Body f)[?k := b]) \<noteq> ?crc"
    using ChecksumIEEE_one_byte [of b "Body f ! ?k" "take ?k (Body f)" "drop (Suc ?k) (Body f)"] b nth k
    by (metis upd_conv_take_nth_drop)
  then show ?thesis
    using ok Decode_header [of f lim "(Body f)[?k := b]" ?crc rest]
    by (simp add: upd encodable_def length_encoded [OF enc])
qed

theorem frame_body_corruption_detected_witness:
  "\<exists>e. DecodeMessageFrameWithLimit
        ([0, 0, 0, 1, 1, 2, 0, 0, 0, 0, 0, 0, 7, 0x09, 0xB9, 0x26, 0x5B, 42][17 := 43] @ []) 64
     = (None, 18, Some e)"
  using frame_body_corruption_detected [OF encode_sample_frame, of 17 43 "[]"] by (simp add: numeral_eq_Suc)

text \<open>
  The UDP header survives encoding and decoding, whatever payload follows it; a zero session
  is refused on both sides.
\<close>

theorem udp_header_roundtrip:
  "(SessionID h \<noteq> 0 \<longrightarrow> (\<exists>bs. EncodeUDPHeader h = Inr bs \<and> length bs = UDPHeaderLen
       \<and> DecodeUDPHeader (bs @ payload) = Inr h))
   \<and> (SessionID h = 0 \<longrightarrow> EncodeUDPHeader h = Inl ErrInvalidUDPHeader
       \<and> DecodeUDPHeader (be_put 8 (SessionID h) @ be_put 8 (Sequence h) @ payload) = Inl ErrInvalidUDPHeader)"
  by (simp add: EncodeUDPHeader_def DecodeUDPHeader_def UDPHeaderLen_def slice_append_left slice_append_right
      slice_0_take be_get_put)

theorem udp_header_roundtrip_witness:
  "\<exists>bs. EncodeUDPHeader \<lparr>SessionID = 5, Sequence = 1\<rparr> = Inr bs
     \<and> DecodeUDPHeader (bs @ [1, 2]) = Inr \<lparr>SessionID = 5, Sequence = 1\<rparr>"
  using udp_header_roundtrip [of "\<lparr>SessionID = 5, Sequence = 1\<rparr>" "[1, 2]"] by auto

subsection \<open>Command and action as one identifier\<close>

lemma CmdAct_split: "ucast (drop_bit 8 (CmdAct cmd act)) = cmd" "ucast (CmdAct cmd act) = act"
  by (rule bit_word_eqI, auto simp: CmdAct_def bit_simps dest: bit_imp_le_length)+

lemma CmdAct_inj: "CmdAct c a = CmdAct c' a' \<longleftrightarrow> c = c' \<and> a = a'"
  by (metis CmdAct_split)

end
