(* ===== verification/Buffer.thy ===== *)
theory Buffer
  imports GoErrors
begin

text \<open>
  \<^verbatim>\<open>pkg/buffer/buffer.go\<close>: the growing byte buffer between the socket and the frame decoder.
  The record has the fields of the Go struct. The positions are natural numbers; the invariant
  \<open>Buffer_wf\<close> keeps them ordered, so no slice expression is out of range and no subtraction is
  negative. An operation whose Go code can fail to return (the doubling loop of \<^verbatim>\<open>ensureSpace\<close>
  never ends on a zero capacity; an index can be out of range and panic) has an optional result;
  the theorems show that it is \<open>Some\<close> for every buffer that the constructor and the operations
  can produce.
\<close>

definition defaultInitialCap :: nat where "defaultInitialCap = 4096"
definition capacityGrowthMul :: nat where "capacityGrowthMul = 2"
definition maxBufferCap :: nat where "maxBufferCap = 16 * 1024 * 1024"

lemmas buffer_const_defs = defaultInitialCap_def capacityGrowthMul_def maxBufferCap_def

definition ErrInsufficientData :: go_error where
  "ErrInsufficientData = Plain ''insufficient data''"
definition ErrInsufficientDataToSkip :: go_error where
  "ErrInsufficientDataToSkip = Plain ''insufficient data to skip''"
definition ErrBufferOverLimit :: go_error where
  "ErrBufferOverLimit = Plain ''buffer exceeds max capacity limit''"
definition io_EOF :: go_error where "io_EOF = Plain ''EOF''"

record Buffer =
  buf :: bytes
  buf_r :: nat
  buf_w :: nat
  buf_cap :: nat
  buf_maxCap :: nat
  buf_limit :: nat

text \<open>\<^verbatim>\<open>New(initialCap, maxCap...)\<close>: the optional second argument is the first of a list.\<close>

definition Buffer_New :: "int \<Rightarrow> int list \<Rightarrow> Buffer" where
  "Buffer_New initialCap maxCap =
     (let limitCap = (case maxCap of m # _ \<Rightarrow> if m > 0 then nat m else maxBufferCap | [] \<Rightarrow> maxBufferCap);
          initialCap1 = (if initialCap \<le> 0 then defaultInitialCap else nat initialCap);
          initialCap2 = (if initialCap1 > limitCap then limitCap else initialCap1)
      in \<lparr>buf = replicate initialCap2 0, buf_r = 0, buf_w = 0, buf_cap = initialCap2,
          buf_maxCap = limitCap, buf_limit = initialCap2\<rparr>)"

definition Buffer_Len :: "Buffer \<Rightarrow> nat" where
  "Buffer_Len b = buf_w b - buf_r b"

definition Buffer_Cap :: "Buffer \<Rightarrow> nat" where
  "Buffer_Cap b = buf_cap b"

definition Buffer_Available :: "Buffer \<Rightarrow> nat" where
  "Buffer_Available b = buf_cap b - buf_w b"

definition Buffer_Reset :: "Buffer \<Rightarrow> Buffer" where
  "Buffer_Reset b = b\<lparr>buf_r := 0, buf_w := 0\<rparr>"

definition Buffer_Bytes :: "Buffer \<Rightarrow> bytes" where
  "Buffer_Bytes b = slice (buf_r b) (buf_w b) (buf b)"

definition Buffer_Readable :: "Buffer \<Rightarrow> bytes" where
  "Buffer_Readable b = go_copy (replicate (Buffer_Len b) 0) (slice (buf_r b) (buf_w b) (buf b))"

definition Buffer_View :: "Buffer \<Rightarrow> bytes" where
  "Buffer_View b = slice (buf_r b) (buf_w b) (buf b)"

text \<open>The doubling loop of \<^verbatim>\<open>ensureSpace\<close>; it does not end when it starts at zero.\<close>

partial_function (option) grow_cap :: "nat \<Rightarrow> nat \<Rightarrow> nat \<Rightarrow> nat option" where
  "grow_cap newCap requiredCap maxCap =
     (if newCap < requiredCap \<and> newCap < maxCap
      then grow_cap (newCap * capacityGrowthMul) requiredCap maxCap
      else Some newCap)"

definition compact :: "Buffer \<Rightarrow> Buffer" where
  "compact b =
     (if buf_r b > 0
      then b\<lparr>buf := go_copy (buf b) (slice (buf_r b) (buf_w b) (buf b)),
             buf_w := buf_w b - buf_r b, buf_r := 0\<rparr>
      else b)"

definition Buffer_ensureSpace :: "Buffer \<Rightarrow> nat \<Rightarrow> (Buffer \<times> err) option" where
  "Buffer_ensureSpace b n =
     (if Buffer_Available b \<ge> n then Some (b, None)
      else
        (let b1 = compact b in
         if Buffer_Available b1 < n then
           (let requiredCap = buf_w b1 + n in
            if requiredCap > buf_maxCap b1 then Some (b1, Some ErrBufferOverLimit)
            else
              (case grow_cap (buf_cap b1) requiredCap (buf_maxCap b1) of
                 None \<Rightarrow> None
               | Some grown \<Rightarrow>
                   (let newCap1 = (if grown > buf_maxCap b1 then buf_maxCap b1 else grown);
                        newCap2 = (if newCap1 < requiredCap then requiredCap else newCap1);
                        newBuf = go_copy (replicate newCap2 0) (take (buf_w b1) (buf b1))
                    in Some (b1\<lparr>buf := newBuf, buf_cap := newCap2, buf_limit := newCap2\<rparr>, None))))
         else Some (b1, None)))"

definition Buffer_Write :: "Buffer \<Rightarrow> bytes \<Rightarrow> (Buffer \<times> nat \<times> err) option" where
  "Buffer_Write b data =
     (if data = [] then Some (b, 0, None)
      else
        (case Buffer_ensureSpace b (length data) of
           None \<Rightarrow> None
         | Some (b1, Some e) \<Rightarrow> Some (b1, 0, Some e)
         | Some (b1, None) \<Rightarrow>
             (let n = go_copied (drop (buf_w b1) (buf b1)) data in
              Some (b1\<lparr>buf := take (buf_w b1) (buf b1) @ go_copy (drop (buf_w b1) (buf b1)) data,
                       buf_w := buf_w b1 + n\<rparr>, n, None))))"

text \<open>
  \<^verbatim>\<open>WriteReader\<close>: an \<^verbatim>\<open>io.Reader\<close> is a state and a function that, given the length of the
  destination, returns the bytes it wrote there, its error and its next state.
\<close>

definition Buffer_reader_space :: "Buffer \<Rightarrow> (Buffer \<times> err) option" where
  "Buffer_reader_space b =
     (if Buffer_Available b = 0
      then Buffer_ensureSpace b (if buf_cap b > defaultInitialCap then buf_cap b else defaultInitialCap)
      else Some (b, None))"

partial_function (option) Buffer_WriteReader_loop ::
  "('s \<Rightarrow> nat \<Rightarrow> bytes \<times> err \<times> 's) \<Rightarrow> Buffer \<Rightarrow> 's \<Rightarrow> nat \<Rightarrow> (Buffer \<times> 's \<times> nat \<times> err) option" where
  "Buffer_WriteReader_loop reader b s count =
     Option.bind
       (Buffer_reader_space b)
       (\<lambda>(b1, e1).
          if e1 \<noteq> None then Some (b1, s, count, e1)
          else
            (let (got, e, s1) = reader s (buf_cap b1 - buf_w b1);
                 b2 = b1\<lparr>buf := take (buf_w b1) (buf b1) @ go_copy (drop (buf_w b1) (buf b1)) got,
                         buf_w := buf_w b1 + length got\<rparr>;
                 count1 = count + length got
             in if e \<noteq> None then Some (b2, s1, count1, if e = Some io_EOF then None else e)
                else if got = [] then Some (b2, s1, count1, None)
                else Buffer_WriteReader_loop reader b2 s1 count1))"

definition Buffer_WriteReader ::
  "('s \<Rightarrow> nat \<Rightarrow> bytes \<times> err \<times> 's) \<Rightarrow> Buffer \<Rightarrow> 's \<Rightarrow> (Buffer \<times> 's \<times> nat \<times> err) option" where
  "Buffer_WriteReader reader b s = Buffer_WriteReader_loop reader b s 0"

definition Buffer_WriteByte :: "Buffer \<Rightarrow> byte \<Rightarrow> (Buffer \<times> err) option" where
  "Buffer_WriteByte b c =
     (case Buffer_ensureSpace b 1 of
        None \<Rightarrow> None
      | Some (b1, Some e) \<Rightarrow> Some (b1, Some e)
      | Some (b1, None) \<Rightarrow>
          (if buf_w b1 < length (buf b1)
           then Some (b1\<lparr>buf := (buf b1)[buf_w b1 := c], buf_w := Suc (buf_w b1)\<rparr>, None)
           else None))"

text \<open>\<^verbatim>\<open>Read(p)\<close> writes into the caller's slice, so the slice afterwards is part of the result.\<close>

definition Buffer_Read :: "Buffer \<Rightarrow> bytes \<Rightarrow> Buffer \<times> bytes \<times> nat \<times> err" where
  "Buffer_Read b p =
     (if p = [] then (b, p, 0, None)
      else if Buffer_Len b = 0 then (b, p, 0, Some io_EOF)
      else
        (let src = slice (buf_r b) (buf_w b) (buf b); n = go_copied p src in
         (b\<lparr>buf_r := buf_r b + n\<rparr>, go_copy p src, n, None)))"

definition Buffer_ReadByte :: "Buffer \<Rightarrow> (Buffer \<times> byte \<times> err) option" where
  "Buffer_ReadByte b =
     (if Buffer_Len b = 0 then Some (b, 0, Some io_EOF)
      else if buf_r b < length (buf b) then Some (b\<lparr>buf_r := Suc (buf_r b)\<rparr>, buf b ! buf_r b, None)
      else None)"

definition Buffer_Peek :: "Buffer \<Rightarrow> int \<Rightarrow> bytes result" where
  "Buffer_Peek b n =
     (if n \<le> 0 then Inr []
      else if int (Buffer_Len b) < n then Inl ErrInsufficientData
      else Inr (slice (buf_r b) (buf_r b + nat n) (buf b)))"

definition Buffer_Skip :: "Buffer \<Rightarrow> int \<Rightarrow> Buffer \<times> err" where
  "Buffer_Skip b n =
     (if n \<le> 0 then (b, None)
      else if int (Buffer_Len b) < n then (b, Some ErrInsufficientDataToSkip)
      else (b\<lparr>buf_r := buf_r b + nat n\<rparr>, None))"

subsection \<open>The invariant\<close>

definition Buffer_wf :: "Buffer \<Rightarrow> bool" where
  "Buffer_wf b \<longleftrightarrow> buf_r b \<le> buf_w b \<and> buf_w b \<le> buf_cap b \<and> length (buf b) = buf_cap b
     \<and> 0 < buf_cap b \<and> buf_cap b \<le> buf_maxCap b \<and> buf_limit b = buf_cap b"

lemma Buffer_New_wf [inv_intros]: "Buffer_wf (Buffer_New initialCap maxCap)"
  by (auto simp: Buffer_New_def Buffer_wf_def Let_def buffer_const_defs split: list.splits)

lemma Buffer_New_empty [simp]: "Buffer_Bytes (Buffer_New initialCap maxCap) = []"
  by (simp add: Buffer_New_def Buffer_Bytes_def Let_def)

lemma Buffer_Len_Bytes: "Buffer_wf b \<Longrightarrow> Buffer_Len b = length (Buffer_Bytes b)"
  by (auto simp: Buffer_wf_def Buffer_Len_def Buffer_Bytes_def)

text \<open>The doubling loop ends at the first capacity that is large enough, or past the maximum.\<close>

lemma grow_cap_returns:
  assumes "0 < c"
  shows "\<exists>g. grow_cap c req mx = Some g \<and> c \<le> g \<and> (req \<le> g \<or> mx \<le> g)"
  using assms
proof (induction "req - c" arbitrary: c rule: less_induct)
  case less
  show ?case
  proof (cases "c < req \<and> c < mx")
    case True
    then have "req - c * 2 < req - c" "0 < c * 2" using less.prems by linarith+
    from less.hyps [OF this] True show ?thesis
      by (subst grow_cap.simps) (auto simp: capacityGrowthMul_def)
  next
    case False
    then show ?thesis by (subst grow_cap.simps) auto
  qed
qed

lemma compact_wf: "Buffer_wf b \<Longrightarrow> Buffer_wf (compact b)"
  by (auto simp: compact_def Buffer_wf_def)

lemma compact_Bytes: "Buffer_wf b \<Longrightarrow> Buffer_Bytes (compact b) = Buffer_Bytes b"
  using take_go_copy [of "slice (buf_r b) (buf_w b) (buf b)" "buf b"]
  by (auto simp: compact_def Buffer_Bytes_def Buffer_wf_def slice_0_take)

lemma compact_fields:
  "buf_maxCap (compact b) = buf_maxCap b" "buf_cap (compact b) = buf_cap b" "buf_r (compact b) = 0"
  "Buffer_wf b \<Longrightarrow> buf_w (compact b) = length (Buffer_Bytes b)"
  by (auto simp: compact_def Buffer_Bytes_def Buffer_wf_def)

text \<open>
  \<^verbatim>\<open>ensureSpace\<close> always returns; it succeeds exactly when the pending bytes and the new ones fit
  into the maximum, and in every case it keeps the pending bytes.
\<close>

lemma ensureSpace_ok:
  assumes wf: "Buffer_wf b" and fits: "length (Buffer_Bytes b) + n \<le> buf_maxCap b"
  shows "\<exists>b'. Buffer_ensureSpace b n = Some (b', None) \<and> Buffer_wf b' \<and> Buffer_Bytes b' = Buffer_Bytes b
    \<and> n \<le> Buffer_Available b' \<and> buf_maxCap b' = buf_maxCap b"
proof (cases "Buffer_Available b \<ge> n \<or> Buffer_Available (compact b) \<ge> n")
  case True
  then show ?thesis
    using wf by (auto simp: Buffer_ensureSpace_def Let_def compact_wf compact_Bytes compact_fields)
next
  case False
  let ?c = "compact b" and ?req = "buf_w (compact b) + n"
  have wfc: "Buffer_wf ?c" using wf by (rule compact_wf)
  then have "0 < buf_cap ?c" by (simp add: Buffer_wf_def)
  from grow_cap_returns [OF this, of ?req "buf_maxCap ?c"] obtain g where
    g: "grow_cap (buf_cap ?c) ?req (buf_maxCap ?c) = Some g" "buf_cap ?c \<le> g" by blast
  define nc where "nc = max (min g (buf_maxCap ?c)) ?req"
  have req: "?req \<le> buf_maxCap ?c" using fits wf by (simp add: compact_fields)
  have nc: "?req \<le> nc" "nc \<le> buf_maxCap ?c" "0 < nc" "buf_w ?c \<le> nc"
    using req g wfc by (auto simp: nc_def Buffer_wf_def)
  define d where "d = ?c\<lparr>buf := go_copy (replicate nc 0) (take (buf_w ?c) (buf ?c)), buf_cap := nc, buf_limit := nc\<rparr>"
  have "Buffer_ensureSpace b n = Some (d, None)"
    using False g req by (simp add: Buffer_ensureSpace_def Let_def d_def nc_def max_def min_def)
  moreover have "Buffer_wf d" using wfc nc by (simp add: d_def Buffer_wf_def compact_fields)
  moreover have "Buffer_Bytes d = Buffer_Bytes ?c"
    using wfc nc by (simp add: d_def Buffer_Bytes_def compact_fields slice_0_take go_copy_def Buffer_wf_def)
  moreover have "n \<le> Buffer_Available d" using nc by (simp add: d_def Buffer_Available_def)
  ultimately show ?thesis using wf by (auto simp: compact_Bytes compact_fields d_def)
qed

lemma ensureSpace_over:
  assumes wf: "Buffer_wf b" and over: "buf_maxCap b < length (Buffer_Bytes b) + n"
  shows "\<exists>b'. Buffer_ensureSpace b n = Some (b', Some ErrBufferOverLimit) \<and> Buffer_wf b'
    \<and> Buffer_Bytes b' = Buffer_Bytes b \<and> buf_maxCap b' = buf_maxCap b"
proof -
  have "\<not> Buffer_Available b \<ge> n" "\<not> Buffer_Available (compact b) \<ge> n"
    using wf over compact_wf [OF wf]
    by (auto simp: Buffer_Available_def Buffer_wf_def compact_fields Buffer_Bytes_def)
  then show ?thesis
    using wf over by (auto simp: Buffer_ensureSpace_def Let_def compact_fields compact_wf compact_Bytes)
qed

text \<open>Writing bytes at the write position, the step that \<^verbatim>\<open>Write\<close> and \<^verbatim>\<open>WriteReader\<close> share.\<close>

lemma append_at_w:
  assumes wf: "Buffer_wf b" and space: "length data \<le> Buffer_Available b"
  defines "b' \<equiv> b\<lparr>buf := take (buf_w b) (buf b) @ go_copy (drop (buf_w b) (buf b)) data, buf_w := buf_w b + length data\<rparr>"
  shows "Buffer_wf b'" "Buffer_Bytes b' = Buffer_Bytes b @ data"
proof -
  have le: "buf_w b + length data \<le> buf_cap b" using wf space by (auto simp: Buffer_Available_def Buffer_wf_def)
  then show "Buffer_wf b'" using wf by (auto simp: b'_def Buffer_wf_def)
  have "buf b' = take (buf_w b) (buf b) @ data @ drop (buf_w b + length data) (buf b)"
    using wf le by (simp add: b'_def go_copy_def Buffer_wf_def add.commute)
  then show "Buffer_Bytes b' = Buffer_Bytes b @ data"
    using wf le by (simp add: b'_def Buffer_Bytes_def slice_def Buffer_wf_def drop_append take_append drop_take)
qed

lemma Buffer_Write_ok:
  assumes "Buffer_wf b" and "length (Buffer_Bytes b) + length data \<le> buf_maxCap b"
  shows "\<exists>b'. Buffer_Write b data = Some (b', length data, None) \<and> Buffer_wf b'
    \<and> Buffer_Bytes b' = Buffer_Bytes b @ data \<and> buf_maxCap b' = buf_maxCap b"
proof (cases "data = []")
  case True
  then show ?thesis using assms by (simp add: Buffer_Write_def)
next
  case False
  from ensureSpace_ok [OF assms] obtain b1 where
    b1: "Buffer_ensureSpace b (length data) = Some (b1, None)" "Buffer_wf b1" "Buffer_Bytes b1 = Buffer_Bytes b"
      "length data \<le> Buffer_Available b1" "buf_maxCap b1 = buf_maxCap b" by blast
  have "go_copied (drop (buf_w b1) (buf b1)) data = length data"
    using b1 by (auto simp: go_copied_def Buffer_Available_def Buffer_wf_def)
  then show ?thesis
    using False b1 append_at_w [OF b1(2,4)] by (simp add: Buffer_Write_def Let_def)
qed

lemma Buffer_Write_over:
  assumes "Buffer_wf b" and "buf_maxCap b < length (Buffer_Bytes b) + length data" and "data \<noteq> []"
  shows "\<exists>b'. Buffer_Write b data = Some (b', 0, Some ErrBufferOverLimit) \<and> Buffer_wf b'
    \<and> Buffer_Bytes b' = Buffer_Bytes b \<and> buf_maxCap b' = buf_maxCap b"
  using ensureSpace_over [OF assms(1,2)] assms(3) by (auto simp: Buffer_Write_def)

lemma Buffer_Skip_spec:
  assumes "Buffer_wf b"
  shows "n \<le> 0 \<Longrightarrow> Buffer_Skip b n = (b, None)"
    and "0 \<le> n \<Longrightarrow> n \<le> int (length (Buffer_Bytes b)) \<Longrightarrow>
      \<exists>b'. Buffer_Skip b n = (b', None) \<and> Buffer_wf b' \<and> Buffer_Bytes b' = drop (nat n) (Buffer_Bytes b)
        \<and> buf_maxCap b' = buf_maxCap b"
    and "int (length (Buffer_Bytes b)) < n \<Longrightarrow> Buffer_Skip b n = (b, Some ErrInsufficientDataToSkip)"
  using assms by (auto simp: Buffer_Skip_def Buffer_wf_def Buffer_Len_def Buffer_Bytes_def drop_slice)

subsection \<open>The interface the connections use\<close>

text \<open>
  \<^verbatim>\<open>IBuffer\<close> as far as a connection relies on it: the pending bytes, their number, appending and
  skipping, and a bound on what can be pending. The laws are what the read loops need.
\<close>

locale ibuffer =
  fixes wf :: "'b \<Rightarrow> bool"
    and content :: "'b \<Rightarrow> bytes"
    and len :: "'b \<Rightarrow> nat"
    and bound :: "'b \<Rightarrow> nat"
    and append_bytes :: "'b \<Rightarrow> bytes \<Rightarrow> ('b \<times> nat \<times> err) option"
    and skip_bytes :: "'b \<Rightarrow> int \<Rightarrow> 'b \<times> err"
  assumes len_content: "wf b \<Longrightarrow> len b = length (content b)"
    and content_bound: "wf b \<Longrightarrow> length (content b) \<le> bound b"
    and write_fits: "wf b \<Longrightarrow> length (content b) + length d \<le> bound b \<Longrightarrow>
      \<exists>b'. append_bytes b d = Some (b', length d, None) \<and> wf b' \<and> content b' = content b @ d \<and> bound b' = bound b"
    and write_over: "wf b \<Longrightarrow> d \<noteq> [] \<Longrightarrow> bound b < length (content b) + length d \<Longrightarrow>
      \<exists>b' e. append_bytes b d = Some (b', 0, Some e) \<and> wf b' \<and> content b' = content b \<and> bound b' = bound b"
    and skip_within: "wf b \<Longrightarrow> 0 \<le> n \<Longrightarrow> n \<le> int (length (content b)) \<Longrightarrow>
      \<exists>b'. skip_bytes b n = (b', None) \<and> wf b' \<and> content b' = drop (nat n) (content b) \<and> bound b' = bound b"
begin

text \<open>Writing never fails to return and never loses pending bytes.\<close>

lemma write_total:
  assumes "wf b"
  obtains b' n e where "append_bytes b d = Some (b', n, e)" "wf b'" "bound b' = bound b"
    "e = None \<longrightarrow> content b' = content b @ d" "e \<noteq> None \<longrightarrow> content b' = content b"
proof (cases "length (content b) + length d \<le> bound b")
  case True
  with write_fits [OF assms] obtain b' where
    "append_bytes b d = Some (b', length d, None)" "wf b'" "content b' = content b @ d" "bound b' = bound b" by blast
  then show ?thesis by (intro that [of b' "length d" None]) simp_all
next
  case over: False
  show ?thesis
  proof (cases "d = []")
    case True
    with over content_bound [OF assms] show ?thesis by simp
  next
    case False
    with write_over [OF assms False] over obtain b' e where
      "append_bytes b d = Some (b', 0, Some e)" "wf b'" "content b' = content b" "bound b' = bound b" by force
    then show ?thesis by (intro that [of b' 0 "Some e"]) simp_all
  qed
qed

text \<open>Appending and then skipping what was pending before leaves what was appended.\<close>

lemma write_then_skip:
  assumes "wf b" and "length (content b) + length d \<le> bound b"
  shows "\<exists>b1 b2. append_bytes b d = Some (b1, length d, None) \<and> skip_bytes b1 (int (length (content b))) = (b2, None)
    \<and> wf b2 \<and> content b2 = d"
proof -
  from write_fits [OF assms] obtain b1 where
    b1: "append_bytes b d = Some (b1, length d, None)" "wf b1" "content b1 = content b @ d" by blast
  from skip_within [OF b1(2), of "int (length (content b))"] b1 show ?thesis by auto
qed

end

interpretation ibuf: ibuffer Buffer_wf Buffer_Bytes Buffer_Len buf_maxCap Buffer_Write Buffer_Skip
proof (unfold_locales, goal_cases)
  case (1 b)
  then show ?case by (rule Buffer_Len_Bytes)
next
  case (2 b)
  then show ?case by (auto simp: Buffer_wf_def Buffer_Bytes_def)
next
  case (3 b d)
  then show ?case by (rule Buffer_Write_ok)
next
  case (4 b d)
  then show ?case using Buffer_Write_over [of b d] by blast
next
  case (5 b n)
  then show ?case by (rule Buffer_Skip_spec(2))
qed

subsection \<open>Properties of the buffer\<close>

text \<open>
  C24: Writing appends. On every well-formed buffer \<^verbatim>\<open>Write\<close> returns; it succeeds exactly when
  the pending bytes and the new ones fit into the maximum capacity, and then the pending bytes
  are the old ones followed by the data; otherwise it reports \<^verbatim>\<open>ErrBufferOverLimit\<close> and the
  pending bytes are untouched. The invariant is kept either way.
\<close>

theorem Buffer_Write_appends:
  assumes "Buffer_wf b" and "data \<noteq> []"
  shows "\<exists>b' n e. Buffer_Write b data = Some (b', n, e) \<and> Buffer_wf b' \<and> buf_maxCap b' = buf_maxCap b
    \<and> (if length (Buffer_Bytes b) + length data \<le> buf_maxCap b
        then e = None \<and> n = length data \<and> Buffer_Bytes b' = Buffer_Bytes b @ data
        else e = Some ErrBufferOverLimit \<and> n = 0 \<and> Buffer_Bytes b' = Buffer_Bytes b)"
proof (cases "length (Buffer_Bytes b) + length data \<le> buf_maxCap b")
  case True
  then show ?thesis using Buffer_Write_ok [of b data] assms by auto
next
  case False
  then show ?thesis using Buffer_Write_over [of b data] assms by auto
qed

theorem Buffer_Write_appends_witness:
  "\<exists>b' n e. Buffer_Write (Buffer_New 2 [8]) [1, 2, 3] = Some (b', n, e) \<and> Buffer_Bytes b' = [1, 2, 3] \<and> e = None"
proof -
  have "buf_maxCap (Buffer_New 2 [8]) = 8" by (simp add: Buffer_New_def Let_def)
  with Buffer_Write_appends [OF Buffer_New_wf [of 2 "[8]"], of "[1, 2, 3]"] show ?thesis by auto
qed

text \<open>
  Reading takes from the front. \<^verbatim>\<open>Read\<close> moves the first bytes of the pending data into the
  caller's slice and nothing else; \<^verbatim>\<open>Peek\<close> shows the same bytes without moving; \<^verbatim>\<open>Skip\<close> drops
  them; \<^verbatim>\<open>ReadByte\<close> never panics and takes one byte, or reports \<^verbatim>\<open>io.EOF\<close> when nothing is
  pending.
\<close>

theorem Buffer_reads_front:
  assumes wf: "Buffer_wf b"
  shows "(p \<noteq> [] \<and> Buffer_Bytes b \<noteq> [] \<longrightarrow>
       (\<exists>b' n. Buffer_Read b p = (b', take n (Buffer_Bytes b) @ drop n p, n, None) \<and> Buffer_wf b'
          \<and> n = min (length p) (length (Buffer_Bytes b)) \<and> Buffer_Bytes b' = drop n (Buffer_Bytes b)))
    \<and> (0 \<le> n \<and> n \<le> int (length (Buffer_Bytes b)) \<longrightarrow>
       Buffer_Peek b n = Inr (take (nat n) (Buffer_Bytes b))
       \<and> (\<exists>b'. Buffer_Skip b n = (b', None) \<and> Buffer_Bytes b' = drop (nat n) (Buffer_Bytes b)))
    \<and> (\<exists>b' c e. Buffer_ReadByte b = Some (b', c, e) \<and> Buffer_wf b'
       \<and> (case Buffer_Bytes b of [] \<Rightarrow> e = Some io_EOF \<and> b' = b
          | x # xs \<Rightarrow> e = None \<and> c = x \<and> Buffer_Bytes b' = xs))"
proof (intro conjI impI)
  assume ne: "p \<noteq> [] \<and> Buffer_Bytes b \<noteq> []"
  let ?n = "min (length p) (length (Buffer_Bytes b))"
  have "Buffer_Read b p = (b\<lparr>buf_r := buf_r b + ?n\<rparr>, go_copy p (Buffer_Bytes b), ?n, None)"
    using ne Buffer_Len_Bytes [OF wf] by (simp add: Buffer_Read_def Let_def go_copied_def Buffer_Bytes_def [symmetric])
  moreover have "Buffer_wf (b\<lparr>buf_r := buf_r b + ?n\<rparr>)"
    using wf by (auto simp: Buffer_wf_def Buffer_Bytes_def)
  moreover have "go_copy p (Buffer_Bytes b) = take ?n (Buffer_Bytes b) @ drop ?n p"
    by (auto simp: go_copy_def min_def)
  moreover have "Buffer_Bytes (b\<lparr>buf_r := buf_r b + ?n\<rparr>) = drop ?n (Buffer_Bytes b)"
    by (simp add: Buffer_Bytes_def drop_slice)
  ultimately show "\<exists>b' n. Buffer_Read b p = (b', take n (Buffer_Bytes b) @ drop n p, n, None) \<and> Buffer_wf b'
      \<and> n = min (length p) (length (Buffer_Bytes b)) \<and> Buffer_Bytes b' = drop n (Buffer_Bytes b)"
    by auto
next
  assume n: "0 \<le> n \<and> n \<le> int (length (Buffer_Bytes b))"
  then show "Buffer_Peek b n = Inr (take (nat n) (Buffer_Bytes b))"
    using Buffer_Len_Bytes [OF wf] wf
    by (auto simp: Buffer_Peek_def Buffer_Bytes_def Buffer_Len_def Buffer_wf_def take_slice)
  show "\<exists>b'. Buffer_Skip b n = (b', None) \<and> Buffer_Bytes b' = drop (nat n) (Buffer_Bytes b)"
    using Buffer_Skip_spec(2) [OF wf] n by blast
next
  show "\<exists>b' c e. Buffer_ReadByte b = Some (b', c, e) \<and> Buffer_wf b'
       \<and> (case Buffer_Bytes b of [] \<Rightarrow> e = Some io_EOF \<and> b' = b
          | x # xs \<Rightarrow> e = None \<and> c = x \<and> Buffer_Bytes b' = xs)"
  proof (cases "Buffer_Len b = 0")
    case True
    then show ?thesis using wf Buffer_Len_Bytes [OF wf] by (simp add: Buffer_ReadByte_def)
  next
    case False
    then have r: "buf_r b < buf_w b" "buf_r b < length (buf b)"
      using wf by (auto simp: Buffer_Len_def Buffer_wf_def)
    then have "Buffer_Bytes b = buf b ! buf_r b # slice (Suc (buf_r b)) (buf_w b) (buf b)"
      by (simp add: Buffer_Bytes_def slice_def Cons_nth_drop_Suc [symmetric] take_Cons' )
    then show ?thesis
      using False r wf by (simp add: Buffer_ReadByte_def Buffer_Bytes_def Buffer_wf_def)
  qed
qed

theorem Buffer_reads_front_witness:
  "\<exists>b b'. Buffer_Write (Buffer_New 4 [8]) [7, 8, 9] = Some (b, 3, None)
     \<and> Buffer_Skip b 2 = (b', None) \<and> Buffer_Bytes b' = [9]"
proof -
  have "buf_maxCap (Buffer_New 4 [8]) = 8" by (simp add: Buffer_New_def Let_def)
  with Buffer_Write_ok [OF Buffer_New_wf [of 4 "[8]"], of "[7, 8, 9]"] obtain b where
    b: "Buffer_Write (Buffer_New 4 [8]) [7, 8, 9] = Some (b, 3, None)" "Buffer_wf b" "Buffer_Bytes b = [7, 8, 9]"
    by auto
  from Buffer_reads_front [OF b(2), of "[]" 2] b show ?thesis by auto
qed

subsection \<open>Filling from a reader\<close>

text \<open>A \<^verbatim>\<open>bytes.Reader\<close>: it hands out what fits and reports \<^verbatim>\<open>io.EOF\<close> once it is empty.\<close>

definition bytes_reader :: "bytes \<Rightarrow> nat \<Rightarrow> bytes \<times> err \<times> bytes" where
  "bytes_reader s n = (if s = [] then ([], Some io_EOF, []) else (take n s, None, drop n s))"

lemma WriteReader_loop_bytes_reader:
  assumes "Buffer_wf b"
  shows "\<exists>b' s' n e. Buffer_WriteReader_loop bytes_reader b s k = Some (b', s', n, e) \<and> Buffer_wf b' \<and> k \<le> n
    \<and> Buffer_Bytes b' @ s' = Buffer_Bytes b @ s \<and> length (Buffer_Bytes b') = length (Buffer_Bytes b) + (n - k)
    \<and> (e = None \<longrightarrow> s' = []) \<and> (e \<noteq> None \<longrightarrow> e = Some ErrBufferOverLimit)"
  using assms
proof (induction "length s" arbitrary: b s k rule: less_induct)
  case less
  let ?grow = "if buf_cap b > defaultInitialCap then buf_cap b else defaultInitialCap"
  let ?pre = "Buffer_reader_space b"
  have grow: "0 < ?grow" by (simp add: defaultInitialCap_def)
  show ?case
  proof (cases "Buffer_Available b = 0 \<and> buf_maxCap b < length (Buffer_Bytes b) + ?grow")
    case True
    with ensureSpace_over [OF less.prems, of ?grow] obtain b1 where
      "?pre = Some (b1, Some ErrBufferOverLimit)" "Buffer_wf b1" "Buffer_Bytes b1 = Buffer_Bytes b"
      by (auto simp: Buffer_reader_space_def)
    then show ?thesis by (subst Buffer_WriteReader_loop.simps) auto
  next
    case False
    have "\<exists>b1. ?pre = Some (b1, None) \<and> Buffer_wf b1 \<and> Buffer_Bytes b1 = Buffer_Bytes b \<and> 0 < Buffer_Available b1"
      using ensureSpace_ok [OF less.prems, of ?grow] False less.prems grow
      by (auto simp: Buffer_reader_space_def not_less)
    then obtain b1 where b1: "?pre = Some (b1, None)" "Buffer_wf b1" "Buffer_Bytes b1 = Buffer_Bytes b"
      and room: "0 < Buffer_Available b1" by blast
    show ?thesis
    proof (cases "s = []")
      case True
      then have "Buffer_WriteReader_loop bytes_reader b s k = Some (b1\<lparr>buf := take (buf_w b1) (buf b1) @
          go_copy (drop (buf_w b1) (buf b1)) [], buf_w := buf_w b1 + length ([] :: bytes)\<rparr>, [], k, None)"
        by (subst Buffer_WriteReader_loop.simps) (simp add: b1(1) bytes_reader_def Let_def)
      with append_at_w [OF b1(2), of "[]"] b1(3) True show ?thesis by auto
    next
      case nonempty: False
      let ?got = "take (Buffer_Available b1) s" and ?rest = "drop (Buffer_Available b1) s"
      define b2 where "b2 = b1\<lparr>buf := take (buf_w b1) (buf b1) @ go_copy (drop (buf_w b1) (buf b1)) ?got,
        buf_w := buf_w b1 + length ?got\<rparr>"
      have got: "?got \<noteq> []" using nonempty room by simp
      have b2: "Buffer_wf b2" "Buffer_Bytes b2 = Buffer_Bytes b @ ?got"
        using append_at_w [OF b1(2), of ?got] b1(3) by (simp_all add: b2_def)
      have "Buffer_WriteReader_loop bytes_reader b s k =
          Buffer_WriteReader_loop bytes_reader b2 ?rest (k + length ?got)"
        by (subst Buffer_WriteReader_loop.simps)
          (use got nonempty in \<open>simp add: b1(1) bytes_reader_def Let_def b2_def Buffer_Available_def\<close>)
      moreover have "length ?rest < length s" using nonempty room by simp
      ultimately show ?thesis
        using less.hyps [of ?rest b2 "k + length ?got"] b2 by (fastforce simp: algebra_simps)
    qed
  qed
qed

text \<open>
  \<^verbatim>\<open>WriteReader\<close> on a finite source always returns. It moves a prefix of the source behind
  the pending bytes and reports its length; without an error the source is exhausted, and the
  only error is \<^verbatim>\<open>ErrBufferOverLimit\<close>.
\<close>

theorem Buffer_WriteReader_moves_prefix:
  assumes "Buffer_wf b"
  shows "\<exists>b' s' n e. Buffer_WriteReader bytes_reader b s = Some (b', s', n, e) \<and> Buffer_wf b'
    \<and> Buffer_Bytes b' = Buffer_Bytes b @ take n s \<and> s' = drop n s
    \<and> (e = None \<longrightarrow> n = length s) \<and> (e \<noteq> None \<longrightarrow> e = Some ErrBufferOverLimit)"
proof -
  from WriteReader_loop_bytes_reader [OF assms, of s 0] obtain b' s' n e where
    r: "Buffer_WriteReader_loop bytes_reader b s 0 = Some (b', s', n, e)" "Buffer_wf b'"
      "Buffer_Bytes b' @ s' = Buffer_Bytes b @ s" "length (Buffer_Bytes b') = length (Buffer_Bytes b) + n"
      "e = None \<longrightarrow> s' = []" "e \<noteq> None \<longrightarrow> e = Some ErrBufferOverLimit" by auto
  have bytes: "Buffer_Bytes b' = Buffer_Bytes b @ take n s" "s' = drop n s"
    using arg_cong [OF r(3), of "take (length (Buffer_Bytes b) + n)"]
      arg_cong [OF r(3), of "drop (length (Buffer_Bytes b) + n)"] r(4) by simp_all
  have "length (take n s) = n" using r(4) bytes(1) by simp
  then have "e = None \<longrightarrow> n = length s" using bytes(2) r(5) by auto
  with r bytes show ?thesis by (auto simp: Buffer_WriteReader_def)
qed

theorem Buffer_WriteReader_moves_prefix_witness:
  "\<exists>b' s' n e. Buffer_WriteReader bytes_reader (Buffer_New 4 [8]) [1, 2, 3] = Some (b', s', n, e)
    \<and> Buffer_wf b' \<and> Buffer_Bytes b' = take n [1, 2, 3]"
  using Buffer_WriteReader_moves_prefix [OF Buffer_New_wf, of 4 "[8]" "[1, 2, 3]"] by auto

text \<open>
  The comment in \<^verbatim>\<open>WriteReader\<close> promises not to fail early near the limit, but a full buffer
  is grown by at least 4096 bytes or its whole capacity at once: five bytes written to a buffer
  of capacity 4 and maximum 8 fail, although they fit.
\<close>

theorem Buffer_WriteReader_fails_below_limit:
  "\<exists>b' s'. Buffer_WriteReader bytes_reader (Buffer_New 4 [8]) [1, 2, 3, 4, 5]
     = Some (b', s', 4, Some ErrBufferOverLimit)
   \<and> buf_maxCap (Buffer_New 4 [8]) = 8"
proof -
  have "Buffer_WriteReader bytes_reader (Buffer_New 4 [8]) [1, 2, 3, 4, 5] =
      Some (\<lparr>buf = [1, 2, 3, 4], buf_r = 0, buf_w = 4, buf_cap = 4, buf_maxCap = 8, buf_limit = 4\<rparr>,
        [5], 4, Some ErrBufferOverLimit)"
    unfolding Buffer_WriteReader_def
    by (subst Buffer_WriteReader_loop.simps, simp add: Buffer_New_def Let_def Buffer_reader_space_def Buffer_Available_def
        bytes_reader_def go_copy_def, subst Buffer_WriteReader_loop.simps)
      (simp add: Buffer_reader_space_def Buffer_Available_def Buffer_ensureSpace_def compact_def defaultInitialCap_def Let_def)
  then show ?thesis by (simp add: Buffer_New_def Let_def)
qed

end
