(* ===== verification/NetConfig.thy ===== *)
theory NetConfig
  imports Codec Frame Buffer
begin

text \<open>
  \<^verbatim>\<open>network/errors.go\<close>, \<^verbatim>\<open>network/config.go\<close> and the plain types of \<^verbatim>\<open>network/iface.go\<close>. Durations
  are integers (nanoseconds). Go's embedding of \<^verbatim>\<open>CommonConfig\<close> is record extension. The logger
  of a configuration only writes logs and is left out; the upgrader of the WebSocket
  configuration is an object of a third-party package, of which only its presence matters here.
\<close>

definition ErrUnexpectedTCPConnType :: go_error where
  "ErrUnexpectedTCPConnType = Plain ''unexpected tcp connection type''"
definition ErrInvalidFrameConsumeSize :: go_error where
  "ErrInvalidFrameConsumeSize = Plain ''invalid frame consume size''"
definition ErrConnectionClosed :: go_error where
  "ErrConnectionClosed = Plain ''connection is closed''"
definition ErrNetworkChannelFull :: go_error where
  "ErrNetworkChannelFull = Plain ''connection  send channel full''"
definition ErrInvalidConnectionState :: go_error where
  "ErrInvalidConnectionState = Plain ''invalid connection state''"
definition ErrHandshakeNotComplete :: go_error where
  "ErrHandshakeNotComplete = Plain ''connection handshake is not complete''"
definition ErrHeartbeatTimeout :: go_error where
  "ErrHeartbeatTimeout = Plain ''heartbeat timeout''"

datatype ConnectionState =
    ConnectionStateCreated
  | ConnectionStateHandshaking
  | ConnectionStateReady
  | ConnectionStateClosed

fun ConnectionState_String :: "ConnectionState \<Rightarrow> string" where
  "ConnectionState_String ConnectionStateCreated = ''Created''"
| "ConnectionState_String ConnectionStateHandshaking = ''Handshaking''"
| "ConnectionState_String ConnectionStateReady = ''Ready''"
| "ConnectionState_String ConnectionStateClosed = ''Closed''"

text \<open>The numeric value of a state (\<^verbatim>\<open>iota\<close>); it orders the states.\<close>

fun state_num :: "ConnectionState \<Rightarrow> nat" where
  "state_num ConnectionStateCreated = 0"
| "state_num ConnectionStateHandshaking = 1"
| "state_num ConnectionStateReady = 2"
| "state_num ConnectionStateClosed = 3"

instantiation ConnectionState :: linorder
begin

definition less_eq_ConnectionState :: "ConnectionState \<Rightarrow> ConnectionState \<Rightarrow> bool" where
  "less_eq_ConnectionState a b \<longleftrightarrow> state_num a \<le> state_num b"

definition less_ConnectionState :: "ConnectionState \<Rightarrow> ConnectionState \<Rightarrow> bool" where
  "less_ConnectionState a b \<longleftrightarrow> state_num a < state_num b"

instance
proof
  fix a b :: ConnectionState
  show "a \<le> b \<Longrightarrow> b \<le> a \<Longrightarrow> a = b"
    unfolding less_eq_ConnectionState_def by (cases a; cases b) simp_all
qed (auto simp: less_eq_ConnectionState_def less_ConnectionState_def)

end

lemma Closed_top [simp]: "s \<le> ConnectionStateClosed"
  by (cases s) (simp_all add: less_eq_ConnectionState_def)

datatype ConnectionRole = ConnectionRoleServer | ConnectionRoleClient

text \<open>The \<^verbatim>\<open>Codec\<close> interface; the pipeline of \<^verbatim>\<open>network/codec\<close> is its implementation.\<close>

record Codec_iface =
  codec_Encode :: "bytes \<Rightarrow> (bytes \<times> byte) result"
  codec_Decode :: "bytes \<Rightarrow> byte \<Rightarrow> bytes result"

definition Pipeline_Codec :: "Pipeline \<Rightarrow> Codec_iface" where
  "Pipeline_Codec p = \<lparr>codec_Encode = Pipeline_Encode p, codec_Decode = Pipeline_Decode p\<rparr>"

record CommonConfig =
  Address :: string
  EncryptEnable :: bool
  HeartbeatTimeout :: int
  cfg_Codec :: "Codec_iface option"
  MaxInboundSize :: int
  MaxOutboundSize :: int
  SendChanSize :: int
  HandshakeTimeout :: int
  WriteTimeout :: int

record TCPConfig = CommonConfig +
  ReadBufferCap :: int

record UDPConfig = CommonConfig +
  ServerSendChanSize :: int

record WebSocketConfig = CommonConfig +
  Upgrader :: bool

definition KB :: int where "KB = 1024"
definition time_Second :: int where "time_Second = 1000000000"
definition tcpReadChunkSize :: int where "tcpReadChunkSize = KB * 8"

lemmas config_consts = KB_def time_Second_def tcpReadChunkSize_def

definition positive_or :: "int \<Rightarrow> int \<Rightarrow> int" where
  "positive_or d x = (if x \<le> 0 then d else x)"

definition CommonConfig_Normalize :: "'a CommonConfig_scheme \<Rightarrow> 'a CommonConfig_scheme" where
  "CommonConfig_Normalize config =
     config\<lparr>MaxInboundSize := positive_or (32 * KB) (MaxInboundSize config),
            MaxOutboundSize := positive_or (32 * KB) (MaxOutboundSize config),
            SendChanSize := positive_or 1024 (SendChanSize config),
            HeartbeatTimeout := max (positive_or (time_Second * 5) (HeartbeatTimeout config)) (time_Second * 1),
            HandshakeTimeout := positive_or (time_Second * 5) (HandshakeTimeout config),
            WriteTimeout := positive_or (time_Second * 3) (WriteTimeout config)\<rparr>"

definition zero_CommonConfig :: "CommonConfig" where
  "zero_CommonConfig = \<lparr>Address = [], EncryptEnable = False, HeartbeatTimeout = 0, cfg_Codec = None,
     MaxInboundSize = 0, MaxOutboundSize = 0, SendChanSize = 0, HandshakeTimeout = 0, WriteTimeout = 0\<rparr>"

definition DefaultTCPConfig :: "string \<Rightarrow> TCPConfig" where
  "DefaultTCPConfig address = (CommonConfig.extend zero_CommonConfig \<lparr>ReadBufferCap = 0\<rparr>)\<lparr>Address := address\<rparr>"

definition TCPConfig_Normalize :: "TCPConfig \<Rightarrow> TCPConfig" where
  "TCPConfig_Normalize config =
     (let config = CommonConfig_Normalize config;
          minReadBufferCap = MaxInboundSize config + tcpReadChunkSize
      in if ReadBufferCap config < minReadBufferCap then config\<lparr>ReadBufferCap := minReadBufferCap\<rparr> else config)"

definition DefaultUDPConfig :: UDPConfig where
  "DefaultUDPConfig = CommonConfig.extend zero_CommonConfig \<lparr>ServerSendChanSize = 0\<rparr>"

definition UDPConfig_Normalize :: "UDPConfig \<Rightarrow> UDPConfig" where
  "UDPConfig_Normalize config =
     (let config = CommonConfig_Normalize config in
      if ServerSendChanSize config \<le> 0 then config\<lparr>ServerSendChanSize := 10240\<rparr> else config)"

definition DefaultWebSocketConfig :: "string \<Rightarrow> WebSocketConfig" where
  "DefaultWebSocketConfig address = (CommonConfig.extend zero_CommonConfig \<lparr>Upgrader = False\<rparr>)\<lparr>Address := address\<rparr>"

definition WebSocketConfig_Normalize :: "WebSocketConfig \<Rightarrow> WebSocketConfig" where
  "WebSocketConfig_Normalize config = (CommonConfig_Normalize config)\<lparr>Upgrader := True\<rparr>"

subsection \<open>What normalisation guarantees\<close>

definition config_wf :: "'a CommonConfig_scheme \<Rightarrow> bool" where
  "config_wf c \<longleftrightarrow> MaxInboundSize c > 0 \<and> MaxOutboundSize c > 0 \<and> SendChanSize c > 0
     \<and> HeartbeatTimeout c \<ge> time_Second \<and> HandshakeTimeout c > 0 \<and> WriteTimeout c > 0"

lemma CommonConfig_Normalize_wf: "config_wf (CommonConfig_Normalize c)"
  by (simp add: config_wf_def CommonConfig_Normalize_def positive_or_def config_consts)

lemma CommonConfig_Normalize_idem: "config_wf c \<Longrightarrow> CommonConfig_Normalize c = c"
  by (simp add: config_wf_def CommonConfig_Normalize_def positive_or_def config_consts max_def)

lemma TCPConfig_Normalize_cap:
  "MaxInboundSize (TCPConfig_Normalize c) + tcpReadChunkSize \<le> ReadBufferCap (TCPConfig_Normalize c)"
  by (simp add: TCPConfig_Normalize_def Let_def)

lemma TCPConfig_Normalize_inbound:
  "MaxInboundSize (TCPConfig_Normalize c) = positive_or (32 * KB) (MaxInboundSize c)"
  by (simp add: TCPConfig_Normalize_def CommonConfig_Normalize_def Let_def)

lemma TCPConfig_Normalize_wf: "config_wf (TCPConfig_Normalize c)"
  using CommonConfig_Normalize_wf [of c] by (simp add: TCPConfig_Normalize_def Let_def config_wf_def)

lemma TCPConfig_Normalize_idem: "TCPConfig_Normalize (TCPConfig_Normalize c) = TCPConfig_Normalize c"
  using CommonConfig_Normalize_idem [OF TCPConfig_Normalize_wf] TCPConfig_Normalize_cap [of c]
  by (simp add: TCPConfig_Normalize_def [of "TCPConfig_Normalize c"] Let_def)

end
