(* ===== verification/Cipher.thy ===== *)
theory Cipher
  imports GoErrors
begin

text \<open>
  \<^verbatim>\<open>network/encrypt/ecdh_cipher.go\<close>: the key agreement and the reversible byte transform a
  connection applies to business bodies. X25519 and HKDF are the Go standard library; the code
  only passes byte strings through them, so they are a parameter (\<open>crypto_lib\<close>) with one field per
  function called, and what the handshake relies on (Diffie-Hellman agreement, the length of the
  derived key) is a hypothesis named \<open>crypto_agrees\<close>. The byte transform itself is concrete.
\<close>

record crypto_lib =
  x25519_public :: "bytes \<Rightarrow> bytes"
  x25519_new_private :: "bytes \<Rightarrow> bytes result"
  x25519_new_public :: "bytes \<Rightarrow> bytes result"
  x25519_ecdh :: "bytes \<Rightarrow> bytes \<Rightarrow> bytes result"
  hkdf_key :: "bytes \<Rightarrow> bytes \<Rightarrow> string \<Rightarrow> nat \<Rightarrow> bytes result"

definition aesKeySize :: nat where "aesKeySize = 32"

definition salt :: bytes where
  "salt = [0x66, 0x72, 0x74, 0x68, 0x34, 0x35, 0x34, 0x35, 0x36, 0x34, 0x68, 0x67, 0x6A, 0x31]"

definition ecdhInfo :: string where "ecdhInfo = ''game-server''"

definition ErrInvalidKey :: go_error where "ErrInvalidKey = Plain ''network: invalid shared key''"

record ECDHCipher =
  privateKey :: bytes
  publicKey :: bytes
  sharedKey :: bytes

text \<open>\<^verbatim>\<open>NewECDHCipher\<close>; the argument is what \<^verbatim>\<open>GenerateKey(rand.Reader)\<close> returned.\<close>

definition NewECDHCipher :: "crypto_lib \<Rightarrow> bytes result \<Rightarrow> ECDHCipher result" where
  "NewECDHCipher lib generated =
     rbind generated (\<lambda>priv. Inr \<lparr>privateKey = priv, publicKey = x25519_public lib priv, sharedKey = []\<rparr>)"

definition ECDHCipher_PublicKey :: "ECDHCipher \<Rightarrow> bytes" where
  "ECDHCipher_PublicKey p = publicKey p"

definition ECDHCipher_GenerateSharedKey :: "crypto_lib \<Rightarrow> ECDHCipher \<Rightarrow> bytes \<Rightarrow> ECDHCipher \<times> err" where
  "ECDHCipher_GenerateSharedKey lib p peerPublicKey =
     (case rbind (x25519_new_private lib (privateKey p)) (\<lambda>key.
           rbind (x25519_new_public lib peerPublicKey) (\<lambda>peerKey.
           rbind (x25519_ecdh lib key peerKey) (\<lambda>secret.
           hkdf_key lib secret salt ecdhInfo aesKeySize))) of
        Inl e \<Rightarrow> (p, Some e)
      | Inr shared \<Rightarrow> (p\<lparr>sharedKey := shared\<rparr>, None))"

text \<open>One byte of the transform: \<open>a\<close> is added modulo 256 and \<open>b\<close> is xored, or the inverse.\<close>

definition crypt_byte :: "bytes \<Rightarrow> bool \<Rightarrow> nat \<Rightarrow> byte \<Rightarrow> byte" where
  "crypt_byte key decrypt i value =
     (let a = uint (key ! (i mod aesKeySize)); b = key ! ((i + 13) mod aesKeySize) in
      if decrypt then of_int ((uint (value XOR b) - a + 256) mod 256)
      else of_int ((uint value + a) mod 256) XOR b)"

definition ECDHCipher_crypt :: "ECDHCipher \<Rightarrow> bytes \<Rightarrow> bool \<Rightarrow> bytes result" where
  "ECDHCipher_crypt p input decrypt =
     (if length (sharedKey p) \<noteq> aesKeySize then Inl ErrInvalidKey
      else Inr (map (\<lambda>(i, value). crypt_byte (sharedKey p) decrypt i value) (enumerate 0 input)))"

definition ECDHCipher_Encrypt :: "ECDHCipher \<Rightarrow> bytes \<Rightarrow> bytes result" where
  "ECDHCipher_Encrypt p plaintext = ECDHCipher_crypt p plaintext False"

definition ECDHCipher_Decrypt :: "ECDHCipher \<Rightarrow> bytes \<Rightarrow> bytes result" where
  "ECDHCipher_Decrypt p ciphertext = ECDHCipher_crypt p ciphertext True"

lemmas cipher_defs = ECDHCipher_Encrypt_def ECDHCipher_Decrypt_def ECDHCipher_crypt_def

text \<open>The comments of \<^verbatim>\<open>Encrypt\<close> and \<^verbatim>\<open>Decrypt\<close>, as equations on bytes.\<close>

lemma of_int_mod_256: "(of_int (k mod 256) :: byte) = of_int k"
  by (rule word_uint_eqI) (simp add: uint_word_of_int)

lemma crypt_byte_encrypt:
  "crypt_byte key False i v = (v + key ! (i mod aesKeySize)) XOR key ! ((i + 13) mod aesKeySize)"
  by (simp add: crypt_byte_def Let_def of_int_mod_256)

lemma crypt_byte_decrypt:
  "crypt_byte key True i v = (v XOR key ! ((i + 13) mod aesKeySize)) - key ! (i mod aesKeySize)"
proof -
  have "of_int (256 :: int) = (0 :: byte)" by simp
  then show ?thesis by (simp add: crypt_byte_def Let_def of_int_mod_256)
qed

lemma crypt_byte_inverse: "crypt_byte key True i (crypt_byte key False i v) = v"
  by (simp add: crypt_byte_encrypt crypt_byte_decrypt xor.assoc)

text \<open>Two ciphers with the same 32 byte key understand each other.\<close>

lemma cipher_decrypts_same_key:
  assumes key: "length (sharedKey p) = aesKeySize" and same: "sharedKey q = sharedKey p"
  shows "\<exists>c. ECDHCipher_Encrypt p m = Inr c \<and> length c = length m \<and> ECDHCipher_Decrypt q c = Inr m"
proof -
  let ?c = "map (\<lambda>(i, value). crypt_byte (sharedKey p) False i value) (enumerate 0 m)"
  have "map (\<lambda>(i, value). crypt_byte (sharedKey p) True i value) (enumerate 0 ?c) = m"
    by (intro nth_equalityI) (simp_all add: nth_enumerate_eq crypt_byte_inverse)
  then show ?thesis using key same by (simp add: cipher_defs)
qed

subsection \<open>Properties of the cipher\<close>

text \<open>
  With a 32 byte key decryption undoes encryption byte for byte and the ciphertext has the
  length of the plaintext; with any other key both directions refuse with \<^verbatim>\<open>ErrInvalidKey\<close>.
\<close>

theorem cipher_roundtrip:
  "(length (sharedKey p) = aesKeySize \<longrightarrow>
      (\<exists>c. ECDHCipher_Encrypt p plaintext = Inr c \<and> length c = length plaintext
         \<and> ECDHCipher_Decrypt p c = Inr plaintext))
   \<and> (length (sharedKey p) \<noteq> aesKeySize \<longrightarrow>
      ECDHCipher_Encrypt p plaintext = Inl ErrInvalidKey \<and> ECDHCipher_Decrypt p plaintext = Inl ErrInvalidKey)"
  using cipher_decrypts_same_key [of p p plaintext] by (simp add: cipher_defs)

theorem cipher_roundtrip_witness:
  "\<exists>c. ECDHCipher_Encrypt \<lparr>privateKey = [], publicKey = [], sharedKey = replicate 32 200\<rparr> [1, 255] = Inr c
     \<and> ECDHCipher_Decrypt \<lparr>privateKey = [], publicKey = [], sharedKey = replicate 32 200\<rparr> c = Inr [1, 255]"
  using cipher_roundtrip [of "\<lparr>privateKey = [], publicKey = [], sharedKey = replicate 32 200\<rparr>" "[1, 255]"]
  by (auto simp: aesKeySize_def)

text \<open>
  What the handshake relies on: a private key and its public key are accepted, the two sides of
  X25519 agree, and HKDF returns the number of bytes asked for.
\<close>

definition crypto_agrees :: "crypto_lib \<Rightarrow> bytes \<Rightarrow> bytes \<Rightarrow> bool" where
  "crypto_agrees lib a b \<longleftrightarrow>
     x25519_new_private lib a = Inr a \<and> x25519_new_private lib b = Inr b
   \<and> x25519_new_public lib (x25519_public lib a) = Inr (x25519_public lib a)
   \<and> x25519_new_public lib (x25519_public lib b) = Inr (x25519_public lib b)
   \<and> (\<exists>s k. x25519_ecdh lib a (x25519_public lib b) = Inr s \<and> x25519_ecdh lib b (x25519_public lib a) = Inr s
        \<and> hkdf_key lib s salt ecdhInfo aesKeySize = Inr k \<and> length k = aesKeySize)"

lemma GenerateSharedKey_agrees:
  assumes lib: "crypto_agrees lib a b"
    and A: "NewECDHCipher lib (Inr a) = Inr A" and B: "NewECDHCipher lib (Inr b) = Inr B"
  obtains k where "length k = aesKeySize"
    and "ECDHCipher_GenerateSharedKey lib A (ECDHCipher_PublicKey B) = (A\<lparr>sharedKey := k\<rparr>, None)"
    and "ECDHCipher_GenerateSharedKey lib B (ECDHCipher_PublicKey A) = (B\<lparr>sharedKey := k\<rparr>, None)"
  using lib A B unfolding crypto_agrees_def
  by (auto simp: NewECDHCipher_def ECDHCipher_GenerateSharedKey_def ECDHCipher_PublicKey_def)

text \<open>
  After the two ends of a connection have exchanged public keys they hold the same 32 byte
  key, and what either of them encrypts the other one decrypts.
\<close>

theorem key_exchange_agrees:
  assumes "crypto_agrees lib a b"
    and "NewECDHCipher lib (Inr a) = Inr A" and "NewECDHCipher lib (Inr b) = Inr B"
  shows "\<exists>A' B'. ECDHCipher_GenerateSharedKey lib A (ECDHCipher_PublicKey B) = (A', None)
    \<and> ECDHCipher_GenerateSharedKey lib B (ECDHCipher_PublicKey A) = (B', None)
    \<and> sharedKey A' = sharedKey B'
    \<and> (\<forall>m. \<exists>c. ECDHCipher_Encrypt A' m = Inr c \<and> ECDHCipher_Decrypt B' c = Inr m)"
proof -
  from GenerateSharedKey_agrees [OF assms] obtain k where
    k: "length k = aesKeySize"
      "ECDHCipher_GenerateSharedKey lib A (ECDHCipher_PublicKey B) = (A\<lparr>sharedKey := k\<rparr>, None)"
      "ECDHCipher_GenerateSharedKey lib B (ECDHCipher_PublicKey A) = (B\<lparr>sharedKey := k\<rparr>, None)" by blast
  have "\<exists>c. ECDHCipher_Encrypt (A\<lparr>sharedKey := k\<rparr>) m = Inr c \<and> ECDHCipher_Decrypt (B\<lparr>sharedKey := k\<rparr>) c = Inr m" for m
    using cipher_decrypts_same_key [of "A\<lparr>sharedKey := k\<rparr>" "B\<lparr>sharedKey := k\<rparr>" m] k(1) by auto
  with k show ?thesis by auto
qed

text \<open>A stand-in for the library with which the hypotheses hold: the shared secret is the xor of both keys.\<close>

definition xor_crypto :: crypto_lib where
  "xor_crypto = \<lparr>x25519_public = (\<lambda>k. k), x25519_new_private = Inr, x25519_new_public = Inr,
     x25519_ecdh = (\<lambda>a b. Inr (map2 (XOR) a b)), hkdf_key = (\<lambda>s _ _ n. Inr (take n s))\<rparr>"

definition sample_cipher :: "byte \<Rightarrow> ECDHCipher" where
  "sample_cipher x = \<lparr>privateKey = replicate 32 x, publicKey = replicate 32 x, sharedKey = []\<rparr>"

theorem key_exchange_agrees_witness:
  "\<exists>A' B'. ECDHCipher_GenerateSharedKey xor_crypto (sample_cipher 1) (replicate 32 2) = (A', None)
    \<and> ECDHCipher_GenerateSharedKey xor_crypto (sample_cipher 2) (replicate 32 1) = (B', None)
    \<and> (\<exists>c. ECDHCipher_Encrypt A' [7] = Inr c \<and> ECDHCipher_Decrypt B' c = Inr [7])"
proof -
  have lib: "crypto_agrees xor_crypto (replicate 32 1) (replicate 32 2)"
    by (simp add: crypto_agrees_def xor_crypto_def aesKeySize_def zip_replicate xor.commute)
  have new: "NewECDHCipher xor_crypto (Inr (replicate 32 x)) = Inr (sample_cipher x)" for x
    by (simp add: NewECDHCipher_def xor_crypto_def sample_cipher_def)
  have pub: "ECDHCipher_PublicKey (sample_cipher x) = replicate 32 x" for x
    by (simp add: ECDHCipher_PublicKey_def sample_cipher_def)
  from key_exchange_agrees [OF lib new new] show ?thesis unfolding pub by blast
qed

end
