(* ===== verification/Connection.thy ===== *)
theory Connection
  imports NetConfig Cipher
begin

text \<open>
  \<^verbatim>\<open>network/base_connection.go\<close>, \<^verbatim>\<open>network/tcp_connection.go\<close>: the connection shared by all
  transports and the TCP read and write paths on top of the receive buffer.

  The fields of \<^verbatim>\<open>baseConn\<close> are a record. A channel is the list of what it holds. Four fields
  record what the code does to its surroundings: \<open>events\<close> (the callbacks made), \<open>accepted\<close> (what
  was put into the send channel), \<open>wire\<close> (what was written to the socket) and \<open>panicked\<close> (a nil
  cipher was used, or the ready channel was closed twice). \<open>picks\<close> resolves the choice Go makes
  at random when two cases of a \<^verbatim>\<open>select\<close> are ready. The clock is an argument.

  The callbacks of a \<^verbatim>\<open>TransportHandler\<close> are programs that may call the connection back any
  number of times (\<open>hprog\<close>), and may depend on the callbacks made so far.
\<close>

datatype conn_event = OnConnected | OnMessage MessageFrame | OnClose err

record 'u baseConn =
  conn_id :: "64 word"
  role :: ConnectionRole
  state :: ConnectionState
  userData :: "'u option"
  sendChannel :: "bytes list"
  ready_closes :: nat
  cipher :: "ECDHCipher option"
  options :: CommonConfig
  lastActive :: int
  ctx_done :: bool
  closeErr :: err
  handshakeTimer :: "bool option"
  events :: "conn_event list"
  accepted :: "bytes list"
  wire :: "bytes list"
  panicked :: bool
  picks :: "bool list"

datatype 'u hprog =
    Return err
  | CallSendMessage "MessageFrame option" "err \<Rightarrow> 'u hprog"
  | CallClose err "'u hprog"
  | CallState "ConnectionState \<Rightarrow> 'u hprog"
  | CallUserData "'u option \<Rightarrow> 'u hprog"
  | CallSetUserData "'u option" "'u hprog"

record 'u TransportHandler =
  h_OnConnected :: "conn_event list \<Rightarrow> 'u hprog"
  h_OnMessage :: "conn_event list \<Rightarrow> MessageFrame \<Rightarrow> 'u hprog"

text \<open>What a connection is built with: the handler, the cryptographic library and the key it generates.\<close>

record 'u conn_env =
  env_handler :: "'u TransportHandler"
  env_crypto :: crypto_lib
  env_key :: "bytes result"

definition DefaultTransportHandler :: "'u TransportHandler" where
  "DefaultTransportHandler = \<lparr>h_OnConnected = (\<lambda>_. Return None), h_OnMessage = (\<lambda>_ _. Return None)\<rparr>"

text \<open>\<^verbatim>\<open>generateConnectionID\<close>: the counter is 64 bits wide and wraps.\<close>

definition generateConnectionID :: "64 word \<Rightarrow> 64 word \<times> 64 word" where
  "generateConnectionID counter = (counter + 1, counter + 1)"

definition touch :: "int \<Rightarrow> 'u baseConn \<Rightarrow> 'u baseConn" where
  "touch now b = b\<lparr>lastActive := now\<rparr>"

definition newBaseConnWithRole :: "64 word \<Rightarrow> CommonConfig \<Rightarrow> ConnectionRole \<Rightarrow> int \<Rightarrow> bool list \<Rightarrow> 'u baseConn" where
  "newBaseConnWithRole cid opts r now ps =
     touch now \<lparr>conn_id = cid, role = r, state = ConnectionStateCreated, userData = None, sendChannel = [],
        ready_closes = 0, cipher = None, options = opts, lastActive = 0, ctx_done = False, closeErr = None,
        handshakeTimer = None, events = [], accepted = [], wire = [], panicked = False, picks = ps\<rparr>"

definition SetUserData :: "'u option \<Rightarrow> 'u baseConn \<Rightarrow> 'u baseConn" where
  "SetUserData data b = (case data of None \<Rightarrow> b | Some d \<Rightarrow> b\<lparr>userData := Some d\<rparr>)"

definition UserData :: "'u baseConn \<Rightarrow> 'u option" where
  "UserData b = userData b"

text \<open>\<^verbatim>\<open>state.CompareAndSwap\<close>\<close>

definition state_CAS :: "ConnectionState \<Rightarrow> ConnectionState \<Rightarrow> 'u baseConn \<Rightarrow> 'u baseConn \<times> bool" where
  "state_CAS old new b = (if state b = old then (b\<lparr>state := new\<rparr>, True) else (b, False))"

text \<open>Using a nil cipher panics; the text is that of the Go runtime.\<close>

definition nil_dereference :: go_error where
  "nil_dereference = Plain ''runtime error: invalid memory address or nil pointer dereference''"

definition encrypt :: "'u baseConn \<Rightarrow> bytes \<Rightarrow> 'u baseConn \<times> bytes result" where
  "encrypt b plaintext =
     (if state b \<noteq> ConnectionStateReady then (b, Inl (Wrap ''encrypt '' ErrHandshakeNotComplete []))
      else if \<not> EncryptEnable (options b) then (b, Inr plaintext)
      else (case cipher b of
              None \<Rightarrow> (b\<lparr>panicked := True\<rparr>, Inl nil_dereference)
            | Some c \<Rightarrow> (b, ECDHCipher_Encrypt c plaintext)))"

definition decrypt :: "'u baseConn \<Rightarrow> bytes \<Rightarrow> 'u baseConn \<times> bytes result" where
  "decrypt b ciphertext =
     (if \<not> EncryptEnable (options b) then (b, Inr ciphertext)
      else if state b \<noteq> ConnectionStateReady then (b, Inl (Wrap ''decrypt '' ErrHandshakeNotComplete []))
      else (case cipher b of
              None \<Rightarrow> (b\<lparr>panicked := True\<rparr>, Inl nil_dereference)
            | Some c \<Rightarrow> (b, ECDHCipher_Decrypt c ciphertext)))"

definition checkHeartbeatTimeout :: "int \<Rightarrow> 'u baseConn \<Rightarrow> err" where
  "checkHeartbeatTimeout now b =
     (if state b = ConnectionStateHandshaking then None
      else if now - lastActive b \<ge> HeartbeatTimeout (options b) then Some ErrHeartbeatTimeout
      else None)"

subsection \<open>Sending\<close>

text \<open>
  The \<^verbatim>\<open>select\<close> of \<^verbatim>\<open>pushQueue\<close>. When the context is done and the channel has room both cases
  are ready and the next element of \<open>picks\<close> decides.
\<close>

definition has_room :: "'u baseConn \<Rightarrow> bool" where
  "has_room b \<longleftrightarrow> int (length (sendChannel b)) < SendChanSize (options b)"

definition enqueue :: "bytes \<Rightarrow> 'u baseConn \<Rightarrow> 'u baseConn" where
  "enqueue message b = b\<lparr>sendChannel := sendChannel b @ [message], accepted := accepted b @ [message]\<rparr>"

definition pushQueue :: "'u baseConn \<Rightarrow> bytes \<Rightarrow> 'u baseConn \<times> err" where
  "pushQueue b message =
     (if ctx_done b \<and> has_room b then
        (case picks b of
           True # ps \<Rightarrow> (enqueue message (b\<lparr>picks := ps\<rparr>), None)
         | False # ps \<Rightarrow> (b\<lparr>picks := ps\<rparr>, Some ErrConnectionClosed)
         | [] \<Rightarrow> (b, Some ErrConnectionClosed))
      else if ctx_done b then (b, Some ErrConnectionClosed)
      else if has_room b then (enqueue message b, None)
      else (b, Some ErrNetworkChannelFull))"

definition codec_encode :: "'u baseConn \<Rightarrow> MessageFrame \<Rightarrow> MessageFrame result" where
  "codec_encode b frame =
     (case cfg_Codec (options b) of
        None \<Rightarrow> Inr frame
      | Some codec \<Rightarrow> rbind (codec_Encode codec (Body frame)) (\<lambda>(body, flags). Inr (frame\<lparr>Body := body, Flags := flags\<rparr>)))"

definition sendFrame :: "'u baseConn \<Rightarrow> MessageFrame option \<Rightarrow> 'u baseConn \<times> err" where
  "sendFrame b frame =
     (case frame of
        None \<Rightarrow> (b, Some (Plain ''frame is nil''))
      | Some f \<Rightarrow>
          (case codec_encode b f of
             Inl e \<Rightarrow> (b, Some e)
           | Inr copyFrame \<Rightarrow>
               (case (if IsInternalCommand (Cmd copyFrame) then (b, Inr (Body copyFrame))
                      else encrypt b (Body copyFrame)) of
                  (b, Inl e) \<Rightarrow> (b, Some e)
                | (b, Inr body) \<Rightarrow>
                    (case EncodeMessageFrameWithLimit (copyFrame\<lparr>Body := body\<rparr>) (MaxOutboundSize (options b)) of
                       Inl e \<Rightarrow> (b, Some e)
                     | Inr bs \<Rightarrow> pushQueue b bs))))"

definition SendMessage :: "'u baseConn \<Rightarrow> MessageFrame option \<Rightarrow> 'u baseConn \<times> err" where
  "SendMessage b frame =
     (if state b = ConnectionStateClosed then (b, Some ErrConnectionClosed) else sendFrame b frame)"

definition sendExchangeKey :: "'u baseConn \<Rightarrow> 'u baseConn \<times> err" where
  "sendExchangeKey b =
     (case cipher b of
        None \<Rightarrow> (b\<lparr>panicked := True\<rparr>, Some nil_dereference)
      | Some c \<Rightarrow> sendFrame b (Some (NewMessageFrame InternalCmd InternalKeyExchange 0 (ECDHCipher_PublicKey c))))"

definition stop_timer :: "'u baseConn \<Rightarrow> 'u baseConn" where
  "stop_timer b = b\<lparr>handshakeTimer := map_option (\<lambda>_. False) (handshakeTimer b)\<rparr>"

definition Close :: "'u baseConn \<Rightarrow> err \<Rightarrow> 'u baseConn" where
  "Close b e =
     (if state b = ConnectionStateClosed then b
      else stop_timer (b\<lparr>state := ConnectionStateClosed, closeErr := e, ctx_done := True\<rparr>))"

subsection \<open>Callbacks\<close>

primrec run_handler :: "'u hprog \<Rightarrow> 'u baseConn \<Rightarrow> 'u baseConn \<times> err" where
  "run_handler (Return e) b = (b, e)"
| "run_handler (CallSendMessage f k) b = (case SendMessage b f of (b1, e) \<Rightarrow> run_handler (k e) b1)"
| "run_handler (CallClose e k) b = run_handler k (Close b e)"
| "run_handler (CallState k) b = run_handler (k (state b)) b"
| "run_handler (CallUserData k) b = run_handler (k (UserData b)) b"
| "run_handler (CallSetUserData d k) b = run_handler k (SetUserData d b)"

definition log_event :: "conn_event \<Rightarrow> 'u baseConn \<Rightarrow> 'u baseConn" where
  "log_event ev b = b\<lparr>events := events b @ [ev]\<rparr>"

definition close_readyCh :: "'u baseConn \<Rightarrow> 'u baseConn" where
  "close_readyCh b = b\<lparr>ready_closes := Suc (ready_closes b), panicked := (panicked b \<or> ready_closes b > 0)\<rparr>"

definition onReady :: "'u conn_env \<Rightarrow> 'u baseConn \<Rightarrow> 'u baseConn \<times> err" where
  "onReady env b =
     (let b = stop_timer b in
      case run_handler (h_OnConnected (env_handler env) (events b)) (log_event OnConnected b) of
        (b, Some e) \<Rightarrow> (b, Some e)
      | (b, None) \<Rightarrow> (close_readyCh b, None))"

subsection \<open>Starting\<close>

definition startHandshake :: "'u conn_env \<Rightarrow> 'u baseConn \<Rightarrow> 'u baseConn \<times> err" where
  "startHandshake env b =
     (case NewECDHCipher (env_crypto env) (env_key env) of
        Inl e \<Rightarrow> (b\<lparr>cipher := None\<rparr>, Some e)
      | Inr c \<Rightarrow>
          (let b = b\<lparr>cipher := Some c\<rparr> in
           case (if role b = ConnectionRoleClient then sendExchangeKey b else (b, None)) of
             (b, Some e) \<Rightarrow> (b, Some e)
           | (b, None) \<Rightarrow> (b\<lparr>handshakeTimer := Some True\<rparr>, None)))"

definition start :: "'u conn_env \<Rightarrow> 'u baseConn \<Rightarrow> 'u baseConn \<times> err" where
  "start env b =
     (case state_CAS ConnectionStateCreated ConnectionStateHandshaking b of
        (b, False) \<Rightarrow> (b, Some ErrInvalidConnectionState)
      | (b, True) \<Rightarrow>
          if \<not> EncryptEnable (options b) then
            (case state_CAS ConnectionStateHandshaking ConnectionStateReady b of
               (b, False) \<Rightarrow> (b, Some ErrInvalidConnectionState)
             | (b, True) \<Rightarrow> onReady env b)
          else startHandshake env b)"

definition runStart :: "'u conn_env \<Rightarrow> 'u baseConn \<Rightarrow> 'u baseConn \<times> err" where
  "runStart env b =
     (case start env b of
        (b, Some e) \<Rightarrow> (Close b (Some e), Some e)
      | (b, None) \<Rightarrow> (b, None))"

subsection \<open>Receiving\<close>

definition handleKeyExchange :: "'u conn_env \<Rightarrow> 'u baseConn \<Rightarrow> MessageFrame \<Rightarrow> 'u baseConn \<times> err" where
  "handleKeyExchange env b frame =
     (case state_CAS ConnectionStateHandshaking ConnectionStateReady b of
        (b, False) \<Rightarrow> (b, None)
      | (b, True) \<Rightarrow>
          (case (if role b = ConnectionRoleServer then sendExchangeKey b else (b, None)) of
             (b, Some e) \<Rightarrow> (b, Some e)
           | (b, None) \<Rightarrow>
               (case cipher b of
                  None \<Rightarrow> (b\<lparr>panicked := True\<rparr>, Some nil_dereference)
                | Some c \<Rightarrow>
                    (case ECDHCipher_GenerateSharedKey (env_crypto env) c (Body frame) of
                       (c1, Some e) \<Rightarrow> (b\<lparr>cipher := Some c1\<rparr>, Some e)
                     | (c1, None) \<Rightarrow> onReady env (b\<lparr>cipher := Some c1\<rparr>)))))"

definition processFrame :: "'u conn_env \<Rightarrow> 'u baseConn \<Rightarrow> MessageFrame \<Rightarrow> 'u baseConn \<times> err" where
  "processFrame env b frame =
     (if IsInternalCommand (Cmd frame) then
        if Act frame = InternalActClose then (b, Some ErrInvalidConnectionState)
        else if Act frame = InternalKeyExchange then handleKeyExchange env b frame
        else (b, Some ErrUnknownInternalAct)
      else if state b \<noteq> ConnectionStateReady then (b, Some ErrHandshakeNotComplete)
      else run_handler (h_OnMessage (env_handler env) (events b) frame) (log_event (OnMessage frame) b))"

definition prepareMessageFrame :: "'u baseConn \<Rightarrow> MessageFrame \<Rightarrow> 'u baseConn \<times> MessageFrame result" where
  "prepareMessageFrame b frame =
     (case (if IsInternalCommand (Cmd frame) then (b, Inr (Body frame)) else decrypt b (Body frame)) of
        (b, Inl e) \<Rightarrow> (b, Inl e)
      | (b, Inr body) \<Rightarrow>
          (b, (case cfg_Codec (options b) of
                 None \<Rightarrow> Inr (frame\<lparr>Body := body\<rparr>)
               | Some codec \<Rightarrow> rbind (codec_Decode codec body (Flags frame)) (\<lambda>body. Inr (frame\<lparr>Body := body\<rparr>)))))"

definition onProcess :: "'u conn_env \<Rightarrow> int \<Rightarrow> 'u baseConn \<Rightarrow> bytes \<Rightarrow> 'u baseConn \<times> nat \<times> err" where
  "onProcess env now b data =
     (case DecodeMessageFrameWithLimit data (MaxInboundSize (options b)) of
        (frame, consumed, Some e) \<Rightarrow> (b, consumed, Some e)
      | (frame, consumed, None) \<Rightarrow>
          if consumed = 0 then (b, consumed, None)
          else (case frame of
                  None \<Rightarrow> (b\<lparr>panicked := True\<rparr>, consumed, Some nil_dereference)
                | Some frame \<Rightarrow>
                    (case prepareMessageFrame (touch now b) frame of
                       (b, Inl e) \<Rightarrow> (b, consumed, Some e)
                     | (b, Inr frame) \<Rightarrow> (case processFrame env b frame of (b, e) \<Rightarrow> (b, consumed, e)))))"

text \<open>
  \<^verbatim>\<open>processReadBuffer\<close> works on the interface \<^verbatim>\<open>IBuffer\<close>, of which it calls \<^verbatim>\<open>Bytes\<close>, \<^verbatim>\<open>Len\<close>
  and \<^verbatim>\<open>Skip\<close>. \<open>None\<close> is a loop that never ends.
\<close>

partial_function (option) processReadBuffer ::
  "('b \<Rightarrow> bytes) \<Rightarrow> ('b \<Rightarrow> nat) \<Rightarrow> ('b \<Rightarrow> int \<Rightarrow> 'b \<times> err) \<Rightarrow> 'u conn_env \<Rightarrow> int \<Rightarrow> 'u baseConn \<Rightarrow> 'b
    \<Rightarrow> ('u baseConn \<times> 'b \<times> err) option" where
  "processReadBuffer buf_Bytes buf_Len buf_Skip env now b rb =
     (case onProcess env now b (buf_Bytes rb) of
        (b, n, Some e) \<Rightarrow> Some (b, rb, Some e)
      | (b, n, None) \<Rightarrow>
          if n > buf_Len rb then Some (b, rb, Some ErrInvalidFrameConsumeSize)
          else if n = 0 then Some (b, rb, None)
          else (case buf_Skip rb (int n) of
                  (rb, Some e) \<Rightarrow> Some (b, rb, Some e)
                | (rb, None) \<Rightarrow> processReadBuffer buf_Bytes buf_Len buf_Skip env now b rb))"

subsection \<open>tcp\_connection.go\<close>

record 'u TCPConnection =
  tcp_base :: "'u baseConn"
  readBuffer :: Buffer

definition newTCPConnection :: "64 word \<Rightarrow> TCPConfig \<Rightarrow> ConnectionRole \<Rightarrow> int \<Rightarrow> bool list \<Rightarrow> 'u TCPConnection" where
  "newTCPConnection cid config r now ps =
     \<lparr>tcp_base = newBaseConnWithRole cid (CommonConfig.truncate config) r now ps,
      readBuffer = Buffer_New (ReadBufferCap config) [ReadBufferCap config]\<rparr>"

text \<open>
  One iteration of \<^verbatim>\<open>readLoop\<close> on what \<^verbatim>\<open>conn.Read\<close> returned: the bytes of the chunk or an error.
  The result is the error the loop ends with, \<open>None\<close> for the next iteration; \<open>readLoop\<close> runs the
  iterations and the deferred \<^verbatim>\<open>Close\<close>.
\<close>

definition readLoop_iteration ::
  "'u conn_env \<Rightarrow> int \<Rightarrow> 'u TCPConnection \<Rightarrow> bytes result \<Rightarrow> ('u TCPConnection \<times> err) option" where
  "readLoop_iteration env now c r =
     (case r of
        Inl e \<Rightarrow> Some (c, Some e)
      | Inr chunk \<Rightarrow>
          if chunk = [] then Some (c, Some io_EOF)
          else (case Buffer_Write (readBuffer c) chunk of
                  None \<Rightarrow> None
                | Some (buf1, _, Some e) \<Rightarrow> Some (c\<lparr>readBuffer := buf1\<rparr>, Some e)
                | Some (buf1, _, None) \<Rightarrow>
                    (case processReadBuffer Buffer_Bytes Buffer_Len Buffer_Skip env now (tcp_base c) buf1 of
                       None \<Rightarrow> None
                     | Some (b, buf2, e) \<Rightarrow> Some (c\<lparr>tcp_base := b, readBuffer := buf2\<rparr>, e))))"

fun readLoop :: "'u conn_env \<Rightarrow> (int \<times> bytes result) list \<Rightarrow> 'u TCPConnection \<Rightarrow> ('u TCPConnection \<times> err) option" where
  "readLoop env [] c = Some (c, None)"
| "readLoop env ((now, r) # rs) c =
     (case readLoop_iteration env now c r of
        None \<Rightarrow> None
      | Some (c, Some e) \<Rightarrow> Some (c\<lparr>tcp_base := Close (tcp_base c) (Some e)\<rparr>, Some e)
      | Some (c, None) \<Rightarrow> readLoop env rs c)"

subsection \<open>The write loop\<close>

text \<open>\<open>wr\<close> is what \<^verbatim>\<open>writeRaw\<close> returns for a message, given what was written before.\<close>

definition write_message :: "(bytes list \<Rightarrow> bytes \<Rightarrow> err) \<Rightarrow> 'u baseConn \<Rightarrow> bytes \<Rightarrow> 'u baseConn \<times> err" where
  "write_message wr b message =
     (case wr (wire b) message of
        Some e \<Rightarrow> (b, Some e)
      | None \<Rightarrow> (b\<lparr>wire := wire b @ [message]\<rparr>, None))"

text \<open>The cases of the \<^verbatim>\<open>select\<close> in \<^verbatim>\<open>runWriteLoop\<close>; a case that is not ready has no result.\<close>

datatype write_case = CtxDone | Tick | Message

definition runWriteLoop_iteration ::
  "(bytes list \<Rightarrow> bytes \<Rightarrow> err) \<Rightarrow> int \<Rightarrow> write_case \<Rightarrow> 'u baseConn \<Rightarrow> ('u baseConn \<times> bool \<times> err) option" where
  "runWriteLoop_iteration wr now wc b =
     (case wc of
        CtxDone \<Rightarrow> if ctx_done b then Some (b, True, None) else None
      | Tick \<Rightarrow> (case checkHeartbeatTimeout now b of
                    Some e \<Rightarrow> Some (b, True, Some e) | None \<Rightarrow> Some (b, False, None))
      | Message \<Rightarrow>
          (case sendChannel b of
             [] \<Rightarrow> None
           | m # ms \<Rightarrow>
               (case write_message wr (b\<lparr>sendChannel := ms\<rparr>) m of
                  (b, Some e) \<Rightarrow> Some (b, True, Some e)
                | (b, None) \<Rightarrow> Some (b, False, None))))"

fun drain_loop :: "(bytes list \<Rightarrow> bytes \<Rightarrow> err) \<Rightarrow> bytes list \<Rightarrow> 'u baseConn \<Rightarrow> 'u baseConn" where
  "drain_loop wr [] b = b"
| "drain_loop wr (m # ms) b =
     (case write_message wr (b\<lparr>sendChannel := ms\<rparr>) m of
        (b, Some e) \<Rightarrow> b
      | (b, None) \<Rightarrow> drain_loop wr ms b)"

definition drainMessages :: "(bytes list \<Rightarrow> bytes \<Rightarrow> err) \<Rightarrow> 'u baseConn \<Rightarrow> 'u baseConn" where
  "drainMessages wr b = drain_loop wr (sendChannel b) b"

text \<open>The deferred function of \<^verbatim>\<open>runWriteLoop\<close>, with the error the loop ended with.\<close>

definition runWriteLoop_exit :: "(bytes list \<Rightarrow> bytes \<Rightarrow> err) \<Rightarrow> err \<Rightarrow> 'u baseConn \<Rightarrow> 'u baseConn" where
  "runWriteLoop_exit wr e b =
     (let b = Close (drainMessages wr b) e in log_event (OnClose (closeErr b)) b)"

end
