(* ===== verification/ConnStream.thy ===== *)
theory ConnStream
  imports Connection "HOL-Library.Sublist"
begin

text \<open>
  The byte stream of a connection. \<open>process_stream\<close> says what a connection does with a finite
  stream held in memory; the read path of the code, which sees the stream in chunks and keeps the
  unfinished frame in its buffer, is shown to do the same on every chunking, without ever
  overflowing the buffer whose size \<^verbatim>\<open>TCPConfig.Normalize\<close> chose.
\<close>

subsection \<open>The decoder on a growing stream\<close>

lemma Decode_extend:
  assumes dec: "DecodeMessageFrameWithLimit a lim = (fr, n, e)" and "n \<noteq> 0"
  shows "DecodeMessageFrameWithLimit (a @ b) lim = (fr, n, e)"
proof -
  have len: "17 \<le> length a"
    using assms Decode_short [of a lim] by (metis Pair_inject not_le)
  have fields: "slice i j (a @ b) = slice i j a" if "j \<le> length a" for i j
    using that by (simp add: slice_append_left)
  have nths: "(a @ b) ! k = a ! k" if "k < 17" for k using that len by (simp add: nth_append)
  show ?thesis
    using assms len
    unfolding DecodeMessageFrameWithLimit_def Let_def frame_len_defs
    by (auto simp: fields nths split: if_splits option.splits dest: sym)
qed

lemma Decode_consumed:
  assumes "DecodeMessageFrameWithLimit a lim = (fr, n, e)"
  shows "n \<le> length a" and "n = 0 \<Longrightarrow> e = None" and "n \<noteq> 0 \<Longrightarrow> e = None \<Longrightarrow> fr \<noteq> None"
  using assms unfolding DecodeMessageFrameWithLimit_def Let_def frame_len_defs
  by (simp_all split: if_splits option.splits) auto

lemma Decode_pending:
  assumes "DecodeMessageFrameWithLimit a lim = (fr, 0, e)" and "17 \<le> lim"
  shows "int (length a) < lim"
proof (cases "length a < 17")
  case False
  with assms have "int (17 + unat (be_get (slice 0 4 a) :: 32 word)) \<le> lim"
    "length a < 17 + unat (be_get (slice 0 4 a) :: 32 word)"
    unfolding DecodeMessageFrameWithLimit_def Let_def frame_len_defs
    by (auto split: if_splits option.splits)
  then show ?thesis by linarith
qed (use assms in simp)

subsection \<open>What every operation keeps\<close>

text \<open>
  A preorder on connections that contains the elementary updates contains every operation of
  the receive and send paths, callbacks included. The elementary updates are the laws; \<^verbatim>\<open>OnClose\<close> is reported by the write loop only.
\<close>

lemma encrypt_state: "state (fst (encrypt b m)) = state b"
  by (auto simp: encrypt_def split: option.splits)

lemma sendExchangeKey_state: "state (fst (sendExchangeKey b)) = state b"
proof -
  have push: "state (fst (pushQueue b m)) = state b" for b :: "'a baseConn" and m
    by (auto simp: pushQueue_def enqueue_def split: list.splits bool.splits)
  have enc: "state b1 = state b" if "encrypt b m = (b1, r)" for b1 m r using that encrypt_state [of b m] by simp
  show ?thesis
    by (auto simp: sendExchangeKey_def sendFrame_def push split: option.splits sum.splits prod.splits dest!: enc)
qed

locale conn_preorder =
  fixes R :: "'u baseConn \<Rightarrow> 'u baseConn \<Rightarrow> bool"
  assumes R_refl: "R b b"
    and R_trans: "R a b \<Longrightarrow> R b c \<Longrightarrow> R a c"
    and R_push: "state b \<noteq> ConnectionStateClosed \<Longrightarrow> R b (fst (pushQueue b m))"
    and R_close: "R b (Close b e)"
    and R_user: "R b (SetUserData d b)"
    and R_timer: "R b (b\<lparr>handshakeTimer := t\<rparr>)"
    and R_event: "state b = ConnectionStateReady \<Longrightarrow> \<forall>e. ev \<noteq> OnClose e \<Longrightarrow> R b (log_event ev b)"
    and R_state: "state b < s \<Longrightarrow> R b (b\<lparr>state := s\<rparr>)"
    and R_cipher: "R b (b\<lparr>cipher := k\<rparr>)"
    and R_ready: "R b (close_readyCh b)"
    and R_panic: "R b (b\<lparr>panicked := True\<rparr>)"
    and R_touch: "R b (touch now b)"
begin

lemma R_pair: "f = (b', x) \<Longrightarrow> R b (fst f) \<Longrightarrow> R b b'"
  by simp

lemma R_encrypt: "R b (fst (encrypt b m))"
  by (auto simp: encrypt_def R_refl R_panic split: option.splits)

lemma R_decrypt: "R b (fst (decrypt b m))"
  by (auto simp: decrypt_def R_refl R_panic split: option.splits)

lemma R_sendFrame:
  assumes open_conn: "state b \<noteq> ConnectionStateClosed"
  shows "R b (fst (sendFrame b f))"
proof -
  have enc: "R b b1 \<and> state b1 \<noteq> ConnectionStateClosed" if "encrypt b m = (b1, r)" for b1 m r
    using R_pair [OF that R_encrypt] encrypt_state [of b m] that open_conn by simp
  show ?thesis
    using open_conn
    by (auto simp: sendFrame_def R_refl R_push split: option.splits sum.splits prod.splits
        intro: R_trans [OF _ R_push] dest!: enc)
qed

lemma R_SendMessage: "R b (fst (SendMessage b f))"
  by (simp add: SendMessage_def R_refl R_sendFrame)

lemma R_sendExchangeKey: "state b \<noteq> ConnectionStateClosed \<Longrightarrow> R b (fst (sendExchangeKey b))"
  by (auto simp: sendExchangeKey_def R_panic R_sendFrame split: option.splits)

lemma R_run_handler: "R b (fst (run_handler p b))"
proof (induction p arbitrary: b)
  case (CallSendMessage f k)
  show ?case
  proof (cases "SendMessage b f")
    case (Pair b1 e)
    then show ?thesis
      using CallSendMessage [OF rangeI [of k e], of b1] R_pair [OF Pair R_SendMessage] by (auto intro: R_trans)
  qed
qed (auto simp: R_refl intro: R_trans [OF R_close] R_trans [OF R_user])

lemma R_stop_timer: "R b (stop_timer b)"
  by (simp add: stop_timer_def R_timer)

lemma R_onReady:
  assumes ready: "state b = ConnectionStateReady"
  shows "R b (fst (onReady env b))"
proof -
  let ?b = "stop_timer b"
  obtain b2 e where run: "run_handler (h_OnConnected (env_handler env) (events ?b)) (log_event OnConnected ?b) = (b2, e)"
    by fastforce
  have "R b b2"
    using R_pair [OF run R_run_handler] R_event [of ?b OnConnected] ready
    by (auto simp: stop_timer_def intro: R_trans R_timer)
  then show ?thesis
    by (auto simp: onReady_def Let_def run split: option.splits intro: R_trans [OF _ R_ready])
qed

lemma R_CAS: "old < new \<Longrightarrow> R b (fst (state_CAS old new b))"
  by (auto simp: state_CAS_def R_refl intro: R_state)

lemma R_startHandshake:
  assumes open_conn: "state b \<noteq> ConnectionStateClosed"
  shows "R b (fst (startHandshake env b))"
proof -
  have send: "R (b\<lparr>cipher := k\<rparr>) b1" if "sendExchangeKey (b\<lparr>cipher := k\<rparr>) = (b1, e)" for k b1 e
    using R_pair [OF that R_sendExchangeKey] open_conn by simp
  show ?thesis
    by (auto simp: startHandshake_def Let_def R_cipher split: sum.splits prod.splits option.splits if_splits
        intro: R_trans [OF R_cipher] R_trans [OF R_cipher R_timer] R_trans [OF R_trans [OF R_cipher] R_timer] dest!: send)
qed

lemma R_start: "R b (fst (start env b))"
proof -
  have *: "ConnectionStateCreated < ConnectionStateHandshaking" "ConnectionStateCreated < ConnectionStateReady"
    by (simp_all add: less_ConnectionState_def)
  show ?thesis
    by (auto simp: start_def state_CAS_def * R_refl split: prod.splits bool.splits
        intro: R_trans [OF R_state R_startHandshake] R_trans [OF R_state R_onReady])
qed

lemma R_runStart: "R b (fst (runStart env b))"
  using R_start [of b env] by (auto simp: runStart_def split: prod.splits option.splits intro: R_trans R_close)

lemma R_handleKeyExchange: "R b (fst (handleKeyExchange env b f))"
proof (cases "state b = ConnectionStateHandshaking")
  case True
  let ?b = "b\<lparr>state := ConnectionStateReady\<rparr>"
  obtain b1 e where send: "(if role b = ConnectionRoleServer then sendExchangeKey ?b else (?b, None)) = (b1, e)"
    by fastforce
  have b1: "R b b1"
  proof -
    have "R b ?b" using True by (intro R_state) (simp add: less_ConnectionState_def)
    moreover have "R ?b b1" using send by (auto simp: R_refl split: if_splits intro: R_pair [OF _ R_sendExchangeKey])
    ultimately show ?thesis by (rule R_trans)
  qed
  have "state b1 = ConnectionStateReady"
    using send sendExchangeKey_state [of ?b] by (auto split: if_splits)
  then show ?thesis
    using True send b1
    by (auto simp: handleKeyExchange_def state_CAS_def split: prod.splits option.splits
        intro: R_trans [OF _ R_panic] R_trans [OF _ R_cipher] R_trans [OF R_trans [OF _ R_cipher] R_onReady])
qed (simp add: handleKeyExchange_def state_CAS_def R_refl)

lemma R_processFrame: "R b (fst (processFrame env b f))"
  by (auto simp: processFrame_def R_refl R_handleKeyExchange intro!: R_trans [OF R_event R_run_handler])

lemma R_prepareMessageFrame: "R b (fst (prepareMessageFrame b f))"
proof -
  have "R b b1" if "decrypt b m = (b1, r)" for b1 m r using R_pair [OF that R_decrypt] .
  then show ?thesis
    by (auto simp: prepareMessageFrame_def R_refl split: sum.splits prod.splits if_splits)
qed

lemma R_onProcess: "R b (fst (onProcess env now b data))"
proof -
  have prep: "R b b1" if "prepareMessageFrame (touch now b) f = (b1, r)" for b1 f r
    using R_pair [OF that R_prepareMessageFrame] by (blast intro: R_trans R_touch)
  have proc: "R a b1" if "processFrame env a f = (b1, r)" for a b1 f r
    using R_pair [OF that R_processFrame] .
  show ?thesis
    by (auto simp: onProcess_def R_refl R_panic split: prod.splits option.splits sum.splits
        intro: prep R_trans [OF prep proc])
qed

end

text \<open>
  The preorder of interest: identity, role and configuration never change, the state only moves
  forward, callbacks and accepted messages are only appended and nothing is once it is closed, every message that is accepted is
  put into the send channel, whose capacity is respected, and nothing but the write loop writes.
\<close>

definition conn_grows :: "'u baseConn \<Rightarrow> 'u baseConn \<Rightarrow> bool" where
  "conn_grows a b \<longleftrightarrow> conn_id b = conn_id a \<and> role b = role a \<and> options b = options a
     \<and> state a \<le> state b \<and> prefix (events a) (events b) \<and> wire b = wire a
     \<and> (state a = ConnectionStateClosed \<longrightarrow> events b = events a \<and> accepted b = accepted a)
     \<and> (\<exists>ms. accepted b = accepted a @ ms \<and> sendChannel b = sendChannel a @ ms
          \<and> (ms \<noteq> [] \<longrightarrow> int (length (sendChannel b)) \<le> SendChanSize (options a)))"

lemma conn_grows_simple:
  assumes "conn_id b = conn_id a" "role b = role a" "options b = options a" "state a \<le> state b"
    and "prefix (events a) (events b)" "state a = ConnectionStateClosed \<longrightarrow> events b = events a"
    and "wire b = wire a" "accepted b = accepted a" "sendChannel b = sendChannel a"
  shows "conn_grows a b"
  using assms by (simp add: conn_grows_def)

lemma conn_grows_trans: "conn_grows a b \<Longrightarrow> conn_grows b c \<Longrightarrow> conn_grows a c"
  unfolding conn_grows_def by (auto intro: order_trans prefix_order.trans antisym)

lemma conn_grows_push: "state b \<noteq> ConnectionStateClosed \<Longrightarrow> conn_grows b (fst (pushQueue b m))"
  by (auto simp: pushQueue_def enqueue_def conn_grows_def has_room_def split: list.splits bool.splits)

interpretation grows: conn_preorder conn_grows
proof (unfold_locales, goal_cases)
  case (2 a b c)
  then show ?case by (rule conn_grows_trans)
next
  case 3
  then show ?case by (rule conn_grows_push)
qed (auto intro!: conn_grows_simple simp: Close_def stop_timer_def SetUserData_def log_event_def close_readyCh_def
    touch_def split: option.splits)

lemmas conn_growsD = conn_grows_def [THEN iffD1, THEN conjunct1]
  conn_grows_def [THEN iffD1, THEN conjunct2, THEN conjunct1]
  conn_grows_def [THEN iffD1, THEN conjunct2, THEN conjunct2, THEN conjunct1]

lemma onProcess_options [simp]: "options (fst (onProcess env now b data)) = options b"
  using grows.R_onProcess [of b env now data] by (rule conn_growsD(3))

subsection \<open>The specification of the receive path\<close>

lemma onProcess_decode:
  assumes "onProcess env now b data = (b', n, e)"
  obtains fr ed where "DecodeMessageFrameWithLimit data (MaxInboundSize (options b)) = (fr, n, ed)"
proof -
  obtain fr k ed where dec: "DecodeMessageFrameWithLimit data (MaxInboundSize (options b)) = (fr, k, ed)"
    by (metis prod_cases3)
  then have "n = k" using assms by (auto simp: onProcess_def split: option.splits prod.splits sum.splits if_splits)
  with dec that show ?thesis by blast
qed

lemma onProcess_consumed:
  assumes on: "onProcess env now b data = (b', n, e)"
  shows "n \<le> length data" and "n = 0 \<Longrightarrow> b' = b \<and> e = None"
proof -
  from onProcess_decode [OF on] obtain fr ed where
    dec: "DecodeMessageFrameWithLimit data (MaxInboundSize (options b)) = (fr, n, ed)" .
  with Decode_consumed [OF dec] on show "n \<le> length data" "n = 0 \<Longrightarrow> b' = b \<and> e = None"
    by (auto simp: onProcess_def split: option.splits)
qed

lemma onProcess_extend:
  assumes on: "onProcess env now b data = (b', n, e)" and "n \<noteq> 0"
  shows "onProcess env now b (data @ bs) = (b', n, e)"
proof -
  from onProcess_decode [OF on] obtain fr ed where
    dec: "DecodeMessageFrameWithLimit data (MaxInboundSize (options b)) = (fr, n, ed)" .
  with Decode_extend [OF dec \<open>n \<noteq> 0\<close>, of bs] on show ?thesis by (simp add: onProcess_def)
qed

lemma onProcess_decreases: "(b', n, e) = onProcess env now b bs \<Longrightarrow> 0 < n \<Longrightarrow> length bs - n < length bs"
  using onProcess_consumed(1) [of env now b bs b' n e] by auto

function process_stream :: "'u conn_env \<Rightarrow> int \<Rightarrow> 'u baseConn \<Rightarrow> bytes \<Rightarrow> 'u baseConn \<times> bytes \<times> err" where
  "process_stream env now b bs =
     (case onProcess env now b bs of
        (b, n, Some e) \<Rightarrow> (b, bs, Some e)
      | (b, n, None) \<Rightarrow> if n = 0 then (b, bs, None) else process_stream env now b (drop n bs))"
  by pat_completeness auto
termination
  by (relation "measure (\<lambda>(_, _, _, bs). length bs)") (simp, auto dest!: onProcess_decreases)

declare process_stream.simps [simp del]

lemma process_stream_error:
  "onProcess env now b bs = (b', n, Some e) \<Longrightarrow> process_stream env now b bs = (b', bs, Some e)"
  by (subst process_stream.simps) simp

lemma process_stream_pending:
  "onProcess env now b bs = (b', 0, None) \<Longrightarrow> process_stream env now b bs = (b', bs, None)"
  by (subst process_stream.simps) simp

lemma process_stream_next:
  "onProcess env now b bs = (b', n, None) \<Longrightarrow> n \<noteq> 0 \<Longrightarrow>
   process_stream env now b bs = process_stream env now b' (drop n bs)"
  by (subst process_stream.simps) simp


text \<open>Reading a stream in two pieces is reading it at once.\<close>

lemma process_stream_append:
  "process_stream env now b (xs @ ys) =
     (case process_stream env now b xs of
        (b1, r, Some e) \<Rightarrow> (b1, r @ ys, Some e)
      | (b1, r, None) \<Rightarrow> process_stream env now b1 (r @ ys))"
proof (induction env now b xs rule: process_stream.induct)
  case (1 env now b xs)
  obtain b1 n e where on: "onProcess env now b xs = (b1, n, e)" by (metis prod_cases3)
  show ?case
  proof (cases "n = 0")
    case True
    with onProcess_consumed(2) [OF on] on have "onProcess env now b xs = (b, 0, None)" by auto
    then show ?thesis by (simp add: process_stream_pending)
  next
    case False
    note ext = onProcess_extend [OF on False, of ys]
    show ?thesis
    proof (cases e)
      case None
      then show ?thesis
        using 1 [OF on [symmetric] refl None False] onProcess_consumed(1) [OF on] False
        by (simp add: process_stream_next [OF on [unfolded None] False] process_stream_next [OF ext [unfolded None] False])
    next
      case (Some e')
      then show ?thesis by (simp add: process_stream_error [OF on [unfolded Some]] process_stream_error [OF ext [unfolded Some]])
    qed
  qed
qed

lemma process_stream_options [simp]: "options (fst (process_stream env now b bs)) = options b"
proof (induction env now b bs rule: process_stream.induct)
  case (1 env now b bs)
  obtain b1 n e where on: "onProcess env now b bs = (b1, n, e)" by (metis prod_cases3)
  then have "options b1 = options b" using onProcess_options [of env now b bs] by simp
  with on 1 [OF on [symmetric] refl] show ?case by (subst process_stream.simps) (simp split: option.splits)
qed

text \<open>What is left of the stream is an unfinished frame, shorter than the largest one.\<close>

lemma process_stream_rest:
  assumes "process_stream env now b bs = (b', r, None)" and "17 \<le> MaxInboundSize (options b)"
  shows "int (length r) < MaxInboundSize (options b) \<and> onProcess env now b' r = (b', 0, None)"
  using assms
proof (induction env now b bs rule: process_stream.induct)
  case (1 env now b bs)
  obtain b1 n e where on: "onProcess env now b bs = (b1, n, e)" by (metis prod_cases3)
  then have opt: "options b1 = options b" using onProcess_options [of env now b bs] by simp
  from 1(2) on have e: "e = None" by (cases e) (simp_all add: process_stream_error)
  show ?case
  proof (cases "n = 0")
    case True
    with onProcess_consumed(2) [OF on] on have idle: "onProcess env now b bs = (b, 0, None)" by auto
    from onProcess_decode [OF idle] obtain fr ed where
      dec: "DecodeMessageFrameWithLimit bs (MaxInboundSize (options b)) = (fr, 0, ed)" by blast
    from idle 1(2) have "r = bs" "b' = b" by (simp_all add: process_stream_pending)
    with idle Decode_pending [OF dec 1(3)] show ?thesis by simp
  next
    case False
    then show ?thesis
      using 1(1) [OF on [symmetric] refl e False] 1(2,3) process_stream_next [OF on [unfolded e] False] opt by simp
  qed
qed

subsection \<open>The loop over an IBuffer implements the specification\<close>

context ibuffer
begin

lemma processReadBuffer_stream:
  assumes "wf rb"
  shows "\<exists>rb'. processReadBuffer content len skip_bytes env now b rb =
      Some (fst (process_stream env now b (content rb)), rb', snd (snd (process_stream env now b (content rb))))
    \<and> wf rb' \<and> bound rb' = bound rb \<and> content rb' = fst (snd (process_stream env now b (content rb)))"
  using assms
proof (induction "content rb" arbitrary: b rb rule: length_induct)
  case 1
  obtain b1 n e where on: "onProcess env now b (content rb) = (b1, n, e)" by (metis prod_cases3)
  have n: "n \<le> len rb" using onProcess_consumed(1) [OF on] len_content [OF 1(2)] by simp
  show ?case
  proof (cases e)
    case (Some e')
    then show ?thesis
      using on 1(2) by (subst processReadBuffer.simps) (simp add: process_stream_error)
  next
    case None
    show ?thesis
    proof (cases "n = 0")
      case True
      then show ?thesis
        using on None n 1(2) by (subst processReadBuffer.simps) (simp add: process_stream_pending)
    next
      case False
      have "int n \<le> int (length (content rb))" using onProcess_consumed(1) [OF on] by simp
      from skip_within [OF 1(2) _ this] obtain rb1 where
        skip: "skip_bytes rb (int n) = (rb1, None)" "wf rb1" "content rb1 = drop n (content rb)" "bound rb1 = bound rb"
        by auto
      have "length (content rb1) < length (content rb)"
        using skip(3) False onProcess_consumed(1) [OF on] by simp
      with 1(1) skip(2) have "\<exists>rb'. processReadBuffer content len skip_bytes env now b1 rb1 =
          Some (fst (process_stream env now b1 (content rb1)), rb', snd (snd (process_stream env now b1 (content rb1))))
        \<and> wf rb' \<and> bound rb' = bound rb1 \<and> content rb' = fst (snd (process_stream env now b1 (content rb1)))"
        by blast
      then show ?thesis
        using on None n False skip
        by (subst processReadBuffer.simps) (simp add: process_stream_next)
    qed
  qed
qed

end

subsection \<open>The time of activity does not matter\<close>

text \<open>
  \<open>at\<close> sets the time of the last activity. Every operation on the receive path commutes with it, so
  chunks that arrive at different times can be compared.
\<close>

abbreviation at :: "int \<Rightarrow> 'u baseConn \<Rightarrow> 'u baseConn" where
  "at t b \<equiv> b\<lparr>lastActive := t\<rparr>"

lemma pushQueue_at: "pushQueue (at t b) m = apfst (at t) (pushQueue b m)"
  by (simp add: pushQueue_def has_room_def enqueue_def split: list.splits bool.splits)

lemma encrypt_at: "encrypt (at t b) m = apfst (at t) (encrypt b m)"
  by (simp add: encrypt_def split: option.splits)

lemma decrypt_at: "decrypt (at t b) m = apfst (at t) (decrypt b m)"
  by (simp add: decrypt_def split: option.splits)

lemma sendFrame_at: "sendFrame (at t b) f = apfst (at t) (sendFrame b f)"
  by (auto simp: sendFrame_def codec_encode_def encrypt_at pushQueue_at split: option.splits sum.splits prod.splits)

lemma SendMessage_at: "SendMessage (at t b) f = apfst (at t) (SendMessage b f)"
  by (simp add: SendMessage_def sendFrame_at)

lemma sendExchangeKey_at: "sendExchangeKey (at t b) = apfst (at t) (sendExchangeKey b)"
  by (simp add: sendExchangeKey_def sendFrame_at split: option.splits)

lemma Close_at: "Close (at t b) e = at t (Close b e)"
  by (simp add: Close_def stop_timer_def)

lemma SetUserData_at: "SetUserData d (at t b) = at t (SetUserData d b)"
  by (simp add: SetUserData_def split: option.splits)

lemma run_handler_at: "run_handler p (at t b) = apfst (at t) (run_handler p b)"
  by (induction p arbitrary: b)
    (simp_all add: SendMessage_at Close_at SetUserData_at UserData_def split: prod.splits)

lemma onReady_at: "onReady env (at t b) = apfst (at t) (onReady env b)"
proof -
  have [simp]: "log_event ev (at t b) = at t (log_event ev b)" "stop_timer (at t b) = at t (stop_timer b)"
    "close_readyCh (at t b) = at t (close_readyCh b)" for ev b
    by (simp_all add: log_event_def stop_timer_def close_readyCh_def)
  show ?thesis by (simp add: onReady_def Let_def run_handler_at split: prod.splits option.splits)
qed

lemma state_CAS_at: "state_CAS s s' (at t b) = apfst (at t) (state_CAS s s' b)"
  by (simp add: state_CAS_def)

lemma cipher_at: "b\<lparr>lastActive := t, cipher := k\<rparr> = at t (b\<lparr>cipher := k\<rparr>)"
  by simp

lemma state_at: "b\<lparr>lastActive := t, state := s\<rparr> = at t (b\<lparr>state := s\<rparr>)"
  by simp

lemma handleKeyExchange_at: "handleKeyExchange env (at t b) f = apfst (at t) (handleKeyExchange env b f)"
proof (cases "state b = ConnectionStateHandshaking")
  case True
  define send where "send b = (if role b = ConnectionRoleServer then sendExchangeKey b else (b, None))" for b :: "'a baseConn"
  define fin where "fin b = (case cipher b of
      None \<Rightarrow> (b\<lparr>panicked := True\<rparr>, Some nil_dereference)
    | Some c \<Rightarrow> (case ECDHCipher_GenerateSharedKey (env_crypto env) c (Body f) of
          (c1, Some e) \<Rightarrow> (b\<lparr>cipher := Some c1\<rparr>, Some e)
        | (c1, None) \<Rightarrow> onReady env (b\<lparr>cipher := Some c1\<rparr>)))" for b
  have unfold: "handleKeyExchange env b f =
      (case send (b\<lparr>state := ConnectionStateReady\<rparr>) of (b1, None) \<Rightarrow> fin b1 | (b1, Some e) \<Rightarrow> (b1, Some e))"
    if "state b = ConnectionStateHandshaking" for b
    using that by (simp add: handleKeyExchange_def state_CAS_def send_def fin_def split: prod.splits option.splits)
  have fin: "fin (at t b) = apfst (at t) (fin b)" for b
    by (simp add: fin_def cipher_at onReady_at split: option.splits prod.splits)
  have send: "send (at t b) = apfst (at t) (send b)" for b
    by (simp add: send_def sendExchangeKey_at)
  show ?thesis using True by (simp add: unfold state_at send fin split: prod.splits option.splits)
qed (simp add: handleKeyExchange_def state_CAS_def)

lemma processFrame_at: "processFrame env (at t b) f = apfst (at t) (processFrame env b f)"
proof -
  have "log_event ev (at t b) = at t (log_event ev b)" for ev by (simp add: log_event_def)
  then show ?thesis by (simp add: processFrame_def handleKeyExchange_at run_handler_at)
qed

lemma prepareMessageFrame_at: "prepareMessageFrame (at t b) f = apfst (at t) (prepareMessageFrame b f)"
  by (simp add: prepareMessageFrame_def decrypt_at split: prod.splits sum.splits option.splits)

lemma onProcess_at:
  assumes "onProcess env now b data = (b', n, e)"
  shows "\<exists>t'. onProcess env now1 (at t b) data = (at t' b', n, e)"
proof (cases "DecodeMessageFrameWithLimit data (MaxInboundSize (options b))")
  case (fields fr k ed)
  show ?thesis
  proof (cases "ed = None \<and> k \<noteq> 0 \<and> fr \<noteq> None")
    case True
    then obtain f where f: "fr = Some f" "ed = None" "k \<noteq> 0" by auto
    obtain b1 r where prep: "prepareMessageFrame b f = (b1, r)" by fastforce
    then have "prepareMessageFrame (at t b) f = (at t b1, r)" for t by (simp add: prepareMessageFrame_at)
    then show ?thesis
      using assms fields f prep
      by (cases r; cases "processFrame env b1 (projr r)") (auto simp: onProcess_def touch_def processFrame_at)
  next
    case False
    then show ?thesis using assms fields by (auto simp: onProcess_def split: option.splits if_splits intro!: exI [of _ t])
  qed
qed

lemma process_stream_at:
  "process_stream env now b bs = (b', r, e) \<Longrightarrow> \<exists>t'. process_stream env now1 (at t b) bs = (at t' b', r, e)"
proof (induction env now b bs arbitrary: t rule: process_stream.induct)
  case (1 env now b bs)
  obtain b1 n e1 where on: "onProcess env now b bs = (b1, n, e1)" by (metis prod_cases3)
  from onProcess_at [OF on] obtain t1 where on1: "onProcess env now1 (at t b) bs = (at t1 b1, n, e1)" by blast
  show ?case
  proof (cases "e1 = None \<and> n \<noteq> 0")
    case True
    then show ?thesis
      using 1(1) [OF on [symmetric] refl, of t1] 1(2) on on1 by (auto simp: process_stream_next)
  next
    case False
    then show ?thesis
      using 1(2) on on1 by (cases e1) (auto simp: process_stream_error process_stream_pending)
  qed
qed

subsection \<open>The read loop\<close>

lemma readLoop_chunks:
  assumes "Buffer_wf rb" and "17 \<le> MaxInboundSize (options b)"
    and "MaxInboundSize (options b) + tcpReadChunkSize \<le> int (buf_maxCap rb)"
    and "\<forall>(t, ch) \<in> set chunks. ch \<noteq> [] \<and> int (length ch) \<le> tcpReadChunkSize"
    and "onProcess env now b (Buffer_Bytes rb) = (b, 0, None)"
    and "process_stream env now b (Buffer_Bytes rb @ concat (map snd chunks)) = (b', r, e)"
  shows "\<exists>t rb'. readLoop env (map (apsnd Inr) chunks) \<lparr>tcp_base = b, readBuffer = rb\<rparr> =
      Some (\<lparr>tcp_base = (case e of None \<Rightarrow> at t b' | Some _ \<Rightarrow> Close (at t b') e), readBuffer = rb'\<rparr>, e)
    \<and> (e = None \<longrightarrow> Buffer_Bytes rb' = r)"
  using assms
proof (induction chunks arbitrary: rb b b' now)
  case Nil
  then have "b' = b \<and> r = Buffer_Bytes rb \<and> e = None" by (simp add: process_stream_pending)
  then show ?case by (auto intro!: exI [of _ "lastActive b"])
next
  case (Cons tc chunks)
  obtain t ch where tc: "tc = (t, ch)" by fastforce
  have ch: "ch \<noteq> []" "int (length ch) \<le> tcpReadChunkSize" using Cons.prems(4) tc by auto
  have "process_stream env now b (Buffer_Bytes rb) = (b, Buffer_Bytes rb, None)"
    using Cons.prems(5) by (simp add: process_stream_pending)
  from process_stream_rest [OF this] Cons.prems(2) have "int (length (Buffer_Bytes rb)) < MaxInboundSize (options b)" by simp
  with ch Cons.prems(3) have "length (Buffer_Bytes rb) + length ch \<le> buf_maxCap rb" by linarith
  from ibuf.write_fits [OF Cons.prems(1) this] obtain rb1 where
    w: "Buffer_Write rb ch = Some (rb1, length ch, None)" "Buffer_wf rb1" "Buffer_Bytes rb1 = Buffer_Bytes rb @ ch"
      "buf_maxCap rb1 = buf_maxCap rb" by blast
  obtain b1 r1 e1 where ps: "process_stream env t b (Buffer_Bytes rb @ ch) = (b1, r1, e1)" by (metis prod_cases3)
  from ibuf.processReadBuffer_stream [OF w(2), of env t b] ps w(3) obtain rb2 where
    loop: "processReadBuffer Buffer_Bytes Buffer_Len Buffer_Skip env t b rb1 = Some (b1, rb2, e1)"
      "Buffer_wf rb2" "buf_maxCap rb2 = buf_maxCap rb" "Buffer_Bytes rb2 = r1" using w(4) by auto
  have it: "readLoop_iteration env t \<lparr>tcp_base = b, readBuffer = rb\<rparr> (Inr ch) =
      Some (\<lparr>tcp_base = b1, readBuffer = rb2\<rparr>, e1)"
    using ch w loop by (simp add: readLoop_iteration_def)
  from process_stream_at [OF Cons.prems(6), of t "lastActive b"] obtain t2 where
    whole: "process_stream env t b (Buffer_Bytes rb @ ch @ concat (map snd chunks)) = (at t2 b', r, e)"
    by (auto simp: tc)
  have split: "process_stream env t b (Buffer_Bytes rb @ ch @ concat (map snd chunks)) =
      (case e1 of Some e \<Rightarrow> (b1, r1 @ concat (map snd chunks), Some e)
        | None \<Rightarrow> process_stream env t b1 (r1 @ concat (map snd chunks)))"
    using process_stream_append [of env t b "Buffer_Bytes rb @ ch"] ps by (simp split: option.splits)
  show ?case
  proof (cases e1)
    case (Some x)
    with split whole have "b1 = at t2 b'" "e = Some x" by auto
    then show ?thesis using it Some by (auto simp: tc)
  next
    case None
    have opt: "options b1 = options b" using process_stream_options [of env t b "Buffer_Bytes rb @ ch"] ps by simp
    from process_stream_rest [OF ps [unfolded None] Cons.prems(2)] have "onProcess env t b1 r1 = (b1, 0, None)" by blast
    then have idle: "onProcess env t b1 (Buffer_Bytes rb2) = (b1, 0, None)" using loop(4) by simp
    have rest: "process_stream env t b1 (Buffer_Bytes rb2 @ concat (map snd chunks)) = (at t2 b', r, e)"
      using split whole None loop(4) by simp
    have "\<forall>(t, ch)\<in>set chunks. ch \<noteq> [] \<and> int (length ch) \<le> tcpReadChunkSize" using Cons.prems(4) by auto
    from Cons.IH [OF loop(2) _ _ this idle rest] opt Cons.prems(2,3) loop(3)
    obtain t3 rb' where "readLoop env (map (apsnd Inr) chunks) \<lparr>tcp_base = b1, readBuffer = rb2\<rparr> =
        Some (\<lparr>tcp_base = (case e of None \<Rightarrow> at t3 b' | Some _ \<Rightarrow> Close (at t3 b') e), readBuffer = rb'\<rparr>, e)"
      "e = None \<longrightarrow> Buffer_Bytes rb' = r" by (cases e) auto
    then show ?thesis using it None by (auto simp: tc)
  qed
qed

text \<open>
  C18: For every configuration that passed \<^verbatim>\<open>Normalize\<close> and admits at least an empty frame, the
  read loop of a TCP connection does to the connection exactly what processing the whole stream at
  once does, however the stream is cut into chunks of at most the chunk size and whenever the
  chunks arrive (only the time of the last activity may differ); it never fails for lack of buffer
  space, it returns, and it keeps exactly the unfinished frame. On an error the connection is closed
  with that error.
\<close>

theorem tcp_read_chunking:
  assumes "17 \<le> MaxInboundSize (TCPConfig_Normalize cfg)"
    and "options b = CommonConfig.truncate (TCPConfig_Normalize cfg)"
    and "\<forall>(t, ch) \<in> set chunks. ch \<noteq> [] \<and> int (length ch) \<le> tcpReadChunkSize"
    and "process_stream env now b (concat (map snd chunks)) = (b', r, e)"
  shows "\<exists>t rb'. readLoop env (map (apsnd Inr) chunks)
        ((newTCPConnection cid (TCPConfig_Normalize cfg) rl t0 ps)\<lparr>tcp_base := b\<rparr>) =
      Some (\<lparr>tcp_base = (case e of None \<Rightarrow> b'\<lparr>lastActive := t\<rparr> | Some _ \<Rightarrow> Close (b'\<lparr>lastActive := t\<rparr>) e),
             readBuffer = rb'\<rparr>, e)
    \<and> (e = None \<longrightarrow> Buffer_Bytes rb' = r)"
proof -
  let ?cap = "ReadBufferCap (TCPConfig_Normalize cfg)"
  let ?rb = "Buffer_New ?cap [?cap]"
  have opt: "MaxInboundSize (options b) = MaxInboundSize (TCPConfig_Normalize cfg)"
    using assms(2) by (simp add: CommonConfig.defs)
  have "MaxInboundSize (options b) + tcpReadChunkSize \<le> ?cap"
    using TCPConfig_Normalize_cap [of cfg] opt by simp
  moreover from this have "int (buf_maxCap ?rb) = ?cap"
    using assms(1) opt by (simp add: Buffer_New_def Let_def config_consts)
  moreover have "onProcess env now b (Buffer_Bytes ?rb) = (b, 0, None)"
    by (simp add: onProcess_def Decode_short)
  ultimately show ?thesis
    using readLoop_chunks [OF Buffer_New_wf, of b ?cap "[?cap]" chunks env now b' r e] assms opt
    by (simp add: newTCPConnection_def)
qed

text \<open>An example: a ready connection without encryption and the example frame in two chunks.\<close>

definition sample_env :: "unit conn_env" where
  "sample_env = \<lparr>env_handler = DefaultTransportHandler, env_crypto = xor_crypto, env_key = Inr (replicate 32 1)\<rparr>"

definition sample_conn :: "unit baseConn" where
  "sample_conn = (newBaseConnWithRole 1 (CommonConfig.truncate (TCPConfig_Normalize (DefaultTCPConfig ''a'')))
     ConnectionRoleServer 0 [])\<lparr>state := ConnectionStateReady\<rparr>"

lemma sample_inbound:
  "MaxInboundSize (TCPConfig_Normalize (DefaultTCPConfig a)) = 32768"
  "options sample_conn = CommonConfig.truncate (TCPConfig_Normalize (DefaultTCPConfig ''a''))"
  "MaxInboundSize (options sample_conn) = 32768" "EncryptEnable (options sample_conn) = False"
  "cfg_Codec (options sample_conn) = None"
  by (simp_all add: TCPConfig_Normalize_def CommonConfig_Normalize_def DefaultTCPConfig_def zero_CommonConfig_def
      CommonConfig.defs positive_or_def config_consts sample_conn_def newBaseConnWithRole_def touch_def Let_def)

theorem tcp_read_chunking_witness:
  "\<exists>c. readLoop sample_env
       [(5, Inr [0, 0, 0, 1, 1]), (9, Inr [2, 0, 0, 0, 0, 0, 0, 7, 0x09, 0xB9, 0x26, 0x5B, 42, 0])]
       ((newTCPConnection 1 (TCPConfig_Normalize (DefaultTCPConfig ''a'')) ConnectionRoleServer 0 [])\<lparr>tcp_base := sample_conn\<rparr>)
     = Some (c, None)
     \<and> events (tcp_base c) = [OnMessage (sample_frame\<lparr>frame_crc := 0x09B9265B\<rparr>)] \<and> Buffer_Bytes (readBuffer c) = [0]"
proof -
  let ?bs = "[0, 0, 0, 1, 1, 2, 0, 0, 0, 0, 0, 0, 7, 0x09, 0xB9, 0x26, 0x5B, 42] :: bytes"
  let ?b = "log_event (OnMessage (sample_frame\<lparr>frame_crc := 0x09B9265B\<rparr>)) (touch 0 sample_conn)"
  have body: "Body sample_frame = [42]" "Cmd sample_frame = 1" by (simp_all add: sample_frame_def NewMessageFrame_def)
  have dec: "DecodeMessageFrameWithLimit (?bs @ [0]) 32768 = (Some (sample_frame\<lparr>frame_crc := 0x09B9265B\<rparr>), 18, None)"
    using Decode_encoded_limit [OF encode_sample_frame, of 32768 "[0]"] by (simp add: body crc_sample)
  have st: "state sample_conn = ConnectionStateReady" by (simp add: sample_conn_def)
  have on: "onProcess sample_env 0 sample_conn (?bs @ [0]) = (?b, 18, None)"
    using dec by (simp add: onProcess_def sample_inbound(3-5) prepareMessageFrame_def IsInternalCommand_def internal_defs
        sample_frame_def NewMessageFrame_def decrypt_def touch_def processFrame_def st sample_env_def DefaultTransportHandler_def)
  have "onProcess sample_env 0 ?b [0] = (?b, 0, None)" by (simp add: onProcess_def Decode_short)
  then have ps: "process_stream sample_env 0 sample_conn (?bs @ [0]) = (?b, [0], None)"
    using process_stream_next [OF on] by (simp add: process_stream_pending)
  have ev: "events sample_conn = []" by (simp add: sample_conn_def newBaseConnWithRole_def touch_def)
  show ?thesis
    using tcp_read_chunking [of "DefaultTCPConfig ''a''" sample_conn
        "[(5, [0, 0, 0, 1, 1]), (9, [2, 0, 0, 0, 0, 0, 0, 7, 0x09, 0xB9, 0x26, 0x5B, 42, 0])]" sample_env 0 ?b "[0]" None
        1 ConnectionRoleServer 0 "[]"] ps
    by (auto simp: sample_inbound config_consts log_event_def touch_def ev)
qed

end
