(* ===== verification/ConnLifecycle.thy ===== *)
theory ConnLifecycle
  imports ConnStream
begin

text \<open>
  The life of a connection: its goroutines (reader, writer, handshake timer, callers of
  \<^verbatim>\<open>SendMessage\<close> and \<^verbatim>\<open>Close\<close>) interleave as steps of a relation. One step is one iteration of a
  loop or one call; the order of steps is arbitrary.
\<close>

subsection \<open>The invariant of a connection\<close>

definition connected_events :: "conn_event list \<Rightarrow> bool" where
  "connected_events evs \<longleftrightarrow> (\<exists>ms. evs = OnConnected # map OnMessage ms)"

text \<open>\<^verbatim>\<open>OnConnected\<close> comes first and once, then messages, then \<^verbatim>\<open>OnClose\<close> once.\<close>

definition events_ok :: "conn_event list \<Rightarrow> bool" where
  "events_ok evs \<longleftrightarrow> (\<exists>c. (c = [] \<or> connected_events c) \<and> (evs = c \<or> (\<exists>e. evs = c @ [OnClose e])))"

definition conn_inv :: "'u baseConn \<Rightarrow> bool" where
  "conn_inv b \<longleftrightarrow> (ctx_done b \<longleftrightarrow> state b = ConnectionStateClosed) \<and> \<not> panicked b \<and> ready_closes b \<le> 1
     \<and> (state b = ConnectionStateHandshaking \<or> state b = ConnectionStateReady \<and> EncryptEnable (options b) \<longrightarrow> cipher b \<noteq> None)
     \<and> (state b \<in> {ConnectionStateCreated, ConnectionStateHandshaking} \<longrightarrow> events b = [] \<and> ready_closes b = 0)
     \<and> (state b = ConnectionStateReady \<longrightarrow> connected_events (events b))
     \<and> events_ok (events b)"

text \<open>Between the change of state and \<^verbatim>\<open>OnConnected\<close>: everything but the callback.\<close>

definition becoming_ready :: "'u baseConn \<Rightarrow> bool" where
  "becoming_ready b \<longleftrightarrow> state b = ConnectionStateReady \<and> \<not> ctx_done b \<and> \<not> panicked b \<and> ready_closes b = 0
     \<and> (EncryptEnable (options b) \<longrightarrow> cipher b \<noteq> None) \<and> events b = []"

lemma events_ok_Nil [simp]: "events_ok []"
  by (simp add: events_ok_def)

lemma events_ok_connected: "connected_events evs \<Longrightarrow> events_ok evs"
  by (auto simp: events_ok_def)

lemma connected_events_snoc: "connected_events evs \<Longrightarrow> connected_events (evs @ [OnMessage f])"
  unfolding connected_events_def by (metis append_Cons list.simps(8,9) map_append)

lemma events_ok_close:
  assumes "events_ok evs" and "\<forall>e. OnClose e \<notin> set evs"
  shows "events_ok (evs @ [OnClose e])"
  using assms unfolding events_ok_def by auto

text \<open>Sending changes only the send channel, and nothing at all unless it succeeds.\<close>

definition only_sends :: "'u baseConn \<Rightarrow> 'u baseConn \<Rightarrow> bool" where
  "only_sends a b \<longleftrightarrow> (\<exists>q acc ps. b = a\<lparr>sendChannel := q, accepted := acc, picks := ps\<rparr>)"

lemma only_sends_refl: "only_sends a a"
  unfolding only_sends_def by (intro exI [of _ "sendChannel a"] exI [of _ "accepted a"] exI [of _ "picks a"]) simp

lemma only_sends_push: "only_sends b (fst (pushQueue b m))"
proof -
  have "only_sends b (b\<lparr>picks := ps\<rparr>)" for ps
    unfolding only_sends_def by (intro exI [of _ "sendChannel b"] exI [of _ "accepted b"] exI [of _ ps]) simp
  moreover have "only_sends b (enqueue m b)"
    unfolding only_sends_def enqueue_def
    by (intro exI [of _ "sendChannel b @ [m]"] exI [of _ "accepted b @ [m]"] exI [of _ "picks b"]) simp
  moreover have "only_sends b (enqueue m (b\<lparr>picks := ps\<rparr>))" for ps
    unfolding only_sends_def enqueue_def
    by (intro exI [of _ "sendChannel b @ [m]"] exI [of _ "accepted b @ [m]"] exI [of _ ps]) simp
  ultimately show ?thesis
    by (auto simp: pushQueue_def only_sends_refl split: list.splits bool.splits)
qed

lemma only_sends_sendFrame:
  assumes "EncryptEnable (options b) \<and> state b = ConnectionStateReady \<longrightarrow> cipher b \<noteq> None"
  shows "only_sends b (fst (sendFrame b f))"
proof -
  have "fst (encrypt b m) = b" for m using assms by (auto simp: encrypt_def)
  then have enc: "b1 = b" if "encrypt b m = (b1, r)" for b1 m r using that by (metis fst_conv)
  show ?thesis
    by (auto simp: sendFrame_def only_sends_refl only_sends_push split: option.splits sum.splits prod.splits dest!: enc)
qed

lemma only_sends_SendMessage:
  "conn_inv b \<Longrightarrow> only_sends b (fst (SendMessage b f))"
  by (auto simp: SendMessage_def only_sends_refl conn_inv_def intro!: only_sends_sendFrame)

lemma only_sends_sendExchangeKey:
  "cipher b \<noteq> None \<Longrightarrow> only_sends b (fst (sendExchangeKey b))"
  by (auto simp: sendExchangeKey_def intro!: only_sends_sendFrame)

lemma only_sends_inv:
  assumes "only_sends a b" and "conn_inv a"
  shows "conn_inv b"
proof -
  from assms(1) obtain q acc ps where "b = a\<lparr>sendChannel := q, accepted := acc, picks := ps\<rparr>"
    by (auto simp: only_sends_def)
  with assms(2) show ?thesis by (simp add: conn_inv_def)
qed

lemma only_sends_keeps:
  "only_sends a b \<Longrightarrow> state b = state a \<and> cipher b = cipher a \<and> events b = events a
     \<and> ready_closes b = ready_closes a \<and> panicked b = panicked a \<and> ctx_done b = ctx_done a \<and> options b = options a \<and> role b = role a"
  by (auto simp: only_sends_def)

lemma SendMessage_inv [inv_intros]: "conn_inv b \<Longrightarrow> conn_inv (fst (SendMessage b f))"
  by (blast intro: only_sends_inv only_sends_SendMessage)

lemma Close_inv [inv_intros]: "conn_inv b \<Longrightarrow> conn_inv (Close b e)"
  by (auto simp: conn_inv_def Close_def stop_timer_def)

lemma SetUserData_inv [inv_intros]: "conn_inv b \<Longrightarrow> conn_inv (SetUserData d b)"
  by (auto simp: conn_inv_def SetUserData_def split: option.splits)

text \<open>A callback keeps the invariant, the callbacks made, the cipher and the ready channel.\<close>

lemma run_handler_inv:
  assumes "conn_inv b"
  shows "conn_inv (fst (run_handler p b)) \<and> events (fst (run_handler p b)) = events b
    \<and> ready_closes (fst (run_handler p b)) = ready_closes b \<and> cipher (fst (run_handler p b)) = cipher b"
  using assms
proof (induction p arbitrary: b)
  case (CallSendMessage f k)
  obtain b1 e where send: "SendMessage b f = (b1, e)" by fastforce
  have "conn_inv b1" using SendMessage_inv [OF CallSendMessage(2), of f] send by simp
  moreover have "events b1 = events b" "ready_closes b1 = ready_closes b" "cipher b1 = cipher b"
    using only_sends_keeps [OF only_sends_SendMessage [OF CallSendMessage(2), of f]] send by simp_all
  ultimately show ?case using CallSendMessage(1) [OF rangeI [of k e]] send by simp
next
  case (CallClose e p)
  have "events (Close b e) = events b" "ready_closes (Close b e) = ready_closes b" "cipher (Close b e) = cipher b"
    by (simp_all add: Close_def stop_timer_def)
  then show ?case using CallClose(1) [OF Close_inv [OF CallClose(2), of e]] by simp
next
  case (CallSetUserData d p)
  have "events (SetUserData d b) = events b" "ready_closes (SetUserData d b) = ready_closes b"
    "cipher (SetUserData d b) = cipher b"
    by (simp_all add: SetUserData_def split: option.splits)
  then show ?case using CallSetUserData(1) [OF SetUserData_inv [OF CallSetUserData(2), of d]] by simp
qed simp_all

lemma close_readyCh_inv: "conn_inv b \<Longrightarrow> ready_closes b = 0 \<Longrightarrow> events b \<noteq> [] \<Longrightarrow> conn_inv (close_readyCh b)"
  by (auto simp: conn_inv_def close_readyCh_def)

lemma onReady_inv:
  assumes "becoming_ready b"
  shows "conn_inv (fst (onReady env b))"
proof -
  let ?b = "log_event OnConnected (stop_timer b)"
  obtain b2 e where run: "run_handler (h_OnConnected (env_handler env) (events (stop_timer b))) ?b = (b2, e)" by fastforce
  have "connected_events [OnConnected]" by (auto simp: connected_events_def)
  with assms have "conn_inv ?b"
    by (simp add: conn_inv_def becoming_ready_def log_event_def stop_timer_def events_ok_connected)
  from run_handler_inv [OF this, of "h_OnConnected (env_handler env) (events (stop_timer b))"] run
  have "conn_inv b2" "ready_closes b2 = ready_closes ?b" "events b2 = events ?b" by simp_all
  moreover have "ready_closes ?b = 0" "events ?b \<noteq> []"
    using assms by (simp_all add: becoming_ready_def log_event_def stop_timer_def)
  ultimately have "conn_inv b2" "ready_closes b2 = 0" "events b2 \<noteq> []" by simp_all
  then show ?thesis using run by (simp add: onReady_def Let_def close_readyCh_inv split: option.splits)
qed

lemma becoming_ready_sends: "only_sends a b \<Longrightarrow> becoming_ready a \<Longrightarrow> becoming_ready b"
  by (auto simp: only_sends_def becoming_ready_def)

text \<open>
  Between \<^verbatim>\<open>Close\<close> by the caller and the change of state nothing more happens: an error return of
  \<^verbatim>\<open>start\<close> and of the read loop is followed by \<^verbatim>\<open>Close\<close>, and \<open>closing\<close> is what then suffices.
\<close>

definition closing :: "'u baseConn \<Rightarrow> bool" where
  "closing b \<longleftrightarrow> (ctx_done b \<longleftrightarrow> state b = ConnectionStateClosed) \<and> \<not> panicked b \<and> ready_closes b \<le> 1 \<and> events_ok (events b)"

lemma closing_inv: "conn_inv b \<Longrightarrow> closing b"
  by (simp add: conn_inv_def closing_def)

lemma closing_becoming: "becoming_ready b \<Longrightarrow> closing b"
  by (simp add: becoming_ready_def closing_def)

lemma Close_closing: "closing b \<Longrightarrow> conn_inv (Close b e)"
  by (auto simp: closing_def conn_inv_def Close_def stop_timer_def)

text \<open>An operation that returned no error keeps the invariant; one that failed can be closed.\<close>

definition result_inv :: "'u baseConn \<times> err \<Rightarrow> bool" where
  "result_inv r \<longleftrightarrow> closing (fst r) \<and> (snd r = None \<longrightarrow> conn_inv (fst r))"

lemma result_invI: "conn_inv (fst r) \<Longrightarrow> result_inv r"
  by (simp add: result_inv_def closing_inv)

lemma startHandshake_inv:
  assumes "state b = ConnectionStateHandshaking" "\<not> ctx_done b" "\<not> panicked b" "ready_closes b = 0" "events b = []"
  shows "result_inv (startHandshake env b)"
proof (cases "NewECDHCipher (env_crypto env) (env_key env)")
  case (Inl e)
  then show ?thesis using assms by (simp add: startHandshake_def result_inv_def closing_def)
next
  case (Inr k)
  let ?b = "b\<lparr>cipher := Some k\<rparr>"
  have inv: "conn_inv ?b" using assms by (simp add: conn_inv_def)
  obtain b1 e where send: "(if role ?b = ConnectionRoleClient then sendExchangeKey ?b else (?b, None)) = (b1, e)" by fastforce
  have "only_sends ?b b1"
    using send only_sends_sendExchangeKey [of ?b] by (auto simp: only_sends_refl split: if_splits)
  then have "conn_inv b1" using inv by (rule only_sends_inv)
  moreover have "conn_inv b \<Longrightarrow> conn_inv (b\<lparr>handshakeTimer := t\<rparr>)" for b :: "'a baseConn" and t by (simp add: conn_inv_def)
  ultimately show ?thesis
    using Inr send by (auto simp: startHandshake_def Let_def split: option.splits intro!: result_invI)
qed

lemma start_inv:
  assumes "conn_inv b"
  shows "result_inv (start env b)"
proof (cases "state b = ConnectionStateCreated")
  case True
  then have "result_inv (startHandshake env (b\<lparr>state := ConnectionStateHandshaking\<rparr>))"
    using assms by (intro startHandshake_inv) (auto simp: conn_inv_def)
  moreover have "becoming_ready (b\<lparr>state := ConnectionStateReady\<rparr>)" if "\<not> EncryptEnable (options b)"
    using True that assms by (simp add: conn_inv_def becoming_ready_def)
  ultimately show ?thesis
    using True by (auto simp: start_def state_CAS_def intro!: result_invI onReady_inv)
next
  case False
  then show ?thesis using assms by (simp add: start_def state_CAS_def result_invI)
qed

lemma runStart_inv: "conn_inv b \<Longrightarrow> conn_inv (fst (runStart env b))"
  using start_inv [of b env] by (auto simp: runStart_def result_inv_def Close_closing split: prod.splits option.splits)

lemma handleKeyExchange_inv:
  assumes inv: "conn_inv b"
  shows "result_inv (handleKeyExchange env b f)"
proof (cases "state b = ConnectionStateHandshaking")
  case True
  let ?b = "b\<lparr>state := ConnectionStateReady\<rparr>"
  have ready: "becoming_ready ?b" using True inv by (simp add: conn_inv_def becoming_ready_def)
  obtain b1 e where send: "(if role ?b = ConnectionRoleServer then sendExchangeKey ?b else (?b, None)) = (b1, e)" by fastforce
  have cip: "cipher ?b \<noteq> None" using True inv by (simp add: conn_inv_def)
  have os: "only_sends ?b b1"
    using send only_sends_sendExchangeKey [OF cip] by (auto simp: only_sends_refl split: if_splits)
  have b1: "becoming_ready b1" using becoming_ready_sends [OF os ready] .
  obtain k where k: "cipher b1 = Some k" using only_sends_keeps [OF os] cip by auto
  have upd: "becoming_ready (b1\<lparr>cipher := Some c\<rparr>)" for c using b1 by (simp add: becoming_ready_def)
  show ?thesis
    using True send b1 upd k
    by (auto simp: handleKeyExchange_def state_CAS_def result_inv_def closing_becoming closing_inv onReady_inv
        split: option.splits prod.splits)
qed (use inv in \<open>simp add: handleKeyExchange_def state_CAS_def result_invI\<close>)

lemma processFrame_inv:
  assumes inv: "conn_inv b"
  shows "result_inv (processFrame env b f)"
proof -
  have "conn_inv (log_event (OnMessage f) b)" if "state b = ConnectionStateReady"
    using inv that
    by (auto simp: conn_inv_def log_event_def connected_events_snoc intro: events_ok_connected)
  then show ?thesis
    using inv by (auto simp: processFrame_def handleKeyExchange_inv run_handler_inv intro!: result_invI)
qed

lemma onProcess_inv:
  assumes inv: "conn_inv b" and on: "onProcess env now b data = (b', n, e)"
  shows "result_inv (b', e)"
proof -
  have touched: "conn_inv (touch now b)" using inv by (simp add: conn_inv_def touch_def)
  have "fst (prepareMessageFrame (touch now b) f) = touch now b" for f
    using touched by (auto simp: prepareMessageFrame_def decrypt_def conn_inv_def split: prod.splits sum.splits option.splits)
  then have prep: "b1 = touch now b" if "prepareMessageFrame (touch now b) f = (b1, r)" for f b1 r
    using that by (metis fst_conv)
  have proc: "result_inv (b1, e)" if "processFrame env (touch now b) f = (b1, e)" for f b1 e
    using processFrame_inv [OF touched, of env f] that by simp
  obtain fr k ed where dec: "DecodeMessageFrameWithLimit data (MaxInboundSize (options b)) = (fr, k, ed)"
    by (metis prod_cases3)
  then show ?thesis
    using on inv touched Decode_consumed(3) [OF dec]
    by (auto simp: onProcess_def result_invI split: option.splits if_splits prod.splits sum.splits dest!: prep intro: proc)
qed

lemma process_stream_inv:
  "conn_inv b \<Longrightarrow> process_stream env now b bs = (b', r, e) \<Longrightarrow> result_inv (b', e)"
proof (induction env now b bs rule: process_stream.induct)
  case (1 env now b bs)
  obtain b1 n e1 where on: "onProcess env now b bs = (b1, n, e1)" by (metis prod_cases3)
  note res = onProcess_inv [OF 1(2) on]
  show ?case
  proof (cases "e1 = None \<and> n \<noteq> 0")
    case True
    then have "conn_inv b1" using res by (simp add: result_inv_def)
    then show ?thesis using 1(1) [OF on [symmetric] refl] 1(3) True on by (simp add: process_stream_next)
  next
    case False
    then show ?thesis using res 1(3) on by (cases e1) (auto simp: process_stream_error process_stream_pending)
  qed
qed

lemma readLoop_iteration_inv:
  assumes "conn_inv (tcp_base c)" and "Buffer_wf (readBuffer c)"
  obtains c' e where "readLoop_iteration env now c r = Some (c', e)" "result_inv (tcp_base c', e)" "Buffer_wf (readBuffer c')"
proof (cases r)
  case (Inl e)
  then show ?thesis using assms that [of c "Some e"] by (simp add: readLoop_iteration_def result_invI)
next
  case (Inr ch)
  show ?thesis
  proof (cases "ch = []")
    case True
    then show ?thesis using Inr assms that [of c "Some io_EOF"] by (simp add: readLoop_iteration_def result_invI)
  next
    case False
    obtain rb1 k e1 where w: "Buffer_Write (readBuffer c) ch = Some (rb1, k, e1)" "Buffer_wf rb1"
      by (rule ibuf.write_total [OF assms(2), of ch])
    obtain b1 r1 e2 where ps: "process_stream env now (tcp_base c) (Buffer_Bytes rb1) = (b1, r1, e2)" by (metis prod_cases3)
    from ibuf.processReadBuffer_stream [OF w(2), of env now "tcp_base c"] ps obtain rb2 where
      "processReadBuffer Buffer_Bytes Buffer_Len Buffer_Skip env now (tcp_base c) rb1 = Some (b1, rb2, e2)" "Buffer_wf rb2" by auto
    note loop = this and res = process_stream_inv [OF assms(1) ps]
    show ?thesis
    proof (cases e1)
      case None
      with w loop Inr False have "readLoop_iteration env now c r = Some (c\<lparr>tcp_base := b1, readBuffer := rb2\<rparr>, e2)"
        by (simp add: readLoop_iteration_def)
      from that [OF this] res loop(2) show ?thesis by simp
    next
      case (Some x)
      with w Inr False have "readLoop_iteration env now c r = Some (c\<lparr>readBuffer := rb1\<rparr>, Some x)"
        by (simp add: readLoop_iteration_def)
      from that [OF this] assms(1) w(2) show ?thesis by (simp add: result_invI)
    qed
  qed
qed

subsection \<open>Goroutines as steps\<close>

text \<open>
  A TCP connection with its goroutines. \<open>phase\<close> is 0 before \<^verbatim>\<open>runStart\<close>, 1 when it has spawned the
  writer, 2 when \<^verbatim>\<open>start\<close> returned. The steps: \<^verbatim>\<open>runStart\<close> in two parts, one iteration of the
  reader (which closes on an error and ends), one iteration of the writer (which on its way out
  drains, closes and reports), and at any time a call of \<^verbatim>\<open>SendMessage\<close> or \<^verbatim>\<open>Close\<close> from elsewhere,
  among them the handshake timer. The arguments \<open>env\<close> and \<open>wr\<close> are the surroundings: handler,
  cryptographic library, and the results of writing to the socket.
\<close>

record 'u conn_sys =
  sys_conn :: "'u TCPConnection"
  phase :: nat
  reader :: bool
  writer :: bool

abbreviation base :: "'u conn_sys \<Rightarrow> 'u baseConn" where
  "base s \<equiv> tcp_base (sys_conn s)"

definition with_base :: "'u conn_sys \<Rightarrow> 'u baseConn \<Rightarrow> 'u conn_sys" where
  "with_base s b = s\<lparr>sys_conn := (sys_conn s)\<lparr>tcp_base := b\<rparr>\<rparr>"

lemma with_base_simps [simp]:
  "tcp_base (sys_conn (with_base s b)) = b" "readBuffer (sys_conn (with_base s b)) = readBuffer (sys_conn s)"
  "phase (with_base s b) = phase s" "reader (with_base s b) = reader s" "writer (with_base s b) = writer s"
  by (simp_all add: with_base_def)

inductive conn_step ::
  "'u conn_env \<Rightarrow> (bytes list \<Rightarrow> bytes \<Rightarrow> err) \<Rightarrow> 'u conn_sys \<Rightarrow> 'u conn_sys \<Rightarrow> bool"
  for env wr where
  spawn: "phase s = 0 \<Longrightarrow> conn_step env wr s (s\<lparr>phase := 1, writer := True\<rparr>)"
| started: "phase s = 1 \<Longrightarrow> runStart env (base s) = (b, e) \<Longrightarrow>
    conn_step env wr s ((with_base s b)\<lparr>phase := 2, reader := (e = None)\<rparr>)"
| reads: "reader s \<Longrightarrow> readLoop_iteration env now (sys_conn s) r = Some (c, None) \<Longrightarrow>
    conn_step env wr s (s\<lparr>sys_conn := c\<rparr>)"
| read_ends: "reader s \<Longrightarrow> readLoop_iteration env now (sys_conn s) r = Some (c, Some e) \<Longrightarrow>
    conn_step env wr s (s\<lparr>sys_conn := c\<lparr>tcp_base := Close (tcp_base c) (Some e)\<rparr>, reader := False\<rparr>)"
| wrote: "writer s \<Longrightarrow> runWriteLoop_iteration wr now wc (base s) = Some (b, False, e) \<Longrightarrow>
    conn_step env wr s (with_base s b)"
| write_ends: "writer s \<Longrightarrow> runWriteLoop_iteration wr now wc (base s) = Some (b, True, e) \<Longrightarrow>
    conn_step env wr s ((with_base s (runWriteLoop_exit wr e b))\<lparr>writer := False\<rparr>)"
| sends: "SendMessage (base s) f = (b, e) \<Longrightarrow> conn_step env wr s (with_base s b)"
| closes: "conn_step env wr s (with_base s (Close (base s) e))"

definition conn_init :: "TCPConfig \<Rightarrow> 64 word \<Rightarrow> ConnectionRole \<Rightarrow> int \<Rightarrow> bool list \<Rightarrow> 'u conn_sys" where
  "conn_init cfg cid rl now ps =
     \<lparr>sys_conn = newTCPConnection cid (TCPConfig_Normalize cfg) rl now ps, phase = 0, reader = False, writer = False\<rparr>"

inductive conn_reachable ::
  "'u conn_env \<Rightarrow> (bytes list \<Rightarrow> bytes \<Rightarrow> err) \<Rightarrow> 'u conn_sys \<Rightarrow> 'u conn_sys \<Rightarrow> bool"
  for env wr s0 where
  reach_init: "conn_reachable env wr s0 s0"
| reach_step: "conn_reachable env wr s0 s \<Longrightarrow> conn_step env wr s s' \<Longrightarrow> conn_reachable env wr s0 s'"

text \<open>The writer changes nothing but the send channel and what is on the wire.\<close>

definition only_writes :: "'u baseConn \<Rightarrow> 'u baseConn \<Rightarrow> bool" where
  "only_writes a b \<longleftrightarrow> (\<exists>q w. b = a\<lparr>sendChannel := q, wire := w\<rparr>)"

lemma only_writes_refl: "only_writes a a"
  unfolding only_writes_def by (intro exI [of _ "sendChannel a"] exI [of _ "wire a"]) simp

lemma only_writes_trans:
  assumes "only_writes a b" and "only_writes b c"
  shows "only_writes a c"
proof -
  from assms obtain q w q' w' where "b = a\<lparr>sendChannel := q, wire := w\<rparr>" "c = b\<lparr>sendChannel := q', wire := w'\<rparr>"
    by (auto simp: only_writes_def)
  then have "c = a\<lparr>sendChannel := q', wire := w'\<rparr>" by simp
  then show ?thesis unfolding only_writes_def by blast
qed

lemma only_writes_message: "only_writes b (fst (write_message wr (b\<lparr>sendChannel := q\<rparr>) m))"
proof (cases "wr (wire b) m")
  case None
  then show ?thesis unfolding only_writes_def
    by (intro exI [of _ q] exI [of _ "wire b @ [m]"]) (simp add: write_message_def)
next
  case (Some e)
  then show ?thesis unfolding only_writes_def
    by (intro exI [of _ q] exI [of _ "wire b"]) (simp add: write_message_def)
qed

lemma only_writes_drain: "only_writes b (drain_loop wr ms b)"
proof (induction ms arbitrary: b)
  case (Cons m ms)
  obtain b1 e where w: "write_message wr (b\<lparr>sendChannel := ms\<rparr>) m = (b1, e)" by fastforce
  then have "only_writes b b1" using only_writes_message [of b wr ms m] by simp
  then show ?case using Cons [of b1] w by (auto split: option.splits intro: only_writes_trans)
qed (simp add: only_writes_refl)

lemma only_writes_iteration:
  "runWriteLoop_iteration wr now wc b = Some (b1, stop, e) \<Longrightarrow> only_writes b b1"
  using only_writes_message [of b wr]
  by (auto simp: runWriteLoop_iteration_def only_writes_refl split: write_case.splits option.splits list.splits prod.splits if_splits)
    (metis fst_conv)+

lemma only_writes_inv:
  assumes "only_writes a b" and "conn_inv a"
  shows "conn_inv b \<and> events b = events a \<and> state b = state a"
proof -
  from assms(1) obtain q w where "b = a\<lparr>sendChannel := q, wire := w\<rparr>" by (auto simp: only_writes_def)
  with assms(2) show ?thesis by (simp add: conn_inv_def)
qed

definition no_close :: "'u baseConn \<Rightarrow> bool" where
  "no_close b \<longleftrightarrow> (\<forall>e. OnClose e \<notin> set (events b))"

text \<open>The invariant of the whole: it adds that the writer reports the end exactly when it ends.\<close>

definition sys_inv :: "'u conn_sys \<Rightarrow> bool" where
  "sys_inv s \<longleftrightarrow> conn_inv (base s) \<and> Buffer_wf (readBuffer (sys_conn s))
     \<and> (if writer s \<or> phase s = 0 then no_close (base s)
        else state (base s) = ConnectionStateClosed \<and> \<not> no_close (base s))
     \<and> (phase s = 0 \<longrightarrow> \<not> reader s \<and> \<not> writer s)"


text \<open>No operation but the exit of the write loop reports the end.\<close>

interpretation keeps_open: conn_preorder "\<lambda>a b. no_close a \<longrightarrow> no_close b"
  by unfold_locales
    (auto simp: no_close_def pushQueue_def enqueue_def Close_def stop_timer_def SetUserData_def log_event_def
      close_readyCh_def touch_def split: list.splits bool.splits option.splits)

text \<open>Two preorders hold together, and a third follows: a reported end stays reported.\<close>

lemma grows_closed:
  "conn_grows a b \<Longrightarrow> state a = ConnectionStateClosed \<Longrightarrow> state b = ConnectionStateClosed"
  "conn_grows a b \<Longrightarrow> \<not> no_close a \<Longrightarrow> \<not> no_close b"
  by (auto simp: conn_grows_def no_close_def intro: antisym dest: set_mono_prefix)

context conn_preorder
begin

lemma R_process_stream: "R b (fst (process_stream env now b bs))"
proof (induction env now b bs rule: process_stream.induct)
  case (1 env now b bs)
  obtain b1 n e where on: "onProcess env now b bs = (b1, n, e)" by (metis prod_cases3)
  then have "R b b1" using R_onProcess [of b env now bs] by simp
  with on 1 [OF on [symmetric] refl] show ?case
    by (subst process_stream.simps) (auto split: option.splits intro: R_trans)
qed

lemma R_readLoop_iteration:
  assumes wf: "Buffer_wf (readBuffer c)" and it: "readLoop_iteration env now c r = Some (c', e)"
  shows "R (tcp_base c) (tcp_base c')"
proof (cases r)
  case (Inr ch)
  obtain rb1 k e1 where w: "Buffer_Write (readBuffer c) ch = Some (rb1, k, e1)" "Buffer_wf rb1"
    by (rule ibuf.write_total [OF wf, of ch])
  from ibuf.processReadBuffer_stream [OF w(2), of env now "tcp_base c"] obtain rb2 where
    "processReadBuffer Buffer_Bytes Buffer_Len Buffer_Skip env now (tcp_base c) rb1 =
      Some (fst (process_stream env now (tcp_base c) (Buffer_Bytes rb1)), rb2,
        snd (snd (process_stream env now (tcp_base c) (Buffer_Bytes rb1))))" by blast
  then show ?thesis
    using it Inr w R_process_stream
    by (auto simp: readLoop_iteration_def R_refl split: if_splits option.splits)
qed (use it in \<open>auto simp: readLoop_iteration_def R_refl\<close>)

end

lemma sys_inv_conn:
  assumes "sys_inv s" and "conn_inv (tcp_base c)" and "conn_grows (base s) (tcp_base c)"
    and "no_close (base s) \<longrightarrow> no_close (tcp_base c)" and "Buffer_wf (readBuffer c)"
  shows "sys_inv (s\<lparr>sys_conn := c\<rparr>)"
  using assms grows_closed [OF assms(3)] by (auto simp: sys_inv_def)

lemma sys_inv_change:
  assumes "sys_inv s" and "conn_inv b" and "conn_grows (base s) b" and "no_close (base s) \<longrightarrow> no_close b"
  shows "sys_inv (with_base s b)"
  unfolding with_base_def using assms by (intro sys_inv_conn) (simp_all add: sys_inv_def)

lemma readLoop_iteration_steps:
  assumes inv: "sys_inv s" and it: "readLoop_iteration env now (sys_conn s) r = Some (c, e)"
  shows "result_inv (tcp_base c, e)" "Buffer_wf (readBuffer c)" "conn_grows (base s) (tcp_base c)"
    "no_close (base s) \<longrightarrow> no_close (tcp_base c)"
proof -
  have wf: "Buffer_wf (readBuffer (sys_conn s))" and ci: "conn_inv (base s)" using inv by (simp_all add: sys_inv_def)
  show "result_inv (tcp_base c, e)" "Buffer_wf (readBuffer c)"
    by (rule readLoop_iteration_inv [OF ci wf, of env now r]; use it in simp)+
  show "conn_grows (base s) (tcp_base c)" by (rule grows.R_readLoop_iteration [OF wf it])
  show "no_close (base s) \<longrightarrow> no_close (tcp_base c)" by (rule keeps_open.R_readLoop_iteration [OF wf it])
qed

lemma runWriteLoop_exit_inv:
  assumes "conn_inv b" and "no_close b"
  shows "conn_inv (runWriteLoop_exit wr e b) \<and> state (runWriteLoop_exit wr e b) = ConnectionStateClosed
    \<and> \<not> no_close (runWriteLoop_exit wr e b)"
proof -
  let ?d = "drainMessages wr b"
  have ow: "only_writes b ?d" unfolding drainMessages_def by (rule only_writes_drain)
  from only_writes_inv [OF ow assms(1)] have d: "conn_inv (Close ?d e)" "events ?d = events b" by (simp_all add: Close_inv)
  have st: "state (Close ?d e) = ConnectionStateClosed" by (simp add: Close_def stop_timer_def)
  have ev: "events (Close ?d e) = events b" using d(2) by (simp add: Close_def stop_timer_def)
  have "events_ok (events b @ [OnClose x])" for x
    using assms by (intro events_ok_close) (auto simp: conn_inv_def no_close_def)
  with d(1) st ev show ?thesis
    by (auto simp: runWriteLoop_exit_def Let_def log_event_def conn_inv_def no_close_def)
qed

lemma conn_step_inv:
  assumes "conn_step env wr s s'" and "sys_inv s"
  shows "sys_inv s'"
  using assms
proof (cases rule: conn_step.cases)
  case spawn
  then show ?thesis using assms(2) by (simp add: sys_inv_def)
next
  case (started b e)
  then have "sys_inv (with_base s b)"
    using assms(2) runStart_inv [of "base s" env] grows.R_runStart [of "base s" env] keeps_open.R_runStart [of "base s" env]
    by (intro sys_inv_change) (auto simp: sys_inv_def)
  then show ?thesis using started assms(2) by (auto simp: sys_inv_def)
next
  case (reads now r c)
  from readLoop_iteration_steps [OF assms(2) reads(3)] show ?thesis
    unfolding reads(1) using assms(2) by (intro sys_inv_conn) (simp_all add: result_inv_def)
next
  case (read_ends now r c e)
  let ?c = "c\<lparr>tcp_base := Close (tcp_base c) (Some e)\<rparr>"
  note r = readLoop_iteration_steps [OF assms(2) read_ends(3)]
  have "conn_grows (base s) (tcp_base ?c)" using conn_grows_trans [OF r(3) grows.R_close] by simp
  moreover have "no_close (base s) \<longrightarrow> no_close (tcp_base ?c)"
    using r(4) keeps_open.R_close [of "tcp_base c" "Some e"] by simp
  ultimately have "sys_inv (s\<lparr>sys_conn := ?c\<rparr>)"
    using assms(2) r by (intro sys_inv_conn) (simp_all add: result_inv_def Close_closing)
  then show ?thesis unfolding read_ends(1) by (auto simp: sys_inv_def split: if_splits)
next
  case (wrote now wc b e)
  from only_writes_inv [OF only_writes_iteration [OF wrote(3)]] assms(2) wrote show ?thesis
    by (auto simp: sys_inv_def no_close_def)
next
  case (write_ends now wc b e)
  from only_writes_inv [OF only_writes_iteration [OF write_ends(3)]] assms(2)
  have "conn_inv b" "no_close b" using write_ends(2) by (auto simp: sys_inv_def no_close_def)
  from runWriteLoop_exit_inv [OF this] assms(2) write_ends show ?thesis
    by (auto simp: sys_inv_def)
next
  case (sends f b e)
  have "conn_inv (base s)" using assms(2) by (simp add: sys_inv_def)
  with sends(2) have "conn_inv b" "conn_grows (base s) b" "no_close (base s) \<longrightarrow> no_close b"
    using SendMessage_inv [of "base s" f] grows.R_SendMessage [of "base s" f] keeps_open.R_SendMessage [of "base s" f]
    by simp_all
  then show ?thesis unfolding sends(1) using assms(2) by (intro sys_inv_change)
next
  case (closes e)
  have "conn_inv (base s)" using assms(2) by (simp add: sys_inv_def)
  then show ?thesis unfolding closes(1)
    by (intro sys_inv_change assms(2) Close_inv grows.R_close keeps_open.R_close)
qed

text \<open>A step is one of the operations, or it is the writer's.\<close>

lemma conn_step_kind:
  assumes "conn_step env wr s s'" and "sys_inv s"
  shows "conn_grows (base s) (base s') \<and> (phase s \<noteq> 0 \<longrightarrow> writer s' = writer s) \<and> (phase s = 0 \<longrightarrow> writer s' \<or> phase s' = 0)
    \<or> (\<exists>now wc b stop e. runWriteLoop_iteration wr now wc (base s) = Some (b, stop, e) \<and> writer s
         \<and> base s' = (if stop then runWriteLoop_exit wr e b else b) \<and> writer s' = (\<not> stop) \<and> phase s' = phase s)"
  using assms(1)
proof (cases rule: conn_step.cases)
  case spawn
  then show ?thesis using grows.R_refl [of "base s"] by simp
next
  case (started b e)
  then show ?thesis using grows.R_runStart [of "base s" env] by simp
next
  case (reads now r c)
  then show ?thesis using readLoop_iteration_steps(3) [OF assms(2) reads(3)] assms(2) by (simp add: sys_inv_def)
next
  case (read_ends now r c e)
  then show ?thesis
    using conn_grows_trans [OF readLoop_iteration_steps(3) [OF assms(2) read_ends(3)] grows.R_close] assms(2)
    by (simp add: sys_inv_def)
next
  case (wrote now wc b e)
  then show ?thesis by (intro disjI2 exI [of _ now] exI [of _ wc] exI [of _ b] exI [of _ False] exI [of _ e]) simp
next
  case (write_ends now wc b e)
  then show ?thesis by (intro disjI2 exI [of _ now] exI [of _ wc] exI [of _ b] exI [of _ True] exI [of _ e]) simp
next
  case (sends f b e)
  then show ?thesis using grows.R_SendMessage [of "base s" f] assms(2) by simp
next
  case (closes e)
  then show ?thesis using grows.R_close [of "base s" e] by simp
qed

lemma exit_keeps:
  "state (runWriteLoop_exit wr e b) = ConnectionStateClosed"
  "\<exists>x. events (runWriteLoop_exit wr e b) = events b @ [OnClose x]"
proof -
  from only_writes_drain obtain q w where d: "drainMessages wr b = b\<lparr>sendChannel := q, wire := w\<rparr>"
    unfolding drainMessages_def only_writes_def by metis
  show "state (runWriteLoop_exit wr e b) = ConnectionStateClosed"
    "\<exists>x. events (runWriteLoop_exit wr e b) = events b @ [OnClose x]"
    by (simp_all add: runWriteLoop_exit_def Let_def d Close_def stop_timer_def log_event_def)
qed

lemma conn_init_inv: "sys_inv (conn_init cfg cid rl now ps)"
  by (simp add: sys_inv_def conn_init_def newTCPConnection_def newBaseConnWithRole_def touch_def conn_inv_def no_close_def
      Buffer_New_wf)

lemma conn_reachable_inv: "conn_reachable env wr s0 s \<Longrightarrow> sys_inv s0 \<Longrightarrow> sys_inv s"
  by (induction rule: conn_reachable.induct) (auto intro: conn_step_inv)

subsection \<open>Properties of the life of a connection\<close>


text \<open>
  The state of a connection only moves forward, from created through handshaking and ready to
  closed, along every step; the closed state is final, and no callback but \<^verbatim>\<open>OnClose\<close> is made in it.
\<close>

theorem connection_state_forward:
  assumes "conn_reachable env wr (conn_init cfg cid rl now ps) s" and "conn_step env wr s s'"
  shows "state (base s) \<le> state (base s')
    \<and> (state (base s) = ConnectionStateClosed \<longrightarrow> state (base s') = ConnectionStateClosed)
    \<and> prefix (events (base s)) (events (base s'))
    \<and> (state (base s) = ConnectionStateClosed \<longrightarrow>
         (\<exists>es. events (base s') = events (base s) @ es \<and> (\<forall>ev \<in> set es. \<exists>e. ev = OnClose e)))"
proof -
  have inv: "sys_inv s" using conn_reachable_inv [OF assms(1) conn_init_inv] .
  from conn_step_kind [OF assms(2) inv] show ?thesis
  proof (elim disjE conjE exE)
    assume g: "conn_grows (base s) (base s')"
    then show ?thesis using grows_closed(1) [OF g] by (auto simp: conn_grows_def)
  next
    fix now1 wc b stop e
    assume it: "runWriteLoop_iteration wr now1 wc (base s) = Some (b, stop, e)"
      and b: "base s' = (if stop then runWriteLoop_exit wr e b else b)"
    from only_writes_inv [OF only_writes_iteration [OF it]] inv have "events b = events (base s)" "state b = state (base s)"
      by (auto simp: sys_inv_def)
    with b exit_keeps [of wr e b] show ?thesis by auto
  qed
qed


subsection \<open>What reaches the wire\<close>

definition outgoing :: "'u baseConn \<Rightarrow> bytes list" where
  "outgoing b = wire b @ sendChannel b"

definition writes_ok :: "(bytes list \<Rightarrow> bytes \<Rightarrow> err) \<Rightarrow> bool" where
  "writes_ok wr \<longleftrightarrow> (\<forall>w m. wr w m = None)"

lemma subseq_drop_one: "subseq (xs @ ys) (xs @ y # ys)"
  by (induction xs) (simp_all add: list_emb_Cons)

text \<open>One message taken from the channel: written, or dropped when the write fails.\<close>

lemma write_message_outgoing:
  assumes "write_message wr (b\<lparr>sendChannel := ms\<rparr>) m = (b1, e)" and "sendChannel b = m # ms"
  shows "subseq (outgoing b1) (outgoing b)" and "accepted b1 = accepted b" and "sendChannel b1 = ms"
    and "writes_ok wr \<Longrightarrow> outgoing b1 = outgoing b \<and> e = None"
  using assms by (auto simp: write_message_def outgoing_def writes_ok_def subseq_drop_one split: option.splits)

lemma drain_outgoing:
  "sendChannel b = ms \<Longrightarrow> subseq (outgoing (drain_loop wr ms b)) (outgoing b) \<and> accepted (drain_loop wr ms b) = accepted b
     \<and> (writes_ok wr \<longrightarrow> outgoing (drain_loop wr ms b) = outgoing b \<and> sendChannel (drain_loop wr ms b) = [])"
proof (induction ms arbitrary: b)
  case (Cons m ms)
  obtain b1 e where w: "write_message wr (b\<lparr>sendChannel := ms\<rparr>) m = (b1, e)" by fastforce
  note o = write_message_outgoing [OF w Cons.prems]
  from Cons.IH [OF o(3)] o w show ?case
    by (auto split: option.splits intro: subseq_order.trans)
qed simp

lemma iteration_outgoing:
  assumes "runWriteLoop_iteration wr now wc b = Some (b1, stop, e)"
  shows "subseq (outgoing b1) (outgoing b) \<and> accepted b1 = accepted b \<and> (writes_ok wr \<longrightarrow> outgoing b1 = outgoing b)"
proof (cases wc)
  case Message
  with assms obtain m ms where ch: "sendChannel b = m # ms"
    by (auto simp: runWriteLoop_iteration_def split: list.splits)
  obtain b2 e2 where w: "write_message wr (b\<lparr>sendChannel := ms\<rparr>) m = (b2, e2)" by fastforce
  then have "b1 = b2" using assms Message ch by (auto simp: runWriteLoop_iteration_def split: option.splits)
  with write_message_outgoing [OF w ch] show ?thesis by auto
qed (use assms in \<open>auto simp: runWriteLoop_iteration_def split: if_splits option.splits\<close>)

lemma exit_outgoing:
  "subseq (outgoing (runWriteLoop_exit wr e b)) (outgoing b) \<and> accepted (runWriteLoop_exit wr e b) = accepted b
    \<and> (writes_ok wr \<longrightarrow> outgoing (runWriteLoop_exit wr e b) = outgoing b \<and> sendChannel (runWriteLoop_exit wr e b) = [])"
  using drain_outgoing [of b "sendChannel b" wr]
  by (auto simp: runWriteLoop_exit_def Let_def drainMessages_def log_event_def outgoing_def Close_def stop_timer_def)

definition fifo_inv :: "(bytes list \<Rightarrow> bytes \<Rightarrow> err) \<Rightarrow> 'u conn_sys \<Rightarrow> bool" where
  "fifo_inv wr s \<longleftrightarrow> subseq (outgoing (base s)) (accepted (base s))
     \<and> (writes_ok wr \<longrightarrow> outgoing (base s) = accepted (base s)
          \<and> (phase s \<noteq> 0 \<and> \<not> writer s \<longrightarrow> sendChannel (base s) = []))"

lemma conn_step_fifo:
  assumes "conn_step env wr s s'" and inv: "sys_inv s" and fifo: "fifo_inv wr s"
  shows "fifo_inv wr s'"
  using conn_step_kind [OF assms(1) inv]
proof (elim disjE conjE exE)
  assume g: "conn_grows (base s) (base s')" and w: "phase s \<noteq> 0 \<longrightarrow> writer s' = writer s" "phase s = 0 \<longrightarrow> writer s' \<or> phase s' = 0"
  from g obtain ms where ms: "accepted (base s') = accepted (base s) @ ms" "sendChannel (base s') = sendChannel (base s) @ ms"
    "wire (base s') = wire (base s)" by (auto simp: conn_grows_def)
  have "ms = []" if "phase s' \<noteq> 0" "\<not> writer s'"
  proof -
    have "state (base s) = ConnectionStateClosed" using w that inv by (auto simp: sys_inv_def split: if_splits)
    with g ms(1) show ?thesis by (simp add: conn_grows_def)
  qed
  with ms w fifo show ?thesis
    by (auto simp: fifo_inv_def outgoing_def simp flip: append_assoc intro: list_emb_append_mono)
next
  fix now wc b stop e
  assume it: "runWriteLoop_iteration wr now wc (base s) = Some (b, stop, e)" and ws: "writer s" "writer s' = (\<not> stop)"
    and b: "base s' = (if stop then runWriteLoop_exit wr e b else b)"
  from iteration_outgoing [OF it] exit_outgoing [of wr e b] fifo ws b show ?thesis
    by (auto simp: fifo_inv_def intro: subseq_order.trans)
qed


text \<open>
  When writing a message fails the write loop leaves, but its deferred drain goes on writing the
  messages behind the failed one: they reach the wire without it.
\<close>

theorem write_error_then_drain:
  assumes "sendChannel b = m1 # ms" and "wr (wire b) m1 = Some e" and "\<forall>w. \<forall>m \<in> set ms. wr w m = None"
  shows "\<exists>b1. runWriteLoop_iteration wr now Message b = Some (b1, True, Some e)
    \<and> wire (runWriteLoop_exit wr (Some e) b1) = wire b @ ms"
proof -
  let ?b = "b\<lparr>sendChannel := ms\<rparr>"
  have "runWriteLoop_iteration wr now Message b = Some (?b, True, Some e)"
    using assms by (simp add: runWriteLoop_iteration_def write_message_def)
  moreover have "wire (drain_loop wr ms c) = wire c @ ms" for c :: "'a baseConn"
    using assms(3) by (induction ms arbitrary: c) (simp_all add: write_message_def)
  then have "wire (runWriteLoop_exit wr (Some e) ?b) = wire b @ ms"
    by (simp add: runWriteLoop_exit_def drainMessages_def Let_def log_event_def Close_def stop_timer_def)
  ultimately show ?thesis by blast
qed

theorem write_error_then_drain_witness:
  "\<exists>b1. runWriteLoop_iteration (\<lambda>_ m. if m = [1] then Some io_EOF else None) 0 Message
        (sample_conn\<lparr>sendChannel := [[1], [2]], wire := []\<rparr>) = Some (b1, True, Some io_EOF)
    \<and> wire (runWriteLoop_exit (\<lambda>_ m. if m = [1] then Some io_EOF else None) (Some io_EOF) b1) = [[2]]"
  using write_error_then_drain [of "sample_conn\<lparr>sendChannel := [[1], [2]], wire := []\<rparr>" "[1]" "[[2]]"
      "\<lambda>_ m. if m = [1] then Some io_EOF else None" io_EOF 0] by simp

subsection \<open>An example run\<close>

text \<open>A server connection without encryption that starts, sends the example frame, writes it and closes.\<close>

definition sample_init :: "unit conn_sys" where
  "sample_init = conn_init (DefaultTCPConfig ''a'') 1 ConnectionRoleServer 0 []"

definition sample_bytes :: bytes where
  "sample_bytes = [0, 0, 0, 1, 1, 2, 0, 0, 0, 0, 0, 0, 7, 0x09, 0xB9, 0x26, 0x5B, 42]"

definition sample_started :: "unit baseConn" where
  "sample_started = close_readyCh (log_event OnConnected (sample_conn))"

lemma sample_started_fields:
  "state sample_started = ConnectionStateReady" "options sample_started = options sample_conn" "ctx_done sample_started = False"
  "events sample_started = [OnConnected]" "sendChannel sample_started = []" "accepted sample_started = []"
  "wire sample_started = []" "picks sample_started = []" "SendChanSize (options sample_conn) = 1024" "MaxOutboundSize (options sample_conn) = 32768"
  by (simp_all add: sample_started_def close_readyCh_def log_event_def sample_conn_def newBaseConnWithRole_def touch_def
      TCPConfig_Normalize_def CommonConfig_Normalize_def DefaultTCPConfig_def zero_CommonConfig_def
      CommonConfig.defs positive_or_def config_consts Let_def)

lemma sample_base: "base sample_init = sample_conn\<lparr>state := ConnectionStateCreated\<rparr>" "phase sample_init = 0"
  by (simp_all add: sample_init_def conn_init_def newTCPConnection_def sample_conn_def newBaseConnWithRole_def touch_def)

lemma sample_runStart: "runStart sample_env (sample_conn\<lparr>state := ConnectionStateCreated\<rparr>) = (sample_started, None)"
proof -
  have "handshakeTimer sample_conn = None" "state sample_conn = ConnectionStateReady"
    by (simp_all add: sample_conn_def newBaseConnWithRole_def touch_def)
  then have "stop_timer sample_conn = sample_conn" "sample_conn\<lparr>state := ConnectionStateReady\<rparr> = sample_conn"
    by (simp_all add: stop_timer_def)
  then show ?thesis
    by (simp add: runStart_def start_def state_CAS_def sample_inbound(4) onReady_def Let_def sample_env_def
        DefaultTransportHandler_def sample_started_def)
qed

lemma sample_SendMessage:
  "SendMessage sample_started (Some sample_frame) = (enqueue sample_bytes sample_started, None)"
proof -
  have enc: "EncodeMessageFrameWithLimit sample_frame 32768 = Inr sample_bytes"
    using encode_sample_frame unfolding Encode_iff sample_bytes_def
    by (simp add: encodable_def sample_frame_def NewMessageFrame_def frame_len_defs)
  have "IsInternalCommand (Cmd sample_frame) = False" "sample_frame\<lparr>Body := Body sample_frame\<rparr> = sample_frame"
    by (simp_all add: sample_frame_def NewMessageFrame_def IsInternalCommand_def internal_defs)
  then show ?thesis
    by (simp add: SendMessage_def sendFrame_def codec_encode_def encrypt_def sample_inbound(4,5) enc pushQueue_def
        has_room_def sample_started_fields)
qed

definition sample_running :: "unit conn_sys" where
  "sample_running = (with_base (sample_init\<lparr>phase := 1, writer := True\<rparr>) sample_started)\<lparr>phase := 2, reader := True\<rparr>"

lemma sample_running_reachable: "conn_reachable sample_env wr sample_init sample_running"
proof -
  let ?s = "sample_init\<lparr>phase := 1, writer := True\<rparr>"
  have "conn_reachable sample_env wr sample_init ?s"
    by (rule reach_step [OF reach_init spawn]) (simp add: sample_base)
  moreover have "conn_step sample_env wr ?s ((with_base ?s sample_started)\<lparr>phase := 2, reader := ((None :: err) = None)\<rparr>)"
    by (rule started) (simp_all add: sample_base sample_runStart)
  ultimately show ?thesis unfolding sample_running_def by (auto intro: reach_step)
qed

lemma sample_running_base [simp]: "base sample_running = sample_started" "writer sample_running" "phase sample_running = 2"
  by (simp_all add: sample_running_def with_base_def)

definition sample_sent :: "unit conn_sys" where
  "sample_sent = with_base sample_running (enqueue sample_bytes sample_started)"

lemma sample_sent_reachable: "conn_reachable sample_env wr sample_init sample_sent"
  unfolding sample_sent_def
  by (rule reach_step [OF sample_running_reachable sends [of _ "Some sample_frame" _ None]]) (simp add: sample_SendMessage)

lemma sample_closed_reachable:
  fixes wr :: "bytes list \<Rightarrow> bytes \<Rightarrow> err"
  defines "b \<equiv> Close (enqueue sample_bytes sample_started) None"
  shows "conn_reachable sample_env wr sample_init ((with_base (with_base sample_sent b) (runWriteLoop_exit wr None b))\<lparr>writer := False\<rparr>)"
proof -
  have "conn_reachable sample_env wr sample_init (with_base sample_sent (Close (base sample_sent) None))"
    by (rule reach_step [OF sample_sent_reachable closes])
  then have r: "conn_reachable sample_env wr sample_init (with_base sample_sent b)" by (simp add: b_def sample_sent_def)
  have "runWriteLoop_iteration wr 0 CtxDone (base (with_base sample_sent b)) = Some (b, True, None)"
    by (simp add: runWriteLoop_iteration_def b_def Close_def stop_timer_def enqueue_def sample_started_fields)
  then show ?thesis by (intro reach_step [OF r] write_ends) (simp_all add: sample_sent_def)
qed


theorem connection_state_forward_witness:
  "conn_reachable sample_env (\<lambda>_ _. None) sample_init sample_running
     \<and> state (base sample_running) \<le> state (base sample_sent)"
  using connection_state_forward [OF sample_running_reachable [unfolded sample_init_def], of "\<lambda>_ _. None" sample_sent]
    sample_running_reachable sends [of sample_running "Some sample_frame" _ None sample_env "\<lambda>_ _. None"] sample_SendMessage
  by (simp add: sample_sent_def)


end
