(* ===== verification/ConnDelivery.thy ===== *)
theory ConnDelivery
  imports ConnLifecycle
begin

text \<open>
  Two ends of a connection: what one end's \<^verbatim>\<open>SendMessage\<close> puts into its send channel is what the
  other end's \<^verbatim>\<open>onProcess\<close> delivers, through codec, cipher and frame; and the handshake makes both
  ends ready with the same key.
\<close>

text \<open>What a connection needs of its codec.\<close>

definition codec_ok :: "Codec_iface \<Rightarrow> bool" where
  "codec_ok codec \<longleftrightarrow> (\<forall>x y fl. codec_Encode codec x = Inr (y, fl) \<longrightarrow> codec_Decode codec y fl = Inr x)"

lemma Pipeline_codec_ok:
  assumes "Pipeline_New ts = Inr p" and "\<forall>t \<in> set (transforms p). \<forall>x. transform_ok t x"
  shows "codec_ok (Pipeline_Codec p)"
  using Pipeline_decodes [OF assms] by (simp add: codec_ok_def Pipeline_Codec_def)

text \<open>Both ends agree on the codec and on the key, and the receiver admits what the sender may send.\<close>

definition matching_ends :: "'u baseConn \<Rightarrow> 'v baseConn \<Rightarrow> bool" where
  "matching_ends a b \<longleftrightarrow> cfg_Codec (options a) = cfg_Codec (options b)
     \<and> (\<forall>codec. cfg_Codec (options a) = Some codec \<longrightarrow> codec_ok codec)
     \<and> EncryptEnable (options a) = EncryptEnable (options b)
     \<and> 0 < MaxOutboundSize (options a) \<and> MaxOutboundSize (options a) \<le> MaxInboundSize (options b)"

definition same_key :: "'u baseConn \<Rightarrow> 'v baseConn \<Rightarrow> bool" where
  "same_key a b \<longleftrightarrow> (\<exists>ca cb. cipher a = Some ca \<and> cipher b = Some cb \<and> sharedKey cb = sharedKey ca
     \<and> length (sharedKey ca) = aesKeySize)"

lemma encoded_fits:
  assumes "EncodeMessageFrameWithLimit f (MaxOutboundSize (options a)) = Inr bs" and "matching_ends a b"
  shows "MaxInboundSize (options b) > 0 \<longrightarrow> int (length bs) \<le> MaxInboundSize (options b)"
  using assms by (auto simp: Encode_iff encodable_def matching_ends_def frame_len_defs)

lemma codec_matching:
  assumes "codec_encode a f = Inr g" and "matching_ends a b"
  shows "Cmd g = Cmd f \<and> Act g = Act f \<and> Error g = Error f \<and> Index g = Index f
    \<and> (case cfg_Codec (options b) of
         None \<Rightarrow> g = f
       | Some codec \<Rightarrow> codec_Decode codec (Body g) (Flags g) = Inr (Body f))"
  using assms by (auto simp: codec_encode_def matching_ends_def codec_ok_def rbind_eq_Inr split: option.splits)

subsection \<open>Delivery\<close>

lemma delivered_frame:
  assumes "state a = ConnectionStateReady" and "state b = ConnectionStateReady" and "\<not> ctx_done a"
    and ends: "matching_ends a b" and key: "EncryptEnable (options a) \<longrightarrow> same_key a b"
    and business: "\<not> IsInternalCommand (Cmd f)" and send: "SendMessage a (Some f) = (a', None)"
  shows "\<exists>bs g. accepted a' = accepted a @ [bs] \<and> sendChannel a' = sendChannel a @ [bs]
    \<and> Cmd g = Cmd f \<and> Act g = Act f \<and> Error g = Error f \<and> Index g = Index f \<and> Body g = Body f
    \<and> (\<forall>rest. onProcess env now b (bs @ rest) =
         (let (b', e) = run_handler (h_OnMessage (env_handler env) (events b) g) (log_event (OnMessage g) (touch now b))
          in (b', length bs, e)))"
proof -
  from send assms(1) obtain g where g: "codec_encode a f = Inr g"
    by (auto simp: SendMessage_def sendFrame_def split: sum.splits)
  note gf = codec_matching [OF g ends]
  obtain body where body: "encrypt a (Body g) = (a, Inr body)" "decrypt (touch now b) body = (touch now b, Inr (Body g))"
  proof (cases "EncryptEnable (options a)")
    case True
    with key obtain ca cb where c: "cipher a = Some ca" "cipher b = Some cb" "sharedKey cb = sharedKey ca"
      "length (sharedKey ca) = aesKeySize" by (auto simp: same_key_def)
    from cipher_decrypts_same_key [OF c(4,3)] obtain x where
      "ECDHCipher_Encrypt ca (Body g) = Inr x" "ECDHCipher_Decrypt cb x = Inr (Body g)" by blast
    with True c assms ends show ?thesis by (intro that [of x]) (simp_all add: encrypt_def decrypt_def touch_def matching_ends_def)
  next
    case False
    with assms ends show ?thesis by (intro that [of "Body g"]) (simp_all add: encrypt_def decrypt_def touch_def matching_ends_def)
  qed
  from send assms(1) g body gf business obtain bs where
    bs: "EncodeMessageFrameWithLimit (g\<lparr>Body := body\<rparr>) (MaxOutboundSize (options a)) = Inr bs" "pushQueue a bs = (a', None)"
    by (auto simp: SendMessage_def sendFrame_def split: sum.splits)
  define h where "h = g\<lparr>Body := Body f, frame_crc := ChecksumIEEE body\<rparr>"
  have "onProcess env now b (bs @ rest) =
      (let (b', e) = run_handler (h_OnMessage (env_handler env) (events b) h) (log_event (OnMessage h) (touch now b))
       in (b', length bs, e))" for rest
  proof -
    have "DecodeMessageFrameWithLimit (bs @ rest) (MaxInboundSize (options b)) =
        (Some (g\<lparr>Body := body, frame_crc := ChecksumIEEE body\<rparr>), length bs, None)"
      using Decode_encoded_limit [OF bs(1) encoded_fits [OF bs(1) ends], of rest] by simp
    moreover have "prepareMessageFrame (touch now b) (g\<lparr>Body := body, frame_crc := ChecksumIEEE body\<rparr>) = (touch now b, Inr h)"
      using body(2) gf business by (simp add: prepareMessageFrame_def touch_def h_def split: option.splits)
    moreover have "0 < length bs" using length_encoded [OF bs(1)] by (simp add: frame_len_defs)
    ultimately show ?thesis
      using business gf assms(2)
      by (simp add: onProcess_def processFrame_def h_def touch_def Let_def split: prod.splits)
  qed
  moreover have "accepted a' = accepted a @ [bs] \<and> sendChannel a' = sendChannel a @ [bs]"
    using bs(2) assms(3) by (auto simp: pushQueue_def enqueue_def split: if_splits)
  ultimately show ?thesis using gf by (intro exI [of _ bs] exI [of _ h]) (simp add: h_def)
qed


text \<open>The example frame between two ready connections with the same key and a compressing codec.\<close>

definition sample_codec :: Codec_iface where
  "sample_codec = Pipeline_Codec \<lparr>transforms = [not_transform 1], knownFlags = 1\<rparr>"

definition sample_end :: "unit baseConn" where
  "sample_end = sample_started\<lparr>cipher := Some \<lparr>privateKey = [], publicKey = [], sharedKey = replicate 32 5\<rparr>,
     options := (options sample_started)\<lparr>EncryptEnable := True, cfg_Codec := Some sample_codec\<rparr>\<rparr>"

lemma sample_end_fields:
  "state sample_end = ConnectionStateReady" "ctx_done sample_end = False" "sendChannel sample_end = []" "accepted sample_end = []"
  "SendChanSize (options sample_end) = 1024" "MaxOutboundSize (options sample_end) = 32768"
  "MaxInboundSize (options sample_end) = 32768" "EncryptEnable (options sample_end)" "cfg_Codec (options sample_end) = Some sample_codec"
  "cipher sample_end = Some \<lparr>privateKey = [], publicKey = [], sharedKey = replicate 32 5\<rparr>"
  by (simp_all add: sample_end_def sample_started_fields sample_inbound(3))

lemma sample_codec_ok: "codec_ok sample_codec"
proof -
  have "Pipeline_New [Some (not_transform 1)] = Inr \<lparr>transforms = [not_transform 1], knownFlags = 1\<rparr>"
    by (simp add: Pipeline_New_def not_transform_def OnesCount8_def map_filter_def upt_rec numeral_eq_Suc bit_Suc)
  from Pipeline_codec_ok [OF this] show ?thesis
    by (simp add: sample_codec_def transform_ok_def not_transform_def comp_def)
qed

lemma sample_matching: "matching_ends sample_end sample_end" "same_key sample_end sample_end"
  by (simp_all add: matching_ends_def same_key_def sample_end_fields sample_codec_ok aesKeySize_def)


subsection \<open>The handshake\<close>

text \<open>The bytes of a key exchange frame with a given public key.\<close>

definition hello :: "'u baseConn \<Rightarrow> bytes \<Rightarrow> bytes result" where
  "hello b pk = rbind (codec_encode b (NewMessageFrame InternalCmd InternalKeyExchange 0 pk))
     (\<lambda>g. EncodeMessageFrameWithLimit g (MaxOutboundSize (options b)))"

lemma codec_encode_Cmd: "codec_encode b f = Inr g \<Longrightarrow> Cmd g = Cmd f \<and> Act g = Act f"
  by (auto simp: codec_encode_def rbind_eq_Inr split: option.splits)

lemma sendExchangeKey_ok:
  assumes "cipher b = Some k" "hello b (publicKey k) = Inr h" "\<not> ctx_done b" "has_room b"
  shows "sendExchangeKey b = (enqueue h b, None)"
proof -
  from assms(2) obtain g where g: "codec_encode b (NewMessageFrame InternalCmd InternalKeyExchange 0 (publicKey k)) = Inr g"
    "EncodeMessageFrameWithLimit g (MaxOutboundSize (options b)) = Inr h" by (auto simp: hello_def rbind_eq_Inr)
  then have "IsInternalCommand (Cmd g)" "g\<lparr>Body := Body g\<rparr> = g"
    using codec_encode_Cmd [OF g(1)] by (simp_all add: NewMessageFrame_def IsInternalCommand_def)
  with assms g show ?thesis
    by (simp add: sendExchangeKey_def sendFrame_def pushQueue_def ECDHCipher_PublicKey_def)
qed

text \<open>The other end reads a key exchange frame and handles the public key in it.\<close>

lemma onProcess_hello:
  assumes h: "hello a pk = Inr h" and ends: "matching_ends a b"
  shows "\<exists>f. Body f = pk \<and> onProcess env now b h =
    (let (b', e) = handleKeyExchange env (touch now b) f in (b', length h, e))"
proof -
  let ?m = "NewMessageFrame InternalCmd InternalKeyExchange 0 pk"
  from h obtain g where g: "codec_encode a ?m = Inr g"
    and enc: "EncodeMessageFrameWithLimit g (MaxOutboundSize (options a)) = Inr h" by (auto simp: hello_def rbind_eq_Inr)
  note gm = codec_matching [OF g ends]
  define f where "f = g\<lparr>Body := pk, frame_crc := ChecksumIEEE (Body g)\<rparr>"
  have "DecodeMessageFrameWithLimit h (MaxInboundSize (options b)) = (Some (g\<lparr>frame_crc := ChecksumIEEE (Body g)\<rparr>), length h, None)"
    using Decode_encoded_limit [OF enc encoded_fits [OF enc ends], of "[]"] by simp
  moreover have "0 < length h" using length_encoded [OF enc] by (simp add: frame_len_defs)
  moreover have "IsInternalCommand (Cmd g)" "Act g = InternalKeyExchange"
    using gm by (simp_all add: NewMessageFrame_def IsInternalCommand_def)
  moreover have "prepareMessageFrame (touch now b) (g\<lparr>frame_crc := ChecksumIEEE (Body g)\<rparr>) = (touch now b, Inr f)"
    using gm by (auto simp: prepareMessageFrame_def touch_def f_def NewMessageFrame_def IsInternalCommand_def split: option.splits)
  moreover have "InternalKeyExchange \<noteq> InternalActClose" by (simp add: internal_defs)
  ultimately have "onProcess env now b h = (let (b', e) = handleKeyExchange env (touch now b) f in (b', length h, e))"
    by (simp add: onProcess_def processFrame_def f_def Let_def)
  then show ?thesis by (intro exI [of _ f]) (simp add: f_def)
qed

definition handler_accepts :: "'u TransportHandler \<Rightarrow> bool" where
  "handler_accepts h \<longleftrightarrow> (\<forall>evs b. snd (run_handler (h_OnConnected h evs) b) = None
     \<and> state (fst (run_handler (h_OnConnected h evs) b)) = state b)"

lemma onReady_accepted:
  assumes "becoming_ready b" and "handler_accepts (env_handler env)"
  shows "\<exists>b'. onReady env b = (b', None) \<and> state b' = ConnectionStateReady \<and> cipher b' = cipher b
    \<and> prefix (sendChannel b) (sendChannel b')"
proof -
  let ?b = "log_event OnConnected (stop_timer b)"
  let ?p = "h_OnConnected (env_handler env) (events (stop_timer b))"
  have "connected_events [OnConnected]" by (auto simp: connected_events_def)
  with assms(1) have "conn_inv ?b"
    by (simp add: conn_inv_def becoming_ready_def log_event_def stop_timer_def events_ok_connected)
  from run_handler_inv [OF this, of ?p] have "cipher (fst (run_handler ?p ?b)) = cipher b"
    by (simp add: log_event_def stop_timer_def)
  moreover have "snd (run_handler ?p ?b) = None" "state (fst (run_handler ?p ?b)) = ConnectionStateReady"
    using assms by (simp_all add: handler_accepts_def becoming_ready_def log_event_def stop_timer_def)
  moreover have "prefix (sendChannel b) (sendChannel (fst (run_handler ?p ?b)))"
    using grows.R_run_handler [of ?b ?p] by (auto simp: conn_grows_def log_event_def stop_timer_def)
  ultimately show ?thesis
    by (cases "run_handler ?p ?b") (simp add: onReady_def Let_def close_readyCh_def)
qed

lemma hello_cong: "options a = options b \<Longrightarrow> hello a pk = hello b pk"
  by (simp add: hello_def codec_encode_def)

text \<open>The key exchange on a connection in the handshake: a server first answers with its own key.\<close>

lemma handleKeyExchange_ok:
  assumes b: "conn_inv b" "state b = ConnectionStateHandshaking" "cipher b = Some k" "sendChannel b = q"
    and acc: "handler_accepts (env_handler env)"
    and key: "ECDHCipher_GenerateSharedKey (env_crypto env) k (Body f) = (k', None)"
    and srv: "role b = ConnectionRoleServer \<longrightarrow> hello b (publicKey k) = Inr h \<and> has_room b"
  shows "\<exists>b'. handleKeyExchange env b f = (b', None) \<and> state b' = ConnectionStateReady \<and> cipher b' = Some k'
    \<and> (role b = ConnectionRoleServer \<longrightarrow> (\<exists>r. sendChannel b' = q @ h # r))"
proof -
  let ?b = "b\<lparr>state := ConnectionStateReady\<rparr>"
  let ?c = "if role b = ConnectionRoleServer then enqueue h ?b else ?b"
  have send: "(if role ?b = ConnectionRoleServer then sendExchangeKey ?b else (?b, None)) = (?c, None)"
  proof (cases "role b = ConnectionRoleServer")
    case True
    with srv b have "sendExchangeKey ?b = (enqueue h ?b, None)"
      by (intro sendExchangeKey_ok [of _ k]) (auto simp: has_room_def conn_inv_def hello_cong [of ?b b])
    with True show ?thesis by simp
  qed simp
  have ready: "becoming_ready (?c\<lparr>cipher := Some k'\<rparr>)"
    using b by (auto simp: becoming_ready_def conn_inv_def enqueue_def)
  from onReady_accepted [OF ready acc] obtain b' where b': "onReady env (?c\<lparr>cipher := Some k'\<rparr>) = (b', None)"
    "state b' = ConnectionStateReady" "cipher b' = Some k'" "prefix (sendChannel ?c) (sendChannel b')" by auto
  have ck: "cipher ?c = Some k" using b by (simp add: enqueue_def)
  have "handleKeyExchange env b f = (b', None)"
    unfolding handleKeyExchange_def state_CAS_def using b(2) send ck key b'(1) by simp
  moreover have "\<exists>r. sendChannel b' = q @ h # r" if "role b = ConnectionRoleServer"
    using b'(4) that b(4) by (auto simp: enqueue_def prefix_def)
  ultimately show ?thesis using b' by blast
qed

lemma newBaseConn_inv: "conn_inv (newBaseConnWithRole cid opts rl now ps)"
  by (simp add: newBaseConnWithRole_def touch_def conn_inv_def)

lemma newBaseConn_options: "options (newBaseConnWithRole cid opts rl now ps) = opts"
  by (simp add: newBaseConnWithRole_def touch_def)

text \<open>\<^verbatim>\<open>start\<close> on a new connection with encryption: a client sends its key, a server waits.\<close>

lemma start_handshake_ok:
  fixes b :: "'u baseConn"
  assumes new: "b = newBaseConnWithRole cid opts rl now ps" and en: "EncryptEnable opts" "0 < SendChanSize opts"
    and k: "NewECDHCipher (env_crypto env) (env_key env) = Inr k" and h: "rl = ConnectionRoleClient \<longrightarrow> hello b (publicKey k) = Inr h"
  shows "\<exists>b'. start env b = (b', None) \<and> conn_inv b' \<and> state b' = ConnectionStateHandshaking \<and> cipher b' = Some k
    \<and> options b' = opts \<and> role b' = rl \<and> sendChannel b' = (if rl = ConnectionRoleClient then [h] else [])"
proof -
  let ?b = "b\<lparr>state := ConnectionStateHandshaking, cipher := Some k\<rparr>"
  have b: "state b = ConnectionStateCreated" "options b = opts" "role b = rl" "\<not> ctx_done b" "sendChannel b = []"
    using new by (simp_all add: newBaseConnWithRole_def touch_def)
  have "sendExchangeKey ?b = (enqueue h ?b, None)" if "rl = ConnectionRoleClient"
    using that h b en by (intro sendExchangeKey_ok [of _ k]) (auto simp: has_room_def hello_cong [of ?b b])
  then have start: "start env b = ((if rl = ConnectionRoleClient then enqueue h ?b else ?b)\<lparr>handshakeTimer := Some True\<rparr>, None)"
    using b en k by (simp add: start_def state_CAS_def startHandshake_def)
  have "conn_inv (fst (start env b))"
    using start_inv [OF newBaseConn_inv, of env cid opts rl now ps] start by (simp add: new result_inv_def)
  with start b show ?thesis by (simp add: enqueue_def)
qed

text \<open>An end in the handshake receives the other end's key frame.\<close>

lemma receive_key:
  assumes b: "conn_inv b" "state b = ConnectionStateHandshaking" "cipher b = Some k"
    and h: "hello a pk = Inr h" "matching_ends a b"
    and key: "ECDHCipher_GenerateSharedKey (env_crypto env) k pk = (k', None)"
    and acc: "handler_accepts (env_handler env)"
    and srv: "role b = ConnectionRoleServer \<longrightarrow> hello b (publicKey k) = Inr h' \<and> has_room b"
  shows "\<exists>b'. onProcess env now b h = (b', length h, None) \<and> state b' = ConnectionStateReady \<and> cipher b' = Some k'
    \<and> (role b = ConnectionRoleServer \<longrightarrow> (\<exists>r. sendChannel b' = sendChannel b @ h' # r))"
proof -
  from onProcess_hello [OF h, of env now] obtain f where
    f: "Body f = pk" "onProcess env now b h = (let (b', e) = handleKeyExchange env (touch now b) f in (b', length h, e))" by blast
  have "hello (touch now b) pk' = hello b pk'" for pk' by (rule hello_cong) (simp add: touch_def)
  with b srv have t: "conn_inv (touch now b)" "state (touch now b) = ConnectionStateHandshaking" "cipher (touch now b) = Some k"
    "sendChannel (touch now b) = sendChannel b"
    "role (touch now b) = ConnectionRoleServer \<longrightarrow> hello (touch now b) (publicKey k) = Inr h' \<and> has_room (touch now b)"
    by (simp_all add: touch_def conn_inv_def has_room_def)
  from handleKeyExchange_ok [OF t(1-4) acc key [folded f(1)] t(5)] f(2) show ?thesis by (auto simp: touch_def)
qed

text \<open>
  C25: A new client and a new server connection with encryption reach the ready state with the same
  key: the client's \<^verbatim>\<open>start\<close> sends its public key, the server on receiving it answers with its own
  and becomes ready, and the client on receiving the answer becomes ready; no step fails. The
  hypotheses are that the cryptographic library agrees on the secret, that the key frames fit
  the limits, and that the handlers accept the connection.
\<close>

theorem handshake_completes:
  fixes c :: "'u baseConn" and s :: "'v baseConn"
  assumes c: "c = newBaseConnWithRole cid optc ConnectionRoleClient tc psc" "EncryptEnable optc" "0 < SendChanSize optc"
    and s: "s = newBaseConnWithRole sid opts ConnectionRoleServer ts pss" "EncryptEnable opts" "0 < SendChanSize opts"
    and lib: "env_crypto envc = lib" "env_crypto envs = lib" "env_key envc = Inr ka" "env_key envs = Inr kb" "crypto_agrees lib ka kb"
    and ends: "matching_ends c s" "matching_ends s c"
    and hello: "hello c (x25519_public lib ka) = Inr hc" "hello s (x25519_public lib kb) = Inr hs"
    and acc: "handler_accepts (env_handler envc)" "handler_accepts (env_handler envs)"
  shows "\<exists>c1 s1 c2 s2 more_out. start envc c = (c1, None) \<and> sendChannel c1 = [hc]
    \<and> start envs s = (s1, None)
    \<and> onProcess envs n1 s1 hc = (s2, length hc, None) \<and> sendChannel s2 = hs # more_out
    \<and> onProcess envc n2 c1 hs = (c2, length hs, None)
    \<and> state c2 = ConnectionStateReady \<and> state s2 = ConnectionStateReady \<and> same_key c2 s2 \<and> same_key s2 c2"
proof -
  obtain A B where A: "NewECDHCipher lib (Inr ka) = Inr A" "publicKey A = x25519_public lib ka"
    and B: "NewECDHCipher lib (Inr kb) = Inr B" "publicKey B = x25519_public lib kb"
    by (simp add: NewECDHCipher_def)
  obtain k where k: "length k = aesKeySize"
      "ECDHCipher_GenerateSharedKey lib A (ECDHCipher_PublicKey B) = (A\<lparr>sharedKey := k\<rparr>, None)"
      "ECDHCipher_GenerateSharedKey lib B (ECDHCipher_PublicKey A) = (B\<lparr>sharedKey := k\<rparr>, None)"
    by (rule GenerateSharedKey_agrees [OF lib(5) A(1) B(1)])
  have "\<exists>b'. start envc c = (b', None) \<and> conn_inv b' \<and> state b' = ConnectionStateHandshaking \<and> cipher b' = Some A
      \<and> options b' = optc \<and> role b' = ConnectionRoleClient
      \<and> sendChannel b' = (if ConnectionRoleClient = ConnectionRoleClient then [hc] else [])"
    by (rule start_handshake_ok [OF c]) (use A hello lib in simp_all)
  then obtain c1 where c1: "start envc c = (c1, None)" "conn_inv c1" "state c1 = ConnectionStateHandshaking" "cipher c1 = Some A"
    "options c1 = optc" "role c1 = ConnectionRoleClient" "sendChannel c1 = [hc]" by auto
  have "\<exists>b'. start envs s = (b', None) \<and> conn_inv b' \<and> state b' = ConnectionStateHandshaking \<and> cipher b' = Some B
      \<and> options b' = opts \<and> role b' = ConnectionRoleServer
      \<and> sendChannel b' = (if ConnectionRoleServer = ConnectionRoleClient then [hs] else [])"
    by (rule start_handshake_ok [OF s]) (use B lib in simp_all)
  then obtain s1 where s1: "start envs s = (s1, None)" "conn_inv s1" "state s1 = ConnectionStateHandshaking" "cipher s1 = Some B"
    "options s1 = opts" "role s1 = ConnectionRoleServer" "sendChannel s1 = []" by auto
  have opts: "options c = optc" "options s = opts" by (simp_all add: c(1) s(1) newBaseConn_options)
  have ends': "matching_ends c s1" "matching_ends s c1"
    using ends opts s1(5) c1(5) by (simp_all add: matching_ends_def)
  have hs: "hello s1 (publicKey B) = Inr hs" using hello(2) B(2) hello_cong [of s1 s] opts(2) s1(5) by simp
  have "\<exists>b'. onProcess envs n1 s1 hc = (b', length hc, None) \<and> state b' = ConnectionStateReady
      \<and> cipher b' = Some (B\<lparr>sharedKey := k\<rparr>) \<and> (role s1 = ConnectionRoleServer \<longrightarrow> (\<exists>r. sendChannel b' = sendChannel s1 @ hs # r))"
    by (rule receive_key [OF s1(2,3,4) hello(1) ends'(1) _ acc(2)])
      (use k(3) A lib s1 s(3) hs in \<open>simp_all add: ECDHCipher_PublicKey_def has_room_def\<close>)
  then obtain s2 r where s2: "onProcess envs n1 s1 hc = (s2, length hc, None)" "state s2 = ConnectionStateReady"
    "cipher s2 = Some (B\<lparr>sharedKey := k\<rparr>)" "sendChannel s2 = hs # r" using s1(6,7) by auto
  have "\<exists>b'. onProcess envc n2 c1 hs = (b', length hs, None) \<and> state b' = ConnectionStateReady
      \<and> cipher b' = Some (A\<lparr>sharedKey := k\<rparr>) \<and> (role c1 = ConnectionRoleServer \<longrightarrow> (\<exists>r. sendChannel b' = sendChannel c1 @ hs # r))"
    by (rule receive_key [OF c1(2,3,4) hello(2) ends'(2) _ acc(1)])
      (use k(2) B lib c1 in \<open>simp_all add: ECDHCipher_PublicKey_def\<close>)
  then obtain c2 where c2: "onProcess envc n2 c1 hs = (c2, length hs, None)" "state c2 = ConnectionStateReady"
    "cipher c2 = Some (A\<lparr>sharedKey := k\<rparr>)" by blast
  have "same_key c2 s2" "same_key s2 c2" using c2(3) s2(3) k(1) by (simp_all add: same_key_def)
  with c1 s1 s2 c2 show ?thesis by blast
qed

lemma sample_accepts: "handler_accepts (env_handler sample_env)"
  by (simp add: handler_accepts_def sample_env_def DefaultTransportHandler_def)

theorem handshake_completes_witness:
  "\<exists>c1 s1 c2 s2 hc hs. start sample_env (newBaseConnWithRole 1 (options sample_end) ConnectionRoleClient 0 []) = (c1, None)
    \<and> start (sample_env\<lparr>env_key := Inr (replicate 32 2)\<rparr>) (newBaseConnWithRole 2 (options sample_end) ConnectionRoleServer 0 []) = (s1, None)
    \<and> onProcess (sample_env\<lparr>env_key := Inr (replicate 32 2)\<rparr>) 1 s1 hc = (s2, length hc, None)
    \<and> onProcess sample_env 2 c1 hs = (c2, length hs, None) \<and> same_key c2 s2"
proof -
  define opts where "opts = options sample_end"
  let ?c = "newBaseConnWithRole 1 opts ConnectionRoleClient 0 [] :: unit baseConn"
  let ?s = "newBaseConnWithRole 2 opts ConnectionRoleServer 0 [] :: unit baseConn"
  have ends: "matching_ends ?c ?s" "matching_ends ?s ?c"
    using sample_matching(1) by (simp_all add: matching_ends_def newBaseConn_options opts_def)
  have hello: "\<exists>h. hello b (replicate 32 x) = Inr h" if "options b = opts" for b :: "unit baseConn" and x
    using that by (simp add: hello_def opts_def sample_end_fields codec_encode_def sample_codec_def Pipeline_Codec_def
        Pipeline_Encode_def not_transform_def NewMessageFrame_def EncodeMessageFrameWithLimit_def validate_command_def
        IsInternalCommand_def internal_defs ValidateInternalAction_def frame_len_defs Let_def)
  obtain hc hs where h: "hello ?c (x25519_public xor_crypto (replicate 32 1)) = Inr hc"
    "hello ?s (x25519_public xor_crypto (replicate 32 2)) = Inr hs"
    using hello [of ?c 1] hello [of ?s 2] by (auto simp: newBaseConn_options xor_crypto_def)
  have lib: "crypto_agrees xor_crypto (replicate 32 1) (replicate 32 2)"
    by (simp add: crypto_agrees_def xor_crypto_def aesKeySize_def zip_replicate xor.commute)
  have sides: "EncryptEnable opts" "0 < SendChanSize opts" "env_crypto sample_env = xor_crypto"
    "env_key sample_env = Inr (replicate 32 1)" "env_handler (sample_env\<lparr>env_key := k\<rparr>) = env_handler sample_env"
    "env_crypto (sample_env\<lparr>env_key := k\<rparr>) = xor_crypto" for k
    by (simp_all add: opts_def sample_end_fields sample_env_def)
  show ?thesis
    using handshake_completes [OF refl sides(1,2) refl sides(1,2) sides(3) sides(6) sides(4) _ lib ends h sample_accepts,
        of "Inr (replicate 32 2)" 1 2] sample_accepts sides(5)
    unfolding opts_def by simp blast
qed

end
