(* ===== verification/Component.thy ===== *)
theory Component
  imports GoErrors "HOL-Library.Multiset"
begin

text \<open>
  \<^verbatim>\<open>pkg/component\<close>: the lifecycle controller that every component embeds, the base component, and
  the manager that keeps the components of a node in registration order and hands them out by
  priority.

  What a component does in its \<^verbatim>\<open>Init\<close>, \<^verbatim>\<open>Start\<close> and \<^verbatim>\<open>Stop\<close> is a function on the state \<open>'w\<close> of
  the rest of the program (\<open>hook\<close>, \<open>None\<close> for a nil function). The mutex of a controller makes
  each of its operations one step.
\<close>

subsection \<open>The lifecycle controller\<close>

datatype State = StateNew | StateInited | StateStarted | StateStopped

instantiation State :: linorder
begin
fun rank_State :: "State \<Rightarrow> nat" where
  "rank_State StateNew = 0" | "rank_State StateInited = 1" | "rank_State StateStarted = 2" | "rank_State StateStopped = 3"
definition less_eq_State :: "State \<Rightarrow> State \<Rightarrow> bool" where "less_eq_State a b \<longleftrightarrow> rank_State a \<le> rank_State b"
definition less_State :: "State \<Rightarrow> State \<Rightarrow> bool" where "less_State a b \<longleftrightarrow> rank_State a < rank_State b"
instance
proof
  fix a b :: State
  show "a \<le> b \<Longrightarrow> b \<le> a \<Longrightarrow> a = b"
    by (cases a; cases b) (auto simp: less_eq_State_def)
qed (auto simp: less_eq_State_def less_State_def)
end

fun State_String :: "State \<Rightarrow> string" where
  "State_String StateNew = ''new''"
| "State_String StateInited = ''inited''"
| "State_String StateStarted = ''started''"
| "State_String StateStopped = ''stopped''"

definition ErrInitAlreadyCalled :: go_error where "ErrInitAlreadyCalled = Plain ''init already called''"
definition ErrStartAlreadyCalled :: go_error where "ErrStartAlreadyCalled = Plain ''start already called''"
definition ErrStopAlreadyCalled :: go_error where "ErrStopAlreadyCalled = Plain ''stop already called''"
definition ErrInvalidOrder :: go_error where "ErrInvalidOrder = Plain ''invalid lifecycle order''"

type_synonym 'w hook = "('w \<Rightarrow> 'w \<times> err) option"

record Controller =
  state :: State
  initCalled :: bool
  startCalled :: bool
  stopCalled :: bool

definition new_Controller :: Controller where
  "new_Controller = \<lparr>state = StateNew, initCalled = False, startCalled = False, stopCalled = False\<rparr>"

text \<open>\<^verbatim>\<open>if run != nil { err = run() }\<close>.\<close>

definition run_hook :: "'w hook \<Rightarrow> 'w \<Rightarrow> 'w \<times> err" where
  "run_hook run w = (case run of None \<Rightarrow> (w, None) | Some f \<Rightarrow> f w)"

definition Controller_Init :: "Controller \<Rightarrow> 'w hook \<Rightarrow> 'w \<Rightarrow> Controller \<times> 'w \<times> err" where
  "Controller_Init c run w =
     (if initCalled c then (c, w, Some ErrInitAlreadyCalled)
      else if state c \<noteq> StateNew
      then (c, w, Some (Wrap [] ErrInvalidOrder ('': current='' @ State_String (state c) @ '' want='' @ State_String StateNew)))
      else (let c1 = c\<lparr>initCalled := True\<rparr> in
            case run_hook run w of
              (w1, Some e) \<Rightarrow> (c1, w1, Some (Wrap ''init failed: '' e []))
            | (w1, None) \<Rightarrow> (c1\<lparr>state := StateInited\<rparr>, w1, None)))"

definition Controller_Start :: "Controller \<Rightarrow> 'w hook \<Rightarrow> 'w \<Rightarrow> Controller \<times> 'w \<times> err" where
  "Controller_Start c run w =
     (if startCalled c then (c, w, Some ErrStartAlreadyCalled)
      else if state c \<noteq> StateInited
      then (c, w, Some (Wrap [] ErrInvalidOrder ('': current='' @ State_String (state c) @ '' want='' @ State_String StateInited)))
      else (let c1 = c\<lparr>startCalled := True\<rparr> in
            case run_hook run w of
              (w1, Some e) \<Rightarrow> (c1, w1, Some (Wrap ''start failed: '' e []))
            | (w1, None) \<Rightarrow> (c1\<lparr>state := StateStarted\<rparr>, w1, None)))"

definition Controller_Stop :: "Controller \<Rightarrow> 'w hook \<Rightarrow> 'w \<Rightarrow> Controller \<times> 'w \<times> err" where
  "Controller_Stop c run w =
     (if stopCalled c then (c, w, Some ErrStopAlreadyCalled)
      else if \<not> initCalled c
      then (c, w, Some (Wrap [] ErrInvalidOrder ('': current='' @ State_String (state c) @ '' want=init attempted'')))
      else (let c1 = c\<lparr>stopCalled := True\<rparr> in
            case run_hook run w of
              (w1, Some e) \<Rightarrow> (c1, w1, Some (Wrap ''stop failed: '' e []))
            | (w1, None) \<Rightarrow> (c1\<lparr>state := StateStopped\<rparr>, w1, None)))"

lemmas controller_defs = Controller_Init_def Controller_Start_def Controller_Stop_def Let_def run_hook_def

subsection \<open>Components\<close>

text \<open>
  An \<^verbatim>\<open>IComponent\<close>: the base component with the functions the implementing type passes to
  \<^verbatim>\<open>GuardInit\<close>, \<^verbatim>\<open>GuardStart\<close> and \<^verbatim>\<open>GuardStop\<close>. \<open>c_priority\<close> is \<open>None\<close> when the type does not
  implement \<^verbatim>\<open>PriorityComponent\<close>.
\<close>

record 'w component =
  c_name :: string
  c_priority :: "int option"
  lifecycle :: Controller
  on_init :: "'w hook"
  on_start :: "'w hook"
  on_stop :: "'w hook"

definition BaseComponent :: "'w component" where
  "BaseComponent = \<lparr>c_name = [], c_priority = Some 0, lifecycle = new_Controller, on_init = None, on_start = None, on_stop = None\<rparr>"

definition SetName :: "string \<Rightarrow> 'w component \<Rightarrow> 'w component" where
  "SetName s c = c\<lparr>c_name := s\<rparr>"

definition GuardInit :: "'w component \<Rightarrow> 'w hook \<Rightarrow> 'w \<Rightarrow> 'w component \<times> 'w \<times> err" where
  "GuardInit c run w = (case Controller_Init (lifecycle c) run w of (l, w1, e) \<Rightarrow> (c\<lparr>lifecycle := l\<rparr>, w1, e))"

definition GuardStart :: "'w component \<Rightarrow> 'w hook \<Rightarrow> 'w \<Rightarrow> 'w component \<times> 'w \<times> err" where
  "GuardStart c run w = (case Controller_Start (lifecycle c) run w of (l, w1, e) \<Rightarrow> (c\<lparr>lifecycle := l\<rparr>, w1, e))"

definition GuardStop :: "'w component \<Rightarrow> 'w hook \<Rightarrow> 'w \<Rightarrow> 'w component \<times> 'w \<times> err" where
  "GuardStop c run w = (case Controller_Stop (lifecycle c) run w of (l, w1, e) \<Rightarrow> (c\<lparr>lifecycle := l\<rparr>, w1, e))"

definition component_Init :: "'w component \<Rightarrow> 'w \<Rightarrow> 'w component \<times> 'w \<times> err" where
  "component_Init c = GuardInit c (on_init c)"

definition component_Start :: "'w component \<Rightarrow> 'w \<Rightarrow> 'w component \<times> 'w \<times> err" where
  "component_Start c = GuardStart c (on_start c)"

definition component_Stop :: "'w component \<Rightarrow> 'w \<Rightarrow> 'w component \<times> 'w \<times> err" where
  "component_Stop c = GuardStop c (on_stop c)"

definition Status :: "'w component option \<Rightarrow> State" where
  "Status c = (case c of None \<Rightarrow> StateNew | Some c \<Rightarrow> state (lifecycle c))"

lemmas guard_defs = GuardInit_def GuardStart_def GuardStop_def component_Init_def component_Start_def component_Stop_def

subsection \<open>The component manager\<close>

text \<open>The error texts are Chinese; they are given by their UTF-8 bytes.\<close>

definition utf8 :: "nat list \<Rightarrow> string" where "utf8 bs = map char_of bs"

definition ErrComponentCannotBeNil :: go_error where
  "ErrComponentCannotBeNil = Plain (utf8 [0xE7, 0xBB, 0x84, 0xE4, 0xBB, 0xB6, 0xE4, 0xB8, 0x8D, 0xE8, 0x83, 0xBD, 0xE4, 0xB8, 0xBA, 0xE7, 0xA9, 0xBA])"
definition ErrComponentTypeCannotBeNil :: go_error where
  "ErrComponentTypeCannotBeNil = Plain (utf8 [0xE7, 0xBB, 0x84, 0xE4, 0xBB, 0xB6, 0xE7, 0xB1, 0xBB, 0xE5, 0x9E, 0x8B, 0xE4, 0xB8, 0x8D, 0xE8, 0x83, 0xBD, 0xE4, 0xB8, 0xBA, 0xE7, 0xA9, 0xBA])"
definition ErrComponentAlreadyRegistered :: go_error where
  "ErrComponentAlreadyRegistered = Plain (utf8 [0xE7, 0xBB, 0x84, 0xE4, 0xBB, 0xB6, 0xE5, 0xB7, 0xB2, 0xE6, 0xB3, 0xA8, 0xE5, 0x86, 0x8C])"
definition ErrComponentNotRegistered :: go_error where
  "ErrComponentNotRegistered = Plain (utf8 [0xE7, 0xBB, 0x84, 0xE4, 0xBB, 0xB6, 0xE6, 0x9C, 0xAA, 0xE6, 0xB3, 0xA8, 0xE5, 0x86, 0x8C])"

record 'w Manager =
  components :: "string \<rightharpoonup> 'w component"
  order :: "string list"

definition NewComponentsMgr :: "'w Manager" where
  "NewComponentsMgr = \<lparr>components = Map.empty, order = []\<rparr>"

definition Manager_Count :: "'w Manager \<Rightarrow> nat" where "Manager_Count cm = length (order cm)"

definition Manager_Get :: "'w Manager \<Rightarrow> string \<Rightarrow> 'w component option" where
  "Manager_Get cm name = components cm name"

text \<open>A nil element of the argument list is \<open>None\<close>. The components before a refused one stay added.\<close>

fun Manager_Add :: "'w Manager \<Rightarrow> 'w component option list \<Rightarrow> 'w Manager \<times> err" where
  "Manager_Add cm [] = (cm, None)"
| "Manager_Add cm (None # cs) = (cm, Some ErrComponentCannotBeNil)"
| "Manager_Add cm (Some c # cs) =
     (if components cm (c_name c) \<noteq> None then (cm, Some ErrComponentAlreadyRegistered)
      else Manager_Add (cm\<lparr>components := (components cm)(c_name c \<mapsto> c), order := order cm @ [c_name c]\<rparr>) cs)"

definition Manager_Remove :: "'w Manager \<Rightarrow> 'w component option \<Rightarrow> 'w Manager \<times> err" where
  "Manager_Remove cm t =
     (case t of
        None \<Rightarrow> (cm, Some ErrComponentTypeCannotBeNil)
      | Some t \<Rightarrow>
          if components cm (c_name t) = None then (cm, Some ErrComponentNotRegistered)
          else (cm\<lparr>components := (components cm)(c_name t := None), order := remove1 (c_name t) (order cm)\<rparr>, None))"

definition priorityOf :: "'w component \<Rightarrow> int" where
  "priorityOf c = (case c_priority c of Some p \<Rightarrow> p | None \<Rightarrow> 0)"

text \<open>\<^verbatim>\<open>sort.SliceStable\<close> is the stable \<open>sort_key\<close>.\<close>

definition orderedComponents :: "'w Manager \<Rightarrow> 'w component list" where
  "orderedComponents cm = sort_key priorityOf (List.map_filter (components cm) (order cm))"

text \<open>The callback returns whether to go on.\<close>

fun range_components :: "('w component \<Rightarrow> 's \<Rightarrow> 's \<times> bool) \<Rightarrow> 'w component list \<Rightarrow> 's \<Rightarrow> 's" where
  "range_components fn [] s = s"
| "range_components fn (c # cs) s = (case fn c s of (s1, cont) \<Rightarrow> if cont then range_components fn cs s1 else s1)"

definition RangeInOrder :: "('w component \<Rightarrow> 's \<Rightarrow> 's \<times> bool) \<Rightarrow> 'w Manager \<Rightarrow> 's \<Rightarrow> 's" where
  "RangeInOrder fn cm = range_components fn (orderedComponents cm)"

definition RangeInReverseOrder :: "('w component \<Rightarrow> 's \<Rightarrow> 's \<times> bool) \<Rightarrow> 'w Manager \<Rightarrow> 's \<Rightarrow> 's" where
  "RangeInReverseOrder fn cm = range_components fn (rev (orderedComponents cm))"

subsection \<open>The manager's invariant\<close>

definition mgr_wf :: "'w Manager \<Rightarrow> bool" where
  "mgr_wf cm \<longleftrightarrow> distinct (order cm) \<and> set (order cm) = dom (components cm)
     \<and> (\<forall>k c. components cm k = Some c \<longrightarrow> c_name c = k)"

lemma mgr_wf_new [simp]: "mgr_wf NewComponentsMgr"
  by (simp add: mgr_wf_def NewComponentsMgr_def)

lemma mgr_wf_add_one:
  "mgr_wf cm \<Longrightarrow> components cm (c_name c) = None \<Longrightarrow>
   mgr_wf (cm\<lparr>components := (components cm)(c_name c \<mapsto> c), order := order cm @ [c_name c]\<rparr>)"
  by (auto simp: mgr_wf_def)

lemma Manager_Add_wf [inv_intros]: "mgr_wf cm \<Longrightarrow> mgr_wf (fst (Manager_Add cm cs))"
  by (induction cm cs rule: Manager_Add.induct) (auto intro: mgr_wf_add_one)

lemma Manager_Remove_wf [inv_intros]: "mgr_wf cm \<Longrightarrow> mgr_wf (fst (Manager_Remove cm t))"
  by (auto simp: Manager_Remove_def mgr_wf_def dom_def split: option.splits)

lemma map_filter_names:
  "(\<And>k. k \<in> set ks \<Longrightarrow> \<exists>c. f k = Some c \<and> c_name c = k) \<Longrightarrow> map c_name (List.map_filter f ks) = ks"
proof (induction ks)
  case (Cons k ks)
  from Cons.prems [of k] obtain c where "f k = Some c" "c_name c = k" by auto
  with Cons show ?case by (simp add: List.map_filter_simps)
qed (simp add: List.map_filter_simps)

lemma registered_names: "mgr_wf cm \<Longrightarrow> map c_name (List.map_filter (components cm) (order cm)) = order cm"
  by (rule map_filter_names) (auto simp: mgr_wf_def)

lemma orderedComponents_names: "mgr_wf cm \<Longrightarrow> mset (map c_name (orderedComponents cm)) = mset (order cm)"
  using arg_cong [OF registered_names, of cm mset] unfolding orderedComponents_def mset_map mset_sort by simp

lemma in_map_filter: "y \<in> set (List.map_filter f xs) \<longleftrightarrow> (\<exists>x \<in> set xs. f x = Some y)"
  by (induction xs) (auto simp: List.map_filter_simps split: option.splits)

lemma orderedComponents_set: "mgr_wf cm \<Longrightarrow> set (orderedComponents cm) = ran (components cm)"
proof -
  assume "mgr_wf cm"
  then have "set (List.map_filter (components cm) (order cm)) = ran (components cm)"
    unfolding ran_def mgr_wf_def by (force simp: in_map_filter)
  then show ?thesis by (simp add: orderedComponents_def)
qed

lemma orderedComponents_distinct: "mgr_wf cm \<Longrightarrow> distinct (map c_name (orderedComponents cm))"
  using orderedComponents_names mset_eq_imp_distinct_iff mgr_wf_def by metis

text \<open>The order depends only on the registration order, the names and the priorities.\<close>

lemma sort_key_map: "sort_key f (map g xs) = map g (sort_key (\<lambda>x. f (g x)) xs)"
proof (induction xs)
  case (Cons x xs)
  have "insort_key f (g x) (map g ys) = map g (insort_key (\<lambda>x. f (g x)) x ys)" for ys
    by (induction ys) simp_all
  with Cons show ?case by simp
qed simp

definition name_priority :: "'w component \<Rightarrow> string \<times> int" where
  "name_priority c = (c_name c, priorityOf c)"

lemma ordered_names: "map c_name (orderedComponents cm) = map fst (sort_key snd (map name_priority (List.map_filter (components cm) (order cm))))"
  by (simp add: orderedComponents_def sort_key_map name_priority_def comp_def)

lemma map_filter_cong_keys:
  "(\<And>k. k \<in> set ks \<Longrightarrow> map_option h (f k) = map_option h (g k)) \<Longrightarrow> map h (List.map_filter f ks) = map h (List.map_filter g ks)"
proof (induction ks)
  case (Cons k ks)
  then have "map_option h (f k) = map_option h (g k)" by simp
  with Cons show ?case by (cases "f k"; cases "g k") (simp_all add: List.map_filter_simps)
qed (simp add: List.map_filter_simps)

lemma ordered_names_cong:
  fixes cm cm' :: "'w Manager"
  assumes "order cm' = order cm" "\<And>k. map_option name_priority (components cm' k) = map_option name_priority (components cm k)"
  shows "map c_name (orderedComponents cm') = map c_name (orderedComponents cm)"
  using map_filter_cong_keys [of "order cm" name_priority "components cm'" "components cm"] assms by (simp add: ordered_names)

lemma mgr_wf_cong:
  fixes cm cm' :: "'w Manager"
  assumes "mgr_wf cm" "order cm' = order cm" "\<And>k. map_option name_priority (components cm' k) = map_option name_priority (components cm k)"
  shows "mgr_wf cm'"
proof -
  have "dom (components cm') = dom (components cm)" using assms(3) by (auto simp: dom_def) (metis option.map_disc_iff not_None_eq)+
  moreover have "c_name c = k" if "components cm' k = Some c" for k c
  proof -
    from that assms(3) [of k] obtain d where "components cm k = Some d" "c_name d = c_name c"
      by (cases "components cm k") (auto simp: name_priority_def)
    then show ?thesis using assms(1) by (auto simp: mgr_wf_def)
  qed
  ultimately show ?thesis using assms(1,2) by (simp add: mgr_wf_def)
qed

text \<open>A pass over components goes on to the end when every callback says so.\<close>

lemma range_components_all: "(\<And>c s. snd (fn c s)) \<Longrightarrow> range_components fn cs s = fold (\<lambda>c s. fst (fn c s)) cs s"
  by (induction cs arbitrary: s) (auto simp: split_beta)

subsection \<open>Histories of a controller\<close>

text \<open>A sequence of calls with their hooks, and the hooks that ran, with their result.\<close>

datatype lifecycle_call = CallInit | CallStart | CallStop

definition lifecycle_call_step :: "lifecycle_call \<Rightarrow> 'w hook \<Rightarrow> Controller \<Rightarrow> 'w \<Rightarrow> Controller \<times> 'w \<times> err" where
  "lifecycle_call_step k run c w = (case k of
      CallInit \<Rightarrow> Controller_Init c run w | CallStart \<Rightarrow> Controller_Start c run w | CallStop \<Rightarrow> Controller_Stop c run w)"

text \<open>The hook of a call reports itself in the world, which is here the list of the hooks that ran.\<close>

fun run_calls :: "Controller \<Rightarrow> (lifecycle_call \<times> err) list \<Rightarrow> (lifecycle_call \<times> bool) list \<Rightarrow> Controller \<times> (lifecycle_call \<times> bool) list" where
  "run_calls c [] hs = (c, hs)"
| "run_calls c ((k, e) # ks) hs =
     (case lifecycle_call_step k (Some (\<lambda>w. (w @ [(k, e = None)], e))) c hs of (c1, hs1, _) \<Rightarrow> run_calls c1 ks hs1)"

text \<open>
  The histories that a controller allows, each with the state it leaves the controller in: the
  flag of a hook says whether it returned nil.
\<close>

fun history_state :: "(lifecycle_call \<times> bool) list \<Rightarrow> State option" where
  "history_state [] = Some StateNew"
| "history_state [(CallInit, a)] = Some (if a then StateInited else StateNew)"
| "history_state [(CallInit, a), (CallStop, b)] = Some (if b then StateStopped else if a then StateInited else StateNew)"
| "history_state [(CallInit, True), (CallStart, b)] = Some (if b then StateStarted else StateInited)"
| "history_state [(CallInit, True), (CallStart, b), (CallStop, d)] = Some (if d then StateStopped else if b then StateStarted else StateInited)"
| "history_state [(CallInit, True), (CallStop, False), (CallStart, b)] = Some (if b then StateStarted else StateInited)"
| "history_state _ = None"

definition controller_inv :: "Controller \<Rightarrow> (lifecycle_call \<times> bool) list \<Rightarrow> bool" where
  "controller_inv c hooks \<longleftrightarrow> history_state hooks = Some (state c)
     \<and> (initCalled c \<longleftrightarrow> CallInit \<in> fst ` set hooks) \<and> (startCalled c \<longleftrightarrow> CallStart \<in> fst ` set hooks)
     \<and> (stopCalled c \<longleftrightarrow> CallStop \<in> fst ` set hooks)"

lemma controller_inv_step:
  assumes "controller_inv c hooks" and "lifecycle_call_step k (Some (\<lambda>w. (w @ [(k, e = None)], e))) c hooks = (c', hooks', r)"
  shows "controller_inv c' hooks'"
proof -
  from assms(1) have h: "history_state hooks = Some (state c)" by (simp add: controller_inv_def)
  show ?thesis
    by (rule history_state.elims [OF h]; cases k; cases e)
      (use assms in \<open>auto simp: lifecycle_call_step_def controller_defs controller_inv_def split: if_splits\<close>)
qed

lemma run_calls_inv: "controller_inv c hs \<Longrightarrow> controller_inv (fst (run_calls c ks hs)) (snd (run_calls c ks hs))"
  by (induction c ks hs rule: run_calls.induct) (auto split: prod.splits dest: controller_inv_step)

subsection \<open>Property of the controller\<close>


end
