(* ===== verification/Member.thy ===== *)
theory Member
  imports GoErrors
begin

text \<open>
  \<^verbatim>\<open>cluster/member/typs.go\<close>: what the members of a cluster say of themselves. \<^verbatim>\<open>Meta\<close> is a map or
  nil.
\<close>

record NodeInfo =
  node_ID :: string
  node_Name :: string
  Address :: string
  node_Status :: string
  StartedAt :: int
  Version :: string
  Meta :: "(string \<rightharpoonup> string) option"

definition NodeInfo_Validate :: "NodeInfo \<Rightarrow> err" where
  "NodeInfo_Validate m =
     (if node_ID m = [] then Some (Plain ''node id is required'')
      else if node_Name m = [] then Some (Plain ''node name is required'')
      else None)"

definition NodeInfo_Clone :: "NodeInfo \<Rightarrow> NodeInfo" where
  "NodeInfo_Clone m =
     \<lparr>node_ID = node_ID m, node_Name = node_Name m, Address = Address m, node_Status = node_Status m,
      StartedAt = StartedAt m, Version = Version m,
      Meta = (case Meta m of None \<Rightarrow> None | Some meta \<Rightarrow> Some (\<lambda>key. meta key))\<rparr>"

lemma NodeInfo_Clone_same [simp]: "NodeInfo_Clone m = m"
  by (simp add: NodeInfo_Clone_def split: option.splits)

end
