(* ===== verification/NodeRuntime.thy ===== *)
theory NodeRuntime
  imports Component Member
begin

text \<open>
  \<^verbatim>\<open>node/node.go\<close>, \<^verbatim>\<open>node/options.go\<close>, \<^verbatim>\<open>node/runtime.go\<close> and the behaviour interface of
  \<^verbatim>\<open>node/iface.go\<close>: a node assembles its core components, and drives all components through
  \<^verbatim>\<open>Init\<close>, \<^verbatim>\<open>Start\<close> and \<^verbatim>\<open>Stop\<close>.

  The state \<open>'w\<close> that hooks work on is a field of the node. A behaviour callback is a function on
  it that also says which \<^verbatim>\<open>AddComponent\<close> calls it makes on the node. The default components, the
  error of the logger and \<^verbatim>\<open>Cluster.Leave\<close> are a parameter (\<open>node_env\<close>). The ghost field
  \<open>node_log\<close> records the calls in order.
\<close>

type_synonym 'w callback = "'w \<Rightarrow> 'w component option list list \<times> 'w \<times> err"

record 'w NodeBehavior =
  OnInit :: "'w callback"
  OnStart :: "'w callback"
  OnStop :: "err \<Rightarrow> 'w \<Rightarrow> 'w"

definition DefaultNodeBehavior :: "'w NodeBehavior" where
  "DefaultNodeBehavior = \<lparr>OnInit = (\<lambda>w. ([], w, None)), OnStart = (\<lambda>w. ([], w, None)), OnStop = (\<lambda>_ w. w)\<rparr>"

record 'w Options =
  NodeInfo :: Member.NodeInfo
  Behavior :: "'w NodeBehavior option"
  opt_System :: "'w component option"
  opt_Cluster :: "'w component option"
  opt_ActorRouter :: "'w component option"
  Components :: "'w component option list"

definition Options_normalize :: "'w Options \<Rightarrow> 'w Options" where
  "Options_normalize options =
     (if Behavior options = None then options\<lparr>Behavior := Some DefaultNodeBehavior\<rparr> else options)"

definition Options_validate :: "'w Options \<Rightarrow> err" where
  "Options_validate options =
     (if node_ID (NodeInfo options) = [] then Some (Plain ''node id is empty'')
      else if node_Name (NodeInfo options) = [] then Some (Plain ''node name is empty'')
      else if Behavior options = None then Some (Plain ''node behavior is nil'')
      else None)"

datatype phase = phaseNew | phaseRunning | phaseStopped

fun phase_number :: "phase \<Rightarrow> nat" where
  "phase_number phaseNew = 0" | "phase_number phaseRunning = 1" | "phase_number phaseStopped = 2"

definition ErrNodeInvalidPhase :: go_error where "ErrNodeInvalidPhase = Plain ''node is not in new phase''"

datatype node_event = EvOnInit | EvInit string | EvOnStart | EvStart string | EvLeave | EvStop string | EvOnStop err

record 'w Node =
  node :: Member.NodeInfo
  options :: "'w Options"
  manager :: "'w Manager"
  system :: "'w component"
  cluster :: "'w component"
  logicalActorRouter :: "'w component"
  phase :: phase
  world :: 'w
  node_log :: "node_event list"

record 'w node_env =
  logger_error :: err
  default_system :: "Member.NodeInfo \<Rightarrow> 'w component"
  default_cluster :: "Member.NodeInfo \<Rightarrow> 'w component"
  default_router :: "Member.NodeInfo \<Rightarrow> 'w component"
  cluster_Leave :: "'w \<Rightarrow> 'w \<times> err"

text \<open>A core component that the options give is taken; otherwise the default one is built.\<close>

definition initializeSystem :: "'w node_env \<Rightarrow> 'w Options \<Rightarrow> Member.NodeInfo \<Rightarrow> 'w component" where
  "initializeSystem env opts info = (case opt_System opts of Some c \<Rightarrow> c | None \<Rightarrow> default_system env info)"

definition initializeCluster :: "'w node_env \<Rightarrow> 'w Options \<Rightarrow> Member.NodeInfo \<Rightarrow> 'w component" where
  "initializeCluster env opts info = (case opt_Cluster opts of Some c \<Rightarrow> c | None \<Rightarrow> default_cluster env info)"

definition initializeActorRoute :: "'w node_env \<Rightarrow> 'w Options \<Rightarrow> Member.NodeInfo \<Rightarrow> 'w component" where
  "initializeActorRoute env opts info = (case opt_ActorRouter opts of Some c \<Rightarrow> c | None \<Rightarrow> default_router env info)"

text \<open>The node with its options normalised, its logger and its core components.\<close>

definition bootstrapNode :: "'w node_env \<Rightarrow> 'w \<Rightarrow> Member.NodeInfo \<Rightarrow> 'w Options \<Rightarrow> 'w Node result" where
  "bootstrapNode env w info opts =
     (let opts1 = Options_normalize opts in
      case Options_validate opts1 of
        Some e \<Rightarrow> Inl (Wrap ''node bootstrap '' e [])
      | None \<Rightarrow>
          (case logger_error env of
             Some e \<Rightarrow> Inl (Wrap ''node logger: '' e [])
           | None \<Rightarrow> Inr
               \<lparr>node = info, options = opts1, manager = NewComponentsMgr,
                system = initializeSystem env opts1 info, cluster = initializeCluster env opts1 info,
                logicalActorRouter = initializeActorRoute env opts1 info,
                phase = phaseNew, world = w, node_log = []\<rparr>))"

definition Node_New :: "'w node_env \<Rightarrow> int \<Rightarrow> 'w \<Rightarrow> 'w Options \<Rightarrow> 'w Node result" where
  "Node_New env now w opts =
     (case bootstrapNode env w ((NodeInfo opts)\<lparr>StartedAt := now\<rparr>) opts of
        Inl e \<Rightarrow> Inl (Wrap ''node boot '' e [])
      | Inr n \<Rightarrow> Inr n)"

lemmas Node_New_defs = Node_New_def bootstrapNode_def initializeSystem_def initializeCluster_def initializeActorRoute_def

definition Node_AddComponent :: "'w Node \<Rightarrow> 'w component option list \<Rightarrow> 'w Node \<times> err" where
  "Node_AddComponent n cs =
     (if phase n \<noteq> phaseNew then (n, Some (Wrap (''phase:'' @ show_nat (phase_number (phase n)) @ '' :'') ErrNodeInvalidPhase []))
      else (case Manager_Add (manager n) cs of (cm, e) \<Rightarrow> (n\<lparr>manager := cm\<rparr>, e)))"

definition Node_GetComponent :: "'w Node \<Rightarrow> string \<Rightarrow> 'w component option" where
  "Node_GetComponent n name = Manager_Get (manager n) name"

definition registerCoreComponents :: "'w Node \<Rightarrow> 'w Node \<times> err" where
  "registerCoreComponents n =
     (case Manager_Add (manager n) (Components (options n) @ [Some (system n), Some (cluster n), Some (logicalActorRouter n)]) of
        (cm, e) \<Rightarrow> (n\<lparr>manager := cm\<rparr>, e))"

text \<open>A callback of the behaviour, with the calls it makes on the node.\<close>

definition run_callback :: "'w callback \<Rightarrow> 'w Node \<Rightarrow> 'w Node \<times> err" where
  "run_callback cb n =
     (case cb (world n) of (adds, w, e) \<Rightarrow> (fold (\<lambda>cs n. fst (Node_AddComponent n cs)) adds (n\<lparr>world := w\<rparr>), e))"

definition the_behavior :: "'w Node \<Rightarrow> 'w NodeBehavior" where
  "the_behavior n = (case Behavior (options n) of Some b \<Rightarrow> b | None \<Rightarrow> DefaultNodeBehavior)"

text \<open>A call of a component's method: the component is changed in place.\<close>

definition call_component ::
  "('w component \<Rightarrow> 'w \<Rightarrow> 'w component \<times> 'w \<times> err) \<Rightarrow> node_event \<Rightarrow> 'w component \<Rightarrow> 'w Node \<Rightarrow> 'w Node \<times> err" where
  "call_component op ev c n =
     (case op c (world n) of
        (c1, w1, e) \<Rightarrow> (n\<lparr>manager := (manager n)\<lparr>components := (components (manager n))(c_name c \<mapsto> c1)\<rparr>, world := w1,
                         node_log := node_log n @ [ev]\<rparr>, e))"

definition initializeComponents :: "'w Node \<Rightarrow> 'w Node \<times> err" where
  "initializeComponents n =
     (case run_callback (OnInit (the_behavior n)) (n\<lparr>node_log := node_log n @ [EvOnInit]\<rparr>) of
        (n1, Some e) \<Rightarrow> (n1, Some (Wrap ''OnInit :'' e []))
      | (n1, None) \<Rightarrow>
          RangeInOrder (\<lambda>c (n, _).
            case call_component component_Init (EvInit (c_name c)) c n of
              (n2, Some e) \<Rightarrow> ((n2, Some (Wrap (''init component:'' @ c_name c @ '' :'') e [])), False)
            | (n2, None) \<Rightarrow> ((n2, None), True)) (manager n1) (n1, None))"

definition startComponents :: "'w Node \<Rightarrow> 'w Node \<times> err" where
  "startComponents n =
     (case run_callback (OnStart (the_behavior n)) (n\<lparr>node_log := node_log n @ [EvOnStart]\<rparr>) of
        (n1, Some e) \<Rightarrow> (n1, Some (Wrap ''OnStart :'' e []))
      | (n1, None) \<Rightarrow>
          RangeInOrder (\<lambda>c (n, _).
            case call_component component_Start (EvStart (c_name c)) c n of
              (n2, Some e) \<Rightarrow> ((n2, Some (Wrap (''start component:'' @ c_name c @ '' :'') e [])), False)
            | (n2, None) \<Rightarrow> ((n2, None), True)) (manager n1) (n1, None))"

definition Node_Start :: "'w Node \<Rightarrow> 'w Node \<times> err" where
  "Node_Start n =
     (case registerCoreComponents n of
        (n1, Some e) \<Rightarrow> (n1, Some (Wrap ''register components :'' e []))
      | (n1, None) \<Rightarrow>
          (case initializeComponents n1 of
             (n2, Some e) \<Rightarrow> (n2, Some e)
           | (n2, None) \<Rightarrow>
               (case startComponents n2 of
                  (n3, Some e) \<Rightarrow> (n3, Some e)
                | (n3, None) \<Rightarrow> (n3\<lparr>phase := phaseRunning\<rparr>, None))))"

definition stop_error :: "'w component \<Rightarrow> go_error \<Rightarrow> err" where
  "stop_error c e = errors_join [Some (Wrap (''stop component '' @ quoted (c_name c) @ ''  '') e [])]"

definition stopComponents :: "'w Node \<Rightarrow> 'w Node \<times> err" where
  "stopComponents n =
     RangeInReverseOrder (\<lambda>c (n, _).
       case call_component component_Stop (EvStop (c_name c)) c n of
         (n2, Some e) \<Rightarrow> ((n2, stop_error c e), True)
       | (n2, None) \<Rightarrow> ((n2, None), True)) (manager n) (n, None)"

definition Node_Shutdown :: "'w node_env \<Rightarrow> 'w Node \<Rightarrow> 'w Node \<times> err" where
  "Node_Shutdown env n =
     (case cluster_Leave env (world n) of
        (w, leaveErr) \<Rightarrow>
          (let shutdownErr = errors_join [None, leaveErr] in
           case stopComponents (n\<lparr>world := w, node_log := node_log n @ [EvLeave]\<rparr>) of
             (n1, e) \<Rightarrow>
               (let shutdownErr1 = (case e of None \<Rightarrow> shutdownErr | Some _ \<Rightarrow> errors_join [shutdownErr, e]) in
                (n1\<lparr>world := OnStop (the_behavior n1) shutdownErr1 (world n1), phase := phaseStopped,
                    node_log := node_log n1 @ [EvOnStop shutdownErr1]\<rparr>, shutdownErr1))))"

subsection \<open>A pass over the components\<close>

text \<open>
  The contract that the three passes share: \<open>op\<close> is the method called on every component, \<open>ev\<close>
  what is logged, and \<open>post\<close> what holds of a controller afterwards, given the error returned.
\<close>

locale lifecycle_pass =
  fixes op :: "'w component \<Rightarrow> 'w \<Rightarrow> 'w component \<times> 'w \<times> err"
    and ev :: "string \<Rightarrow> node_event"
    and post :: "err \<Rightarrow> Controller \<Rightarrow> bool"
  assumes keeps: "op c w = (c1, w1, e) \<Longrightarrow> name_priority c1 = name_priority c"
    and established: "op c w = (c1, w1, e) \<Longrightarrow> post e (lifecycle c1)"
begin

text \<open>What a pass over \<open>cs\<close> that reached its end has done to the node.\<close>

definition passed :: "'w component list \<Rightarrow> bool \<Rightarrow> 'w Node \<Rightarrow> 'w Node \<Rightarrow> bool" where
  "passed cs clean n n' \<longleftrightarrow>
     order (manager n') = order (manager n)
     \<and> (\<forall>k. map_option name_priority (components (manager n') k) = map_option name_priority (components (manager n) k))
     \<and> (\<forall>k. k \<notin> c_name ` set cs \<longrightarrow> components (manager n') k = components (manager n) k)
     \<and> (\<forall>c \<in> set cs. \<exists>c1 e. components (manager n') (c_name c) = Some c1 \<and> post e (lifecycle c1) \<and> (clean \<longrightarrow> e = None))
     \<and> node_log n' = node_log n @ map (\<lambda>c. ev (c_name c)) cs
     \<and> options n' = options n \<and> phase n' = phase n"

lemma call_component_effect:
  assumes "call_component op (ev (c_name c)) c n = (n1, e)" and "components (manager n) (c_name c) = Some c"
  shows "passed [c] (e = None) n n1"
proof (cases "op c (world n)")
  case (fields c1 w1 e1)
  then show ?thesis
    using assms keeps [OF fields] established [OF fields] by (auto simp: call_component_def passed_def)
qed

lemma passed_trans:
  assumes "passed [c] True n n1 \<or> \<not> clean \<and> passed [c] b n n1" and "passed cs clean n1 n2" and "c_name c \<notin> c_name ` set cs"
  shows "passed (c # cs) clean n n2"
  using assms by (auto simp: passed_def)

lemma passed_Nil: "passed [] clean n n"
  by (simp add: passed_def)

text \<open>
  A pass whose callback goes on after an error (\<open>stop_on_error = False\<close>), or one that stops at the
  first error and reported none.
\<close>

lemma pass_complete:
  assumes cb: "\<And>c n e. cb c (n, e) = (case call_component op (ev (c_name c)) c n of
        (n2, Some x) \<Rightarrow> ((n2, wrap c x), \<not> stop_on_error) | (n2, None) \<Rightarrow> ((n2, None), True))"
    and some: "stop_on_error \<Longrightarrow> (\<forall>c x. wrap c x \<noteq> None)"
    and run: "range_components cb cs (n, einit) = (n', e')" and reached: "stop_on_error \<longrightarrow> e' = None"
    and cs: "distinct (map c_name cs)" "\<forall>c \<in> set cs. components (manager n) (c_name c) = Some c"
  shows "passed cs stop_on_error n n'"
  using run cs
proof (induction cs arbitrary: n einit)
  case Nil
  then show ?case by (simp add: passed_Nil)
next
  case (Cons c cs)
  obtain n1 e1 where call: "call_component op (ev (c_name c)) c n = (n1, e1)" by fastforce
  have p: "passed [c] (e1 = None) n n1" using call_component_effect [OF call] Cons.prems(3) by simp
  show ?case
  proof (cases "stop_on_error \<and> e1 \<noteq> None")
    case True
    then obtain x where "e1 = Some x" "stop_on_error" by auto
    with Cons.prems(1) call have "e' = wrap c x" by (simp add: cb)
    with reached some \<open>stop_on_error\<close> show ?thesis by simp
  next
    case False
    then obtain e2 where rest: "range_components cb cs (n1, e2) = (n', e')"
      using Cons.prems(1) call by (cases e1) (auto simp: cb)
    have "\<forall>d \<in> set cs. components (manager n1) (c_name d) = Some d"
    proof
      fix d assume d: "d \<in> set cs"
      then have "c_name d \<noteq> c_name c" using Cons.prems(2) by (auto simp: image_iff)
      with p d Cons.prems(3) show "components (manager n1) (c_name d) = Some d" by (simp add: passed_def)
    qed
    with Cons.IH [OF rest] Cons.prems(2) have "passed cs stop_on_error n1 n'" by simp
    with passed_trans [of c n n1 stop_on_error "e1 = None" cs n'] p False Cons.prems(2) show ?thesis by auto
  qed
qed

lemma passed_ordered:
  assumes "passed cs clean n n'" and "mgr_wf (manager n)" and "cs = orderedComponents (manager n) \<or> cs = rev (orderedComponents (manager n))"
  shows "mgr_wf (manager n')" and "map c_name (orderedComponents (manager n')) = map c_name (orderedComponents (manager n))"
    and "c1 \<in> ran (components (manager n')) \<Longrightarrow> \<exists>e. post e (lifecycle c1) \<and> (clean \<longrightarrow> e = None)"
proof -
  have same: "order (manager n') = order (manager n)"
    "\<And>k. map_option name_priority (components (manager n') k) = map_option name_priority (components (manager n) k)"
    using assms(1) by (auto simp: passed_def)
  show wf: "mgr_wf (manager n')" by (rule mgr_wf_cong [OF assms(2) same])
  show "map c_name (orderedComponents (manager n')) = map c_name (orderedComponents (manager n))"
    by (rule ordered_names_cong [OF same])
  show "\<exists>e. post e (lifecycle c1) \<and> (clean \<longrightarrow> e = None)" if "c1 \<in> ran (components (manager n'))"
  proof -
    from that obtain k where k: "components (manager n') k = Some c1" by (auto simp: ran_def)
    with same(2) [of k] obtain c where c: "components (manager n) k = Some c" by (cases "components (manager n) k") auto
    then have "c \<in> set cs" "c_name c = k"
      using orderedComponents_set [OF assms(2)] assms(2,3) by (auto simp: ran_def mgr_wf_def)
    moreover have "\<forall>c \<in> set cs. \<exists>c1 e. components (manager n') (c_name c) = Some c1 \<and> post e (lifecycle c1) \<and> (clean \<longrightarrow> e = None)"
      using assms(1) by (simp add: passed_def)
    ultimately obtain c2 e where "components (manager n') k = Some c2" "post e (lifecycle c2)" "clean \<longrightarrow> e = None" by blast
    with k show ?thesis by auto
  qed
qed

end

lemma component_op_keeps:
  "component_Init c w = (c1, w1, e) \<Longrightarrow> name_priority c1 = name_priority c"
  "component_Start c w = (c1, w1, e) \<Longrightarrow> name_priority c1 = name_priority c"
  "component_Stop c w = (c1, w1, e) \<Longrightarrow> name_priority c1 = name_priority c"
  by (auto simp: guard_defs name_priority_def priorityOf_def split: prod.splits)

interpretation init_pass: lifecycle_pass component_Init EvInit "\<lambda>e l. e = None \<longrightarrow> state l = StateInited"
  by unfold_locales (auto simp: component_op_keeps guard_defs controller_defs split: prod.splits if_splits option.splits)

interpretation start_pass: lifecycle_pass component_Start EvStart "\<lambda>e l. e = None \<longrightarrow> state l = StateStarted"
  by unfold_locales (auto simp: component_op_keeps guard_defs controller_defs split: prod.splits if_splits option.splits)

interpretation stop_pass: lifecycle_pass component_Stop EvStop "\<lambda>e l. initCalled l \<longrightarrow> stopCalled l"
  by unfold_locales (auto simp: component_op_keeps guard_defs controller_defs split: prod.splits if_splits option.splits)

subsection \<open>Starting and stopping a node\<close>

lemma AddComponent_keeps:
  "mgr_wf (manager n) \<Longrightarrow> mgr_wf (manager (fst (Node_AddComponent n cs)))"
  "node_log (fst (Node_AddComponent n cs)) = node_log n" "options (fst (Node_AddComponent n cs)) = options n"
  "phase (fst (Node_AddComponent n cs)) = phase n"
  using Manager_Add_wf [of "manager n" cs] by (auto simp: Node_AddComponent_def split: prod.splits)

lemma adds_keep:
  "(mgr_wf (manager n) \<longrightarrow> mgr_wf (manager (fold (\<lambda>cs n. fst (Node_AddComponent n cs)) adds n)))
   \<and> node_log (fold (\<lambda>cs n. fst (Node_AddComponent n cs)) adds n) = node_log n
   \<and> options (fold (\<lambda>cs n. fst (Node_AddComponent n cs)) adds n) = options n
   \<and> phase (fold (\<lambda>cs n. fst (Node_AddComponent n cs)) adds n) = phase n"
  by (induction adds arbitrary: n) (simp_all add: AddComponent_keeps)

lemma run_callback_keeps:
  assumes "run_callback cb n = (n1, e)"
  shows "mgr_wf (manager n) \<Longrightarrow> mgr_wf (manager n1)" and "node_log n1 = node_log n" and "options n1 = options n" and "phase n1 = phase n"
    and "fst (cb (world n)) = [] \<Longrightarrow> manager n1 = manager n"
proof -
  obtain adds w e' where cb: "cb (world n) = (adds, w, e')" by (metis prod_cases3)
  then have n1: "n1 = fold (\<lambda>cs n. fst (Node_AddComponent n cs)) adds (n\<lparr>world := w\<rparr>)" using assms by (simp add: run_callback_def)
  show "mgr_wf (manager n) \<Longrightarrow> mgr_wf (manager n1)" "node_log n1 = node_log n" "options n1 = options n" "phase n1 = phase n"
    using adds_keep [of "n\<lparr>world := w\<rparr>" adds] by (simp_all add: n1)
  show "fst (cb (world n)) = [] \<Longrightarrow> manager n1 = manager n" using cb by (simp add: n1)
qed

lemma pass_of_manager:
  assumes "mgr_wf cm"
  shows "distinct (map c_name (orderedComponents cm))" "\<forall>c \<in> set (orderedComponents cm). components cm (c_name c) = Some c"
  using orderedComponents_distinct [OF assms] orderedComponents_set [OF assms] assms by (auto simp: ran_def mgr_wf_def)

text \<open>The two forward passes.\<close>

lemma initializeComponents_ok:
  assumes wf: "mgr_wf (manager n)" and run: "initializeComponents n = (n', None)"
  shows "mgr_wf (manager n') \<and> options n' = options n \<and> phase n' = phase n
    \<and> node_log n' = node_log n @ EvOnInit # map EvInit (map c_name (orderedComponents (manager n')))"
proof -
  let ?n0 = "n\<lparr>node_log := node_log n @ [EvOnInit]\<rparr>"
  obtain n1 e1 where cb: "run_callback (OnInit (the_behavior n)) ?n0 = (n1, e1)" by fastforce
  with run have "e1 = None" by (auto simp: initializeComponents_def split: option.splits)
  have wf1: "mgr_wf (manager n1)" using run_callback_keeps(1) [OF cb] wf by simp
  let ?cs = "orderedComponents (manager n1)"
  have "init_pass.passed ?cs True n1 n'"
    by (rule init_pass.pass_complete [where einit = None and wrap = "\<lambda>c e. Some (Wrap (''init component:'' @ c_name c @ '' :'') e [])"])
      (use run cb \<open>e1 = None\<close> pass_of_manager [OF wf1] in \<open>auto simp: initializeComponents_def RangeInOrder_def\<close>)
  with init_pass.passed_ordered [OF this wf1] run_callback_keeps(2-4) [OF cb] show ?thesis
    by (simp add: init_pass.passed_def comp_def)
qed

lemma startComponents_ok:
  assumes wf: "mgr_wf (manager n)" and run: "startComponents n = (n', None)"
  shows "mgr_wf (manager n') \<and> options n' = options n \<and> phase n' = phase n
    \<and> node_log n' = node_log n @ EvOnStart # map EvStart (map c_name (orderedComponents (manager n')))
    \<and> (\<forall>c \<in> ran (components (manager n')). state (lifecycle c) = StateStarted)
    \<and> (fst (OnStart (the_behavior n) (world n)) = [] \<longrightarrow>
         map c_name (orderedComponents (manager n')) = map c_name (orderedComponents (manager n)))"
proof -
  let ?n0 = "n\<lparr>node_log := node_log n @ [EvOnStart]\<rparr>"
  obtain n1 e1 where cb: "run_callback (OnStart (the_behavior n)) ?n0 = (n1, e1)" by fastforce
  with run have "e1 = None" by (auto simp: startComponents_def split: option.splits)
  have wf1: "mgr_wf (manager n1)" using run_callback_keeps(1) [OF cb] wf by simp
  let ?cs = "orderedComponents (manager n1)"
  have "start_pass.passed ?cs True n1 n'"
    by (rule start_pass.pass_complete [where einit = None and wrap = "\<lambda>c e. Some (Wrap (''start component:'' @ c_name c @ '' :'') e [])"])
      (use run cb \<open>e1 = None\<close> pass_of_manager [OF wf1] in \<open>auto simp: startComponents_def RangeInOrder_def\<close>)
  with start_pass.passed_ordered [OF this wf1] run_callback_keeps(2-5) [OF cb] show ?thesis
    by (simp add: start_pass.passed_def comp_def)
qed

lemma stopComponents_all:
  assumes wf: "mgr_wf (manager n)" and run: "stopComponents n = (n', e)"
  shows "mgr_wf (manager n') \<and> options n' = options n
    \<and> node_log n' = node_log n @ map EvStop (rev (map c_name (orderedComponents (manager n'))))
    \<and> map c_name (orderedComponents (manager n')) = map c_name (orderedComponents (manager n))
    \<and> (\<forall>c \<in> ran (components (manager n')). initCalled (lifecycle c) \<longrightarrow> stopCalled (lifecycle c))"
proof -
  let ?cs = "rev (orderedComponents (manager n))"
  have "stop_pass.passed ?cs False n n'"
    by (rule stop_pass.pass_complete [where einit = None and wrap = stop_error])
      (use run pass_of_manager [OF wf] in \<open>auto simp: stopComponents_def RangeInReverseOrder_def simp flip: rev_map\<close>)
  with stop_pass.passed_ordered [OF this wf] show ?thesis
    by (auto simp: stop_pass.passed_def rev_map comp_def)
qed

lemma node_start_facts:
  assumes "mgr_wf (manager n)" and "Node_Start n = (n', None)"
  shows "mgr_wf (manager n') \<and> phase n' = phaseRunning \<and> (\<forall>c \<in> ran (components (manager n')). state (lifecycle c) = StateStarted)
    \<and> (\<exists>ns. node_log n' = node_log n @ EvOnInit # map EvInit ns
            @ EvOnStart # map EvStart (map c_name (orderedComponents (manager n')))
          \<and> ((\<forall>w. fst (OnStart (the_behavior n) w) = []) \<longrightarrow> ns = map c_name (orderedComponents (manager n'))))"
proof -
  obtain n1 e1 where r: "registerCoreComponents n = (n1, e1)" by fastforce
  with assms(2) have "e1 = None" by (auto simp: Node_Start_def split: option.splits)
  obtain n2 e2 where i: "initializeComponents n1 = (n2, e2)" by fastforce
  with assms(2) r \<open>e1 = None\<close> have "e2 = None" by (auto simp: Node_Start_def split: option.splits)
  obtain n3 e3 where s: "startComponents n2 = (n3, e3)" by fastforce
  with assms(2) r i \<open>e1 = None\<close> \<open>e2 = None\<close> have n': "e3 = None" "n' = n3\<lparr>phase := phaseRunning\<rparr>"
    by (auto simp: Node_Start_def split: option.splits)
  have wf1: "mgr_wf (manager n1)" "options n1 = options n" "node_log n1 = node_log n"
    using r Manager_Add_wf [OF assms(1)] by (auto simp: registerCoreComponents_def split: prod.splits) (metis fst_conv)
  note i2 = initializeComponents_ok [OF wf1(1) i [unfolded \<open>e2 = None\<close>]]
  note s2 = startComponents_ok [OF conjunct1 [OF i2] s [unfolded n'(1)]]
  have "the_behavior n2 = the_behavior n" using i2 wf1(2) by (simp add: the_behavior_def)
  with i2 s2 wf1(3) n'(2) show ?thesis
    by (auto intro!: exI [of _ "map c_name (orderedComponents (manager n2))"])
qed

text \<open>
  C21: When \<^verbatim>\<open>Node.Start\<close> returns nil, every registered component is in the started state, and the
  calls were made in this order: the behaviour's \<^verbatim>\<open>OnInit\<close>, \<^verbatim>\<open>Init\<close> of every component by
  priority, \<^verbatim>\<open>OnStart\<close>, \<^verbatim>\<open>Start\<close> of every component by priority; the two passes visit the same
  components unless \<^verbatim>\<open>OnStart\<close> added some.
\<close>

theorem node_start_order:
  assumes "mgr_wf (manager n)" and "Node_Start n = (n', None)"
  shows "phase n' = phaseRunning \<and> (\<forall>c \<in> ran (components (manager n')). state (lifecycle c) = StateStarted)
    \<and> (\<exists>ns. node_log n' = node_log n @ EvOnInit # map EvInit ns
            @ EvOnStart # map EvStart (map c_name (orderedComponents (manager n')))
          \<and> ((\<forall>w. fst (OnStart (the_behavior n) w) = []) \<longrightarrow> ns = map c_name (orderedComponents (manager n'))))"
  using node_start_facts [OF assms] by blast

text \<open>
  C34: \<^verbatim>\<open>Node.Shutdown\<close> leaves the cluster first, then calls \<^verbatim>\<open>Stop\<close> on every registered component in
  the reverse of the order in which they were started, whatever errors they return, and calls
  \<^verbatim>\<open>OnStop\<close> last, with the error that it returns; afterwards every component whose \<^verbatim>\<open>Init\<close> was
  attempted has been stopped.
\<close>

theorem node_shutdown_order:
  assumes "mgr_wf (manager n)" and "Node_Shutdown env n = (n', e)"
  shows "phase n' = phaseStopped
    \<and> node_log n' = node_log n @ EvLeave # map EvStop (rev (map c_name (orderedComponents (manager n)))) @ [EvOnStop e]
    \<and> (\<forall>c \<in> ran (components (manager n')). initCalled (lifecycle c) \<longrightarrow> stopCalled (lifecycle c))"
proof -
  obtain w le where l: "cluster_Leave env (world n) = (w, le)" by fastforce
  let ?n0 = "n\<lparr>world := w, node_log := node_log n @ [EvLeave]\<rparr>"
  obtain n1 e1 where s: "stopComponents ?n0 = (n1, e1)" by fastforce
  have wf: "mgr_wf (manager ?n0)" using assms(1) by simp
  from stopComponents_all [OF wf s] assms(2) l s show ?thesis
    by (auto simp: Node_Shutdown_def Let_def)
qed

text \<open>What a stop pass returns: each component overwrites the error of the one before.\<close>

lemma stopComponents_result:
  "snd (range_components (\<lambda>c (n, _).
       case call_component component_Stop (EvStop (c_name c)) c n of
         (n2, Some e) \<Rightarrow> ((n2, stop_error c e), True)
       | (n2, None) \<Rightarrow> ((n2, None), True)) (cs @ [c]) (n, e0))
   = (let n1 = fst (range_components (\<lambda>c (n, _).
       case call_component component_Stop (EvStop (c_name c)) c n of
         (n2, Some e) \<Rightarrow> ((n2, stop_error c e), True)
       | (n2, None) \<Rightarrow> ((n2, None), True)) cs (n, e0))
      in Option.bind (snd (snd (component_Stop c (world n1)))) (stop_error c))"
proof (induction cs arbitrary: n e0)
  case Nil
  show ?case by (auto simp: call_component_def split: prod.splits option.splits)
next
  case (Cons d ds)
  obtain n2 e2 where "call_component component_Stop (EvStop (c_name d)) d n = (n2, e2)" by fastforce
  with Cons show ?case by (cases e2) simp_all
qed

text \<open>
  The error that \<^verbatim>\<open>Shutdown\<close> reports for the components is that of one component only, the
  last one stopped (the first by priority): when that component stops without an error, the errors
  of all the others are lost.
\<close>

theorem shutdown_drops_errors:
  assumes "mgr_wf (manager n)" and "orderedComponents (manager n) = c # cs"
    and "\<And>w. snd (snd (component_Stop c w)) = None"
  shows "snd (Node_Shutdown env n) = errors_join [None, snd (cluster_Leave env (world n))]"
proof -
  obtain w le where l: "cluster_Leave env (world n) = (w, le)" by fastforce
  let ?n0 = "n\<lparr>world := w, node_log := node_log n @ [EvLeave]\<rparr>"
  obtain n1 e1 where s: "stopComponents ?n0 = (n1, e1)" by fastforce
  have "snd (stopComponents ?n0) = None"
    using stopComponents_result [of "rev cs" c ?n0 None] assms(2,3)
    by (simp add: stopComponents_def RangeInReverseOrder_def Let_def)
  with s l show ?thesis by (simp add: Node_Shutdown_def Let_def)
qed

subsection \<open>An example node\<close>

text \<open>
  A node with its three core components and an extension of priority 5 whose stop fails; the world
  counts the hooks that ran.
\<close>

definition sample_component :: "string \<Rightarrow> int \<Rightarrow> err \<Rightarrow> nat component" where
  "sample_component name prio stop_err = (SetName name BaseComponent)\<lparr>c_priority := Some prio,
     on_init := Some (\<lambda>w. (w + 1, None)), on_start := Some (\<lambda>w. (w + 1, None)), on_stop := Some (\<lambda>w. (w + 1, stop_err))\<rparr>"

definition sample_node_env :: "nat node_env" where
  "sample_node_env = \<lparr>logger_error = None, default_system = (\<lambda>_. sample_component ''actor'' 0 None),
     default_cluster = (\<lambda>_. sample_component ''cluster'' 0 None), default_router = (\<lambda>_. sample_component ''logicalactor'' 0 None),
     cluster_Leave = (\<lambda>w. (w, None))\<rparr>"

definition sample_options :: "nat Options" where
  "sample_options = \<lparr>NodeInfo = \<lparr>node_ID = ''game-1'', node_Name = ''game'', Address = [], node_Status = [], StartedAt = 0, Version = [], Meta = None\<rparr>,
     Behavior = None, opt_System = None, opt_Cluster = None, opt_ActorRouter = None,
     Components = [Some (sample_component ''ext'' 5 (Some (Plain ''busy'')))]\<rparr>"

definition sample_node :: "nat Node" where
  "sample_node = projr (Node_New sample_node_env 17 0 sample_options)"

lemma sample_node_wf: "mgr_wf (manager sample_node)"
  by (simp add: sample_node_def Node_New_defs sample_node_env_def sample_options_def Options_normalize_def
    Options_validate_def Let_def)

lemma sample_node_starts: "snd (Node_Start sample_node) = None"
  by code_simp

lemma sample_node_started: "Node_Start sample_node = (fst (Node_Start sample_node), None)"
  using sample_node_starts by (metis prod.collapse)

theorem node_start_order_witness:
  "snd (Node_Start sample_node) = None \<and> phase (fst (Node_Start sample_node)) = phaseRunning
   \<and> (\<exists>ns. node_log (fst (Node_Start sample_node)) = EvOnInit # map EvInit ns @ EvOnStart # map EvStart [''actor'', ''cluster'', ''logicalactor'', ''ext''])"
proof -
  have "map c_name (orderedComponents (manager (fst (Node_Start sample_node)))) = [''actor'', ''cluster'', ''logicalactor'', ''ext'']"
    and "node_log sample_node = []"
    by code_simp+
  with node_start_order [OF sample_node_wf sample_node_started] sample_node_starts show ?thesis by auto
qed

definition sample_running :: "nat Node" where "sample_running = fst (Node_Start sample_node)"

lemma sample_running_wf: "mgr_wf (manager sample_running)"
  using node_start_facts [OF sample_node_wf sample_node_started] unfolding sample_running_def by blast

theorem node_shutdown_order_witness:
  "phase (fst (Node_Shutdown sample_node_env sample_running)) = phaseStopped
   \<and> (\<exists>e. node_log (fst (Node_Shutdown sample_node_env sample_running)) = node_log sample_running
        @ EvLeave # map EvStop [''ext'', ''logicalactor'', ''cluster'', ''actor''] @ [EvOnStop e])"
proof -
  have "rev (map c_name (orderedComponents (manager sample_running))) = [''ext'', ''logicalactor'', ''cluster'', ''actor'']"
    by code_simp
  with node_shutdown_order [OF sample_running_wf, of sample_node_env] show ?thesis by (metis prod.collapse)
qed

theorem shutdown_drops_errors_witness:
  "\<exists>c cs d. orderedComponents (manager sample_running) = c # cs \<and> d \<in> set cs \<and> (\<forall>w. snd (snd (component_Stop d w)) \<noteq> None)
     \<and> snd (Node_Shutdown sample_node_env sample_running) = errors_join [None, snd (cluster_Leave sample_node_env (world sample_running))]"
proof -
  have names: "map c_name (orderedComponents (manager sample_running)) = [''actor'', ''cluster'', ''logicalactor'', ''ext'']"
    by code_simp
  then obtain c c2 c3 d where cs: "orderedComponents (manager sample_running) = [c, c2, c3, d]"
    by (auto simp: map_eq_Cons_conv)
  have c: "c = the (components (manager sample_running) ''actor'')" and d: "d = the (components (manager sample_running) ''ext'')"
    using pass_of_manager(2) [OF sample_running_wf] names by (auto simp: cs)
  have ok: "snd (snd (component_Stop c w)) = None" for w unfolding c by code_simp
  have bad: "snd (snd (component_Stop d w)) \<noteq> None" for w unfolding d by code_simp
  from shutdown_drops_errors [OF sample_running_wf cs ok, of sample_node_env] cs bad show ?thesis by auto
qed

end
