(* ===== verification/LogicalTypes.thy ===== *)
theory LogicalTypes
  imports GoErrors
begin

text \<open>
  \<^verbatim>\<open>logicalactor/types.go\<close> and \<^verbatim>\<open>logicalactor/errors.go\<close>: logical identities of actors, the nodes that
  own them, and the interfaces of the directory and of discovery.
\<close>

subsection \<open>types.go\<close>

record LActorID =
  la_Kind :: string
  la_Key :: string

definition ActorID_Validate :: "LActorID \<Rightarrow> err" where
  "ActorID_Validate a =
     (if la_Kind a = [] \<or> CHR '':'' \<in> set (la_Kind a) then Some (Plain ''actor id invalid  kind'')
      else if la_Key a = [] \<or> CHR '':'' \<in> set (la_Key a) then Some (Plain ''actor id invalid  key'')
      else None)"

definition ActorID_String :: "LActorID \<Rightarrow> string" where
  "ActorID_String a = la_Kind a @ '':'' @ la_Key a"

definition ActorID_Name :: "LActorID \<Rightarrow> string" where
  "ActorID_Name a = ''$logical:'' @ ActorID_String a"

record LNodeInfo =
  NodeId :: string
  ln_Kind :: string
  InstanceId :: string

definition no_node :: LNodeInfo where
  "no_node = \<lparr>NodeId = [], ln_Kind = [], InstanceId = []\<rparr>"

definition LNodeInfo_Validate :: "LNodeInfo \<Rightarrow> err" where
  "LNodeInfo_Validate n =
     (if TrimSpace (NodeId n) = [] then Some (Plain ''node info id is empty'')
      else if TrimSpace (InstanceId n) = [] then Some (Plain ''node info instance id is empty'')
      else if TrimSpace (ln_Kind n) = [] then Some (Plain ''node info kind is empty'')
      else None)"

text \<open>The generated messages \<^verbatim>\<open>ActorID\<close> and \<^verbatim>\<open>Owner\<close>; the epoch of the latter is never set.\<close>

record PbActorID =
  pb_Kind :: string
  pb_Key :: string

record PbOwner =
  pb_owner_NodeId :: string
  pb_owner_InstanceId :: string

definition actorIDToProto :: "LActorID \<Rightarrow> PbActorID option" where
  "actorIDToProto a = Some \<lparr>pb_Kind = la_Kind a, pb_Key = la_Key a\<rparr>"

definition actorIDFromProto :: "PbActorID option \<Rightarrow> LActorID" where
  "actorIDFromProto p = (case p of None \<Rightarrow> \<lparr>la_Kind = [], la_Key = []\<rparr> | Some p \<Rightarrow> \<lparr>la_Kind = pb_Kind p, la_Key = pb_Key p\<rparr>)"

definition ownerToProto :: "LNodeInfo \<Rightarrow> PbOwner option" where
  "ownerToProto n = Some \<lparr>pb_owner_NodeId = NodeId n, pb_owner_InstanceId = InstanceId n\<rparr>"

definition ownerFromProto :: "PbOwner option \<Rightarrow> LNodeInfo" where
  "ownerFromProto p = (case p of None \<Rightarrow> no_node
     | Some p \<Rightarrow> \<lparr>NodeId = pb_owner_NodeId p, ln_Kind = [], InstanceId = pb_owner_InstanceId p\<rparr>)"

lemma actorID_roundtrip [simp]: "actorIDFromProto (actorIDToProto a) = a"
  by (simp add: actorIDFromProto_def actorIDToProto_def)

text \<open>
  The interface \<^verbatim>\<open>OwnerDirectory\<close> on a directory state \<open>'d\<close>, and \<^verbatim>\<open>Discovery\<close> (what it answers now).
\<close>

record 'd OwnerDirectory =
  GetOwner :: "LActorID \<Rightarrow> 'd \<Rightarrow> 'd \<times> LNodeInfo option result"
  AcquireOwner :: "LActorID \<Rightarrow> LNodeInfo \<Rightarrow> 'd \<Rightarrow> 'd \<times> (LNodeInfo \<times> bool) result"
  RenewOwner :: "LActorID \<Rightarrow> LNodeInfo \<Rightarrow> 'd \<Rightarrow> 'd \<times> bool result"
  DeleteOwner :: "LActorID \<Rightarrow> LNodeInfo \<Rightarrow> 'd \<Rightarrow> 'd \<times> bool result"
  LeaseTTL :: "'d \<Rightarrow> int"

record Discovery =
  Members :: "string \<Rightarrow> (string \<times> LNodeInfo) list"
  MemberById :: "string \<Rightarrow> LNodeInfo \<times> bool"

subsection \<open>errors.go\<close>

definition ErrActorSystemNil :: go_error where "ErrActorSystemNil = Plain ''logical actor system is nil''"
definition ErrOwnerDirectoryNil :: go_error where "ErrOwnerDirectoryNil = Plain ''logical actor owner directory is nil''"
definition ErrActorFactoryNil :: go_error where "ErrActorFactoryNil = Plain ''logical actor factory is nil''"
definition ErrActorFactoryReturnedNil :: go_error where "ErrActorFactoryReturnedNil = Plain ''logical actor factory returned nil actor''"
definition ErrActorContextNil :: go_error where "ErrActorContextNil = Plain ''logical actor context is nil''"
definition ErrFactoryNotFound :: go_error where "ErrFactoryNotFound = Plain ''logical actor factory not found''"
definition ErrFactoryAlreadyExist :: go_error where "ErrFactoryAlreadyExist = Plain ''logical actor factory already registered''"
definition ErrRouteForwardLimit :: go_error where "ErrRouteForwardLimit = Plain ''logical actor route forward limit exceeded''"
definition ErrPlacementStrategyNil :: go_error where "ErrPlacementStrategyNil = Plain ''placement strategy is nil''"
definition ErrPlacementStrategyRegistered :: go_error where "ErrPlacementStrategyRegistered = Plain ''placement strategy already registered''"
definition ErrPlacementStrategyNotFound :: go_error where "ErrPlacementStrategyNotFound = Plain ''placement strategy not found''"

subsection \<open>Identities\<close>

lemma split_at_colon:
  assumes "CHR '':'' \<notin> set k" "CHR '':'' \<notin> set k'" "k @ '':'' @ x = k' @ '':'' @ x'"
  shows "k = k' \<and> x = x'"
proof -
  have "takeWhile (\<lambda>c. c \<noteq> CHR '':'') (k @ '':'' @ x) = k" "takeWhile (\<lambda>c. c \<noteq> CHR '':'') (k' @ '':'' @ x') = k'"
    using assms(1,2) by (auto simp: takeWhile_append2 takeWhile_append)
  then have "k = k'" using assms(3) by metis
  with assms(3) show ?thesis by simp
qed

lemma ActorID_String_inj:
  assumes "ActorID_Validate a = None" "ActorID_Validate b = None" "ActorID_String a = ActorID_String b"
  shows "a = b"
  using split_at_colon [of "la_Kind a" "la_Kind b" "la_Key a" "la_Key b"] assms
  by (cases a; cases b) (auto simp: ActorID_Validate_def ActorID_String_def split: if_splits)

lemma ActorID_Name_inj:
  "ActorID_Validate a = None \<Longrightarrow> ActorID_Validate b = None \<Longrightarrow> ActorID_Name a = ActorID_Name b \<Longrightarrow> a = b"
  using ActorID_String_inj by (simp add: ActorID_Name_def)

end
