(* ===== verification/RedisDirectory.thy ===== *)
theory RedisDirectory
  imports LogicalTypes
begin

text \<open>
  \<^verbatim>\<open>logicalactor/directory\<close>: the owner directory in Redis, with its Lua scripts and its local cache.

  Redis, the expiring LRU cache, \<^verbatim>\<open>encoding/json\<close> with \<^verbatim>\<open>cjson\<close> and \<^verbatim>\<open>fmt.Sscan\<close> are parameters
  (\<open>redis\<close>, \<open>lru\<close>, \<open>dir_lib\<close>); what the code relies on is stated of them by \<open>redis_ok\<close>, \<open>lru_ok\<close>
  and \<open>lib_ok\<close>. A script is one atomic function on the store, as Redis runs it. A call of the client
  can be answered, be refused, or be executed with its answer lost: \<open>outcomes\<close> says what happens to
  the next calls (all are answered when it is empty).
\<close>

subsection \<open>Parameters\<close>

record 'r redis =
  r_GET :: "'r \<Rightarrow> string \<Rightarrow> string option"
  r_SET :: "'r \<Rightarrow> string \<Rightarrow> string \<Rightarrow> int option \<Rightarrow> 'r"
  r_INCR :: "'r \<Rightarrow> string \<Rightarrow> 'r \<times> int"
  r_DEL :: "'r \<Rightarrow> string \<Rightarrow> 'r"
  r_PEXPIRE :: "'r \<Rightarrow> string \<Rightarrow> int \<Rightarrow> 'r \<times> int"

record Owner =
  Node :: LNodeInfo
  Epoch :: "64 word"

record ownerEvent =
  ev_ActorId :: LActorID
  ev_Epoch :: "64 word"

record 'c lru =
  lru_Get :: "'c \<Rightarrow> string \<Rightarrow> 'c \<times> Owner option"
  lru_Add :: "'c \<Rightarrow> string \<Rightarrow> Owner \<Rightarrow> 'c"
  lru_Remove :: "'c \<Rightarrow> string \<Rightarrow> 'c"
  lru_Purge :: "'c \<Rightarrow> 'c"

text \<open>\<open>cjson_decode\<close> gives the fields \<^verbatim>\<open>node_id\<close> and \<^verbatim>\<open>instance_id\<close> of the decoded object, or fails with \<open>cjson_error\<close>.\<close>

record dir_lib =
  json_of_node :: "LNodeInfo \<Rightarrow> string result"
  node_of_json :: "string \<Rightarrow> LNodeInfo result"
  json_of_event :: "ownerEvent \<Rightarrow> string result"
  event_of_json :: "string \<Rightarrow> ownerEvent result"
  cjson_decode :: "string \<Rightarrow> (string option \<times> string option) option"
  cjson_error :: go_error
  Sscan_uint64 :: "string \<Rightarrow> 64 word result"

datatype outcome = Replied | Refused go_error | ReplyLost go_error

record 'r redis_client =
  store :: 'r
  published :: "(string \<times> string) list"
  outcomes :: "outcome list"

record ('r, 'c) dir_env =
  redis :: "'r redis"
  lru :: "'c lru"
  libs :: dir_lib

definition client_call :: "('s \<Rightarrow> 's \<times> 'x result) \<Rightarrow> outcome list \<Rightarrow> 's \<Rightarrow> outcome list \<times> 's \<times> 'x result" where
  "client_call f os s =
     (case os of
        [] \<Rightarrow> (case f s of (s1, x) \<Rightarrow> ([], s1, x))
      | Replied # os1 \<Rightarrow> (case f s of (s1, x) \<Rightarrow> (os1, s1, x))
      | Refused e # os1 \<Rightarrow> (os1, s, Inl e)
      | ReplyLost e # os1 \<Rightarrow> (os1, fst (f s), Inl e))"

definition run_script :: "('r \<Rightarrow> 'r \<times> 'x result) \<Rightarrow> 'r redis_client \<Rightarrow> 'r redis_client \<times> 'x result" where
  "run_script script c =
     (case client_call script (outcomes c) (store c) of
        (os, s, x) \<Rightarrow> (c\<lparr>store := s, outcomes := os\<rparr>, x))"

subsection \<open>The scripts\<close>

datatype redis_value = RInt int | RStr string | RNil

fun go_type :: "redis_value \<Rightarrow> string" where
  "go_type (RInt i) = ''int64''" | "go_type (RStr s) = ''string''" | "go_type RNil = ''<nil>''"

definition or_default :: "string option \<Rightarrow> string \<Rightarrow> string" where
  "or_default v d = (case v of Some x \<Rightarrow> x | None \<Rightarrow> d)"

definition getOwnerScript :: "'r redis \<Rightarrow> string \<Rightarrow> string \<Rightarrow> 'r \<Rightarrow> 'r \<times> redis_value list result" where
  "getOwnerScript R k1 k2 r =
     (let current_value = or_default (r_GET R r k1) []; epoch = or_default (r_GET R r k2) ''0'' in
      (r, Inr [RStr epoch, RStr current_value]))"

text \<open>The script after its checks: the candidate becomes the owner.\<close>

definition take_ownership :: "'r redis \<Rightarrow> string \<Rightarrow> string \<Rightarrow> string \<Rightarrow> int \<Rightarrow> 'r \<Rightarrow> 'r \<times> redis_value list result" where
  "take_ownership R k1 k2 arg ttl r =
     (case r_INCR R r k2 of
        (r1, epoch) \<Rightarrow> (r_SET R r1 k1 arg (if ttl > 0 then Some ttl else None), Inr [RInt 1, RInt epoch, RStr arg]))"

definition acquireOwnerScript :: "'r redis \<Rightarrow> dir_lib \<Rightarrow> string \<Rightarrow> string \<Rightarrow> string \<Rightarrow> int \<Rightarrow> 'r \<Rightarrow> 'r \<times> redis_value list result" where
  "acquireOwnerScript R J k1 k2 arg ttl r =
     (case cjson_decode J arg of
        None \<Rightarrow> (r, Inl (cjson_error J))
      | Some candidate \<Rightarrow>
          (case r_GET R r k1 of
             None \<Rightarrow> take_ownership R k1 k2 arg ttl r
           | Some current \<Rightarrow>
               (case cjson_decode J current of
                  None \<Rightarrow> (r, Inl (cjson_error J))
                | Some owner \<Rightarrow>
                    if fst owner \<noteq> None \<and> snd owner \<noteq> None \<and> fst owner \<noteq> fst candidate
                    then (r, Inr [RInt 0, RStr (or_default (r_GET R r k2) ''0''), RStr current])
                    else take_ownership R k1 k2 arg ttl r)))"

definition renewOwnerScript :: "'r redis \<Rightarrow> dir_lib \<Rightarrow> string \<Rightarrow> string \<Rightarrow> int \<Rightarrow> 'r \<Rightarrow> 'r \<times> int result" where
  "renewOwnerScript R J k1 arg ttl r =
     (case r_GET R r k1 of
        None \<Rightarrow> (r, Inr 0)
      | Some current_value \<Rightarrow>
          (case (cjson_decode J current_value, cjson_decode J arg) of
             (Some current, Some expected) \<Rightarrow>
               if fst current \<noteq> fst expected \<or> snd current \<noteq> snd expected then (r, Inr 0)
               else if ttl \<le> 0 then (r, Inr 1)
               else (case r_PEXPIRE R r k1 ttl of (r1, n) \<Rightarrow> (r1, Inr n))
           | _ \<Rightarrow> (r, Inl (cjson_error J))))"

definition deleteOwnerScript :: "'r redis \<Rightarrow> dir_lib \<Rightarrow> string \<Rightarrow> string \<Rightarrow> string \<Rightarrow> 'r \<Rightarrow> 'r \<times> redis_value list result" where
  "deleteOwnerScript R J k1 k2 arg r =
     (let epoch = or_default (r_GET R r k2) ''0'' in
      case r_GET R r k1 of
        None \<Rightarrow> (r, Inr [RInt 0, RStr epoch])
      | Some current_value \<Rightarrow>
          (case (cjson_decode J current_value, cjson_decode J arg) of
             (Some current, Some expected) \<Rightarrow>
               if fst current = fst expected \<and> snd current = snd expected
               then (case r_INCR R (r_DEL R r k1) k2 of (r1, n) \<Rightarrow> (r1, Inr [RInt 1, RInt n]))
               else (r, Inr [RInt 0, RStr epoch])
           | _ \<Rightarrow> (r, Inl (cjson_error J))))"

subsection \<open>storage.go\<close>

definition redisResultUint64 :: "dir_lib \<Rightarrow> redis_value \<Rightarrow> 64 word result" where
  "redisResultUint64 J v =
     (case v of
        RInt i \<Rightarrow> if i < 0 then Inl (Plain (''negative redis integer '' @ show_int i)) else Inr (of_int i)
      | RStr s \<Rightarrow> (case Sscan_uint64 J s of
                     Inl e \<Rightarrow> Inl (Wrap (''invalid redis integer '' @ quoted s @ '': '') e [])
                   | Inr n \<Rightarrow> Inr n)
      | RNil \<Rightarrow> Inr 0)"

definition redisResultBool :: "dir_lib \<Rightarrow> redis_value \<Rightarrow> bool result" where
  "redisResultBool J v = rbind (redisResultUint64 J v) (\<lambda>n. Inr (n = 1))"

definition genRedisKey :: "string \<Rightarrow> string \<Rightarrow> string" where
  "genRedisKey prefix key = ''{directory}.'' @ prefix @ key"

definition owner_key :: "string \<Rightarrow> LActorID \<Rightarrow> string" where
  "owner_key prefix a = genRedisKey prefix (ActorID_String a)"

definition epoch_key :: "string \<Rightarrow> LActorID \<Rightarrow> string" where
  "epoch_key prefix a = genRedisKey prefix (ActorID_String a @ ''.epoch'')"

text \<open>\<^verbatim>\<open>Duration.Milliseconds\<close>\<close>

definition milliseconds :: "int \<Rightarrow> int" where "milliseconds d = (if d < 0 then - (- d div 1000000) else d div 1000000)"

definition count_error :: "string \<Rightarrow> 'x list \<Rightarrow> go_error" where
  "count_error what xs = Plain (what @ '' returned '' @ show_nat (length xs) @ '' values'')"

definition acquireOwnerFromRedis :: "('r, 'c) dir_env \<Rightarrow> string \<Rightarrow> LActorID \<Rightarrow> LNodeInfo \<Rightarrow> int \<Rightarrow> 'r redis_client
    \<Rightarrow> 'r redis_client \<times> (Owner \<times> bool) result" where
  "acquireOwnerFromRedis env prefix a candidate lease c =
     (let J = libs env in
      case json_of_node J candidate of
        Inl e \<Rightarrow> (c, Inl (Wrap (''encode candidate '' @ ActorID_String a @ '': '') e []))
      | Inr arg \<Rightarrow>
          (case run_script (acquireOwnerScript (redis env) J (owner_key prefix a) (epoch_key prefix a) arg (milliseconds lease)) c of
             (c1, Inl e) \<Rightarrow> (c1, Inl e)
           | (c1, Inr [v0, v1, v2]) \<Rightarrow>
               (c1, rbind (redisResultBool J v0) (\<lambda>acquire.
                    rbind (redisResultUint64 J v1) (\<lambda>epoch.
                    case v2 of
                      RStr ownerStr \<Rightarrow>
                        if ownerStr = [] then Inl (Plain (''acquire owner returned invalid owner string''))
                        else rbind (node_of_json J ownerStr) (\<lambda>node.
                             case LNodeInfo_Validate node of
                               Some e \<Rightarrow> Inl (Wrap (''validate owner '' @ ActorID_String a @ '': '') e [])
                             | None \<Rightarrow> Inr (\<lparr>Node = node, Epoch = epoch\<rparr>, acquire))
                    | _ \<Rightarrow> Inl (Plain (''acquire owner returned invalid owner '' @ go_type v2)))))
           | (c1, Inr vs) \<Rightarrow> (c1, Inl (count_error ''acquire owner'' vs))))"

definition renewOwnerFromRedis :: "('r, 'c) dir_env \<Rightarrow> string \<Rightarrow> LActorID \<Rightarrow> LNodeInfo \<Rightarrow> int \<Rightarrow> 'r redis_client
    \<Rightarrow> 'r redis_client \<times> bool result" where
  "renewOwnerFromRedis env prefix a expected lease c =
     (case json_of_node (libs env) expected of
        Inl e \<Rightarrow> (c, Inl (Wrap (''encode expected owner '' @ ActorID_String a @ '': '') e []))
      | Inr arg \<Rightarrow>
          (case run_script (renewOwnerScript (redis env) (libs env) (owner_key prefix a) arg (milliseconds lease)) c of
             (c1, Inl e) \<Rightarrow> (c1, Inl e)
           | (c1, Inr n) \<Rightarrow> (c1, Inr (n = 1))))"

definition getOwnerFromRedis :: "('r, 'c) dir_env \<Rightarrow> string \<Rightarrow> LActorID \<Rightarrow> 'r redis_client
    \<Rightarrow> 'r redis_client \<times> Owner option result" where
  "getOwnerFromRedis env prefix a c =
     (let J = libs env in
      case run_script (getOwnerScript (redis env) (owner_key prefix a) (epoch_key prefix a)) c of
        (c1, Inl e) \<Rightarrow> (c1, Inl e)
      | (c1, Inr [v0, v1]) \<Rightarrow>
          (c1, (case v1 of
                  RStr ownerValue \<Rightarrow>
                    if ownerValue = [] then Inr None
                    else rbind (redisResultUint64 J v0) (\<lambda>epoch.
                         case node_of_json J ownerValue of
                           Inl e \<Rightarrow> Inl (Wrap (''decode owner '' @ ActorID_String a @ '': '') e [])
                         | Inr node \<Rightarrow>
                             (case LNodeInfo_Validate node of
                                Some e \<Rightarrow> Inl (Wrap (''validate owner '' @ ActorID_String a @ '': '') e [])
                              | None \<Rightarrow> Inr (Some \<lparr>Node = node, Epoch = epoch\<rparr>)))
                | _ \<Rightarrow> Inr None))
      | (c1, Inr vs) \<Rightarrow> (c1, Inl (count_error ''get owner'' vs)))"

definition deleteOwnerFromRedis :: "('r, 'c) dir_env \<Rightarrow> string \<Rightarrow> LActorID \<Rightarrow> LNodeInfo \<Rightarrow> 'r redis_client
    \<Rightarrow> 'r redis_client \<times> (bool \<times> 64 word) result" where
  "deleteOwnerFromRedis env prefix a expected c =
     (let J = libs env in
      case json_of_node J expected of
        Inl e \<Rightarrow> (c, Inl (Wrap (''encode expected owner '' @ ActorID_String a @ '': '') e []))
      | Inr arg \<Rightarrow>
          (case run_script (deleteOwnerScript (redis env) J (owner_key prefix a) (epoch_key prefix a) arg) c of
             (c1, Inl e) \<Rightarrow> (c1, Inl e)
           | (c1, Inr [v0, v1]) \<Rightarrow>
               (c1, rbind (redisResultBool J v0) (\<lambda>deleted. rbind (redisResultUint64 J v1) (\<lambda>epoch. Inr (deleted, epoch))))
           | (c1, Inr vs) \<Rightarrow> (c1, Inl (count_error ''delete owner'' vs))))"

subsection \<open>redis.go\<close>

definition ErrRedisClientNil :: go_error where "ErrRedisClientNil = Plain ''redis owner directory client is nil''"
definition defaultLeaseTTL :: int where "defaultLeaseTTL = 30 * 1000000000"
definition defaultCacheSize :: int where "defaultCacheSize = 100000"

record RedisOwnerDirectoryOptions =
  KeyPrefix :: string
  opt_LeaseTTL :: int
  CacheSize :: int
  CacheTTL :: int

record 'c RedisOwnerDirectory =
  dir_prefix :: string
  cache :: 'c
  leaseTTL :: int
  stopOnce :: bool

definition updateChannel :: "'c RedisOwnerDirectory \<Rightarrow> string" where
  "updateChannel m = dir_prefix m @ ''ownerUpdate''"

text \<open>\<open>newLRU size ttl\<close> is the cache that \<^verbatim>\<open>expirable.NewLRU\<close> makes.\<close>

definition NewRedisDirectory :: "(int \<Rightarrow> int \<Rightarrow> 'c) \<Rightarrow> bool \<Rightarrow> RedisOwnerDirectoryOptions \<Rightarrow> 'c RedisOwnerDirectory result" where
  "NewRedisDirectory newLRU has_client options =
     (if \<not> has_client then Inl ErrRedisClientNil
      else
        (let lease = (if opt_LeaseTTL options \<le> 0 then defaultLeaseTTL else opt_LeaseTTL options);
             size = (if CacheSize options \<le> 0 then defaultCacheSize else CacheSize options);
             ttl = (if CacheTTL options \<le> 0 then lease else CacheTTL options)
         in Inr \<lparr>dir_prefix = TrimSpace (KeyPrefix options), cache = newLRU size ttl, leaseTTL = lease, stopOnce = False\<rparr>))"

definition tryDelCached :: "'c lru \<Rightarrow> string \<Rightarrow> 64 word \<Rightarrow> 'c RedisOwnerDirectory \<Rightarrow> 'c RedisOwnerDirectory" where
  "tryDelCached C key epoch m =
     (case lru_Get C (cache m) key of
        (c1, found) \<Rightarrow>
          (case found of
             Some current \<Rightarrow> if Epoch current > epoch then m\<lparr>cache := c1\<rparr> else m\<lparr>cache := lru_Remove C c1 key\<rparr>
           | None \<Rightarrow> m\<lparr>cache := lru_Remove C c1 key\<rparr>))"

definition getCached :: "'c lru \<Rightarrow> string \<Rightarrow> 'c RedisOwnerDirectory \<Rightarrow> 'c RedisOwnerDirectory \<times> Owner option" where
  "getCached C key m = (case lru_Get C (cache m) key of (c1, found) \<Rightarrow> (m\<lparr>cache := c1\<rparr>, found))"

definition trySetCached :: "'c lru \<Rightarrow> string \<Rightarrow> Owner \<Rightarrow> 'c RedisOwnerDirectory \<Rightarrow> 'c RedisOwnerDirectory" where
  "trySetCached C key owner m =
     (case lru_Get C (cache m) key of
        (c1, found) \<Rightarrow>
          (case found of
             Some current \<Rightarrow> if Epoch current \<ge> Epoch owner then m\<lparr>cache := c1\<rparr> else m\<lparr>cache := lru_Add C c1 key owner\<rparr>
           | None \<Rightarrow> m\<lparr>cache := lru_Add C c1 key owner\<rparr>))"

definition refreshCached :: "'c lru \<Rightarrow> string \<Rightarrow> LNodeInfo \<Rightarrow> 'c RedisOwnerDirectory \<Rightarrow> 'c RedisOwnerDirectory" where
  "refreshCached C key expected m =
     (case lru_Get C (cache m) key of
        (c1, found) \<Rightarrow>
          (case found of
             Some current \<Rightarrow> if Node current = expected then m\<lparr>cache := lru_Add C c1 key current\<rparr> else m\<lparr>cache := c1\<rparr>
           | None \<Rightarrow> m\<lparr>cache := c1\<rparr>))"

definition handleOwnerEvent :: "('r, 'c) dir_env \<Rightarrow> (string \<times> string) option \<Rightarrow> 'c RedisOwnerDirectory \<Rightarrow> 'c RedisOwnerDirectory" where
  "handleOwnerEvent env message m =
     (case message of
        None \<Rightarrow> m
      | Some (channel, payload) \<Rightarrow>
          (case event_of_json (libs env) payload of
             Inl e \<Rightarrow> m
           | Inr event \<Rightarrow>
               if channel = updateChannel m then tryDelCached (lru env) (ActorID_String (ev_ActorId event)) (ev_Epoch event) m else m))"

definition notifyOwnerUpdate :: "('r, 'c) dir_env \<Rightarrow> string \<Rightarrow> LActorID \<Rightarrow> 64 word \<Rightarrow> 'r redis_client \<Rightarrow> 'r redis_client" where
  "notifyOwnerUpdate env channel a epoch c =
     (case json_of_event (libs env) \<lparr>ev_ActorId = a, ev_Epoch = epoch\<rparr> of
        Inl e \<Rightarrow> c
      | Inr payload \<Rightarrow>
          (case client_call (\<lambda>ps. (ps @ [(channel, payload)], Inr ())) (outcomes c) (published c) of
             (os, ps, _) \<Rightarrow> c\<lparr>published := ps, outcomes := os\<rparr>))"

text \<open>
  The methods of the interface work on the directories of all nodes and on the Redis server they
  share; \<open>i\<close> is the node whose method is called.
\<close>

record ('r, 'c) directory =
  dirs :: "nat \<Rightarrow> 'c RedisOwnerDirectory"
  client :: "'r redis_client"

definition upd_dir :: "nat \<Rightarrow> ('c RedisOwnerDirectory \<Rightarrow> 'c RedisOwnerDirectory) \<Rightarrow> ('r, 'c) directory \<Rightarrow> ('r, 'c) directory" where
  "upd_dir i f d = d\<lparr>dirs := (dirs d)(i := f (dirs d i))\<rparr>"

definition redis_AcquireOwner :: "('r, 'c) dir_env \<Rightarrow> nat \<Rightarrow> LActorID \<Rightarrow> LNodeInfo \<Rightarrow> ('r, 'c) directory
    \<Rightarrow> ('r, 'c) directory \<times> (LNodeInfo \<times> bool) result" where
  "redis_AcquireOwner env i a candidate d =
     (case ActorID_Validate a of
        Some e \<Rightarrow> (d, Inl e)
      | None \<Rightarrow>
          (case LNodeInfo_Validate candidate of
             Some e \<Rightarrow> (d, Inl e)
           | None \<Rightarrow>
               (case acquireOwnerFromRedis env (dir_prefix (dirs d i)) a candidate (leaseTTL (dirs d i)) (client d) of
                  (c1, Inl e) \<Rightarrow> (d\<lparr>client := c1\<rparr>, Inl e)
                | (c1, Inr (owner, acquire)) \<Rightarrow>
                    (let d1 = upd_dir i (trySetCached (lru env) (ActorID_String a) owner) (d\<lparr>client := c1\<rparr>);
                         d2 = (if acquire then d1\<lparr>client := notifyOwnerUpdate env (updateChannel (dirs d i)) a (Epoch owner) c1\<rparr> else d1)
                     in (d2, Inr (Node owner, acquire))))))"

definition redis_RenewOwner :: "('r, 'c) dir_env \<Rightarrow> nat \<Rightarrow> LActorID \<Rightarrow> LNodeInfo \<Rightarrow> ('r, 'c) directory
    \<Rightarrow> ('r, 'c) directory \<times> bool result" where
  "redis_RenewOwner env i a expectedOwner d =
     (case ActorID_Validate a of
        Some e \<Rightarrow> (d, Inl e)
      | None \<Rightarrow>
          (case LNodeInfo_Validate expectedOwner of
             Some e \<Rightarrow> (d, Inl e)
           | None \<Rightarrow>
               (case renewOwnerFromRedis env (dir_prefix (dirs d i)) a expectedOwner (leaseTTL (dirs d i)) (client d) of
                  (c1, Inl e) \<Rightarrow> (d\<lparr>client := c1\<rparr>, Inl (Wrap (''renew owner '' @ ActorID_String a @ '': '') e []))
                | (c1, Inr renewed) \<Rightarrow>
                    (let d1 = d\<lparr>client := c1\<rparr> in
                     (if renewed then upd_dir i (refreshCached (lru env) (ActorID_String a) expectedOwner) d1 else d1, Inr renewed)))))"

definition redis_GetOwner :: "('r, 'c) dir_env \<Rightarrow> nat \<Rightarrow> LActorID \<Rightarrow> ('r, 'c) directory \<Rightarrow> ('r, 'c) directory \<times> LNodeInfo option result" where
  "redis_GetOwner env i a d =
     (case ActorID_Validate a of
        Some e \<Rightarrow> (d, Inl e)
      | None \<Rightarrow>
          (case getCached (lru env) (ActorID_String a) (dirs d i) of
             (m1, found) \<Rightarrow>
               (let d1 = upd_dir i (\<lambda>_. m1) d in
                case found of
                  Some owner \<Rightarrow> (d1, Inr (Some (Node owner)))
                | None \<Rightarrow>
                    (case getOwnerFromRedis env (dir_prefix m1) a (client d1) of
                       (c1, Inl e) \<Rightarrow> (d1\<lparr>client := c1\<rparr>, Inl (Wrap (''get owner '' @ ActorID_String a @ '': '') e []))
                     | (c1, Inr None) \<Rightarrow> (d1\<lparr>client := c1\<rparr>, Inr None)
                     | (c1, Inr (Some owner)) \<Rightarrow>
                         (upd_dir i (trySetCached (lru env) (ActorID_String a) owner) (d1\<lparr>client := c1\<rparr>), Inr (Some (Node owner)))))))"

definition redis_DeleteOwner :: "('r, 'c) dir_env \<Rightarrow> nat \<Rightarrow> LActorID \<Rightarrow> LNodeInfo \<Rightarrow> ('r, 'c) directory
    \<Rightarrow> ('r, 'c) directory \<times> bool result" where
  "redis_DeleteOwner env i a expectedOwner d =
     (case ActorID_Validate a of
        Some e \<Rightarrow> (d, Inl e)
      | None \<Rightarrow>
          (case LNodeInfo_Validate expectedOwner of
             Some e \<Rightarrow> (d, Inl e)
           | None \<Rightarrow>
               (case deleteOwnerFromRedis env (dir_prefix (dirs d i)) a expectedOwner (client d) of
                  (c1, Inl e) \<Rightarrow> (d\<lparr>client := c1\<rparr>, Inl (Wrap (''exec delete '' @ ActorID_String a @ '': '') e []))
                | (c1, Inr (deleted, epoch)) \<Rightarrow>
                    (let d1 = d\<lparr>client := c1\<rparr> in
                     (if deleted
                      then (upd_dir i (tryDelCached (lru env) (ActorID_String a) epoch) d1)
                             \<lparr>client := notifyOwnerUpdate env (updateChannel (dirs d i)) a epoch c1\<rparr>
                      else d1, Inr deleted)))))"

definition redis_Close :: "('r, 'c) dir_env \<Rightarrow> err \<Rightarrow> 'c RedisOwnerDirectory \<Rightarrow> 'c RedisOwnerDirectory \<times> err" where
  "redis_Close env closeErr m =
     (if stopOnce m then (m, None)
      else (m\<lparr>stopOnce := True, cache := lru_Purge (lru env) (cache m)\<rparr>,
            map_option (\<lambda>e. Wrap ''close redis pubsub: '' e []) closeErr))"

definition redis_directory :: "('r, 'c) dir_env \<Rightarrow> nat \<Rightarrow> ('r, 'c) directory OwnerDirectory" where
  "redis_directory env i =
     \<lparr>GetOwner = redis_GetOwner env i, AcquireOwner = redis_AcquireOwner env i, RenewOwner = redis_RenewOwner env i,
      DeleteOwner = redis_DeleteOwner env i, LeaseTTL = (\<lambda>d. leaseTTL (dirs d i))\<rparr>"

end
