(* ===== verification/OwnerLease.thy ===== *)
theory OwnerLease
  imports RedisDirectory
begin

text \<open>
  What the scripts of the directory promise: an abstract table of owners with an epoch per actor, and
  the proof that every script, and the function that calls it, is one operation on this table. The
  laws of Redis, of the JSON encodings and of \<^verbatim>\<open>fmt.Sscan\<close> are hypotheses (\<open>redis_ok\<close>, \<open>lib_ok\<close>).
\<close>

subsection \<open>The specification\<close>

record lease_table =
  owner_of :: "LActorID \<Rightarrow> LNodeInfo option"
  epoch_of :: "LActorID \<Rightarrow> nat"

definition lease_set :: "LActorID \<Rightarrow> LNodeInfo option \<Rightarrow> lease_table \<Rightarrow> lease_table" where
  "lease_set a x L = \<lparr>owner_of = (owner_of L)(a := x), epoch_of = (epoch_of L)(a := Suc (epoch_of L a))\<rparr>"

definition lease_acquire :: "LActorID \<Rightarrow> LNodeInfo \<Rightarrow> lease_table \<Rightarrow> lease_table \<times> LNodeInfo \<times> bool" where
  "lease_acquire a c L =
     (case owner_of L a of
        Some x \<Rightarrow> if NodeId x \<noteq> NodeId c then (L, x, False) else (lease_set a (Some c) L, c, True)
      | None \<Rightarrow> (lease_set a (Some c) L, c, True))"

definition same_instance :: "LNodeInfo \<Rightarrow> LNodeInfo \<Rightarrow> bool" where
  "same_instance x y \<longleftrightarrow> NodeId x = NodeId y \<and> InstanceId x = InstanceId y"

definition lease_held :: "LActorID \<Rightarrow> LNodeInfo \<Rightarrow> lease_table \<Rightarrow> bool" where
  "lease_held a c L = (case owner_of L a of Some x \<Rightarrow> same_instance x c | None \<Rightarrow> False)"

definition lease_delete :: "LActorID \<Rightarrow> LNodeInfo \<Rightarrow> lease_table \<Rightarrow> lease_table \<times> bool" where
  "lease_delete a c L = (if lease_held a c L then (lease_set a None L, True) else (L, False))"

subsection \<open>What the parameters promise\<close>

definition redis_ok :: "'r redis \<Rightarrow> bool" where
  "redis_ok R \<longleftrightarrow>
     (\<forall>r k v t. r_GET R (r_SET R r k v t) = (r_GET R r)(k \<mapsto> v))
     \<and> (\<forall>r k. r_GET R (r_DEL R r k) = (r_GET R r)(k := None))
     \<and> (\<forall>r k n. r_GET R r k = (if n = 0 then None else Some (show_nat n)) \<and> n < 2 ^ 53 \<longrightarrow>
          snd (r_INCR R r k) = int (Suc n) \<and> r_GET R (fst (r_INCR R r k)) = (r_GET R r)(k \<mapsto> show_nat (Suc n)))
     \<and> (\<forall>r k t. t > 0 \<longrightarrow> snd (r_PEXPIRE R r k t) = (if r_GET R r k = None then 0 else 1) \<and> r_GET R (fst (r_PEXPIRE R r k t)) = r_GET R r)"

text \<open>\<open>N\<close> are the nodes of the cluster, all of which pass \<^verbatim>\<open>Validate\<close>.\<close>

definition encodes :: "dir_lib \<Rightarrow> LNodeInfo \<Rightarrow> string \<Rightarrow> bool" where
  "encodes J n s \<longleftrightarrow> json_of_node J n = Inr s \<and> s \<noteq> [] \<and> node_of_json J s = Inr n
     \<and> cjson_decode J s = Some (Some (NodeId n), Some (InstanceId n))"

definition lib_ok :: "dir_lib \<Rightarrow> LNodeInfo set \<Rightarrow> bool" where
  "lib_ok J N \<longleftrightarrow>
     (\<forall>n \<in> N. LNodeInfo_Validate n = None \<and> encodes J n (projr (json_of_node J n)))
     \<and> (\<forall>n < 2 ^ 64. Sscan_uint64 J (show_nat n) = Inr (of_nat n))"

text \<open>\<open>A\<close> are the actors of the cluster: valid, and no owner key is the epoch key of another.\<close>

definition keys_apart :: "string \<Rightarrow> LActorID set \<Rightarrow> bool" where
  "keys_apart prefix A \<longleftrightarrow> (\<forall>a \<in> A. ActorID_Validate a = None) \<and> (\<forall>a \<in> A. \<forall>b \<in> A. owner_key prefix a \<noteq> epoch_key prefix b)"

lemma owner_key_inj: "keys_apart p A \<Longrightarrow> a \<in> A \<Longrightarrow> b \<in> A \<Longrightarrow> owner_key p a = owner_key p b \<longleftrightarrow> a = b"
  using ActorID_String_inj by (auto simp: keys_apart_def owner_key_def genRedisKey_def)

lemma epoch_key_inj: "keys_apart p A \<Longrightarrow> a \<in> A \<Longrightarrow> b \<in> A \<Longrightarrow> epoch_key p a = epoch_key p b \<longleftrightarrow> a = b"
  using ActorID_String_inj by (auto simp: keys_apart_def epoch_key_def genRedisKey_def)

lemma keys_apart_simps:
  assumes "keys_apart p A" "a \<in> A" "b \<in> A"
  shows "owner_key p a \<noteq> epoch_key p b" "epoch_key p a \<noteq> owner_key p b"
  using assms by (auto simp: keys_apart_def dest: sym)

subsection \<open>The refinement relation\<close>

definition dir_rel :: "'r redis \<Rightarrow> dir_lib \<Rightarrow> string \<Rightarrow> LActorID set \<Rightarrow> LNodeInfo set \<Rightarrow> 'r \<Rightarrow> lease_table \<Rightarrow> bool" where
  "dir_rel R J p A N r L \<longleftrightarrow> (\<forall>a \<in> A.
     r_GET R r (owner_key p a) = map_option (projr \<circ> json_of_node J) (owner_of L a)
     \<and> set_option (owner_of L a) \<subseteq> N
     \<and> r_GET R r (epoch_key p a) = (if epoch_of L a = 0 then None else Some (show_nat (epoch_of L a))))"

lemma dir_relD:
  assumes "dir_rel R J p A N r L" "a \<in> A"
  shows "r_GET R r (owner_key p a) = map_option (projr \<circ> json_of_node J) (owner_of L a)"
    and "owner_of L a = Some n \<Longrightarrow> n \<in> N"
    and "r_GET R r (epoch_key p a) = (if epoch_of L a = 0 then None else Some (show_nat (epoch_of L a)))"
  using assms unfolding dir_rel_def by force+

lemma lib_okD:
  assumes "lib_ok J N"
  shows "n \<in> N \<Longrightarrow> LNodeInfo_Validate n = None"
    and "n \<in> N \<Longrightarrow> encodes J n (projr (json_of_node J n))"
    and "k < 2 ^ 64 \<Longrightarrow> Sscan_uint64 J (show_nat k) = Inr (of_nat k)"
  using assms by (auto simp: lib_ok_def)

lemma encoded: "lib_ok J N \<Longrightarrow> n \<in> N \<Longrightarrow> \<exists>j. json_of_node J n = Inr j"
  using lib_okD(2) by (auto simp: encodes_def)

lemma redis_okD:
  assumes "redis_ok R"
  shows "r_GET R (r_SET R r k v t) = (r_GET R r)(k \<mapsto> v)"
    and "r_GET R (r_DEL R r k) = (r_GET R r)(k := None)"
    and "r_GET R r k = (if n = 0 then None else Some (show_nat n)) \<Longrightarrow> n < 2 ^ 53 \<Longrightarrow> snd (r_INCR R r k) = int (Suc n)"
    and "r_GET R r k = (if n = 0 then None else Some (show_nat n)) \<Longrightarrow> n < 2 ^ 53 \<Longrightarrow>
      r_GET R (fst (r_INCR R r k)) = (r_GET R r)(k \<mapsto> show_nat (Suc n))"
    and "t' > 0 \<Longrightarrow> snd (r_PEXPIRE R r k t') = (if r_GET R r k = None then 0 else 1)"
    and "t' > 0 \<Longrightarrow> r_GET R (fst (r_PEXPIRE R r k t')) = r_GET R r"
  using assms unfolding redis_ok_def by blast+

text \<open>Changing the two keys of one actor, as the scripts do.\<close>

lemma dir_rel_set:
  assumes "keys_apart p A" "dir_rel R J p A N r L" "a \<in> A" "set_option x \<subseteq> N"
    and "r_GET R r' = (r_GET R r)(owner_key p a := map_option (projr \<circ> json_of_node J) x, epoch_key p a := Some (show_nat (Suc (epoch_of L a))))"
  shows "dir_rel R J p A N r' (lease_set a x L)"
  unfolding dir_rel_def
proof
  fix b assume b: "b \<in> A"
  note k = keys_apart_simps [OF assms(1,3) b] keys_apart_simps [OF assms(1) b assms(3)]
    owner_key_inj [OF assms(1) b assms(3)] epoch_key_inj [OF assms(1) b assms(3)]
  show "r_GET R r' (owner_key p b) = map_option (projr \<circ> json_of_node J) (owner_of (lease_set a x L) b)
     \<and> set_option (owner_of (lease_set a x L) b) \<subseteq> N
     \<and> r_GET R r' (epoch_key p b) = (if epoch_of (lease_set a x L) b = 0 then None else Some (show_nat (epoch_of (lease_set a x L) b)))"
    using assms(2,4,5) b k unfolding dir_rel_def lease_set_def by auto
qed

lemma show_nat_0: "show_nat 0 = ''0''"
  by code_simp

lemma or_default_epoch:
  assumes "lib_ok J N" "g = (if n = 0 then None else Some (show_nat n))" "n < 2 ^ 53"
  shows "redisResultUint64 J (RStr (or_default g ''0'')) = Inr (of_nat n)"
proof -
  have "or_default g ''0'' = show_nat n" using assms(2) by (simp add: or_default_def show_nat_0)
  then show ?thesis using lib_okD(3) [OF assms(1), of n] assms(3) by (simp add: redisResultUint64_def)
qed


subsection \<open>The scripts refine the specification\<close>

lemma take_ownership_refines:
  assumes ok: "redis_ok R" "keys_apart p A" "dir_rel R J p A N r L" and a: "a \<in> A" "c \<in> N" "epoch_of L a < 2 ^ 53"
  shows "\<exists>r'. take_ownership R (owner_key p a) (epoch_key p a) (projr (json_of_node J c)) ttl r =
      (r', Inr [RInt 1, RInt (int (Suc (epoch_of L a))), RStr (projr (json_of_node J c))])
    \<and> dir_rel R J p A N r' (lease_set a (Some c) L)"
proof -
  let ?k = "owner_key p a" and ?e = "epoch_key p a" and ?j = "projr (json_of_node J c)"
  obtain r1 n where i: "r_INCR R r ?e = (r1, n)" by (cases "r_INCR R r ?e")
  note g = dir_relD(3) [OF ok(3) a(1)]
  have n: "n = int (Suc (epoch_of L a))" "r_GET R r1 = (r_GET R r)(?e \<mapsto> show_nat (Suc (epoch_of L a)))"
    using redis_okD(3,4) [OF ok(1) g a(3)] i by simp_all
  let ?t = "if ttl > 0 then Some ttl else None"
  have "r_GET R (r_SET R r1 ?k ?j ?t) =
      (r_GET R r)(?k := map_option (projr \<circ> json_of_node J) (Some c), ?e := Some (show_nat (Suc (epoch_of L a))))"
    using n(2) keys_apart_simps [OF ok(2) a(1) a(1)] by (simp add: redis_okD(1) [OF ok(1)] fun_upd_twist)
  from dir_rel_set [OF ok(2,3) a(1) _ this] a(2) i n(1) show ?thesis by (simp add: take_ownership_def)
qed

lemma acquireOwnerScript_refines:
  assumes ok: "redis_ok R" "lib_ok J N" "keys_apart p A" "dir_rel R J p A N r L" and a: "a \<in> A" "c \<in> N" "epoch_of L a < 2 ^ 53"
    and spec: "lease_acquire a c L = (L', x, b)"
  shows "\<exists>r' v. acquireOwnerScript R J (owner_key p a) (epoch_key p a) (projr (json_of_node J c)) ttl r =
      (r', Inr [RInt (if b then 1 else 0), v, RStr (projr (json_of_node J x))])
    \<and> redisResultUint64 J v = Inr (of_nat (epoch_of L' a)) \<and> dir_rel R J p A N r' L' \<and> x \<in> N"
proof -
  note g = dir_relD [OF ok(4) a(1)]
  have dec: "cjson_decode J (projr (json_of_node J n)) = Some (Some (NodeId n), Some (InstanceId n))" if "n \<in> N" for n
    using lib_okD(2) [OF ok(2) that] by (simp add: encodes_def)
  obtain r' where t: "take_ownership R (owner_key p a) (epoch_key p a) (projr (json_of_node J c)) ttl r =
      (r', Inr [RInt 1, RInt (int (Suc (epoch_of L a))), RStr (projr (json_of_node J c))])" "dir_rel R J p A N r' (lease_set a (Some c) L)"
    using take_ownership_refines [OF ok(1,3,4) a] by blast
  have e: "redisResultUint64 J (RInt (int (Suc (epoch_of L a)))) = Inr (of_nat (Suc (epoch_of L a)))"
    by (simp add: redisResultUint64_def)
  show ?thesis
  proof (cases "owner_of L a")
    case None
    then show ?thesis using g(1) spec t e a(2) dec by (auto simp: acquireOwnerScript_def lease_acquire_def lease_set_def)
  next
    case (Some y)
    then have y: "y \<in> N" using g(2) by blast
    show ?thesis
    proof (cases "NodeId y = NodeId c")
      case True
      then show ?thesis using Some g(1) spec t e a(2) dec y
        by (auto simp: acquireOwnerScript_def lease_acquire_def lease_set_def)
    next
      case False
      then show ?thesis using Some g(1) spec a(2) dec y or_default_epoch [OF ok(2) g(3) a(3)] ok(4)
        by (auto simp: acquireOwnerScript_def lease_acquire_def)
    qed
  qed
qed

lemma renewOwnerScript_refines:
  assumes ok: "redis_ok R" "lib_ok J N" "dir_rel R J p A N r L" and a: "a \<in> A" "c \<in> N"
  shows "\<exists>r'. renewOwnerScript R J (owner_key p a) (projr (json_of_node J c)) ttl r = (r', Inr (if lease_held a c L then 1 else 0))
    \<and> dir_rel R J p A N r' L"
proof -
  note g = dir_relD [OF ok(3) a(1)]
  have dec: "cjson_decode J (projr (json_of_node J n)) = Some (Some (NodeId n), Some (InstanceId n))" if "n \<in> N" for n
    using lib_okD(2) [OF ok(2) that] by (simp add: encodes_def)
  have keep: "dir_rel R J p A N (fst (r_PEXPIRE R r k ttl)) L" if "ttl > 0" for k
    using ok(3) redis_okD(6) [OF ok(1) that] by (simp add: dir_rel_def)
  show ?thesis
  proof (cases "owner_of L a")
    case None
    then show ?thesis using g(1) ok(3) by (simp add: renewOwnerScript_def lease_held_def)
  next
    case (Some y)
    then have y: "y \<in> N" using g(2) by blast
    show ?thesis
      using Some g(1) dec a(2) y ok(3) keep [of "owner_key p a"] redis_okD(5) [OF ok(1), of ttl r "owner_key p a"]
      by (auto simp: renewOwnerScript_def lease_held_def same_instance_def split: prod.splits)
  qed
qed

lemma deleteOwnerScript_refines:
  assumes ok: "redis_ok R" "lib_ok J N" "keys_apart p A" "dir_rel R J p A N r L" and a: "a \<in> A" "c \<in> N" "epoch_of L a < 2 ^ 53"
    and spec: "lease_delete a c L = (L', b)"
  shows "\<exists>r' v. deleteOwnerScript R J (owner_key p a) (epoch_key p a) (projr (json_of_node J c)) r = (r', Inr [RInt (if b then 1 else 0), v])
    \<and> redisResultUint64 J v = Inr (of_nat (epoch_of L' a)) \<and> dir_rel R J p A N r' L'"
proof -
  let ?k = "owner_key p a" and ?e = "epoch_key p a"
  note g = dir_relD [OF ok(4) a(1)]
  have dec: "cjson_decode J (projr (json_of_node J n)) = Some (Some (NodeId n), Some (InstanceId n))" if "n \<in> N" for n
    using lib_okD(2) [OF ok(2) that] by (simp add: encodes_def)
  obtain r1 n where i: "r_INCR R (r_DEL R r ?k) ?e = (r1, n)" by (cases "r_INCR R (r_DEL R r ?k) ?e")
  have ge: "r_GET R (r_DEL R r ?k) ?e = (if epoch_of L a = 0 then None else Some (show_nat (epoch_of L a)))"
    using g(3) keys_apart_simps [OF ok(3) a(1) a(1)] by (simp add: redis_okD(2) [OF ok(1)])
  have n: "n = int (Suc (epoch_of L a))" "r_GET R r1 = (r_GET R r)(?k := None, ?e \<mapsto> show_nat (Suc (epoch_of L a)))"
    using redis_okD(3,4) [OF ok(1) ge a(3)] i by (simp_all add: redis_okD(2) [OF ok(1)])
  then have d: "dir_rel R J p A N r1 (lease_set a None L)"
    using dir_rel_set [OF ok(3,4) a(1), of None r1] by simp
  have e: "redisResultUint64 J (RInt n) = Inr (of_nat (Suc (epoch_of L a)))"
    using n(1) by (simp add: redisResultUint64_def)
  note oe = or_default_epoch [OF ok(2) g(3) a(3)]
  show ?thesis
  proof (cases "owner_of L a")
    case None
    then show ?thesis using g(1) spec oe ok(4) by (auto simp: deleteOwnerScript_def lease_delete_def lease_held_def Let_def)
  next
    case (Some y)
    then have y: "y \<in> N" using g(2) by blast
    then show ?thesis using Some g(1) spec oe ok(4) dec a(2) i d e
      by (auto simp: deleteOwnerScript_def lease_delete_def lease_held_def same_instance_def Let_def lease_set_def split: if_splits)
  qed
qed


subsection \<open>The calls\<close>

definition executed :: "'r redis_client \<Rightarrow> bool" where
  "executed c = (case outcomes c of Refused e # os \<Rightarrow> False | _ \<Rightarrow> True)"

definition answered :: "'r redis_client \<Rightarrow> bool" where
  "answered c = (case outcomes c of [] \<Rightarrow> True | Replied # os \<Rightarrow> True | _ \<Rightarrow> False)"

lemma answered_executed: "answered c \<Longrightarrow> executed c"
  by (auto simp: answered_def executed_def split: list.splits outcome.splits)

lemma run_script_cases:
  assumes "script (store c) = (r', x)"
  shows "\<exists>c' y. run_script script c = (c', y) \<and> store c' = (if executed c then r' else store c)
    \<and> (if answered c then y = x else (\<exists>e. y = Inl e))"
  using assms
  by (auto simp: run_script_def client_call_def executed_def answered_def split: list.splits outcome.splits)

lemma acquireOwnerFromRedis_refines:
  assumes ok: "redis_ok (redis env)" "lib_ok (libs env) N" "keys_apart p A" "dir_rel (redis env) (libs env) p A N (store c) L"
    and a: "a \<in> A" "n \<in> N" "epoch_of L a < 2 ^ 53" and spec: "lease_acquire a n L = (L', x, b)"
  shows "\<exists>c' y. acquireOwnerFromRedis env p a n lease c = (c', y)
    \<and> dir_rel (redis env) (libs env) p A N (store c') (if executed c then L' else L)
    \<and> (if answered c then y = Inr (\<lparr>Node = x, Epoch = of_nat (epoch_of L' a)\<rparr>, b) else (\<exists>e. y = Inl e))"
proof -
  let ?J = "libs env"
  have enc: "encodes ?J k (projr (json_of_node ?J k))" "LNodeInfo_Validate k = None" if "k \<in> N" for k
    using lib_okD [OF ok(2)] that by auto
  let ?s = "acquireOwnerScript (redis env) ?J (owner_key p a) (epoch_key p a) (projr (json_of_node ?J n)) (milliseconds lease)"
  obtain r' v where s: "?s (store c) = (r', Inr [RInt (if b then 1 else 0), v, RStr (projr (json_of_node ?J x))])"
    "redisResultUint64 ?J v = Inr (of_nat (epoch_of L' a))" "dir_rel (redis env) ?J p A N r' L'" "x \<in> N"
    using acquireOwnerScript_refines [OF ok a spec] by blast
  obtain c' y where c': "run_script ?s c = (c', y)" "store c' = (if executed c then r' else store c)"
    "if answered c then y = Inr [RInt (if b then 1 else 0), v, RStr (projr (json_of_node ?J x))] else \<exists>e. y = Inl e"
    using run_script_cases [where script = ?s and c = c, OF s(1)] by blast
  have "redisResultBool ?J (RInt (if b then 1 else 0)) = Inr b"
    by (simp add: redisResultBool_def redisResultUint64_def)
  then show ?thesis
    using c' s(2-4) ok(4) enc [OF s(4)] encoded [OF ok(2) a(2)]
    by (cases "answered c") (auto simp: acquireOwnerFromRedis_def encodes_def Let_def)
qed

lemma renewOwnerFromRedis_refines:
  assumes ok: "redis_ok (redis env)" "lib_ok (libs env) N" "dir_rel (redis env) (libs env) p A N (store c) L" and a: "a \<in> A" "n \<in> N"
  shows "\<exists>c' y. renewOwnerFromRedis env p a n lease c = (c', y) \<and> dir_rel (redis env) (libs env) p A N (store c') L
    \<and> (if answered c then y = Inr (lease_held a n L) else (\<exists>e. y = Inl e))"
proof -
  let ?J = "libs env"
  let ?s = "renewOwnerScript (redis env) ?J (owner_key p a) (projr (json_of_node ?J n)) (milliseconds lease)"
  obtain r' where s: "?s (store c) = (r', Inr (if lease_held a n L then 1 else 0))" "dir_rel (redis env) ?J p A N r' L"
    using renewOwnerScript_refines [OF ok a] by blast
  obtain c' y where c': "run_script ?s c = (c', y)" "store c' = (if executed c then r' else store c)"
    "if answered c then y = Inr (if lease_held a n L then 1 else 0) else \<exists>e. y = Inl e"
    using run_script_cases [where script = ?s and c = c, OF s(1)] by blast
  show ?thesis
    using c' s(2) ok(3) encoded [OF ok(2) a(2)] by (cases "answered c") (auto simp: renewOwnerFromRedis_def)
qed

lemma getOwnerFromRedis_refines:
  assumes ok: "lib_ok (libs env) N" "dir_rel (redis env) (libs env) p A N (store c) L" and a: "a \<in> A" "epoch_of L a < 2 ^ 53"
  shows "\<exists>c' y. getOwnerFromRedis env p a c = (c', y) \<and> store c' = store c
    \<and> (if answered c then y = Inr (map_option (\<lambda>x. \<lparr>Node = x, Epoch = of_nat (epoch_of L a)\<rparr>) (owner_of L a)) else (\<exists>e. y = Inl e))"
proof -
  let ?J = "libs env"
  note g = dir_relD [OF ok(2) a(1)]
  let ?s = "getOwnerScript (redis env) (owner_key p a) (epoch_key p a)"
  let ?vs = "[RStr (or_default (r_GET (redis env) (store c) (epoch_key p a)) ''0''), RStr (or_default (r_GET (redis env) (store c) (owner_key p a)) [])]"
  obtain c' y where c': "run_script ?s c = (c', y)" "store c' = store c" "if answered c then y = Inr ?vs else \<exists>e. y = Inl e"
    using run_script_cases [of ?s c "store c" "Inr ?vs"] by (auto simp: getOwnerScript_def Let_def)
  show ?thesis
  proof (cases "owner_of L a")
    case None
    then show ?thesis using c' g(1) by (cases "answered c") (auto simp: getOwnerFromRedis_def or_default_def Let_def)
  next
    case (Some x)
    then have "encodes ?J x (projr (json_of_node ?J x))" "LNodeInfo_Validate x = None"
      using lib_okD [OF ok(1)] g(2) by blast+
    then show ?thesis using Some c' g(1) or_default_epoch [OF ok(1) g(3) a(2)]
      by (cases "answered c") (auto simp: getOwnerFromRedis_def or_default_def [of "Some _"] Let_def encodes_def)
  qed
qed

lemma deleteOwnerFromRedis_refines:
  assumes ok: "redis_ok (redis env)" "lib_ok (libs env) N" "keys_apart p A" "dir_rel (redis env) (libs env) p A N (store c) L"
    and a: "a \<in> A" "n \<in> N" "epoch_of L a < 2 ^ 53" and spec: "lease_delete a n L = (L', b)"
  shows "\<exists>c' y. deleteOwnerFromRedis env p a n c = (c', y)
    \<and> dir_rel (redis env) (libs env) p A N (store c') (if executed c then L' else L)
    \<and> (if answered c then y = Inr (b, of_nat (epoch_of L' a)) else (\<exists>e. y = Inl e))"
proof -
  let ?J = "libs env"
  let ?s = "deleteOwnerScript (redis env) ?J (owner_key p a) (epoch_key p a) (projr (json_of_node ?J n))"
  obtain r' v where s: "?s (store c) = (r', Inr [RInt (if b then 1 else 0), v])"
    "redisResultUint64 ?J v = Inr (of_nat (epoch_of L' a))" "dir_rel (redis env) ?J p A N r' L'"
    using deleteOwnerScript_refines [OF ok a spec] by blast
  obtain c' y where c': "run_script ?s c = (c', y)" "store c' = (if executed c then r' else store c)"
    "if answered c then y = Inr [RInt (if b then 1 else 0), v] else \<exists>e. y = Inl e"
    using run_script_cases [where script = ?s and c = c, OF s(1)] by blast
  have "redisResultBool ?J (RInt (if b then 1 else 0)) = Inr b"
    by (simp add: redisResultBool_def redisResultUint64_def)
  then show ?thesis
    using c' s(2,3) ok(4) encoded [OF ok(2) a(2)]
    by (cases "answered c") (auto simp: deleteOwnerFromRedis_def Let_def)
qed

text \<open>
  C8: Every function of \<^verbatim>\<open>storage.go\<close> is one operation on the table of owners: acquiring gives the
  actor to the candidate with a new epoch unless a node of another name holds it, in which case that
  node is reported; renewing and deleting succeed exactly for the instance that holds the actor, and
  deleting raises the epoch; reading changes nothing. A call whose answer is lost has taken effect or
  not, and reports an error.
\<close>

theorem redis_directory_refines:
  assumes "redis_ok (redis env)" "lib_ok (libs env) N" "keys_apart p A" "dir_rel (redis env) (libs env) p A N (store c) L"
    and "a \<in> A" "n \<in> N" "epoch_of L a < 2 ^ 53"
  shows "(\<exists>c' y. acquireOwnerFromRedis env p a n lease c = (c', y) \<and> (case lease_acquire a n L of (L', x, b) \<Rightarrow>
        dir_rel (redis env) (libs env) p A N (store c') (if executed c then L' else L)
        \<and> (if answered c then y = Inr (\<lparr>Node = x, Epoch = of_nat (epoch_of L' a)\<rparr>, b) else (\<exists>e. y = Inl e))))
    \<and> (\<exists>c' y. renewOwnerFromRedis env p a n lease c = (c', y) \<and> dir_rel (redis env) (libs env) p A N (store c') L
        \<and> (if answered c then y = Inr (lease_held a n L) else (\<exists>e. y = Inl e)))
    \<and> (\<exists>c' y. getOwnerFromRedis env p a c = (c', y) \<and> store c' = store c
        \<and> (if answered c then y = Inr (map_option (\<lambda>x. \<lparr>Node = x, Epoch = of_nat (epoch_of L a)\<rparr>) (owner_of L a)) else (\<exists>e. y = Inl e)))
    \<and> (\<exists>c' y. deleteOwnerFromRedis env p a n c = (c', y) \<and> (case lease_delete a n L of (L', b) \<Rightarrow>
        dir_rel (redis env) (libs env) p A N (store c') (if executed c then L' else L)
        \<and> (if answered c then y = Inr (b, of_nat (epoch_of L' a)) else (\<exists>e. y = Inl e))))"
proof (intro conjI)
  obtain L1 x b where "lease_acquire a n L = (L1, x, b)" by (cases "lease_acquire a n L")
  then show "\<exists>c' y. acquireOwnerFromRedis env p a n lease c = (c', y) \<and> (case lease_acquire a n L of (L', x, b) \<Rightarrow>
        dir_rel (redis env) (libs env) p A N (store c') (if executed c then L' else L)
        \<and> (if answered c then y = Inr (\<lparr>Node = x, Epoch = of_nat (epoch_of L' a)\<rparr>, b) else (\<exists>e. y = Inl e)))"
    using acquireOwnerFromRedis_refines [OF assms] by simp
  obtain L2 b' where "lease_delete a n L = (L2, b')" by (cases "lease_delete a n L")
  then show "\<exists>c' y. deleteOwnerFromRedis env p a n c = (c', y) \<and> (case lease_delete a n L of (L', b) \<Rightarrow>
        dir_rel (redis env) (libs env) p A N (store c') (if executed c then L' else L)
        \<and> (if answered c then y = Inr (b, of_nat (epoch_of L' a)) else (\<exists>e. y = Inl e)))"
    using deleteOwnerFromRedis_refines [OF assms] by simp
qed (use renewOwnerFromRedis_refines [OF assms(1,2,4-6)] getOwnerFromRedis_refines [OF assms(2,4,5,7)] in blast)+

end
