(* ===== verification/DirectoryContract.thy ===== *)
theory DirectoryContract
  imports OwnerLease
begin

text \<open>
  The contract of the interface \<^verbatim>\<open>OwnerDirectory\<close> as a locale over the table of owners, and its
  interpretation by the Redis directory with its caches. \<open>D i\<close> is the directory as node \<open>i\<close> uses it.
\<close>

definition agree :: "LActorID set \<Rightarrow> lease_table \<Rightarrow> lease_table \<Rightarrow> bool" where
  "agree A L M \<longleftrightarrow> (\<forall>a \<in> A. owner_of L a = owner_of M a \<and> epoch_of L a = epoch_of M a)"

lemma agree_refl [simp]: "agree A L L"
  by (simp add: agree_def)

lemma agreeD: "agree A L M \<Longrightarrow> a \<in> A \<Longrightarrow> owner_of L a = owner_of M a" "agree A L M \<Longrightarrow> a \<in> A \<Longrightarrow> epoch_of L a = epoch_of M a"
  by (simp_all add: agree_def)

locale owner_directory =
  fixes D :: "nat \<Rightarrow> 'd OwnerDirectory" and inv :: "'d \<Rightarrow> bool" and tab :: "'d \<Rightarrow> lease_table"
    and A :: "LActorID set" and N :: "LNodeInfo set"
  assumes get: "inv d \<Longrightarrow> a \<in> A \<Longrightarrow> epoch_of (tab d) a < 2 ^ 53 \<Longrightarrow> GetOwner (D i) a d = (d', y) \<Longrightarrow>
      inv d' \<and> agree A (tab d') (tab d) \<and> (\<forall>x. y = Inr (Some x) \<longrightarrow> x \<in> N) \<and> (y = Inr None \<longrightarrow> owner_of (tab d) a = None)"
    and acquire: "inv d \<Longrightarrow> a \<in> A \<Longrightarrow> n \<in> N \<Longrightarrow> epoch_of (tab d) a < 2 ^ 53 \<Longrightarrow> AcquireOwner (D i) a n d = (d', ya) \<Longrightarrow>
      inv d' \<and> (\<exists>effect. agree A (tab d') (if effect then fst (lease_acquire a n (tab d)) else tab d)
        \<and> (\<forall>x b. ya = Inr (x, b) \<longrightarrow> effect \<and> snd (lease_acquire a n (tab d)) = (x, b)))"
    and renew: "inv d \<Longrightarrow> a \<in> A \<Longrightarrow> n \<in> N \<Longrightarrow> RenewOwner (D i) a n d = (d', yr) \<Longrightarrow>
      inv d' \<and> agree A (tab d') (tab d) \<and> (\<forall>b. yr = Inr b \<longrightarrow> b = lease_held a n (tab d))"
    and delete: "inv d \<Longrightarrow> a \<in> A \<Longrightarrow> n \<in> N \<Longrightarrow> epoch_of (tab d) a < 2 ^ 53 \<Longrightarrow> DeleteOwner (D i) a n d = (d', yr) \<Longrightarrow>
      inv d' \<and> (\<exists>effect. agree A (tab d') (if effect then fst (lease_delete a n (tab d)) else tab d)
        \<and> (\<forall>b. yr = Inr b \<longrightarrow> effect \<and> snd (lease_delete a n (tab d)) = b))"
    and owners: "inv d \<Longrightarrow> a \<in> A \<Longrightarrow> owner_of (tab d) a = Some x \<Longrightarrow> x \<in> N"
    and valid: "inv d \<Longrightarrow> a \<in> A \<Longrightarrow> ActorID_Validate a = None" "inv d \<Longrightarrow> n \<in> N \<Longrightarrow> LNodeInfo_Validate n = None"

subsection \<open>The cache\<close>

text \<open>
  What is relied on of the LRU cache with expiry: with respect to the entries \<open>V\<close> it holds, a lookup
  returns an entry or nothing, adding and removing do so, and anything may be dropped at any time.
\<close>

definition lru_ok :: "'c lru \<Rightarrow> ('c \<Rightarrow> string \<Rightarrow> Owner option) \<Rightarrow> bool" where
  "lru_ok C V \<longleftrightarrow>
     (\<forall>c k. V (fst (lru_Get C c k)) \<subseteq>\<^sub>m V c \<and> (\<forall>x. snd (lru_Get C c k) = Some x \<longrightarrow> V c k = Some x))
     \<and> (\<forall>c k x. V (lru_Add C c k x) \<subseteq>\<^sub>m (V c)(k \<mapsto> x))
     \<and> (\<forall>c k. V (lru_Remove C c k) \<subseteq>\<^sub>m (V c)(k := None))
     \<and> (\<forall>c. V (lru_Purge C c) = Map.empty)"

text \<open>A property of keys and entries that all entries of a cache have is kept by every cache operation.\<close>

definition cached_all :: "('c \<Rightarrow> string \<Rightarrow> Owner option) \<Rightarrow> (string \<Rightarrow> Owner \<Rightarrow> bool) \<Rightarrow> 'c RedisOwnerDirectory \<Rightarrow> bool" where
  "cached_all V P m \<longleftrightarrow> (\<forall>k x. V (cache m) k = Some x \<longrightarrow> P k x)"

lemma map_le_Some: "f \<subseteq>\<^sub>m g \<Longrightarrow> f k = Some x \<Longrightarrow> g k = Some x"
  by (metis domI map_le_def)

lemma lru_okD:
  assumes "lru_ok C V"
  shows "V (fst (lru_Get C c k)) l = Some x \<Longrightarrow> V c l = Some x"
    and "snd (lru_Get C c k) = Some x \<Longrightarrow> V c k = Some x"
    and "V (lru_Add C c k y) l = Some x \<Longrightarrow> (if l = k then x = y else V c l = Some x)"
    and "V (lru_Remove C c k) l = Some x \<Longrightarrow> l \<noteq> k \<and> V c l = Some x"
    and "V (lru_Purge C c) l = None"
proof -
  show "V (fst (lru_Get C c k)) l = Some x \<Longrightarrow> V c l = Some x" using assms map_le_Some unfolding lru_ok_def by metis
  show "snd (lru_Get C c k) = Some x \<Longrightarrow> V c k = Some x" using assms unfolding lru_ok_def by blast
  have "V (lru_Add C c k y) \<subseteq>\<^sub>m (V c)(k \<mapsto> y)" using assms unfolding lru_ok_def by blast
  from map_le_Some [OF this, of l x] show "V (lru_Add C c k y) l = Some x \<Longrightarrow> (if l = k then x = y else V c l = Some x)"
    by (auto split: if_splits)
  have "V (lru_Remove C c k) \<subseteq>\<^sub>m (V c)(k := None)" using assms unfolding lru_ok_def by blast
  from map_le_Some [OF this, of l x] show "V (lru_Remove C c k) l = Some x \<Longrightarrow> l \<noteq> k \<and> V c l = Some x"
    by (auto split: if_splits)
  show "V (lru_Purge C c) l = None" using assms unfolding lru_ok_def by simp
qed

lemma cached_all_ops:
  assumes "lru_ok C V" "cached_all V P m"
  shows "cached_all V P (tryDelCached C k e m)" "cached_all V P (fst (getCached C k m))"
    "P k x \<Longrightarrow> cached_all V P (trySetCached C k x m)" "cached_all V P (refreshCached C k n m)"
    "snd (getCached C k m) = Some y \<Longrightarrow> P k y"
proof -
  obtain c1 f where g: "lru_Get C (cache m) k = (c1, f)" by (cases "lru_Get C (cache m) k")
  have c1: "V c1 l = Some z \<Longrightarrow> P l z" for l z
    using lru_okD(1) [OF assms(1), of "cache m" k l z] g assms(2) by (auto simp: cached_all_def)
  have f: "f = Some z \<Longrightarrow> P k z" for z
    using lru_okD(2) [OF assms(1), of "cache m" k z] g assms(2) by (auto simp: cached_all_def)
  have add: "P k z \<Longrightarrow> V (lru_Add C c1 k z) l = Some w \<Longrightarrow> P l w" for l z w
    using lru_okD(3) [OF assms(1), of c1 k z l w] c1 [of l w] by (auto split: if_splits)
  have rem: "V (lru_Remove C c1 k) l = Some w \<Longrightarrow> P l w" for l w
    using lru_okD(4) [OF assms(1), of c1 k l w] c1 [of l w] by auto
  show "cached_all V P (tryDelCached C k e m)"
    using g c1 rem by (auto simp: tryDelCached_def cached_all_def split: option.splits)
  show "cached_all V P (fst (getCached C k m))" using g c1 by (simp add: getCached_def cached_all_def)
  show "P k x \<Longrightarrow> cached_all V P (trySetCached C k x m)"
    using g c1 add by (auto simp: trySetCached_def cached_all_def split: option.splits)
  show "cached_all V P (refreshCached C k n m)"
    using g c1 add f by (auto simp: refreshCached_def cached_all_def split: option.splits)
  show "snd (getCached C k m) = Some y \<Longrightarrow> P k y" using g f by (simp add: getCached_def)
qed

lemma cache_prefix [simp]:
  "dir_prefix (tryDelCached C k e m) = dir_prefix m" "dir_prefix (fst (getCached C k m)) = dir_prefix m"
  "dir_prefix (trySetCached C k x m) = dir_prefix m" "dir_prefix (refreshCached C k n m) = dir_prefix m"
  "dir_prefix (handleOwnerEvent env msg m) = dir_prefix m"
  by (auto simp: tryDelCached_def getCached_def trySetCached_def refreshCached_def handleOwnerEvent_def split: prod.splits option.splits sum.splits)

subsection \<open>The Redis directory fulfils the contract\<close>

definition table_of :: "('r, 'c) dir_env \<Rightarrow> string \<Rightarrow> 'r \<Rightarrow> lease_table" where
  "table_of env p r =
     \<lparr>owner_of = (\<lambda>a. case r_GET (redis env) r (owner_key p a) of
                       None \<Rightarrow> None
                     | Some s \<Rightarrow> (case node_of_json (libs env) s of Inr n \<Rightarrow> Some n | Inl _ \<Rightarrow> None)),
      epoch_of = (\<lambda>a. case r_GET (redis env) r (epoch_key p a) of None \<Rightarrow> 0 | Some s \<Rightarrow> read_nat s)\<rparr>"

definition dir_tab :: "('r, 'c) dir_env \<Rightarrow> string \<Rightarrow> ('r, 'c) directory \<Rightarrow> lease_table" where
  "dir_tab env p d = table_of env p (store (client d))"

definition env_ok :: "('r, 'c) dir_env \<Rightarrow> ('c \<Rightarrow> string \<Rightarrow> Owner option) \<Rightarrow> string \<Rightarrow> LActorID set \<Rightarrow> LNodeInfo set \<Rightarrow> bool" where
  "env_ok env V p A N \<longleftrightarrow> redis_ok (redis env) \<and> lib_ok (libs env) N \<and> keys_apart p A \<and> lru_ok (lru env) V"

definition dir_inv :: "('r, 'c) dir_env \<Rightarrow> ('c \<Rightarrow> string \<Rightarrow> Owner option) \<Rightarrow> string \<Rightarrow> LActorID set \<Rightarrow> LNodeInfo set \<Rightarrow> ('r, 'c) directory \<Rightarrow> bool" where
  "dir_inv env V p A N d \<longleftrightarrow> env_ok env V p A N
     \<and> (\<forall>i. dir_prefix (dirs d i) = p \<and> cached_all V (\<lambda>_ x. Node x \<in> N) (dirs d i))
     \<and> dir_rel (redis env) (libs env) p A N (store (client d)) (dir_tab env p d)"

lemma table_of_agree:
  assumes "lib_ok (libs env) N" "dir_rel (redis env) (libs env) p A N r L"
  shows "agree A (table_of env p r) L"
  unfolding agree_def
proof
  fix a assume a: "a \<in> A"
  note g = dir_relD [OF assms(2) a]
  have "node_of_json (libs env) (projr (json_of_node (libs env) n)) = Inr n" if "owner_of L a = Some n" for n
    using lib_okD(2) [OF assms(1) g(2) [OF that]] by (simp add: encodes_def)
  then show "owner_of (table_of env p r) a = owner_of L a \<and> epoch_of (table_of env p r) a = epoch_of L a"
    using g(1,3) by (auto simp: table_of_def split: option.splits)
qed

lemma dir_rel_agree: "agree A L M \<Longrightarrow> dir_rel R J p A N r L \<Longrightarrow> dir_rel R J p A N r M"
  by (simp add: dir_rel_def agree_def)

lemma agree_sym: "agree A L M \<Longrightarrow> agree A M L"
  by (simp add: agree_def)

lemma dir_invI:
  assumes "env_ok env V p A N" "dir_rel (redis env) (libs env) p A N (store (client d)) L"
    and "\<And>i. dir_prefix (dirs d i) = p" "\<And>i. cached_all V (\<lambda>_ x. Node x \<in> N) (dirs d i)"
  shows "dir_inv env V p A N d \<and> agree A (dir_tab env p d) L"
proof -
  have "agree A (dir_tab env p d) L"
    unfolding dir_tab_def by (rule table_of_agree) (use assms(1,2) in \<open>simp_all add: env_ok_def\<close>)
  then show ?thesis using assms dir_rel_agree [OF agree_sym] by (auto simp: dir_inv_def)
qed

lemma store_notify [simp]: "store (notifyOwnerUpdate env ch a e c) = store c"
  by (auto simp: notifyOwnerUpdate_def split: sum.splits prod.splits)

lemma upd_dir_simps [simp]: "client (upd_dir i f d) = client d" "dirs (upd_dir i f d) j = (if j = i then f (dirs d i) else dirs d j)"
  by (simp_all add: upd_dir_def)

lemma lease_acquire_owner: "lease_acquire a n L = (L', x, b) \<Longrightarrow> x = n \<or> owner_of L a = Some x"
  by (auto simp: lease_acquire_def split: option.splits if_splits)

lemma inv_parts:
  assumes inv: "dir_inv env V p A N d" and a: "a \<in> A"
  shows "redis_ok (redis env)" "lib_ok (libs env) N" "keys_apart p A" "lru_ok (lru env) V" "env_ok env V p A N"
  "dir_prefix (dirs d i) = p" "cached_all V (\<lambda>_ x. Node x \<in> N) (dirs d i)"
  "dir_rel (redis env) (libs env) p A N (store (client d)) (dir_tab env p d)" "ActorID_Validate a = None"
  "n \<in> N \<Longrightarrow> LNodeInfo_Validate n = None" "owner_of (dir_tab env p d) a = Some n \<Longrightarrow> n \<in> N"
  using assms by (auto simp: dir_inv_def env_ok_def keys_apart_def lib_ok_def dir_rel_def)

lemma redis_acquire_contract:
  assumes inv: "dir_inv env V p A N d" and a: "a \<in> A"
    and n: "n \<in> N" and room: "epoch_of (dir_tab env p d) a < 2 ^ 53" and r: "redis_AcquireOwner env i a n d = (d', y)"
  shows "dir_inv env V p A N d' \<and> (\<exists>effect. agree A (dir_tab env p d') (if effect then fst (lease_acquire a n (dir_tab env p d)) else dir_tab env p d)
        \<and> (\<forall>x b. y = Inr (x, b) \<longrightarrow> effect \<and> snd (lease_acquire a n (dir_tab env p d)) = (x, b)))"
proof -
  note parts = inv_parts [OF inv a]
  obtain L' x b where spec: "lease_acquire a n (dir_tab env p d) = (L', x, b)" by (cases "lease_acquire a n (dir_tab env p d)")
  obtain c' z where c': "acquireOwnerFromRedis env p a n (leaseTTL (dirs d i)) (client d) = (c', z)"
    "dir_rel (redis env) (libs env) p A N (store c') (if executed (client d) then L' else dir_tab env p d)"
    "if answered (client d) then z = Inr (\<lparr>Node = x, Epoch = of_nat (epoch_of L' a)\<rparr>, b) else \<exists>e. z = Inl e"
    using acquireOwnerFromRedis_refines [OF parts(1-3,8) a n room spec] by blast
  have x: "x \<in> N" using lease_acquire_owner [OF spec] n parts(11) by blast
  have res: "(\<exists>e. y = Inl e) \<or> executed (client d) \<and> y = Inr (x, b)" and d': "store (client d') = store c'"
    "\<And>j. dir_prefix (dirs d' j) = p" "\<And>j. cached_all V (\<lambda>_ x. Node x \<in> N) (dirs d' j)"
    using r c'(1,3) parts(6,7,9) parts(10) [OF n] x answered_executed cached_all_ops(3) [OF parts(4,7)]
    by (auto simp: redis_AcquireOwner_def Let_def split: if_splits)
  have "dir_inv env V p A N d' \<and> agree A (dir_tab env p d') (if executed (client d) then L' else dir_tab env p d)"
    using dir_invI [OF parts(5), of d'] c'(2) d' by simp
  then show ?thesis using res spec by (intro conjI exI [of _ "executed (client d)"]) auto
qed

lemma redis_delete_contract:
  assumes inv: "dir_inv env V p A N d" and a: "a \<in> A"
    and n: "n \<in> N" and room: "epoch_of (dir_tab env p d) a < 2 ^ 53" and r: "redis_DeleteOwner env i a n d = (d', y)"
  shows "dir_inv env V p A N d' \<and> (\<exists>effect. agree A (dir_tab env p d') (if effect then fst (lease_delete a n (dir_tab env p d)) else dir_tab env p d)
        \<and> (\<forall>b. y = Inr b \<longrightarrow> effect \<and> snd (lease_delete a n (dir_tab env p d)) = b))"
proof -
  note parts = inv_parts [OF inv a]
  obtain L' b where spec: "lease_delete a n (dir_tab env p d) = (L', b)" by (cases "lease_delete a n (dir_tab env p d)")
  obtain c' z where c': "deleteOwnerFromRedis env p a n (client d) = (c', z)"
    "dir_rel (redis env) (libs env) p A N (store c') (if executed (client d) then L' else dir_tab env p d)"
    "if answered (client d) then z = Inr (b, of_nat (epoch_of L' a)) else \<exists>e. z = Inl e"
    using deleteOwnerFromRedis_refines [OF parts(1-3,8) a n room spec] by blast
  have res: "(\<exists>e. y = Inl e) \<or> executed (client d) \<and> y = Inr b" and d': "store (client d') = store c'"
    "\<And>j. dir_prefix (dirs d' j) = p" "\<And>j. cached_all V (\<lambda>_ x. Node x \<in> N) (dirs d' j)"
    using r c'(1,3) parts(6,7,9) parts(10) [OF n] answered_executed cached_all_ops(1) [OF parts(4,7)]
    by (auto simp: redis_DeleteOwner_def Let_def split: if_splits)
  have "dir_inv env V p A N d' \<and> agree A (dir_tab env p d') (if executed (client d) then L' else dir_tab env p d)"
    using dir_invI [OF parts(5), of d'] c'(2) d' by simp
  then show ?thesis using res spec by (intro conjI exI [of _ "executed (client d)"]) auto
qed

lemma redis_renew_contract:
  assumes inv: "dir_inv env V p A N d" and a: "a \<in> A"
    and n: "n \<in> N" and r: "redis_RenewOwner env i a n d = (d', y)"
  shows "dir_inv env V p A N d' \<and> agree A (dir_tab env p d') (dir_tab env p d) \<and> (\<forall>b. y = Inr b \<longrightarrow> b = lease_held a n (dir_tab env p d))"
proof -
  note parts = inv_parts [OF inv a]
  obtain c' z where c': "renewOwnerFromRedis env p a n (leaseTTL (dirs d i)) (client d) = (c', z)"
    "dir_rel (redis env) (libs env) p A N (store c') (dir_tab env p d)"
    "if answered (client d) then z = Inr (lease_held a n (dir_tab env p d)) else \<exists>e. z = Inl e"
    using renewOwnerFromRedis_refines [OF parts(1,2,8) a n] by blast
  have res: "(\<exists>e. y = Inl e) \<or> y = Inr (lease_held a n (dir_tab env p d))" and d': "store (client d') = store c'"
    "\<And>j. dir_prefix (dirs d' j) = p" "\<And>j. cached_all V (\<lambda>_ x. Node x \<in> N) (dirs d' j)"
    using r c'(1,3) parts(6,7,9) parts(10) [OF n] cached_all_ops(4) [OF parts(4,7)]
    by (auto simp: redis_RenewOwner_def Let_def split: if_splits)
  then show ?thesis using dir_invI [OF parts(5), of d'] c'(2) d' by auto
qed

lemma redis_get_contract:
  assumes inv: "dir_inv env V p A N d" and a: "a \<in> A"
    and room: "epoch_of (dir_tab env p d) a < 2 ^ 53" and r: "redis_GetOwner env i a d = (d', y)"
  shows "dir_inv env V p A N d' \<and> agree A (dir_tab env p d') (dir_tab env p d) \<and> (\<forall>x. y = Inr (Some x) \<longrightarrow> x \<in> N)
    \<and> (y = Inr None \<longrightarrow> owner_of (dir_tab env p d) a = None)"
proof -
  note parts = inv_parts [OF inv a]
  obtain m1 f where g: "getCached (lru env) (ActorID_String a) (dirs d i) = (m1, f)" by (cases "getCached (lru env) (ActorID_String a) (dirs d i)")
  note ops = cached_all_ops [OF parts(4) parts(7) [of i]]
  have m1: "dir_prefix m1 = p" "cached_all V (\<lambda>_ x. Node x \<in> N) m1" "\<And>x. f = Some x \<Longrightarrow> Node x \<in> N"
    using ops(2) [of "ActorID_String a"] ops(5) [of "ActorID_String a"] g parts(6) [of i] cache_prefix(2) [of "lru env" "ActorID_String a" "dirs d i"]
    by auto
  obtain c' z where c': "getOwnerFromRedis env p a (client d) = (c', z)" "store c' = store (client d)"
    "if answered (client d) then z = Inr (map_option (\<lambda>x. \<lparr>Node = x, Epoch = of_nat (epoch_of (dir_tab env p d) a)\<rparr>) (owner_of (dir_tab env p d) a))
     else \<exists>e. z = Inl e"
    using getOwnerFromRedis_refines [OF parts(2,8) a room] by blast
  have res: "(\<forall>x. y = Inr (Some x) \<longrightarrow> x \<in> N) \<and> (y = Inr None \<longrightarrow> owner_of (dir_tab env p d) a = None)" and d': "store (client d') = store (client d)"
    "\<And>j. dir_prefix (dirs d' j) = p" "\<And>j. cached_all V (\<lambda>_ x. Node x \<in> N) (dirs d' j)"
    using r g m1 c' parts(6,7,9,11) cached_all_ops(3) [OF parts(4) m1(2)]
    by (auto simp: redis_GetOwner_def Let_def split: if_splits option.splits)
  then show ?thesis using dir_invI [OF parts(5), of d' "dir_tab env p d"] parts(8) by auto
qed

interpretation rd: owner_directory "redis_directory env" "dir_inv env V p A N" "dir_tab env p" A N for env V p A N
proof (unfold_locales, goal_cases)
  case (1 d a i d' y) then show ?case using redis_get_contract [of env V p A N d a i d' y] by (simp add: redis_directory_def)
next
  case (2 d a n i d' y) then show ?case using redis_acquire_contract [of env V p A N d a n i d' y] by (simp add: redis_directory_def)
next
  case (3 d a n i d' y) then show ?case using redis_renew_contract [of env V p A N d a n i d' y] by (simp add: redis_directory_def)
next
  case (4 d a n i d' y) then show ?case using redis_delete_contract [of env V p A N d a n i d' y] by (simp add: redis_directory_def)
next
  case 5 then show ?case by (rule inv_parts(11))
next
  case 6 then show ?case by (rule inv_parts(9))
next
  case 7 then show ?case by (simp add: dir_inv_def env_ok_def lib_ok_def)
qed

end
