(* ===== verification/ProtoCodec.thy ===== *)
theory ProtoCodec
  imports GoErrors
begin

text \<open>
  \<^verbatim>\<open>pkg/serialize/protocodec/codec.go\<close>: marshalling of protobuf messages with their type name. The
  protobuf runtime is a parameter (\<open>proto_lib\<close>): which Go values are messages, whether a message
  is a valid non-nil one, its full name, the encoder, the registry of linked types and the decoder
  of a type. A Go value of type \<^verbatim>\<open>any\<close> that is nil or of a type that the model does not carry as a
  message candidate is \<open>None\<close>.
\<close>

record 'm proto_lib =
  is_message :: "'m \<Rightarrow> bool"
  is_valid :: "'m \<Rightarrow> bool"
  full_name :: "'m \<Rightarrow> string"
  name_valid :: "string \<Rightarrow> bool"
  proto_Marshal :: "'m \<Rightarrow> bytes result"
  linked :: "string \<Rightarrow> bool"
  proto_Unmarshal :: "string \<Rightarrow> bytes \<Rightarrow> 'm result"
  type_text :: "'m \<Rightarrow> string"

definition ErrMessageType :: go_error where "ErrMessageType = Plain ''protobuf message not available''"
definition ErrMessageNil :: go_error where "ErrMessageNil = Plain ''protobuf message is nil''"
definition ErrMessageNameInvalid :: go_error where "ErrMessageNameInvalid = Plain ''protobuf message name is invalid''"
definition ErrMessageTypeNotFound :: go_error where "ErrMessageTypeNotFound = Plain ''protobuf message type is not linked''"

definition Marshal :: "'m proto_lib \<Rightarrow> 'm option \<Rightarrow> bytes result" where
  "Marshal lib v =
     (case v of
        None \<Rightarrow> Inl ErrMessageNil
      | Some m \<Rightarrow>
          if \<not> is_message lib m then Inl (Wrap [] ErrMessageType ('': '' @ type_text lib m))
          else if \<not> is_valid lib m then Inl (Wrap [] ErrMessageNil '': protobuf value is nil or invalid'')
          else (case proto_Marshal lib m of
                  Inl e \<Rightarrow> Inl (Wrap (''marshal protobuf '' @ type_text lib m @ '': '') e [])
                | Inr data \<Rightarrow> Inr data))"

text \<open>\<^verbatim>\<open>Unmarshal\<close> into a new message of the type \<open>name\<close>, whose \<^verbatim>\<open>%T\<close> is \<open>text\<close>.\<close>

definition Unmarshal :: "'m proto_lib \<Rightarrow> string \<Rightarrow> string \<Rightarrow> bytes \<Rightarrow> 'm result" where
  "Unmarshal lib name txt data =
     (case proto_Unmarshal lib name data of
        Inl e \<Rightarrow> Inl (Wrap (''unmarshal protobuf '' @ txt @ '': '') e [])
      | Inr m \<Rightarrow> Inr m)"

text \<open>The failed type assertion leaves a nil message, whose \<^verbatim>\<open>%T\<close> is \<^verbatim>\<open><nil>\<close>.\<close>

definition MarshalWithName :: "'m proto_lib \<Rightarrow> 'm option \<Rightarrow> (string \<times> bytes) result" where
  "MarshalWithName lib v =
     (case v of
        None \<Rightarrow> Inl (Wrap [] ErrMessageType '': <nil>'')
      | Some m \<Rightarrow>
          if \<not> is_message lib m then Inl (Wrap [] ErrMessageType '': <nil>'')
          else if \<not> is_valid lib m then Inl ErrMessageNil
          else if \<not> name_valid lib (full_name lib m)
          then Inl (Wrap [] ErrMessageNameInvalid ('': '' @ quoted (full_name lib m)))
          else (case proto_Marshal lib m of
                  Inl e \<Rightarrow> Inl (Wrap (''marshal protobuf '' @ full_name lib m @ '': '') e [])
                | Inr payload \<Rightarrow> Inr (full_name lib m, payload)))"

definition UnmarshalWithName :: "'m proto_lib \<Rightarrow> string \<Rightarrow> bytes \<Rightarrow> 'm result" where
  "UnmarshalWithName lib messageName payload =
     (if \<not> name_valid lib messageName then Inl (Wrap [] ErrMessageNameInvalid ('': '' @ quoted messageName))
      else if \<not> linked lib messageName then Inl (Wrap [] ErrMessageTypeNotFound ('': '' @ messageName))
      else (case proto_Unmarshal lib messageName payload of
              Inl e \<Rightarrow> Inl (Wrap (''unmarshal protobuf '' @ messageName @ '': '') e [])
            | Inr message \<Rightarrow> Inr message))"

text \<open>A \<^verbatim>\<open>google.protobuf.Any\<close>: the name of the type and the encoded message.\<close>

type_synonym Any = "string \<times> bytes"

definition MessageToAny :: "'m proto_lib \<Rightarrow> 'm option \<Rightarrow> Any result" where
  "MessageToAny lib message =
     (case message of
        None \<Rightarrow> Inl ErrMessageNil
      | Some m \<Rightarrow>
          if \<not> is_valid lib m then Inl ErrMessageNil
          else rbind (proto_Marshal lib m) (\<lambda>payload. Inr (full_name lib m, payload)))"

text \<open>\<^verbatim>\<open>Any.UnmarshalNew\<close>\<close>

definition UnmarshalNew :: "'m proto_lib \<Rightarrow> Any \<Rightarrow> 'm result" where
  "UnmarshalNew lib a = proto_Unmarshal lib (fst a) (snd a)"

text \<open>
  What the program relies on: the decoder of a message's type inverts the encoder, and the type of a
  message that is sent is linked on the receiving side.
\<close>

definition proto_roundtrip :: "'m proto_lib \<Rightarrow> bool" where
  "proto_roundtrip lib \<longleftrightarrow> (\<forall>m data. is_message lib m \<and> is_valid lib m \<and> proto_Marshal lib m = Inr data \<longrightarrow>
     proto_Unmarshal lib (full_name lib m) data = Inr m)"

definition all_linked :: "'m proto_lib \<Rightarrow> bool" where
  "all_linked lib \<longleftrightarrow> (\<forall>m. is_message lib m \<longrightarrow> linked lib (full_name lib m))"

lemma MarshalWithName_Inr:
  "MarshalWithName lib v = Inr (name, data) \<longleftrightarrow>
     (\<exists>m. v = Some m \<and> is_message lib m \<and> is_valid lib m \<and> name_valid lib name \<and> name = full_name lib m \<and> proto_Marshal lib m = Inr data)"
  by (auto simp: MarshalWithName_def split: option.splits sum.splits if_splits)

lemma Unmarshal_MarshalWithName:
  "proto_roundtrip lib \<Longrightarrow> all_linked lib \<Longrightarrow> MarshalWithName lib v = Inr (name, data) \<Longrightarrow>
   \<exists>m. v = Some m \<and> UnmarshalWithName lib name data = Inr m"
  by (auto simp: MarshalWithName_Inr UnmarshalWithName_def proto_roundtrip_def all_linked_def)

lemma Unmarshal_Marshal:
  "proto_roundtrip lib \<Longrightarrow> Marshal lib (Some m) = Inr data \<Longrightarrow> Unmarshal lib (full_name lib m) txt data = Inr m"
  by (auto simp: Marshal_def Unmarshal_def proto_roundtrip_def split: if_splits sum.splits)

end
