(* ===== verification/RequestManager.thy ===== *)
theory RequestManager
  imports GoErrors "HOL-Library.AList" "HOL-Library.Multiset"
begin

text \<open>
  \<^verbatim>\<open>actor/request_manager.go\<close>: the table of asks that wait for an answer. A completion callback
  is a value of a type parameter; an operation that calls callbacks returns them with their
  arguments, and the caller runs them. The table is an association list with distinct keys; the order
  in which Go iterates over it in \<^verbatim>\<open>stop\<close> is a parameter (\<open>iter\<close>). The mutex makes each operation
  one step. A timer that fires calls \<^verbatim>\<open>complete\<close> with \<^verbatim>\<open>ErrAskTimeout\<close>.
\<close>

type_synonym request_id = "64 word"

definition defaultMaxPendingRequests :: int where "defaultMaxPendingRequests = 65536"

record 'c pendingRequest =
  targetNodeId :: string
  complete_cb :: 'c
  req_timer :: "int option"

record RequestRef =
  ref_NodeID :: string
  ref_RequestID :: request_id

record 'c requestManager =
  nextRequestId :: request_id
  pending :: "(request_id \<times> 'c pendingRequest) list"
  rm_max :: int
  rm_closed :: bool

text \<open>\<open>seed\<close> is what \<^verbatim>\<open>rand.Read\<close> or the clock gave.\<close>

definition newRequestManager :: "request_id \<Rightarrow> int \<Rightarrow> 'c requestManager" where
  "newRequestManager seed maxPending =
     \<lparr>nextRequestId = seed, pending = [],
      rm_max = (if maxPending \<le> 0 then defaultMaxPendingRequests else maxPending), rm_closed = False\<rparr>"

definition limit_error :: "'c requestManager \<Rightarrow> go_error" where
  "limit_error m = Wrap (''count:'' @ show_nat (length (pending m)) @ '' max'' @ show_int (rm_max m) @ '': '') ErrRequestLimit []"

definition rm_add :: "'c requestManager \<Rightarrow> string \<Rightarrow> string \<Rightarrow> int \<Rightarrow> 'c \<Rightarrow> 'c requestManager \<times> RequestRef result" where
  "rm_add m nodeId target timeout cb =
     (if rm_closed m then (m, Inl ErrRequestManagerClosed)
      else if int (length (pending m)) \<ge> rm_max m then (m, Inl (limit_error m))
      else
        (let requestID = nextRequestId m + 1;
             p = \<lparr>targetNodeId = target, complete_cb = cb, req_timer = (if timeout > 0 then Some timeout else None)\<rparr>
         in (m\<lparr>nextRequestId := requestID, pending := AList.update requestID p (pending m)\<rparr>,
             Inr \<lparr>ref_NodeID = nodeId, ref_RequestID = requestID\<rparr>)))"

definition rm_remove :: "'c requestManager \<Rightarrow> request_id \<Rightarrow> 'c requestManager \<times> 'c pendingRequest option" where
  "rm_remove m requestID =
     (m\<lparr>pending := AList.delete requestID (pending m)\<rparr>, map_of (pending m) requestID)"

text \<open>\<open>rm_complete\<close> returns the callback to call, or the error that there is none.\<close>

definition rm_complete :: "'c requestManager \<Rightarrow> request_id \<Rightarrow> 'c requestManager \<times> 'c result" where
  "rm_complete m requestId =
     (case rm_remove m requestId of
        (m, None) \<Rightarrow> (m, Inl (Wrap (''request:'' @ show_nat (unat requestId) @ ''  :'') ErrRequestNotExist []))
      | (m, Some p) \<Rightarrow> (m, Inr (complete_cb p)))"

definition rm_retarget :: "'c requestManager \<Rightarrow> request_id \<Rightarrow> string \<Rightarrow> 'c requestManager" where
  "rm_retarget m requestID target =
     (if target = [] then m
      else (case map_of (pending m) requestID of
              None \<Rightarrow> m
            | Some p \<Rightarrow> m\<lparr>pending := AList.update requestID (p\<lparr>targetNodeId := target\<rparr>) (pending m)\<rparr>))"

definition rm_count :: "'c requestManager \<Rightarrow> nat" where
  "rm_count m = length (pending m)"

type_synonym 'c iter = "(request_id \<times> 'c pendingRequest) list \<Rightarrow> (request_id \<times> 'c pendingRequest) list"

definition rm_stop :: "'c iter \<Rightarrow> 'c requestManager \<Rightarrow> 'c requestManager \<times> (request_id \<times> 'c) list" where
  "rm_stop iter m =
     (if rm_closed m then (m, [])
      else (m\<lparr>rm_closed := True, pending := []\<rparr>, map (\<lambda>(i, p). (i, complete_cb p)) (iter (pending m))))"

subsection \<open>Histories\<close>

text \<open>
  Any sequence of operations, and what becomes of the requests: accepted by \<^verbatim>\<open>add\<close>, called back
  (with the answer), or taken out by \<^verbatim>\<open>remove\<close> because sending failed.
\<close>

datatype ('c, 'v) req_op =
    OpAdd string string int 'c
  | OpComplete request_id "'v option" err
  | OpTimeout request_id
  | OpRemove request_id
  | OpRetarget request_id string
  | OpStop

record ('c, 'v) req_log =
  mgr :: "'c requestManager"
  accepted_reqs :: "(request_id \<times> 'c) list"
  called :: "(request_id \<times> 'c \<times> 'v option \<times> err) list"
  removed :: "(request_id \<times> 'c) list"

definition log_call :: "request_id \<Rightarrow> 'v option \<Rightarrow> err \<Rightarrow> ('c, 'v) req_log \<Rightarrow> ('c, 'v) req_log" where
  "log_call i v e s =
     (case rm_complete (mgr s) i of
        (m, Inl _) \<Rightarrow> s\<lparr>mgr := m\<rparr>
      | (m, Inr cb) \<Rightarrow> s\<lparr>mgr := m, called := called s @ [(i, cb, v, e)]\<rparr>)"

fun req_step :: "'c iter \<Rightarrow> ('c, 'v) req_op \<Rightarrow> ('c, 'v) req_log \<Rightarrow> ('c, 'v) req_log" where
  "req_step iter (OpAdd n t d cb) s =
     (case rm_add (mgr s) n t d cb of
        (m, Inl _) \<Rightarrow> s\<lparr>mgr := m\<rparr>
      | (m, Inr r) \<Rightarrow> s\<lparr>mgr := m, accepted_reqs := accepted_reqs s @ [(ref_RequestID r, cb)]\<rparr>)"
| "req_step iter (OpComplete i v e) s = log_call i v e s"
| "req_step iter (OpTimeout i) s = log_call i None (Some ErrAskTimeout) s"
| "req_step iter (OpRemove i) s =
     (case rm_remove (mgr s) i of
        (m, None) \<Rightarrow> s\<lparr>mgr := m\<rparr>
      | (m, Some p) \<Rightarrow> s\<lparr>mgr := m, removed := removed s @ [(i, complete_cb p)]\<rparr>)"
| "req_step iter (OpRetarget i t) s = s\<lparr>mgr := rm_retarget (mgr s) i t\<rparr>"
| "req_step iter OpStop s =
     (case rm_stop iter (mgr s) of
        (m, cs) \<Rightarrow> s\<lparr>mgr := m, called := called s @ map (\<lambda>(i, cb). (i, cb, None, Some ErrRequestManagerClosed)) cs\<rparr>)"

definition req_init :: "request_id \<Rightarrow> int \<Rightarrow> ('c, 'v) req_log" where
  "req_init seed mx = \<lparr>mgr = newRequestManager seed mx, accepted_reqs = [], called = [], removed = []\<rparr>"

definition req_run :: "'c iter \<Rightarrow> request_id \<Rightarrow> int \<Rightarrow> ('c, 'v) req_op list \<Rightarrow> ('c, 'v) req_log" where
  "req_run iter seed mx ops = foldl (\<lambda>s op. req_step iter op s) (req_init seed mx) ops"

definition is_add :: "('c, 'v) req_op \<Rightarrow> bool" where
  "is_add op \<longleftrightarrow> (\<exists>n t d cb. op = OpAdd n t d cb)"

subsection \<open>Invariant\<close>

definition waiting :: "'c requestManager \<Rightarrow> (request_id \<times> 'c) multiset" where
  "waiting m = image_mset (\<lambda>(i, p). (i, complete_cb p)) (mset (pending m))"

definition called_reqs :: "('c, 'v) req_log \<Rightarrow> (request_id \<times> 'c) list" where
  "called_reqs s = map (\<lambda>(i, cb, _, _). (i, cb)) (called s)"

text \<open>Identifiers are handed out one after the other; these are the first \<open>k\<close>.\<close>

definition issued :: "request_id \<Rightarrow> nat \<Rightarrow> request_id list" where
  "issued seed k = map (\<lambda>j. seed + of_nat (Suc j)) [0..<k]"

lemma issued_Suc: "issued seed (Suc k) = issued seed k @ [seed + of_nat (Suc k)]"
  by (simp add: issued_def)

lemma issued_distinct:
  assumes "k < 2 ^ 64"
  shows "distinct (issued seed k)"
  unfolding issued_def distinct_map
proof (intro conjI inj_onI)
  fix i j assume "i \<in> set [0..<k]" "j \<in> set [0..<k]" "seed + of_nat (Suc i) = seed + (of_nat (Suc j) :: 64 word)"
  then have "unat (of_nat (Suc i) :: 64 word) = unat (of_nat (Suc j) :: 64 word)" "Suc i < 2 ^ 64" "Suc j < 2 ^ 64"
    using assms by auto
  then show "i = j" by (simp only: unat_of_nat len_of_numeral_defs) simp
qed simp

definition req_inv :: "request_id \<Rightarrow> nat \<Rightarrow> ('c, 'v) req_log \<Rightarrow> bool" where
  "req_inv seed k s \<longleftrightarrow>
     nextRequestId (mgr s) = seed + of_nat k
     \<and> map fst (accepted_reqs s) = issued seed k
     \<and> distinct (map fst (pending (mgr s))) \<and> set (map fst (pending (mgr s))) \<subseteq> set (issued seed k)
     \<and> int (length (pending (mgr s))) \<le> rm_max (mgr s)
     \<and> (rm_closed (mgr s) \<longrightarrow> pending (mgr s) = [])
     \<and> mset (accepted_reqs s) = mset (called_reqs s) + mset (removed s) + waiting (mgr s)"

lemma pending_delete:
  assumes "distinct (map fst xs)" and "map_of xs i = Some p"
  shows "mset xs = add_mset (i, p) (mset (AList.delete i xs))"
  using assms
proof (induction xs)
  case (Cons x xs)
  obtain j q where x: "x = (j, q)" by fastforce
  show ?case
  proof (cases "j = i")
    case True
    then have "AList.delete i xs = xs" using Cons.prems(1) x by (intro AList.delete_id) auto
    with True Cons.prems(2) x show ?thesis by simp
  next
    case False
    with Cons x show ?thesis by simp
  qed
qed simp

lemma waiting_remove:
  assumes "distinct (map fst (pending m))" and "rm_remove m i = (m', Some p)"
  shows "waiting m = add_mset (i, complete_cb p) (waiting m')"
  using assms pending_delete [of "pending m" i p] by (auto simp: rm_remove_def waiting_def)

lemma rm_remove_keeps:
  assumes "rm_remove m i = (m', r)"
  shows "nextRequestId m' = nextRequestId m" "rm_max m' = rm_max m" "rm_closed m' = rm_closed m"
    "distinct (map fst (pending m)) \<Longrightarrow> distinct (map fst (pending m'))"
    "set (map fst (pending m')) \<subseteq> set (map fst (pending m))" "length (pending m') \<le> length (pending m)"
    "pending m = [] \<Longrightarrow> pending m' = []"
proof -
  have m': "m' = m\<lparr>pending := AList.delete i (pending m)\<rparr>" using assms by (simp add: rm_remove_def)
  then show "distinct (map fst (pending m)) \<Longrightarrow> distinct (map fst (pending m'))"
    "set (map fst (pending m')) \<subseteq> set (map fst (pending m))"
    using AList.delete_keys [of i "pending m"] by (simp_all add: distinct_removeAll AList.distinct_delete flip: set_map)
  show "nextRequestId m' = nextRequestId m" "rm_max m' = rm_max m" "rm_closed m' = rm_closed m"
    "length (pending m') \<le> length (pending m)" "pending m = [] \<Longrightarrow> pending m' = []"
    using m' by (simp_all add: AList.delete_eq)
qed

lemma rm_remove_None: "rm_remove m i = (m', None) \<Longrightarrow> m' = m"
  by (auto simp: rm_remove_def AList.delete_id map_of_eq_None_iff)

lemma update_same_cb:
  "map_of xs i = Some p \<Longrightarrow> complete_cb q = complete_cb p \<Longrightarrow> distinct (map fst xs) \<Longrightarrow>
   map (\<lambda>(i, p). (i, complete_cb p)) (AList.update i q xs) = map (\<lambda>(i, p). (i, complete_cb p)) xs"
  by (induction xs) (auto split: if_splits)

lemma req_inv_removed:
  assumes inv: "req_inv seed k s" and rm: "rm_remove (mgr s) i = (m', Some p)"
    and t: "mgr t = m'" "accepted_reqs t = accepted_reqs s"
      "mset (called_reqs t) + mset (removed t) = add_mset (i, complete_cb p) (mset (called_reqs s) + mset (removed s))"
  shows "req_inv seed k t"
proof -
  have "distinct (map fst (pending (mgr s)))" using inv by (simp add: req_inv_def)
  note w = waiting_remove [OF this rm] and keeps = rm_remove_keeps [OF rm]
  have "int (length (pending m')) \<le> rm_max m'" using keeps(2,6) inv by (simp add: req_inv_def)
  moreover have "set (map fst (pending m')) \<subseteq> set (issued seed k)" using keeps(5) inv by (auto simp: req_inv_def)
  ultimately show ?thesis using w keeps inv t by (simp add: req_inv_def)
qed

lemma log_call_inv:
  assumes inv: "req_inv seed k s"
  shows "req_inv seed k (log_call i v e s)"
proof (cases "rm_remove (mgr s) i")
  case (Pair m' r)
  show ?thesis
  proof (cases r)
    case None
    with Pair rm_remove_None [of "mgr s" i m'] inv show ?thesis by (simp add: log_call_def rm_complete_def)
  next
    case (Some p)
    with Pair show ?thesis
      by (intro req_inv_removed [OF inv, of i m' p]) (simp_all add: log_call_def rm_complete_def called_reqs_def)
  qed
qed

lemma add_inv:
  assumes inv: "req_inv seed k s" and k: "Suc k < 2 ^ 64"
  shows "\<exists>k' \<le> Suc k. req_inv seed k' (req_step iter (OpAdd n t d cb) s)"
proof (cases "rm_closed (mgr s) \<or> int (length (pending (mgr s))) \<ge> rm_max (mgr s)")
  case True
  then have "req_inv seed k (req_step iter (OpAdd n t d cb) s)" using inv by (auto simp: rm_add_def)
  then show ?thesis by (intro exI [of _ k]) simp
next
  case False
  let ?i = "seed + of_nat (Suc k) :: request_id"
  have id: "nextRequestId (mgr s) + 1 = ?i" using inv by (simp add: req_inv_def)
  have "?i \<notin> set (issued seed k)" using issued_distinct [OF k, of seed] by (simp add: issued_Suc)
  then have new: "?i \<notin> set (map fst (pending (mgr s)))" using inv unfolding req_inv_def by blast
  obtain i where i: "nextRequestId (mgr s) + 1 = i" "i = ?i" using id by simp
  let ?p = "\<lparr>targetNodeId = t, complete_cb = cb, req_timer = (if d > 0 then Some d else None)\<rparr>"
  have "req_step iter (OpAdd n t d cb) s =
      s\<lparr>mgr := (mgr s)\<lparr>nextRequestId := i, pending := pending (mgr s) @ [(i, ?p)]\<rparr>, accepted_reqs := accepted_reqs s @ [(i, cb)]\<rparr>"
    using False new update_new [of i "pending (mgr s)" ?p] unfolding i(2) [symmetric] by (simp add: rm_add_def Let_def i(1))
  then have "req_inv seed (Suc k) (req_step iter (OpAdd n t d cb) s)"
    using inv False new i(2) unfolding issued_Suc req_inv_def
    by (auto simp: waiting_def called_reqs_def)
  then show ?thesis by blast
qed

lemma req_inv_retarget:
  assumes inv: "req_inv seed k s"
  shows "req_inv seed k (s\<lparr>mgr := rm_retarget (mgr s) i t\<rparr>)"
proof (cases "t = [] \<or> map_of (pending (mgr s)) i = None")
  case True
  then show ?thesis using inv by (auto simp: rm_retarget_def)
next
  case False
  then obtain p where p: "map_of (pending (mgr s)) i = Some p" by auto
  let ?ps = "AList.update i (p\<lparr>targetNodeId := t\<rparr>) (pending (mgr s))"
  have "i \<in> set (map fst (pending (mgr s)))" using p by (metis map_of_eq_None_iff option.distinct(1) set_map)
  then have keys: "map fst ?ps = map fst (pending (mgr s))" by (simp add: AList.update_keys)
  have "distinct (map fst (pending (mgr s)))" using inv by (simp add: req_inv_def)
  from update_same_cb [OF p _ this, of "p\<lparr>targetNodeId := t\<rparr>"] have
    w: "image_mset (\<lambda>(i, p). (i, complete_cb p)) (mset ?ps) = waiting (mgr s)"
    by (simp add: waiting_def flip: mset_map)
  have "length ?ps = length (pending (mgr s))" using keys by (metis length_map)
  with keys w inv False p show ?thesis
    by (auto simp: rm_retarget_def req_inv_def waiting_def called_reqs_def)
qed

text \<open>What Go's iteration over a map is: every entry once, in some order.\<close>

definition iterates :: "'c iter \<Rightarrow> bool" where
  "iterates iter \<longleftrightarrow> (\<forall>xs. mset (iter xs) = mset xs)"

lemma req_step_inv:
  assumes inv: "req_inv seed k s" and it: "iterates iter" and k: "is_add op \<longrightarrow> Suc k < 2 ^ 64"
  shows "\<exists>k' \<le> (if is_add op then Suc k else k). req_inv seed k' (req_step iter op s)"
proof (cases op)
  case (OpAdd n t d cb)
  then show ?thesis using add_inv [OF inv] k by (auto simp: is_add_def)
next
  case (OpRemove i)
  obtain m' r where rm: "rm_remove (mgr s) i = (m', r)" by fastforce
  have "req_inv seed k (req_step iter op s)"
  proof (cases r)
    case None
    with rm rm_remove_None [of "mgr s" i m'] inv OpRemove show ?thesis by simp
  next
    case (Some p)
    with rm OpRemove show ?thesis by (intro req_inv_removed [OF inv, of i m' p]) (simp_all add: called_reqs_def)
  qed
  then show ?thesis by (intro exI [of _ k]) (simp add: OpRemove is_add_def)
next
  case (OpRetarget i t)
  have "req_inv seed k (req_step iter op s)"
    using req_inv_retarget [OF inv] OpRetarget by simp
  then show ?thesis by (intro exI [of _ k]) (simp add: OpRetarget is_add_def)
next
  case OpStop
  have "mset (map (\<lambda>(i, p). (i, complete_cb p)) (iter xs)) = image_mset (\<lambda>(i, p). (i, complete_cb p)) (mset xs)" for xs :: "(request_id \<times> 'a pendingRequest) list"
    using it by (simp add: iterates_def)
  then have "req_inv seed k (req_step iter op s)"
    using inv OpStop by (auto simp: rm_stop_def req_inv_def waiting_def called_reqs_def comp_def case_prod_unfold)
  then show ?thesis by (intro exI [of _ k]) (simp add: OpStop is_add_def)
qed (use log_call_inv [OF inv] in \<open>auto simp: is_add_def intro!: exI [of _ k]\<close>)

lemma req_run_inv:
  assumes it: "iterates iter" and mx: "length (filter is_add ops) < 2 ^ 64"
  shows "\<exists>k \<le> length (filter is_add ops). req_inv seed k (req_run iter seed m ops)"
  using mx
proof (induction ops rule: rev_induct)
  case Nil
  have "req_inv seed 0 (req_init seed m)"
    by (simp add: req_inv_def req_init_def newRequestManager_def issued_def waiting_def called_reqs_def defaultMaxPendingRequests_def)
  then show ?case by (simp add: req_run_def)
next
  case (snoc op ops)
  then obtain k where k: "k \<le> length (filter is_add ops)" "req_inv seed k (req_run iter seed m ops)" by (auto split: if_splits)
  have "is_add op \<longrightarrow> Suc k < 2 ^ 64" using k(1) snoc.prems by auto
  from req_step_inv [OF k(2) it this] obtain k' where
    "k' \<le> (if is_add op then Suc k else k)" "req_inv seed k' (req_step iter op (req_run iter seed m ops))" by blast
  then show ?case using k(1) by (intro exI [of _ k']) (auto simp: req_run_def split: if_splits)
qed

subsection \<open>Properties of the request table\<close>

text \<open>
  C5: Whatever the sequence of operations (fewer than \<open>2^64\<close> of them adds) and whatever the seed
  of the identifiers, every accepted request has its own identifier, and is at every moment in exactly
  one of three places: called back once, taken out by \<^verbatim>\<open>remove\<close>, or waiting; there are never more
  waiting requests than the maximum.
\<close>

theorem request_exactly_once:
  assumes "iterates iter" and "length (filter is_add ops) < 2 ^ 64"
  shows "let s = req_run iter seed m ops in
    distinct (map fst (accepted_reqs s))
    \<and> mset (accepted_reqs s) = mset (map (\<lambda>(i, cb, v, e). (i, cb)) (called s)) + mset (removed s)
        + mset (map (\<lambda>(i, p). (i, complete_cb p)) (pending (mgr s)))
    \<and> distinct (map fst (called s)) \<and> int (rm_count (mgr s)) \<le> rm_max (mgr s)"
proof -
  let ?s = "req_run iter seed m ops"
  from req_run_inv [OF assms] obtain k where k: "k \<le> length (filter is_add ops)" "req_inv seed k ?s" by blast
  have dist: "distinct (map fst (accepted_reqs ?s))"
    using k issued_distinct [of k seed] assms(2) by (simp add: req_inv_def)
  have ms: "mset (accepted_reqs ?s) = mset (called_reqs ?s) + mset (removed ?s) + waiting (mgr ?s)"
    using k(2) by (simp add: req_inv_def)
  have "mset (map fst (accepted_reqs ?s)) = mset (map fst (called_reqs ?s @ removed ?s @ map (\<lambda>(i, p). (i, complete_cb p)) (pending (mgr ?s))))"
    unfolding mset_map ms by (simp add: waiting_def add.assoc)
  from mset_eq_imp_distinct_iff [OF this] dist have "distinct (map fst (called_reqs ?s))" by simp
  moreover have "map fst (called_reqs ?s) = map fst (called ?s)" by (simp add: called_reqs_def case_prod_unfold)
  ultimately have "distinct (map fst (called ?s))" by metis
  then show ?thesis
    using dist ms k(2) by (simp add: Let_def req_inv_def waiting_def called_reqs_def rm_count_def)
qed

lemma closed_stays: "rm_closed (mgr s) \<Longrightarrow> pending (mgr s) = [] \<Longrightarrow>
  rm_closed (mgr (req_step iter op s)) \<and> pending (mgr (req_step iter op s)) = [] \<and> accepted_reqs (req_step iter op s) = accepted_reqs s"
  by (cases op) (auto simp: rm_add_def log_call_def rm_complete_def rm_remove_def rm_retarget_def rm_stop_def)

lemma closed_stays_run: "rm_closed (mgr s) \<Longrightarrow> pending (mgr s) = [] \<Longrightarrow>
  pending (mgr (foldl (\<lambda>s op. req_step iter op s) s ops)) = [] \<and> accepted_reqs (foldl (\<lambda>s op. req_step iter op s) s ops) = accepted_reqs s"
proof (induction ops arbitrary: s)
  case (Cons op ops)
  from closed_stays [OF Cons.prems, of iter op] Cons.IH [of "req_step iter op s"] show ?case by simp
qed simp

text \<open>
  After \<^verbatim>\<open>stop\<close> no request is left waiting and none is accepted any more: all requests ever
  accepted were accepted before, and each has been called back exactly once or taken out.
\<close>

theorem request_stop_completes_all:
  assumes "iterates iter" and "length (filter is_add (before @ after)) < 2 ^ 64"
  shows "let s = req_run iter seed m (before @ OpStop # after); s0 = req_run iter seed m before in
    accepted_reqs s = accepted_reqs s0 \<and> rm_count (mgr s) = 0
    \<and> mset (accepted_reqs s0) = mset (map (\<lambda>(i, cb, v, e). (i, cb)) (called s)) + mset (removed s)"
proof -
  let ?old = "req_run iter seed m before" and ?mid = "req_step iter OpStop (req_run iter seed m before)"
  let ?new = "req_run iter seed m (before @ OpStop # after)"
  have "length (filter is_add before) < 2 ^ 64" using assms(2) by simp
  from req_run_inv [OF assms(1) this] obtain k0 where "req_inv seed k0 ?old" by blast
  then have s1: "rm_closed (mgr ?mid)" "pending (mgr ?mid) = []" "accepted_reqs ?mid = accepted_reqs ?old"
    by (auto simp: rm_stop_def req_inv_def)
  have "?new = foldl (\<lambda>s op. req_step iter op s) ?mid after" by (simp add: req_run_def)
  with closed_stays_run [OF s1(1,2), of iter after] s1(3) have
    s: "pending (mgr ?new) = []" "accepted_reqs ?new = accepted_reqs ?old" by auto
  have "length (filter is_add (before @ OpStop # after)) < 2 ^ 64" using assms(2) by (simp add: is_add_def)
  from req_run_inv [OF assms(1) this] obtain k where "req_inv seed k ?new" by blast
  with s show ?thesis by (simp add: Let_def req_inv_def waiting_def called_reqs_def rm_count_def)
qed

text \<open>Three requests, one answered, one timed out, one stopped; the identifiers pass through zero.\<close>

definition sample_ops :: "(nat, string) req_op list" where
  "sample_ops = [OpAdd ''a'' ''b'' 3 10, OpAdd ''a'' ''b'' 3 11, OpAdd ''a'' ''b'' 3 12, OpComplete 0 (Some ''yes'') None,
     OpTimeout 0xFFFFFFFFFFFFFFFF]"

theorem request_exactly_once_witness:
  "map fst (accepted_reqs (req_run (\<lambda>xs. xs) 0xFFFFFFFFFFFFFFFE 8 sample_ops)) = [0xFFFFFFFFFFFFFFFF, 0, 1]
    \<and> distinct (map fst (called (req_run (\<lambda>xs. xs) 0xFFFFFFFFFFFFFFFE 8 sample_ops)))
    \<and> map fst (called (req_run (\<lambda>xs. xs) 0xFFFFFFFFFFFFFFFE 8 sample_ops)) = [0, 0xFFFFFFFFFFFFFFFF]"
proof -
  have ops: "iterates (\<lambda>xs. xs)" "length (filter is_add sample_ops) < 2 ^ 64"
    by (simp_all add: iterates_def sample_ops_def is_add_def)
  have "map fst (accepted_reqs (req_run (\<lambda>xs. xs) 0xFFFFFFFFFFFFFFFE 8 sample_ops)) = [0xFFFFFFFFFFFFFFFF, 0, 1]"
    "map fst (called (req_run (\<lambda>xs. xs) 0xFFFFFFFFFFFFFFFE 8 sample_ops)) = [0, 0xFFFFFFFFFFFFFFFF]"
    by (simp_all add: req_run_def req_init_def sample_ops_def newRequestManager_def rm_add_def log_call_def rm_complete_def
        rm_remove_def Let_def)
  with request_exactly_once [OF ops, of "0xFFFFFFFFFFFFFFFE" 8] show ?thesis by (simp add: Let_def)
qed

theorem request_stop_completes_all_witness:
  "rm_count (mgr (req_run (\<lambda>xs. xs) 5 8 (sample_ops @ OpStop # [OpAdd ''a'' ''b'' 3 13]))) = 0"
proof -
  have "iterates (\<lambda>xs. xs)" "length (filter is_add (sample_ops @ [OpAdd ''a'' ''b'' 3 13])) < 2 ^ 64"
    by (simp_all add: iterates_def sample_ops_def is_add_def)
  from request_stop_completes_all [OF this, of 5 8] show ?thesis by (simp add: Let_def)
qed

end
