(* ===== verification/ActorTypes.thy ===== *)
theory ActorTypes
  imports ProtoCodec RequestManager
begin

text \<open>
  \<^verbatim>\<open>actor/types.go\<close> and the wire messages of \<^verbatim>\<open>actor/pb\<close>: process identifiers, envelopes and the
  values actors exchange.

  A Go value of type \<^verbatim>\<open>any\<close> is \<open>NilV\<close>, a value the application defines (\<open>Val\<close>), or a \<^verbatim>\<open>Task\<close>
  (\<open>TaskFn\<close>). A task is a closure of the application, named by a token of type \<open>'k\<close>, or one of the
  closures the runtime makes: the one of \<^verbatim>\<open>AfterFunc\<close>, which also stops its timer, and the one that
  hands the result of \<^verbatim>\<open>AskAsync\<close> to the completion callback. A nil \<^verbatim>\<open>*PID\<close> is \<open>None\<close>.
\<close>

definition defaultActorAskTimeout :: int where "defaultActorAskTimeout = 3000000000"

record PID =
  ActorID :: "64 word"
  ActorName :: string
  NodeID :: string

definition NoSender :: PID where "NoSender = \<lparr>ActorID = 0, ActorName = [], NodeID = []\<rparr>"

definition NewPID :: "64 word \<Rightarrow> string \<Rightarrow> string \<Rightarrow> PID" where
  "NewPID actorID actorName nodeID = \<lparr>ActorID = actorID, ActorName = actorName, NodeID = nodeID\<rparr>"

datatype ('k, 'm) any =
    NilV
  | Val 'm
  | TaskFn "('k, 'm) task"
and ('k, 'm) task =
    UserTask 'k
  | AfterTask int 'k
  | AskDone 'k "('k, 'm) any" err

text \<open>
  The payload of an envelope: the two control messages of the runtime, or a value.
\<close>

datatype ('k, 'm) payload =
    InitMessage
  | StopMessage
  | User "('k, 'm) any"

record MessageMeta =
  meta_Request :: "RequestRef option"

record ('k, 'm) Envelope =
  Payload :: "('k, 'm) payload"
  Sender :: "PID option"
  Meta :: MessageMeta

record ('k, 'm) SpawnOptions =
  Name :: string
  InitArgs :: "('k, 'm) any list"
  MailboxSize :: int

abbreviation no_meta :: MessageMeta where "no_meta \<equiv> \<lparr>meta_Request = None\<rparr>"

subsection \<open>Wire messages\<close>

record PbPID =
  pb_ActorId :: "64 word"
  pb_ActorName :: string
  pb_NodeId :: string

record PbRequestRef =
  pb_RefNodeId :: string
  pb_RequestId :: "64 word"

record RemoteActorCommon =
  SourcePid :: "PbPID option"
  TargetPid :: "PbPID option"
  TargetNodeId :: string

record RemoteActorRequest =
  rq_MessageName :: string
  rq_Payload :: bytes
  rq_Request :: "PbRequestRef option"

text \<open>An enum value on the wire is any number.\<close>

datatype RemoteMessageKind = KIND_UNSPECIFIED | ASK_RESPONSE | ASK_ERROR | UnknownKind int

record RemoteActorResponse =
  Kind :: RemoteMessageKind
  rs_Request :: "PbRequestRef option"
  rs_MessageName :: string
  rs_Payload :: bytes
  rs_Error :: string
  rs_ErrorCode :: "32 word"

datatype RemoteBody = NoBody | Body_Request "RemoteActorRequest option" | Body_Response "RemoteActorResponse option"

record RemoteActorMessage =
  Common :: "RemoteActorCommon option"
  Body :: RemoteBody

definition pidToProto :: "PID option \<Rightarrow> PbPID option" where
  "pidToProto pid = (case pid of None \<Rightarrow> None
     | Some p \<Rightarrow> Some \<lparr>pb_ActorId = ActorID p, pb_ActorName = ActorName p, pb_NodeId = NodeID p\<rparr>)"

definition pidFromProto :: "PbPID option \<Rightarrow> PID option" where
  "pidFromProto pid = (case pid of None \<Rightarrow> None | Some p \<Rightarrow> Some (NewPID (pb_ActorId p) (pb_ActorName p) (pb_NodeId p)))"

definition requestRefFromProto :: "PbRequestRef option \<Rightarrow> RequestRef option" where
  "requestRefFromProto request = (case request of None \<Rightarrow> None
     | Some r \<Rightarrow> Some \<lparr>ref_NodeID = pb_RefNodeId r, ref_RequestID = pb_RequestId r\<rparr>)"

definition requestRefToProto :: "RequestRef option \<Rightarrow> PbRequestRef option" where
  "requestRefToProto request = (case request of None \<Rightarrow> None
     | Some r \<Rightarrow> Some \<lparr>pb_RefNodeId = ref_NodeID r, pb_RequestId = ref_RequestID r\<rparr>)"

lemma pid_roundtrip [simp]: "pidFromProto (pidToProto pid) = pid"
  by (simp add: pidToProto_def pidFromProto_def NewPID_def split: option.splits)

lemma requestRef_roundtrip [simp]: "requestRefFromProto (requestRefToProto r) = r"
  by (simp add: requestRefFromProto_def requestRefToProto_def split: option.splits)

lemma proto_None [simp]: "pidToProto None = None" "requestRefToProto None = None" "pidFromProto None = None" "requestRefFromProto None = None"
  by (simp_all add: pidToProto_def requestRefToProto_def pidFromProto_def requestRefFromProto_def)

end
