(* ===== verification/Snowflake.thy ===== *)
theory Snowflake
  imports GoErrors
begin

text \<open>
  \<^verbatim>\<open>pkg/snowflake/snowflake.go\<close>. The fields are \<^verbatim>\<open>int64\<close> values, here integers with the truncation
  to 64 bits (and to 32 bits in the parsers) written out. The clock is a list of readings in Unix
  milliseconds, consumed one by one; \<open>None\<close> is a call that still waits when the readings end.
  Times are milliseconds; \<open>IsZero\<close> of a start time is a flag.
\<close>

definition to_int64 :: "int \<Rightarrow> int" where "to_int64 = signed_take_bit 63"
definition to_int32 :: "int \<Rightarrow> int" where "to_int32 = signed_take_bit 31"

definition totalBitLength :: nat where "totalBitLength = 63"

record SnowConfig =
  TimestampBits :: int
  MachineIDBits :: int
  SequenceBits :: int
  MachineID :: int
  StartTime :: "int option"

definition DefaultConfig :: SnowConfig where
  "DefaultConfig = \<lparr>TimestampBits = 41, MachineIDBits = 12, SequenceBits = 10, MachineID = 0, StartTime = Some 1640995200000\<rparr>"

record SnowFlake =
  timestampBits :: nat
  machineIDBits :: nat
  sequenceBits :: nat
  maxTimestamp :: int
  maxMachineID :: int
  maxSequence :: int
  shiftMachineID :: nat
  shiftTimestamp :: nat
  machineID :: int
  offsetTime :: int
  lastTime :: int
  lastSeq :: int

definition SnowFlake_New :: "SnowConfig \<Rightarrow> int \<Rightarrow> SnowFlake result" where
  "SnowFlake_New config now =
     (if TimestampBits config \<le> 0 \<or> MachineIDBits config \<le> 0 \<or> SequenceBits config \<le> 0
      then Inl (Plain ''snowflake bit lengths must be positive'')
      else if TimestampBits config + MachineIDBits config + SequenceBits config \<noteq> int totalBitLength
      then Inl (Plain ''snowflake bit lengths must add up to 63'')
      else (case StartTime config of
              None \<Rightarrow> Inl (Plain ''snowflake start time cannot be zero'')
            | Some start \<Rightarrow>
                if start > now then Inl (Plain ''snowflake start time cannot be in the future'')
                else if TimestampBits config \<ge> 63 \<or> MachineIDBits config \<ge> 63 \<or> SequenceBits config \<ge> 63
                then Inl (Plain ''snowflake bit length is too large'')
                else
                  (let tb = nat (TimestampBits config); mb = nat (MachineIDBits config); sb = nat (SequenceBits config);
                       s = \<lparr>timestampBits = tb, machineIDBits = mb, sequenceBits = sb,
                            maxTimestamp = 2 ^ tb - 1, maxMachineID = 2 ^ mb - 1, maxSequence = 2 ^ sb - 1,
                            shiftMachineID = sb, shiftTimestamp = sb + mb, machineID = MachineID config,
                            offsetTime = start, lastTime = 0, lastSeq = 0\<rparr>
                   in if MachineID config < 0 \<or> MachineID config > maxMachineID s
                      then Inl (Plain (''snowflake machine ID '' @ show_int (MachineID config) @ '' is outside [0,'' @ show_int (maxMachineID s) @ '']''))
                      else if now - start > maxTimestamp s
                      then Inl (Plain ''snowflake start time is outside timestamp range'')
                      else Inr s)))"

text \<open>\<^verbatim>\<open>NewDefault\<close> panics (\<open>None\<close>) when \<^verbatim>\<open>New\<close> fails.\<close>

definition NewDefault :: "int \<Rightarrow> SnowFlake option" where
  "NewDefault now = (case SnowFlake_New DefaultConfig now of Inl _ \<Rightarrow> None | Inr s \<Rightarrow> Some s)"

fun waitForMillis :: "int \<Rightarrow> int list \<Rightarrow> (int \<times> int list) option" where
  "waitForMillis prev [] = None"
| "waitForMillis prev (now # clock) = (if now \<le> prev then waitForMillis prev clock else Some (now, clock))"

lemma waitForMillis_shorter: "waitForMillis prev clock = Some (now, rest) \<Longrightarrow> length rest < length clock"
  by (induction prev clock rule: waitForMillis.induct) (auto split: if_splits)

lemma waitForMillis_subset: "waitForMillis prev clock = Some (now, rest) \<Longrightarrow> set rest \<subseteq> set clock"
  by (induction prev clock rule: waitForMillis.induct) (auto split: if_splits)

definition make_id :: "SnowFlake \<Rightarrow> int \<Rightarrow> int \<Rightarrow> int" where
  "make_id s now seq = (to_int64 (push_bit (shiftTimestamp s) (now - offsetTime s))
     OR to_int64 (push_bit (shiftMachineID s) (machineID s))) OR seq"

function GenId :: "SnowFlake \<Rightarrow> int list \<Rightarrow> (SnowFlake \<times> int \<times> int list) option" where
  "GenId s [] = None"
| "GenId s (t # clock) =
     (let now = (if t < lastTime s then lastTime s else t) in
      if now = lastTime s \<and> lastSeq s \<ge> maxSequence s then
        (case waitForMillis (lastTime s) clock of
           None \<Rightarrow> None
         | Some (_, clock1) \<Rightarrow> GenId s clock1)
      else
        (let seq = (if now = lastTime s then lastSeq s + 1 else 0) in
         Some (s\<lparr>lastTime := now, lastSeq := seq\<rparr>, make_id s now seq, clock)))"
  by pat_completeness auto
termination
  by (relation "measure (\<lambda>(s, clock). length clock)") (auto dest: waitForMillis_shorter)

definition ParseIdToTimestamp :: "SnowFlake \<Rightarrow> int \<Rightarrow> int" where
  "ParseIdToTimestamp s i = to_int64 (drop_bit (shiftTimestamp s) i + offsetTime s)"

definition ParseIdToMachineId :: "SnowFlake \<Rightarrow> int \<Rightarrow> int" where
  "ParseIdToMachineId s i = to_int32 (drop_bit (sequenceBits s) i AND maxMachineID s)"

definition ParseIdToSequence :: "SnowFlake \<Rightarrow> int \<Rightarrow> int" where
  "ParseIdToSequence s i = to_int32 (i AND maxSequence s)"

subsection \<open>The layout of an identifier\<close>

definition snow_wf :: "SnowFlake \<Rightarrow> bool" where
  "snow_wf s \<longleftrightarrow> timestampBits s + machineIDBits s + sequenceBits s = 63
     \<and> maxTimestamp s = 2 ^ timestampBits s - 1 \<and> maxMachineID s = 2 ^ machineIDBits s - 1 \<and> maxSequence s = 2 ^ sequenceBits s - 1
     \<and> shiftMachineID s = sequenceBits s \<and> shiftTimestamp s = sequenceBits s + machineIDBits s
     \<and> 0 \<le> machineID s \<and> machineID s \<le> maxMachineID s \<and> 0 \<le> lastSeq s \<and> lastSeq s \<le> maxSequence s"

lemma SnowFlake_New_wf: "SnowFlake_New config now = Inr s \<Longrightarrow> snow_wf s"
  by (auto simp: SnowFlake_New_def snow_wf_def Let_def totalBitLength_def split: if_splits option.splits)

text \<open>The timestamps for which no bit is lost.\<close>

definition in_range :: "SnowFlake \<Rightarrow> int \<Rightarrow> bool" where
  "in_range s now \<longleftrightarrow> offsetTime s \<le> now \<and> now - offsetTime s \<le> maxTimestamp s"

lemma or_disjoint: "0 \<le> b \<Longrightarrow> b < 2 ^ n \<Longrightarrow> push_bit n (a :: int) OR b = a * 2 ^ n + b"
proof -
  assume "0 \<le> b" "b < 2 ^ n"
  then have b: "take_bit n b = b" by (simp add: take_bit_int_eq_self)
  have "push_bit n a AND b = 0"
    by (rule bit_eqI) (metis b bit_0_eq bit_and_iff bit_push_bit_iff bit_take_bit_iff bot_apply bot_bool_def not_le)
  then have "push_bit n a OR b = push_bit n a + b" by (simp add: disjunctive_add_eq_or)
  then show ?thesis by (simp add: push_bit_eq_mult)
qed

lemma to_int64_id: "0 \<le> x \<Longrightarrow> x < 2 ^ 63 \<Longrightarrow> to_int64 x = x"
  by (simp add: to_int64_def signed_take_bit_int_eq_self)

lemma to_int32_id: "0 \<le> x \<Longrightarrow> x < 2 ^ 31 \<Longrightarrow> to_int32 x = x"
  by (simp add: to_int32_def signed_take_bit_int_eq_self)

lemma make_id_value:
  assumes wf: "snow_wf s" and r: "in_range s now" and q: "0 \<le> seq" "seq \<le> maxSequence s"
  shows "make_id s now seq = ((now - offsetTime s) * 2 ^ machineIDBits s + machineID s) * 2 ^ sequenceBits s + seq"
    and "make_id s now seq < 2 ^ 63" and "0 \<le> make_id s now seq"
proof -
  let ?t = "now - offsetTime s" and ?m = "machineID s" and ?mb = "machineIDBits s" and ?sb = "sequenceBits s" and ?tb = "timestampBits s"
  have t: "0 \<le> ?t" "?t < 2 ^ ?tb" using r wf by (auto simp: in_range_def snow_wf_def)
  have m: "0 \<le> ?m" "?m < 2 ^ ?mb" and seq: "seq < 2 ^ ?sb" using wf q by (auto simp: snow_wf_def)
  have total: "2 ^ ?tb * 2 ^ ?mb * 2 ^ ?sb = (2 ^ 63 :: int)" using wf by (simp add: snow_wf_def flip: power_add)
  have tm: "?t * 2 ^ ?mb + ?m < 2 ^ ?tb * 2 ^ ?mb"
  proof -
    have "?t * 2 ^ ?mb + ?m < ?t * 2 ^ ?mb + 2 ^ ?mb" using m by simp
    also have "\<dots> = (?t + 1) * 2 ^ ?mb" by (simp add: distrib_right)
    also have "\<dots> \<le> 2 ^ ?tb * 2 ^ ?mb" using t by (intro mult_right_mono) auto
    finally show ?thesis .
  qed
  have all: "(?t * 2 ^ ?mb + ?m) * 2 ^ ?sb + seq < 2 ^ 63"
  proof -
    have "(?t * 2 ^ ?mb + ?m) * 2 ^ ?sb + seq < (?t * 2 ^ ?mb + ?m + 1) * 2 ^ ?sb" using seq by (simp add: distrib_right)
    also have "\<dots> \<le> 2 ^ ?tb * 2 ^ ?mb * 2 ^ ?sb" using tm by (intro mult_right_mono) auto
    finally show ?thesis using total by simp
  qed
  have nn: "0 \<le> ?t * 2 ^ ?mb + ?m" using t m by simp
  have e1: "push_bit (shiftTimestamp s) ?t OR push_bit (shiftMachineID s) ?m = push_bit ?sb (?t * 2 ^ ?mb + ?m)"
    using or_disjoint [OF m, of ?t] wf by (simp add: snow_wf_def del: push_bit_or flip: push_bit_push_bit push_bit_or)
  have "to_int64 (push_bit (shiftTimestamp s) ?t) = push_bit (shiftTimestamp s) ?t"
    "to_int64 (push_bit (shiftMachineID s) ?m) = push_bit (shiftMachineID s) ?m"
  proof -
    have pt: "push_bit (shiftTimestamp s) ?t = ?t * 2 ^ ?mb * 2 ^ ?sb" "push_bit (shiftMachineID s) ?m = ?m * 2 ^ ?sb"
      using wf by (simp_all add: snow_wf_def push_bit_eq_mult power_add)
    have "?t * 2 ^ ?mb * 2 ^ ?sb \<ge> 0" "?m * 2 ^ ?sb \<ge> 0" using t m by simp_all
    moreover have "?t * 2 ^ ?mb * 2 ^ ?sb + ?m * 2 ^ ?sb < 2 ^ 63" using all q by (simp add: distrib_right)
    ultimately show "to_int64 (push_bit (shiftTimestamp s) ?t) = push_bit (shiftTimestamp s) ?t"
      "to_int64 (push_bit (shiftMachineID s) ?m) = push_bit (shiftMachineID s) ?m"
      unfolding pt by (simp_all add: to_int64_id)
  qed
  then show "make_id s now seq = (?t * 2 ^ ?mb + ?m) * 2 ^ ?sb + seq"
    using e1 or_disjoint [OF q(1) seq, of "?t * 2 ^ ?mb + ?m"] by (simp add: make_id_def)
  then show "make_id s now seq < 2 ^ 63" "0 \<le> make_id s now seq" using all nn q by simp_all
qed

subsection \<open>Successive identifiers\<close>

lemma GenId_step:
  "snow_wf s \<Longrightarrow> GenId s clock = Some (s', i, rest) \<Longrightarrow>
   \<exists>now seq. s' = s\<lparr>lastTime := now, lastSeq := seq\<rparr> \<and> i = make_id s now seq \<and> 0 \<le> seq \<and> seq \<le> maxSequence s
     \<and> (lastTime s < now \<or> lastTime s = now \<and> lastSeq s < seq)"
proof (induction s clock rule: GenId.induct)
  case (2 s t clock)
  let ?now = "if t < lastTime s then lastTime s else t"
  show ?case
  proof (cases "?now = lastTime s \<and> lastSeq s \<ge> maxSequence s")
    case True
    with 2(3) obtain n clock1 where w: "waitForMillis (lastTime s) clock = Some (n, clock1)" "GenId s clock1 = Some (s', i, rest)"
      by (auto simp: Let_def split: option.splits if_splits)
    from 2(1) [OF refl True w(1) refl 2(2) w(2)] show ?thesis .
  next
    case False
    let ?seq = "if ?now = lastTime s then lastSeq s + 1 else 0"
    have "s' = s\<lparr>lastTime := ?now, lastSeq := ?seq\<rparr> \<and> i = make_id s ?now ?seq"
      using 2(3) False by (auto simp: Let_def split: if_splits)
    moreover have "0 \<le> ?seq \<and> ?seq \<le> maxSequence s \<and> (lastTime s < ?now \<or> lastTime s = ?now \<and> lastSeq s < ?seq)"
      using False 2(2) by (auto simp: snow_wf_def)
    ultimately show ?thesis by blast
  qed
qed simp

lemma GenId_wf: "snow_wf s \<Longrightarrow> GenId s clock = Some (s', i, rest) \<Longrightarrow> snow_wf s'"
  by (frule (1) GenId_step) (auto simp: snow_wf_def)

text \<open>\<open>k\<close> calls in a row.\<close>

fun gen_ids :: "nat \<Rightarrow> SnowFlake \<Rightarrow> int list \<Rightarrow> (SnowFlake \<times> int list) option" where
  "gen_ids 0 s clock = Some (s, [])"
| "gen_ids (Suc k) s clock =
     (case GenId s clock of
        None \<Rightarrow> None
      | Some (s1, i, rest) \<Rightarrow> map_option (apsnd ((#) i)) (gen_ids k s1 rest))"

lemma make_id_mono:
  assumes "snow_wf s" "in_range s now" "in_range s now'" "0 \<le> seq" "seq \<le> maxSequence s" "0 \<le> seq'" "seq' \<le> maxSequence s"
    and lt: "now < now' \<or> now = now' \<and> seq < seq'"
  shows "make_id s now seq < make_id s now' seq'"
proof (cases "now = now'")
  case True
  then show ?thesis using assms by (simp add: make_id_value(1))
next
  case False
  let ?m = "2 ^ machineIDBits s :: int" and ?q = "2 ^ sequenceBits s :: int"
  have m: "0 \<le> machineID s" "machineID s < ?m" "seq < ?q" using assms by (auto simp: snow_wf_def)
  have "(now - offsetTime s) * ?m + machineID s + 1 \<le> (now' - offsetTime s) * ?m + machineID s"
  proof -
    have "(now - offsetTime s + 1) * ?m \<le> (now' - offsetTime s) * ?m" using False lt by (intro mult_right_mono) auto
    then have "(now - offsetTime s) * ?m + ?m \<le> (now' - offsetTime s) * ?m" by (simp add: distrib_right)
    moreover have "(1 :: int) \<le> ?m" by simp
    ultimately show ?thesis by linarith
  qed
  then have "((now - offsetTime s) * ?m + machineID s + 1) * ?q \<le> ((now' - offsetTime s) * ?m + machineID s) * ?q"
    by (rule mult_right_mono) simp
  then have "((now - offsetTime s) * ?m + machineID s) * ?q + ?q \<le> ((now' - offsetTime s) * ?m + machineID s) * ?q"
    by (simp add: distrib_right)
  then show ?thesis using make_id_value(1) [of s now seq] make_id_value(1) [of s now' seq'] assms m by linarith
qed

lemma GenId_time:
  assumes "snow_wf s" "GenId s clock = Some (s', i, rest)" "\<forall>t \<in> set clock. in_range s t" "lastTime s < offsetTime s \<or> in_range s (lastTime s)"
  shows "in_range s (lastTime s') \<and> set rest \<subseteq> set clock"
  using assms
proof (induction s clock rule: GenId.induct)
  case (2 s t clock)
  show ?case
  proof (cases "(if t < lastTime s then lastTime s else t) = lastTime s \<and> lastSeq s \<ge> maxSequence s")
    case True
    with 2(3) obtain n clock1 where w: "waitForMillis (lastTime s) clock = Some (n, clock1)" "GenId s clock1 = Some (s', i, rest)"
      by (auto simp: Let_def split: option.splits if_splits)
    have "set clock1 \<subseteq> set clock" by (rule waitForMillis_subset [OF w(1)])
    with 2(1) [OF refl True w(1) refl 2(2) w(2) _ 2(5)] 2(4) show ?thesis by auto
  next
    case False
    then show ?thesis using 2(3-5) by (auto simp: Let_def in_range_def split: if_splits)
  qed
qed simp

lemma GenId_reads:
  assumes "snow_wf s" "GenId s clock = Some (s', i, rest)" "\<forall>t \<in> set clock. t < b" "lastTime s < b"
  shows "lastTime s' < b"
  using assms
proof (induction s clock rule: GenId.induct)
  case (2 s t clock)
  show ?case
  proof (cases "(if t < lastTime s then lastTime s else t) = lastTime s \<and> lastSeq s \<ge> maxSequence s")
    case True
    with 2(3) obtain n clock1 where w: "waitForMillis (lastTime s) clock = Some (n, clock1)" "GenId s clock1 = Some (s', i, rest)"
      by (auto simp: Let_def split: option.splits if_splits)
    with 2(1) [OF refl True w(1) refl 2(2) w(2) _ 2(5)] 2(4) waitForMillis_subset [OF w(1)] show ?thesis by auto
  next
    case False
    then show ?thesis using 2(3-5) by (auto simp: Let_def split: if_splits)
  qed
qed simp

lemma gen_ids_increasing:
  assumes "snow_wf s" and "gen_ids k s clock = Some (s', is)"
    and "\<forall>t \<in> set clock. in_range s t" and "lastTime s < offsetTime s \<or> in_range s (lastTime s)"
  shows "sorted_wrt (<) is \<and> (\<forall>i \<in> set is. 0 \<le> i \<and> i < 2 ^ 63 \<and> (\<exists>now seq. i = make_id s now seq \<and> in_range s now \<and> 0 \<le> seq \<and> seq \<le> maxSequence s
     \<and> (lastTime s < now \<or> lastTime s = now \<and> lastSeq s < seq)))"
  using assms
proof (induction k s clock arbitrary: s' "is" rule: gen_ids.induct)
  case (2 k s clock)
  from 2(3) obtain s1 i rest js where g: "GenId s clock = Some (s1, i, rest)" "gen_ids k s1 rest = Some (s', js)" "is = i # js"
    by (auto split: option.splits)
  from GenId_step [OF 2(2) g(1)] obtain now seq where
    st: "s1 = s\<lparr>lastTime := now, lastSeq := seq\<rparr>" "i = make_id s now seq" "0 \<le> seq" "seq \<le> maxSequence s"
      "lastTime s < now \<or> lastTime s = now \<and> lastSeq s < seq" by blast
  from GenId_time [OF 2(2) g(1) 2(4,5)] st(1) have r: "in_range s now" "set rest \<subseteq> set clock" by auto
  have same: "in_range s1 t = in_range s t" "make_id s1 t q = make_id s t q" for t q
    by (simp_all add: st(1) in_range_def make_id_def)
  have IH: "sorted_wrt (<) js \<and> (\<forall>j \<in> set js. 0 \<le> j \<and> j < 2 ^ 63 \<and> (\<exists>now' seq'. j = make_id s now' seq' \<and> in_range s now'
      \<and> 0 \<le> seq' \<and> seq' \<le> maxSequence s \<and> (now < now' \<or> now = now' \<and> seq < seq')))"
    using 2(1) [OF g(1) refl refl GenId_wf [OF 2(2) g(1)] g(2)] 2(4) r by (auto simp: same) (auto simp: st(1))
  have "i < j" if "j \<in> set js" for j
  proof -
    from IH that obtain now' seq' where j: "j = make_id s now' seq'" "in_range s now'" "0 \<le> seq'" "seq' \<le> maxSequence s"
      "now < now' \<or> now = now' \<and> seq < seq'" by auto
    show ?thesis unfolding j(1) st(2) by (rule make_id_mono [OF 2(2) r(1) j(2) st(3,4) j(3-5)])
  qed
  moreover have "0 \<le> i" "i < 2 ^ 63" using make_id_value(2,3) [OF 2(2) r(1) st(3,4)] st(2) by auto
  moreover have "\<exists>now' seq'. i = make_id s now' seq' \<and> in_range s now' \<and> 0 \<le> seq' \<and> seq' \<le> maxSequence s
      \<and> (lastTime s < now' \<or> lastTime s = now' \<and> lastSeq s < seq')"
    using st(2-5) r(1) by blast
  moreover have "\<exists>now' seq'. j = make_id s now' seq' \<and> in_range s now' \<and> 0 \<le> seq' \<and> seq' \<le> maxSequence s
      \<and> (lastTime s < now' \<or> lastTime s = now' \<and> lastSeq s < seq')" if "j \<in> set js" for j
  proof -
    from IH that obtain now' seq' where j: "j = make_id s now' seq'" "in_range s now'" "0 \<le> seq'" "seq' \<le> maxSequence s"
      "now < now' \<or> now = now' \<and> seq < seq'" by blast
    have "lastTime s < now' \<or> lastTime s = now' \<and> lastSeq s < seq'" using j(5) st(5) by arith
    with j(1-4) show ?thesis by blast
  qed
  moreover have "0 \<le> j \<and> j < 2 ^ 63" if "j \<in> set js" for j using IH that by blast
  moreover have "sorted_wrt (<) js" using IH by blast
  ultimately show ?case unfolding g(3) by simp
qed simp

text \<open>The parsers read the three fields back.\<close>

lemma parse_make_id:
  assumes wf: "snow_wf s" and r: "in_range s now" and q: "0 \<le> seq" "seq \<le> maxSequence s"
    and o: "0 \<le> offsetTime s" "now < 2 ^ 63"
  shows "ParseIdToTimestamp s (make_id s now seq) = now"
    and "machineIDBits s \<le> 31 \<Longrightarrow> ParseIdToMachineId s (make_id s now seq) = machineID s"
    and "sequenceBits s \<le> 31 \<Longrightarrow> ParseIdToSequence s (make_id s now seq) = seq"
proof -
  let ?tm = "(now - offsetTime s) * 2 ^ machineIDBits s + machineID s"
  have m: "0 \<le> machineID s" "machineID s < 2 ^ machineIDBits s" "0 \<le> seq" "seq < 2 ^ sequenceBits s"
    using wf q by (auto simp: snow_wf_def)
  have v: "make_id s now seq = ?tm * 2 ^ sequenceBits s + seq" by (rule make_id_value(1) [OF wf r q])
  have d: "drop_bit (sequenceBits s) (make_id s now seq) = ?tm"
    using m v by (simp add: drop_bit_eq_div)
  have "drop_bit (shiftTimestamp s) (make_id s now seq) = drop_bit (machineIDBits s) ?tm"
    using wf d by (simp add: snow_wf_def add.commute flip: drop_bit_drop_bit)
  also have "\<dots> = now - offsetTime s" using m by (simp add: drop_bit_eq_div)
  finally show "ParseIdToTimestamp s (make_id s now seq) = now"
    using o r by (simp add: ParseIdToTimestamp_def to_int64_id in_range_def)
  have mask: "a AND (2 ^ n - 1) = a mod 2 ^ n" for a :: int and n
    by (metis take_bit_eq_mask take_bit_eq_mod mask_eq_exp_minus_1)
  have small: "(2 :: int) ^ n \<le> 2 ^ 31" if "n \<le> 31" for n using that by (intro power_increasing) auto
  show "ParseIdToMachineId s (make_id s now seq) = machineID s" if "machineIDBits s \<le> 31"
    using wf d m small [OF that] by (simp add: ParseIdToMachineId_def snow_wf_def mask to_int32_id)
  show "ParseIdToSequence s (make_id s now seq) = seq" if "sequenceBits s \<le> 31"
    using wf v m small [OF that] by (simp add: ParseIdToSequence_def snow_wf_def mask to_int32_id)
qed

subsection \<open>Properties\<close>

text \<open>
  C32: The identifiers a generator hands out are strictly increasing and fit 63 bits, whatever the
  clock does (it may stand still or go backwards), as long as its readings are within the range of
  timestamps the layout can hold.
\<close>

theorem snowflake_increasing:
  assumes "SnowFlake_New config start = Inr s" and "gen_ids k s clock = Some (s', is)"
    and "\<forall>t \<in> set clock. in_range s t" and "0 < offsetTime s"
  shows "sorted_wrt (<) is \<and> (\<forall>i \<in> set is. 0 \<le> i \<and> i < 2 ^ 63)"
proof -
  have "lastTime s = 0" using assms(1) by (auto simp: SnowFlake_New_def Let_def split: if_splits option.splits)
  then show ?thesis
    using gen_ids_increasing [OF SnowFlake_New_wf [OF assms(1)] assms(2,3)] assms(4) by auto
qed

theorem snowflake_increasing_witness:
  "\<exists>s s' is. SnowFlake_New DefaultConfig 1700000000000 = Inr s
     \<and> gen_ids 3 s [1700000000001, 1700000000000, 1700000000002] = Some (s', is)
     \<and> sorted_wrt (<) is \<and> (\<forall>i \<in> set is. 0 \<le> i \<and> i < 2 ^ 63)"
proof -
  let ?clock = "[1700000000001, 1700000000000, 1700000000002] :: int list"
  have "\<exists>s s' is. SnowFlake_New DefaultConfig 1700000000000 = Inr s \<and> gen_ids 3 s ?clock = Some (s', is)
      \<and> (\<forall>t \<in> set ?clock. in_range s t) \<and> 0 < offsetTime s"
    by (simp add: SnowFlake_New_def DefaultConfig_def totalBitLength_def Let_def numeral_3_eq_3 in_range_def)
  then obtain s s' "is" where r: "SnowFlake_New DefaultConfig 1700000000000 = Inr s" "gen_ids 3 s ?clock = Some (s', is)"
    "\<forall>t \<in> set ?clock. in_range s t" "0 < offsetTime s" by blast
  from snowflake_increasing [OF r] r(1,2) show ?thesis by blast
qed

text \<open>
  The parsers invert the generator: the timestamp, machine identifier and sequence number read
  from an identifier are the ones it was made of, when the two fields that the parsers narrow to
  32 bits have at most 31 bits.
\<close>

theorem snowflake_parse:
  assumes "SnowFlake_New config start = Inr s" and "GenId s clock = Some (s', i, rest)"
    and "\<forall>t \<in> set clock. in_range s t \<and> t < 2 ^ 63" and "0 < offsetTime s"
    and "machineIDBits s \<le> 31" and "sequenceBits s \<le> 31"
  shows "ParseIdToTimestamp s i = lastTime s' \<and> ParseIdToMachineId s i = MachineID config \<and> ParseIdToSequence s i = lastSeq s'"
proof -
  have wf: "snow_wf s" by (rule SnowFlake_New_wf [OF assms(1)])
  have n: "lastTime s = 0" "machineID s = MachineID config"
    using assms(1) by (auto simp: SnowFlake_New_def Let_def split: if_splits option.splits)
  from GenId_step [OF wf assms(2)] obtain now seq where
    st: "s' = s\<lparr>lastTime := now, lastSeq := seq\<rparr>" "i = make_id s now seq" "0 \<le> seq" "seq \<le> maxSequence s" by blast
  have r: "in_range s now" using GenId_time [OF wf assms(2)] assms(3,4) n(1) st(1) by auto
  have b: "now < 2 ^ 63" using GenId_reads [OF wf assms(2), of "2 ^ 63"] assms(3) n(1) st(1) by auto
  show ?thesis using parse_make_id [OF wf r st(3,4) _ b] assms(4-6) st(1,2) n(2) by simp
qed

theorem snowflake_parse_witness:
  "\<exists>s s' i rest. SnowFlake_New (DefaultConfig\<lparr>MachineID := 7\<rparr>) 1700000000000 = Inr s
     \<and> GenId s [1700000000001] = Some (s', i, rest)
     \<and> ParseIdToTimestamp s i = lastTime s' \<and> ParseIdToMachineId s i = 7 \<and> ParseIdToSequence s i = lastSeq s'"
proof -
  have "\<exists>s s' i rest. SnowFlake_New (DefaultConfig\<lparr>MachineID := 7\<rparr>) 1700000000000 = Inr s
      \<and> GenId s [1700000000001] = Some (s', i, rest)
      \<and> (\<forall>t \<in> set [1700000000001]. in_range s t \<and> t < 2 ^ 63) \<and> 0 < offsetTime s \<and> machineIDBits s \<le> 31 \<and> sequenceBits s \<le> 31"
    by (simp add: SnowFlake_New_def DefaultConfig_def totalBitLength_def Let_def in_range_def)
  then obtain s s' i rest where r: "SnowFlake_New (DefaultConfig\<lparr>MachineID := 7\<rparr>) 1700000000000 = Inr s"
    "GenId s [1700000000001] = Some (s', i, rest)" "\<forall>t \<in> set [1700000000001]. in_range s t \<and> t < 2 ^ 63" "0 < offsetTime s"
    "machineIDBits s \<le> 31" "sequenceBits s \<le> 31" by blast
  from snowflake_parse [OF r] r(1,2) show ?thesis by auto
qed

end
