(* ===== verification/Mpsc.thy ===== *)
theory Mpsc
  imports Prelude
begin

text \<open>
  \<^verbatim>\<open>pkg/mpsc/mpsc.go\<close>: the lock-free queue with many producers and one consumer, on an explicit
  heap of nodes. \<^verbatim>\<open>Push\<close> has two atomic parts, the swap of the head (\<open>Push_swap\<close>, with the allocation
  before it) and the store of the link (\<open>Push_link\<close>), between which other goroutines run. A nil
  value is \<open>None\<close>.

  The abstract queue is a list of cells in the order of the swaps; a cell is visible to the
  consumer once its link has been stored. \<open>cells\<close> relates the heap to it.
\<close>

type_synonym addr = nat

record 'a node =
  node_next :: "addr option"
  node_val :: "'a option"

record 'a Mpsc =
  heap :: "addr \<Rightarrow> 'a node"
  head :: addr
  tail :: addr
  fresh :: addr

definition NewMpsc :: "'a Mpsc" where
  "NewMpsc = \<lparr>heap = (\<lambda>_. \<lparr>node_next = None, node_val = None\<rparr>), head = 0, tail = 0, fresh = 1\<rparr>"

text \<open>The swap returns the previous head and the new node, which the link needs.\<close>

definition Push_swap :: "'a Mpsc \<Rightarrow> 'a \<Rightarrow> 'a Mpsc \<times> addr \<times> addr" where
  "Push_swap q x =
     (let n = fresh q in
      (q\<lparr>heap := (heap q)(n := \<lparr>node_next = None, node_val = Some x\<rparr>), head := n, fresh := Suc n\<rparr>, head q, n))"

definition Push_link :: "'a Mpsc \<Rightarrow> addr \<Rightarrow> addr \<Rightarrow> 'a Mpsc" where
  "Push_link q prev n = q\<lparr>heap := (heap q)(prev := (heap q prev)\<lparr>node_next := Some n\<rparr>)\<rparr>"

definition Push :: "'a Mpsc \<Rightarrow> 'a \<Rightarrow> 'a Mpsc" where
  "Push q x = (case Push_swap q x of (q, prev, n) \<Rightarrow> Push_link q prev n)"

definition Pop :: "'a Mpsc \<Rightarrow> 'a Mpsc \<times> 'a option" where
  "Pop q =
     (case node_next (heap q (tail q)) of
        Some n \<Rightarrow> (q\<lparr>heap := (heap q)(n := (heap q n)\<lparr>node_val := None\<rparr>), tail := n\<rparr>, node_val (heap q n))
      | None \<Rightarrow> (q, None))"

definition Empty :: "'a Mpsc \<Rightarrow> bool" where
  "Empty q \<longleftrightarrow> node_next (heap q (tail q)) = None"

subsection \<open>The interface\<close>

text \<open>
  The abstract queue. A cell is its address, its value and whether the link to it has been stored.
  The laws say what each atomic part does to the list of cells.
\<close>

type_synonym 'a cell = "addr \<times> 'a \<times> bool"

definition cell_vals :: "'a cell list \<Rightarrow> 'a list" where
  "cell_vals = map (\<lambda>(n, v, l). v)"

definition cell_link :: "addr \<Rightarrow> 'a cell list \<Rightarrow> 'a cell list" where
  "cell_link n = map (\<lambda>(m, v, l). (m, v, l \<or> m = n))"

lemma cell_vals_simps [simp]:
  "cell_vals [] = []" "cell_vals ((n, v, l) # cs) = v # cell_vals cs" "cell_vals (cs @ ds) = cell_vals cs @ cell_vals ds"
  "cell_vals (cell_link m cs) = cell_vals cs" "length (cell_vals cs) = length cs"
  by (auto simp: cell_vals_def cell_link_def)

lemma cell_link_simps [simp]:
  "cell_link m [] = []" "cell_link m ((n, v, l) # cs) = (n, v, l \<or> n = m) # cell_link m cs"
  "cell_link m cs = [] \<longleftrightarrow> cs = []" "length (cell_link m cs) = length cs"
  by (auto simp: cell_link_def)

text \<open>
  \<open>R q cs P\<close>: the queue \<open>q\<close> represents the cells \<open>cs\<close>, and \<open>P\<close> are the links still to be stored,
  pairs of a previous node and a node, each held by a producer.
\<close>

locale mpsc_queue =
  fixes R :: "'q \<Rightarrow> 'a cell list \<Rightarrow> (addr \<times> addr) set \<Rightarrow> bool"
    and new_queue :: 'q
    and swap :: "'q \<Rightarrow> 'a \<Rightarrow> 'q \<times> addr \<times> addr"
    and link :: "'q \<Rightarrow> addr \<Rightarrow> addr \<Rightarrow> 'q"
    and pop :: "'q \<Rightarrow> 'q \<times> 'a option"
    and is_empty :: "'q \<Rightarrow> bool"
  assumes R_new: "R new_queue [] {}"
    and R_swap: "R q cs P \<Longrightarrow> swap q x = (q', p, n) \<Longrightarrow>
      R q' (cs @ [(n, x, False)]) (insert (p, n) P) \<and> (p, n) \<notin> P \<and> n \<notin> fst ` set cs"
    and R_link: "R q cs P \<Longrightarrow> (p, n) \<in> P \<Longrightarrow> R (link q p n) (cell_link n cs) (P - {(p, n)})"
    and R_pop_visible: "R q ((n, v, True) # cs) P \<Longrightarrow> \<exists>q'. pop q = (q', Some v) \<and> R q' cs P"
    and R_pop_hidden: "R q ((n, v, False) # cs) P \<Longrightarrow> pop q = (q, None) \<and> is_empty q"
    and R_pop_empty: "R q [] P \<Longrightarrow> pop q = (q, None) \<and> is_empty q"
    and R_hidden: "R q cs P \<Longrightarrow> (n, v, False) \<in> set cs \<Longrightarrow> \<exists>p. (p, n) \<in> P"
begin

text \<open>Without interleaving, pushing and popping is a FIFO queue.\<close>

lemma swap_then_link:
  assumes "R q cs {}" and "swap q x = (q', p, n)"
  shows "R (link q' p n) (cs @ [(n, x, True)]) {}"
proof -
  from R_swap [OF assms] have r: "R q' (cs @ [(n, x, False)]) {(p, n)}" and fr: "n \<notin> fst ` set cs" by auto
  have "cell_link n cs = cs" using fr by (force simp: cell_link_def intro!: map_idI)
  then have "cell_link n (cs @ [(n, x, False)]) = cs @ [(n, x, True)]" by (simp add: cell_link_def)
  with R_link [OF r, of p n] show ?thesis by simp
qed

lemma pop_cases:
  assumes "R q cs P" and "pop q = (q', r)"
  obtains "r = None" "q' = q" "cs = [] \<or> (\<exists>n v cs'. cs = (n, v, False) # cs')"
  | n v cs' where "r = Some v" "cs = (n, v, True) # cs'" "R q' cs' P"
proof (cases cs)
  case Nil
  then show ?thesis using that(1) R_pop_empty assms by auto
next
  case (Cons c cs')
  obtain n v l where c: "c = (n, v, l)" by (metis prod_cases3)
  show ?thesis
  proof (cases l)
    case True
    with assms Cons c R_pop_visible [of q n v cs' P] that(2) show ?thesis by auto
  next
    case False
    with assms Cons c R_pop_hidden [of q n v cs' P] that(1) show ?thesis by auto
  qed
qed

lemma pop_front:
  assumes "R q cs {}"
  obtains "cs = []" "pop q = (q, None)"
  | n v cs' q' where "cs = (n, v, True) # cs'" "pop q = (q', Some v)" "R q' cs' {}"
proof (cases "pop q")
  case (Pair q' r)
  from assms Pair show ?thesis
  proof (cases rule: pop_cases)
    case 1
    then show ?thesis using that(1) Pair R_hidden [OF assms] by fastforce
  next
    case (2 n v cs')
    then show ?thesis using that(2) Pair by blast
  qed
qed

end

subsection \<open>The heap represents the abstract queue\<close>

fun chain :: "(addr \<Rightarrow> 'a node) \<Rightarrow> addr \<Rightarrow> 'a cell list \<Rightarrow> bool" where
  "chain h t [] \<longleftrightarrow> node_next (h t) = None"
| "chain h t ((n, v, l) # cs) \<longleftrightarrow>
     node_val (h n) = Some v \<and> node_next (h t) = (if l then Some n else None) \<and> chain h n cs"

fun unlinked :: "addr \<Rightarrow> 'a cell list \<Rightarrow> (addr \<times> addr) set" where
  "unlinked t [] = {}"
| "unlinked t ((n, v, l) # cs) = (if l then {} else {(t, n)}) \<union> unlinked n cs"

definition mpsc_rel :: "'a Mpsc \<Rightarrow> 'a cell list \<Rightarrow> (addr \<times> addr) set \<Rightarrow> bool" where
  "mpsc_rel q cs P \<longleftrightarrow> chain (heap q) (tail q) cs \<and> P = unlinked (tail q) cs
     \<and> head q = last (tail q # map fst cs) \<and> distinct (tail q # map fst cs)
     \<and> (\<forall>n \<in> set (tail q # map fst cs). n < fresh q)"

lemma unlinked_range: "(p, n) \<in> unlinked t cs \<Longrightarrow> p \<in> set (t # map fst cs) \<and> n \<in> fst ` set cs"
  by (induction t cs rule: unlinked.induct) (auto split: if_splits)

lemma unlinked_hidden: "(n, v, False) \<in> set cs \<Longrightarrow> \<exists>p. (p, n) \<in> unlinked t cs"
  by (induction t cs rule: unlinked.induct) (auto split: if_splits)

lemma chain_other: "a \<notin> set (t # map fst cs) \<Longrightarrow> chain (h(a := x)) t cs = chain h t cs"
  by (induction t cs rule: unlinked.induct) auto

lemma chain_snoc:
  "chain h t cs \<Longrightarrow> n \<notin> set (t # map fst cs) \<Longrightarrow>
   chain (h(n := \<lparr>node_next = None, node_val = Some x\<rparr>)) t (cs @ [(n, x, False)])"
  by (induction t cs rule: unlinked.induct) auto

lemma unlinked_snoc:
  "unlinked t (cs @ [(n, x, False)]) = insert (last (t # map fst cs), n) (unlinked t cs)"
  by (induction t cs rule: unlinked.induct) auto

lemma cell_link_other: "n \<notin> fst ` set cs \<Longrightarrow> cell_link n cs = cs"
  by (force simp: cell_link_def intro!: map_idI)

text \<open>Storing a link that is still to be stored makes its cell visible and changes nothing else.\<close>

lemma chain_link:
  assumes "chain h t cs" and "(p, n) \<in> unlinked t cs" and "distinct (t # map fst cs)"
  shows "chain (h(p := (h p)\<lparr>node_next := Some n\<rparr>)) t (cell_link n cs) \<and> unlinked t (cell_link n cs) = unlinked t cs - {(p, n)}"
  using assms
proof (induction t cs rule: unlinked.induct)
  case (2 t m v l cs)
  show ?case
  proof (cases "(p, n) = (t, m)")
    case True
    with 2 have l: "\<not> l" using unlinked_range [of t m m cs] by (auto split: if_splits)
    have "cell_link n cs = cs" using True 2(4) by (intro cell_link_other) auto
    moreover have "(t, m) \<notin> unlinked m cs" using unlinked_range [of t m m cs] 2(4) by auto
    moreover have "chain (h(t := (h t)\<lparr>node_next := Some m\<rparr>)) m cs"
      using 2(2,4) by (subst chain_other) auto
    moreover have pn: "p = t" "n = m" using True by auto
    ultimately show ?thesis
      unfolding pn using 2(2,4) l by (simp add: fun_upd_def)
  next
    case False
    then have rec: "(p, n) \<in> unlinked m cs" using 2(3) by (auto split: if_splits)
    from unlinked_range [OF rec] have pn: "p \<noteq> t" "n \<noteq> m" using 2(4) by auto
    from 2(1) [OF _ rec] 2(2,4) pn show ?thesis by (auto split: if_splits)
  qed
qed simp

interpretation mq: mpsc_queue mpsc_rel NewMpsc Push_swap Push_link Pop Empty
proof (unfold_locales, goal_cases)
  case 1
  show ?case by (simp add: mpsc_rel_def NewMpsc_def)
next
  case (2 q cs P x q' p n)
  then have q': "n = fresh q" "p = head q" "tail q' = tail q" "head q' = n" "fresh q' = Suc n"
    "heap q' = (heap q)(n := \<lparr>node_next = None, node_val = Some x\<rparr>)"
    by (auto simp: Push_swap_def Let_def)
  have new: "n \<notin> set (tail q # map fst cs)" using 2(1) q'(1) by (auto simp: mpsc_rel_def)
  have "(p, n) \<notin> P" using unlinked_range [of p n "tail q" cs] new 2(1) by (auto simp: mpsc_rel_def)
  with 2(1) q' new show ?case
    using chain_snoc [of "heap q" "tail q" cs n x] unlinked_snoc [of "tail q" cs n x]
    by (auto simp: mpsc_rel_def)
next
  case (3 q cs P p n)
  then have "map fst (cell_link n cs) = map fst cs" by (auto simp: cell_link_def)
  with 3 chain_link [of "heap q" "tail q" cs p n] show ?case
    by (auto simp: mpsc_rel_def Push_link_def)
next
  case (4 q n v cs P)
  then have "n \<notin> set (map fst cs)" "chain (heap q) n cs" by (auto simp: mpsc_rel_def)
  moreover have "chain ((heap q)(n := (heap q n)\<lparr>node_val := None\<rparr>)) n cs"
    using calculation by (cases cs) (auto simp: chain_other)
  ultimately show ?case using 4 by (auto simp: mpsc_rel_def Pop_def)
next
  case (5 q n v cs P)
  then show ?case by (auto simp: mpsc_rel_def Pop_def Empty_def)
next
  case (6 q P)
  then show ?case by (auto simp: mpsc_rel_def Pop_def Empty_def)
next
  case (7 q cs P n v)
  then show ?case using unlinked_hidden [of n v cs "tail q"] by (simp add: mpsc_rel_def)
qed

subsection \<open>Sequential behaviour\<close>

datatype 'a queue_op = OpPush 'a | OpPop | OpEmpty

datatype 'a queue_result = RPush | RPop "'a option" | REmpty bool

fun run_mpsc :: "'a Mpsc \<Rightarrow> 'a queue_op list \<Rightarrow> 'a queue_result list" where
  "run_mpsc q [] = []"
| "run_mpsc q (OpPush x # ops) = RPush # run_mpsc (Push q x) ops"
| "run_mpsc q (OpPop # ops) = (case Pop q of (q1, r) \<Rightarrow> RPop r # run_mpsc q1 ops)"
| "run_mpsc q (OpEmpty # ops) = REmpty (Empty q) # run_mpsc q ops"

text \<open>The specification: a list.\<close>

fun run_list :: "'a list \<Rightarrow> 'a queue_op list \<Rightarrow> 'a queue_result list" where
  "run_list xs [] = []"
| "run_list xs (OpPush x # ops) = RPush # run_list (xs @ [x]) ops"
| "run_list [] (OpPop # ops) = RPop None # run_list [] ops"
| "run_list (x # xs) (OpPop # ops) = RPop (Some x) # run_list xs ops"
| "run_list xs (OpEmpty # ops) = REmpty (xs = []) # run_list xs ops"

lemma Empty_iff: "mpsc_rel q cs {} \<Longrightarrow> Empty q \<longleftrightarrow> cs = []"
  by (cases cs) (auto simp: mpsc_rel_def Empty_def split: if_splits)

lemma run_mpsc_refines: "mpsc_rel q cs {} \<Longrightarrow> run_mpsc q ops = run_list (cell_vals cs) ops"
proof (induction ops arbitrary: q cs)
  case (Cons op ops)
  show ?case
  proof (cases op)
    case (OpPush x)
    obtain q1 p n where sw: "Push_swap q x = (q1, p, n)" by (metis prod_cases3)
    from Cons.IH [OF mq.swap_then_link [OF Cons.prems sw]] show ?thesis by (simp add: OpPush Push_def sw)
  next
    case OpPop
    show ?thesis
      by (rule mq.pop_front [OF Cons.prems]) (auto simp: OpPop Cons.IH [OF Cons.prems] Cons.IH)
  next
    case OpEmpty
    have "(cell_vals cs = []) = (cs = [])" by (metis cell_vals_simps(5) length_0_conv)
    then show ?thesis using Empty_iff [OF Cons.prems] by (simp add: OpEmpty Cons.IH [OF Cons.prems])
  qed
qed simp

text \<open>
  C31: Every sequence of pushes, pops and emptiness tests on a new queue gives the results of the
  same sequence on a list: first in, first out, nothing lost, nil exactly on the empty queue.
\<close>

theorem mpsc_sequential_fifo: "run_mpsc NewMpsc ops = run_list [] ops"
  using run_mpsc_refines [OF mq.R_new, of ops] by simp

end
