(* ===== verification/Mailbox.thy ===== *)
theory Mailbox
  imports Mpsc GoErrors "HOL-Library.Sublist"
begin

text \<open>
  \<^verbatim>\<open>actor/mailbox.go\<close> and \<^verbatim>\<open>actor/dispatch.go\<close>: the mailbox on top of the queue, with its
  goroutines. A goroutine is at a program point (\<open>pc\<close>); \<open>exec\<close> is the next atomic action of a
  goroutine at a point (an atomic operation on a shared variable, or a stretch of code that
  touches none), and a step of the mailbox is an action of some goroutine. \<^verbatim>\<open>Schedule\<close> of the
  dispatcher starts \<^verbatim>\<open>processMessages\<close> in a new goroutine.

  The message counter is an integer: it counts messages in memory, of which there are fewer than
  \<open>2^31\<close>. The ghost fields \<open>pushed\<close>, \<open>popped\<close> and \<open>handled\<close> record the messages in the order
  in which they entered the queue, left it, and were passed to the invoker.
\<close>

datatype scheduler_status = idle | running

record 'm Mailbox =
  queue :: "'m Mpsc"
  schedulerStatus :: scheduler_status
  messages :: int
  capacity :: int
  pushed :: "'m list"
  popped :: "'m list"
  handled :: "'m list"

definition newMailbox :: "int \<Rightarrow> 'm Mailbox" where
  "newMailbox c = \<lparr>queue = NewMpsc, schedulerStatus = idle, messages = 0, capacity = (if c \<le> 0 then 1024 else c),
     pushed = [], popped = [], handled = []\<rparr>"

definition IsEmpty :: "'m Mailbox \<Rightarrow> bool" where
  "IsEmpty mb = Empty (queue mb)"

text \<open>
  Program points. \<open>Free\<close> is no goroutine, or one that is done. \<open>PushUserAdd\<close> and \<open>PushSystemAdd\<close>
  are the entries of \<^verbatim>\<open>PushUser\<close> and \<^verbatim>\<open>PushSystem\<close>; the points from \<open>RunLoop\<close> on are those of
  \<^verbatim>\<open>processMessages\<close> and \<^verbatim>\<open>run\<close>, with the count of messages processed since the last yield.
\<close>

datatype 'm pc =
    Free
  | PushUserAdd 'm
  | PushBackoff
  | PushSystemAdd 'm
  | PushQueue 'm
  | PushLink addr addr
  | Schedule
  | RunLoop int
  | RunDec 'm int
  | RunInvoke 'm int
  | StoreIdle
  | LoadMessages
  | CasRunning

text \<open>
  \<open>exec thr ivk mb p\<close>: the mailbox and the point after the action, and whether a goroutine is
  started. \<open>thr\<close> is \<^verbatim>\<open>dispatch.Throughput()\<close>, \<open>ivk\<close> the result of \<^verbatim>\<open>InvokerMessage\<close> given what was
  handled before.
\<close>

fun exec :: "int \<Rightarrow> ('m list \<Rightarrow> 'm \<Rightarrow> bool) \<Rightarrow> 'm Mailbox \<Rightarrow> 'm pc \<Rightarrow> 'm Mailbox \<times> 'm pc \<times> bool" where
  "exec thr ivk mb Free = (mb, Free, False)"
| "exec thr ivk mb (PushUserAdd m) =
     (let mb1 = mb\<lparr>messages := messages mb + 1\<rparr> in
      (mb1, if messages mb1 > capacity mb then PushBackoff else PushQueue m, False))"
| "exec thr ivk mb PushBackoff = (mb\<lparr>messages := messages mb - 1\<rparr>, Free, False)"
| "exec thr ivk mb (PushSystemAdd m) = (mb\<lparr>messages := messages mb + 1\<rparr>, PushQueue m, False)"
| "exec thr ivk mb (PushQueue m) =
     (case Push_swap (queue mb) m of
        (q, prev, n) \<Rightarrow> (mb\<lparr>queue := q, pushed := pushed mb @ [m]\<rparr>, PushLink prev n, False))"
| "exec thr ivk mb (PushLink prev n) = (mb\<lparr>queue := Push_link (queue mb) prev n\<rparr>, Schedule, False)"
| "exec thr ivk mb Schedule =
     (if schedulerStatus mb = idle then (mb\<lparr>schedulerStatus := running\<rparr>, Free, True) else (mb, Free, False))"
| "exec thr ivk mb (RunLoop processed) =
     (if processed \<ge> thr then (mb, RunLoop 0, False)
      else (case Pop (queue mb) of
              (q, None) \<Rightarrow> (mb\<lparr>queue := q\<rparr>, StoreIdle, False)
            | (q, Some m) \<Rightarrow> (mb\<lparr>queue := q, popped := popped mb @ [m]\<rparr>, RunDec m (processed + 1), False)))"
| "exec thr ivk mb (RunDec m processed) = (mb\<lparr>messages := messages mb - 1\<rparr>, RunInvoke m processed, False)"
| "exec thr ivk mb (RunInvoke m processed) =
     (mb\<lparr>handled := handled mb @ [m]\<rparr>, if ivk (handled mb) m then StoreIdle else RunLoop processed, False)"
| "exec thr ivk mb StoreIdle = (mb\<lparr>schedulerStatus := idle\<rparr>, LoadMessages, False)"
| "exec thr ivk mb LoadMessages = (mb, if messages mb > 0 then CasRunning else Free, False)"
| "exec thr ivk mb CasRunning =
     (if schedulerStatus mb = idle then (mb\<lparr>schedulerStatus := running\<rparr>, RunLoop 0, False) else (mb, Free, False))"

record 'm mb_sys =
  box :: "'m Mailbox"
  th :: "nat \<Rightarrow> 'm pc"

inductive mb_step :: "int \<Rightarrow> ('m list \<Rightarrow> 'm \<Rightarrow> bool) \<Rightarrow> 'm mb_sys \<Rightarrow> 'm mb_sys \<Rightarrow> bool" for thr ivk where
  call_user: "th s t = Free \<Longrightarrow> mb_step thr ivk s (s\<lparr>th := (th s)(t := PushUserAdd m)\<rparr>)"
| call_system: "th s t = Free \<Longrightarrow> mb_step thr ivk s (s\<lparr>th := (th s)(t := PushSystemAdd m)\<rparr>)"
| act: "exec thr ivk (box s) (th s t) = (mb, p, False) \<Longrightarrow> th s t \<noteq> Free \<Longrightarrow>
    mb_step thr ivk s \<lparr>box = mb, th = (th s)(t := p)\<rparr>"
| act_spawn: "exec thr ivk (box s) (th s t) = (mb, p, True) \<Longrightarrow> th s t \<noteq> Free \<Longrightarrow> th s t' = Free \<Longrightarrow>
    mb_step thr ivk s \<lparr>box = mb, th = (th s)(t := p, t' := RunLoop 0)\<rparr>"

definition mb_init :: "int \<Rightarrow> 'm mb_sys" where
  "mb_init c = \<lparr>box = newMailbox c, th = (\<lambda>_. Free)\<rparr>"

inductive mb_reachable :: "int \<Rightarrow> ('m list \<Rightarrow> 'm \<Rightarrow> bool) \<Rightarrow> int \<Rightarrow> 'm mb_sys \<Rightarrow> bool" for thr ivk c where
  mb_reach_init: "mb_reachable thr ivk c (mb_init c)"
| mb_reach_step: "mb_reachable thr ivk c s \<Longrightarrow> mb_step thr ivk s s' \<Longrightarrow> mb_reachable thr ivk c s'"

subsection \<open>The invariant\<close>

text \<open>The points inside the section that the scheduler status protects.\<close>

fun consuming :: "'m pc \<Rightarrow> bool" where
  "consuming (RunLoop k) = True"
| "consuming (RunDec m k) = True"
| "consuming (RunInvoke m k) = True"
| "consuming StoreIdle = True"
| "consuming _ = False"

text \<open>The points at which the counter is one ahead of the queue.\<close>

fun counted :: "'m pc \<Rightarrow> bool" where
  "counted PushBackoff = True"
| "counted (PushQueue m) = True"
| "counted (RunDec m k) = True"
| "counted _ = False"

text \<open>The goroutines that will still look at the queue, or make another one look at it.\<close>

definition watching :: "'m pc \<Rightarrow> bool" where
  "watching p \<longleftrightarrow> consuming p \<or> p = Schedule \<or> p = LoadMessages \<or> p = CasRunning \<or> (\<exists>a n. p = PushLink a n)"

definition threads_where :: "('m pc \<Rightarrow> bool) \<Rightarrow> (nat \<Rightarrow> 'm pc) \<Rightarrow> nat set" where
  "threads_where Q f = {t. Q (f t)}"

definition counter_ok :: "'m Mailbox \<Rightarrow> (nat \<Rightarrow> 'm pc) \<Rightarrow> 'm cell list \<Rightarrow> bool" where
  "counter_ok mb f cs \<longleftrightarrow> messages mb = int (length cs) + int (card (threads_where counted f))"

definition links_ok :: "(nat \<Rightarrow> 'm pc) \<Rightarrow> (addr \<times> addr) set \<Rightarrow> bool" where
  "links_ok f P \<longleftrightarrow> (\<forall>p n. (p, n) \<in> P \<longleftrightarrow> (\<exists>t. f t = PushLink p n))
     \<and> (\<forall>t t' p n. f t = PushLink p n \<and> f t' = PushLink p n \<longrightarrow> t = t')"

definition consumer_ok :: "'m Mailbox \<Rightarrow> (nat \<Rightarrow> 'm pc) \<Rightarrow> bool" where
  "consumer_ok mb f \<longleftrightarrow> (schedulerStatus mb = running \<longleftrightarrow> (\<exists>t. consuming (f t)))
     \<and> (\<forall>t t'. consuming (f t) \<and> consuming (f t') \<longrightarrow> t = t')"

definition order_ok :: "'m Mailbox \<Rightarrow> (nat \<Rightarrow> 'm pc) \<Rightarrow> 'm cell list \<Rightarrow> bool" where
  "order_ok mb f cs \<longleftrightarrow> pushed mb = popped mb @ cell_vals cs
     \<and> (\<forall>t m k. f t = RunDec m k \<or> f t = RunInvoke m k \<longrightarrow> popped mb = handled mb @ [m])
     \<and> ((\<forall>t m k. f t \<noteq> RunDec m k \<and> f t \<noteq> RunInvoke m k) \<longrightarrow> popped mb = handled mb)"

definition mb_inv :: "'m mb_sys \<Rightarrow> bool" where
  "mb_inv s \<longleftrightarrow> finite (threads_where (\<lambda>p. p \<noteq> Free) (th s))
     \<and> consumer_ok (box s) (th s)
     \<and> (\<exists>cs P. mpsc_rel (queue (box s)) cs P \<and> links_ok (th s) P \<and> counter_ok (box s) (th s) cs
          \<and> order_ok (box s) (th s) cs \<and> (cs \<noteq> [] \<longrightarrow> (\<exists>t. watching (th s t))))"

lemma threads_where_upd:
  "threads_where Q (f(t := p)) = (if Q p then insert t (threads_where Q f) else threads_where Q f - {t})"
  by (auto simp: threads_where_def)

lemma card_threads_upd:
  assumes "finite (threads_where Q f)"
  shows "int (card (threads_where Q (f(t := p)))) =
    int (card (threads_where Q f)) + (if Q p then 1 else 0) - (if Q (f t) then 1 else 0)"
proof (cases "Q (f t)")
  case True
  then have "t \<in> threads_where Q f" by (simp add: threads_where_def)
  then have "0 < card (threads_where Q f)" using assms by (auto simp: card_gt_0_iff)
  with True \<open>t \<in> _\<close> assms show ?thesis by (auto simp: threads_where_upd insert_absorb card_Diff_singleton of_nat_diff)
next
  case False
  then have "t \<notin> threads_where Q f" by (simp add: threads_where_def)
  with False assms show ?thesis by (auto simp: threads_where_upd)
qed

lemma finite_counted: "finite (threads_where (\<lambda>p. p \<noteq> Free) f) \<Longrightarrow> finite (threads_where counted f)"
  by (rule finite_subset [rotated]) (auto simp: threads_where_def)

subsection \<open>Each part of the invariant under a change of one goroutine\<close>

fun holding :: "'m pc \<Rightarrow> bool" where
  "holding (RunDec m k) = True"
| "holding (RunInvoke m k) = True"
| "holding _ = False"

fun linking :: "'m pc \<Rightarrow> bool" where
  "linking (PushLink p n) = True"
| "linking _ = False"

lemma links_ok_upd: "links_ok f P \<Longrightarrow> \<not> linking (f t) \<Longrightarrow> \<not> linking p \<Longrightarrow> links_ok (f(t := p)) P"
  unfolding links_ok_def by (auto simp: fun_upd_def) (metis linking.simps(1))+

lemma consumer_ok_upd:
  "consumer_ok mb f \<Longrightarrow> consuming p = consuming (f t) \<Longrightarrow> schedulerStatus mb' = schedulerStatus mb \<Longrightarrow>
   consumer_ok mb' (f(t := p))"
  unfolding consumer_ok_def by (auto simp: fun_upd_def split: if_splits)

lemma order_ok_pushed: "order_ok mb f cs \<Longrightarrow> pushed mb = popped mb @ cell_vals cs"
  by (simp add: order_ok_def)

lemma order_ok_upd:
  "order_ok mb f cs \<Longrightarrow> \<not> holding (f t) \<Longrightarrow> \<not> holding p \<Longrightarrow>
   pushed mb' = popped mb @ cell_vals cs' \<Longrightarrow> popped mb' = popped mb \<Longrightarrow> handled mb' = handled mb \<Longrightarrow>
   order_ok mb' (f(t := p)) cs'"
  unfolding order_ok_def by (auto simp: fun_upd_def split: if_splits) (metis holding.simps(1,2))+

lemma counter_ok_upd:
  assumes "counter_ok mb f cs" and "finite (threads_where (\<lambda>p. p \<noteq> Free) f)"
    and "messages mb' - int (length cs') - (if counted p then 1 else 0)
      = messages mb - int (length cs) - (if counted (f t) then 1 else 0)"
  shows "counter_ok mb' (f(t := p)) cs'"
  using assms card_threads_upd [OF finite_counted [OF assms(2)], of t p]
  by (auto simp: counter_ok_def split: if_splits)

lemma watching_upd: "watching p \<Longrightarrow> \<exists>t'. watching ((f(t := p)) t')"
  by (auto intro: exI [of _ t])

lemma watching_other: "\<exists>t'. watching (f t') \<Longrightarrow> \<not> watching (f t) \<Longrightarrow> \<exists>t'. watching ((f(t := p)) t')"
  by (metis fun_upd_apply)

lemma mb_invI:
  assumes "finite (threads_where (\<lambda>p. p \<noteq> Free) f)" "consumer_ok mb f" "mpsc_rel (queue mb) cs P" "links_ok f P"
    "counter_ok mb f cs" "order_ok mb f cs" "cs \<noteq> [] \<longrightarrow> (\<exists>t. watching (f t))"
  shows "mb_inv \<lparr>box = mb, th = f\<rparr>"
  using assms unfolding mb_inv_def by auto

lemma mb_invE:
  assumes "mb_inv s"
  obtains cs P where "finite (threads_where (\<lambda>p. p \<noteq> Free) (th s))" "consumer_ok (box s) (th s)"
    "mpsc_rel (queue (box s)) cs P" "links_ok (th s) P" "counter_ok (box s) (th s) cs" "order_ok (box s) (th s) cs"
    "cs \<noteq> [] \<longrightarrow> (\<exists>t. watching (th s t))"
  using assms unfolding mb_inv_def by blast

lemma finite_upd: "finite (threads_where Q f) \<Longrightarrow> finite (threads_where Q (f(t := p)))"
  by (simp add: threads_where_upd)

lemma holding_consuming: "holding p \<Longrightarrow> consuming p"
  by (cases p) auto

lemma consuming_watching: "consuming p \<Longrightarrow> watching p"
  by (simp add: watching_def)

text \<open>The consumer is alone: while it is at a point no other goroutine holds a message.\<close>

lemma alone: "consumer_ok mb f \<Longrightarrow> consuming (f t) \<Longrightarrow> t' \<noteq> t \<Longrightarrow> \<not> holding (f t')"
  unfolding consumer_ok_def using holding_consuming by blast

text \<open>A change that touches neither the queue nor the consumer.\<close>

lemma mb_inv_simple:
  assumes inv: "mb_inv s" and keep: "queue mb' = queue (box s)" "schedulerStatus mb' = schedulerStatus (box s)"
      "pushed mb' = pushed (box s)" "popped mb' = popped (box s)" "handled mb' = handled (box s)"
    and pc: "\<not> linking (th s t)" "\<not> linking p" "consuming p = consuming (th s t)" "\<not> holding (th s t)" "\<not> holding p"
      "watching (th s t) \<longrightarrow> watching p"
    and count: "messages mb' - (if counted p then 1 else 0) = messages (box s) - (if counted (th s t) then 1 else 0)"
  shows "mb_inv \<lparr>box = mb', th = (th s)(t := p)\<rparr>"
  using inv
proof (rule mb_invE)
  fix cs P
  assume i: "finite (threads_where (\<lambda>p. p \<noteq> Free) (th s))" "consumer_ok (box s) (th s)"
    "mpsc_rel (queue (box s)) cs P" "links_ok (th s) P" "counter_ok (box s) (th s) cs" "order_ok (box s) (th s) cs"
    "cs \<noteq> [] \<longrightarrow> (\<exists>t. watching (th s t))"
  have "cs \<noteq> [] \<longrightarrow> (\<exists>t'. watching (((th s)(t := p)) t'))"
    using i(7) pc(6) by (metis fun_upd_apply)
  moreover have "counter_ok mb' ((th s)(t := p)) cs"
    using i(5,1) count by (intro counter_ok_upd [of "box s" "th s"]) auto
  ultimately show ?thesis
    using i keep(1) consumer_ok_upd [OF i(2) pc(3) keep(2)] links_ok_upd [OF i(4) pc(1,2)]
      order_ok_upd [OF i(6) pc(4,5) _ keep(4,5)] order_ok_pushed [OF i(6)] keep(3)
    by (intro mb_invI finite_upd) simp_all
qed

text \<open>The two halves of a push.\<close>

lemma PushQueue_inv:
  assumes inv: "mb_inv s" and pc: "th s t = PushQueue m" and sw: "Push_swap (queue (box s)) m = (q, prev, n)"
  shows "mb_inv \<lparr>box = (box s)\<lparr>queue := q, pushed := pushed (box s) @ [m]\<rparr>, th = (th s)(t := PushLink prev n)\<rparr>"
  using inv
proof (rule mb_invE)
  fix cs P
  let ?f = "(th s)(t := PushLink prev n)"
  assume i: "finite (threads_where (\<lambda>p. p \<noteq> Free) (th s))" "consumer_ok (box s) (th s)"
    "mpsc_rel (queue (box s)) cs P" "links_ok (th s) P" "counter_ok (box s) (th s) cs" "order_ok (box s) (th s) cs"
  from mq.R_swap [OF i(3) sw] have r: "mpsc_rel q (cs @ [(n, m, False)]) (insert (prev, n) P)" "(prev, n) \<notin> P" by auto
  have "links_ok ?f (insert (prev, n) P)"
    using i(4) r(2) pc unfolding links_ok_def by (auto simp: fun_upd_def) (metis pc.distinct pc.inject)+
  moreover have "order_ok ((box s)\<lparr>queue := q, pushed := pushed (box s) @ [m]\<rparr>) ?f (cs @ [(n, m, False)])"
    using i(6) pc order_ok_pushed [OF i(6)] by (intro order_ok_upd [of "box s" "th s" cs]) auto
  moreover have "consumer_ok ((box s)\<lparr>queue := q, pushed := pushed (box s) @ [m]\<rparr>) ?f"
    using i(2) pc by (intro consumer_ok_upd) auto
  moreover have "counter_ok ((box s)\<lparr>queue := q, pushed := pushed (box s) @ [m]\<rparr>) ?f (cs @ [(n, m, False)])"
    using i(5,1) pc by (intro counter_ok_upd [of "box s" "th s"]) auto
  ultimately show ?thesis
    using i r(1) by (intro mb_invI finite_upd) (auto simp: watching_def)
qed

lemma PushLink_inv:
  assumes inv: "mb_inv s" and pc: "th s t = PushLink prev n"
  shows "mb_inv \<lparr>box = (box s)\<lparr>queue := Push_link (queue (box s)) prev n\<rparr>, th = (th s)(t := Schedule)\<rparr>"
  using inv
proof (rule mb_invE)
  fix cs P
  let ?f = "(th s)(t := Schedule)"
  let ?b = "(box s)\<lparr>queue := Push_link (queue (box s)) prev n\<rparr>"
  assume i: "finite (threads_where (\<lambda>p. p \<noteq> Free) (th s))" "consumer_ok (box s) (th s)"
    "mpsc_rel (queue (box s)) cs P" "links_ok (th s) P" "counter_ok (box s) (th s) cs" "order_ok (box s) (th s) cs"
  have "(prev, n) \<in> P" using i(4) pc by (auto simp: links_ok_def)
  from mq.R_link [OF i(3) this] have r: "mpsc_rel (queue ?b) (cell_link n cs) (P - {(prev, n)})" by simp
  have "links_ok ?f (P - {(prev, n)})"
    using i(4) pc unfolding links_ok_def by (auto simp: fun_upd_def) (metis pc.inject)+
  moreover have "order_ok ?b ?f (cell_link n cs)"
    using i(6) pc order_ok_pushed [OF i(6)] by (intro order_ok_upd [of "box s" "th s" cs]) auto
  moreover have "consumer_ok ?b ?f" using i(2) pc by (intro consumer_ok_upd) auto
  moreover have "counter_ok ?b ?f (cell_link n cs)"
    using i(5,1) pc by (intro counter_ok_upd [of "box s" "th s"]) auto
  ultimately show ?thesis
    using i r by (intro mb_invI finite_upd) (auto simp: watching_def)
qed

text \<open>The consumer: popping, handling, and leaving the section.\<close>

lemma RunLoop_inv:
  assumes inv: "mb_inv s" and pc: "th s t = RunLoop k" and pop: "Pop (queue (box s)) = (q, r)"
  shows "case r of
      None \<Rightarrow> mb_inv \<lparr>box = (box s)\<lparr>queue := q\<rparr>, th = (th s)(t := StoreIdle)\<rparr>
    | Some m \<Rightarrow> mb_inv \<lparr>box = (box s)\<lparr>queue := q, popped := popped (box s) @ [m]\<rparr>, th = (th s)(t := RunDec m k')\<rparr>"
  using inv
proof (rule mb_invE)
  fix cs P
  assume i: "finite (threads_where (\<lambda>p. p \<noteq> Free) (th s))" "consumer_ok (box s) (th s)"
    "mpsc_rel (queue (box s)) cs P" "links_ok (th s) P" "counter_ok (box s) (th s) cs" "order_ok (box s) (th s) cs"
  have free_hand: "\<not> holding (th s t')" for t' using alone [OF i(2), of t t'] pc by (cases "t' = t") simp_all
  from i(3) pop show ?thesis
  proof (cases rule: mq.pop_cases)
    case 1
    then show ?thesis using inv pc by (auto intro!: mb_inv_simple simp: watching_def)
  next
    case (2 n m cs')
    let ?b = "(box s)\<lparr>queue := q, popped := popped (box s) @ [m]\<rparr>"
    let ?f = "(th s)(t := RunDec m k')"
    have "popped (box s) = handled (box s)"
      using i(6) free_hand unfolding order_ok_def by (metis holding.simps(1,2))
    then have "order_ok ?b ?f cs'"
      unfolding order_ok_def using order_ok_pushed [OF i(6)] 2(2) free_hand by (auto simp: fun_upd_def) (metis holding.simps(1,2))+
    moreover have "consumer_ok ?b ?f" using i(2) pc by (intro consumer_ok_upd) auto
    moreover have "counter_ok ?b ?f cs'" using i(5,1) pc 2(2) by (intro counter_ok_upd [of "box s" "th s"]) auto
    moreover have "links_ok ?f P" using i(4) pc by (intro links_ok_upd) auto
    ultimately show ?thesis using 2 i(1) by (auto intro!: mb_invI finite_upd simp: watching_def)
  qed
qed

text \<open>Steps of the consumer that keep the queue: counting down, handling, yielding.\<close>

lemma holding_inv:
  assumes inv: "mb_inv s" and pc: "holding (th s t)" "\<not> counted p" "consuming p"
    and b: "queue mb = queue (box s)" "schedulerStatus mb = schedulerStatus (box s)" "pushed mb = pushed (box s)" "popped mb = popped (box s)"
      "messages mb = messages (box s) - (if counted (th s t) then 1 else 0)"
    and hand: "(\<exists>m k. p = RunInvoke m k \<and> th s t = RunDec m (k :: int)) \<and> handled mb = handled (box s)
      \<or> \<not> holding p \<and> (\<exists>m k. th s t = RunInvoke m k \<and> handled mb = handled (box s) @ [m])"
  shows "mb_inv \<lparr>box = mb, th = (th s)(t := p)\<rparr>"
  using inv
proof (rule mb_invE)
  fix cs P
  assume i: "finite (threads_where (\<lambda>p. p \<noteq> Free) (th s))" "consumer_ok (box s) (th s)"
    "mpsc_rel (queue (box s)) cs P" "links_ok (th s) P" "counter_ok (box s) (th s) cs" "order_ok (box s) (th s) cs"
  have cons: "consuming (th s t)" using holding_consuming [OF pc(1)] .
  have others: "\<not> holding (th s t')" if "t' \<noteq> t" for t' using alone [OF i(2) cons] that by blast
  have "order_ok mb ((th s)(t := p)) cs"
    using i(6) hand others b(3,4) unfolding order_ok_def
    by (elim disjE conjE exE) (auto simp: fun_upd_def; metis holding.simps(1,2))+
  moreover have "consumer_ok mb ((th s)(t := p))" using i(2) pc(3) cons b(2) by (intro consumer_ok_upd) auto
  moreover have "counter_ok mb ((th s)(t := p)) cs"
    using i(5,1) pc(2) b(5) by (intro counter_ok_upd [of "box s" "th s"]) auto
  moreover have "links_ok ((th s)(t := p)) P"
    using i(4) pc(1,3) by (intro links_ok_upd) (cases "th s t"; cases p; simp)+
  ultimately show ?thesis
    using i b(1) consuming_watching [OF pc(3)] by (intro mb_invI finite_upd) (auto intro: exI [of _ t])
qed

text \<open>Leaving and entering the section.\<close>

lemma consumer_leaves: "consumer_ok mb f \<Longrightarrow> consuming (f t) \<Longrightarrow> \<not> consuming p \<Longrightarrow> consumer_ok (mb\<lparr>schedulerStatus := idle\<rparr>) (f(t := p))"
  unfolding consumer_ok_def by (auto simp: fun_upd_def)

lemma consumer_enters:
  "consumer_ok mb f \<Longrightarrow> schedulerStatus mb = idle \<Longrightarrow> consuming p \<Longrightarrow> consumer_ok (mb\<lparr>schedulerStatus := running\<rparr>) (f(t := p))"
  unfolding consumer_ok_def by (auto simp: fun_upd_def split: if_splits)

lemma status_change_inv:
  assumes inv: "mb_inv s" and cons: "consumer_ok ((box s)\<lparr>schedulerStatus := st\<rparr>) ((th s)(t := p))"
    and pc: "\<not> linking (th s t)" "\<not> linking p" "\<not> holding (th s t)" "\<not> holding p" "counted p = counted (th s t)" "watching p"
  shows "mb_inv \<lparr>box = (box s)\<lparr>schedulerStatus := st\<rparr>, th = (th s)(t := p)\<rparr>"
  using inv
proof (rule mb_invE)
  fix cs P
  let ?b = "(box s)\<lparr>schedulerStatus := st\<rparr>"
  assume i: "finite (threads_where (\<lambda>p. p \<noteq> Free) (th s))" "consumer_ok (box s) (th s)"
    "mpsc_rel (queue (box s)) cs P" "links_ok (th s) P" "counter_ok (box s) (th s) cs" "order_ok (box s) (th s) cs"
  have "order_ok ?b ((th s)(t := p)) cs"
    using i(6) pc order_ok_pushed [OF i(6)] by (intro order_ok_upd [of "box s" "th s" cs]) auto
  moreover have "counter_ok ?b ((th s)(t := p)) cs"
    using i(5,1) pc by (intro counter_ok_upd [of "box s" "th s"]) auto
  moreover have "links_ok ((th s)(t := p)) P" using i(4) pc by (intro links_ok_upd)
  ultimately show ?thesis
    using i cons pc(6) by (intro mb_invI finite_upd) (auto intro: exI [of _ t])
qed

text \<open>A goroutine may end when another one consumes or when the counter says there is nothing left.\<close>

lemma leaving_inv:
  assumes inv: "mb_inv s" and pc: "\<not> linking (th s t)" "\<not> consuming (th s t)" "\<not> counted (th s t)"
    and why: "schedulerStatus (box s) = running \<or> messages (box s) \<le> 0"
  shows "mb_inv \<lparr>box = box s, th = (th s)(t := Free)\<rparr>"
proof -
  have hold: "\<not> holding (th s t)" using holding_consuming pc(2) by blast
  show ?thesis
    using inv
  proof (rule mb_invE)
    fix cs P
    assume i: "finite (threads_where (\<lambda>p. p \<noteq> Free) (th s))" "consumer_ok (box s) (th s)"
      "mpsc_rel (queue (box s)) cs P" "links_ok (th s) P" "counter_ok (box s) (th s) cs" "order_ok (box s) (th s) cs"
    have "cs \<noteq> [] \<longrightarrow> (\<exists>t'. watching (((th s)(t := Free)) t'))"
    proof (cases "schedulerStatus (box s) = running")
      case True
      then obtain t' where "consuming (th s t')" using i(2) by (auto simp: consumer_ok_def)
      with pc(2) consuming_watching show ?thesis by (metis fun_upd_apply)
    next
      case False
      with why i(5) have "int (length cs) \<le> 0" unfolding counter_ok_def by linarith
      then show ?thesis by simp
    qed
    moreover have "counter_ok (box s) ((th s)(t := Free)) cs"
      using i(5,1) pc by (intro counter_ok_upd [of "box s" "th s"]) auto
    ultimately show ?thesis
      using i pc hold order_ok_pushed [OF i(6)]
      by (intro mb_invI finite_upd consumer_ok_upd [of "box s"] links_ok_upd order_ok_upd [of "box s" "th s" cs]) auto
  qed
qed

text \<open>Starting the consumer: the producer's goroutine ends, a free one enters the section.\<close>

lemma spawn_inv:
  assumes inv: "mb_inv s" and t: "th s t = Schedule" "th s t' = Free" and st: "schedulerStatus (box s) = idle"
  shows "mb_inv \<lparr>box = (box s)\<lparr>schedulerStatus := running\<rparr>, th = (th s)(t := Free, t' := RunLoop 0)\<rparr>"
proof -
  have ne: "t \<noteq> t'" using t by auto
  let ?s = "\<lparr>box = (box s)\<lparr>schedulerStatus := running\<rparr>, th = (th s)(t' := RunLoop 0)\<rparr>"
  have "consumer_ok (box s) (th s)" using inv by (simp add: mb_inv_def)
  from consumer_enters [OF this st, of "RunLoop 0" t'] have "mb_inv ?s"
    using t inv by (intro status_change_inv) (auto simp: watching_def)
  from leaving_inv [OF this, of t] t ne show ?thesis by (simp add: fun_upd_twist)
qed

lemma act_inv:
  assumes "exec thr ivk (box s) (th s t) = (mb, p, False)" and inv: "mb_inv s" and "th s t \<noteq> Free"
  shows "mb_inv \<lparr>box = mb, th = (th s)(t := p)\<rparr>"
proof (cases "th s t")
  case (PushQueue m)
  with assms PushQueue_inv [OF inv PushQueue] show ?thesis by (auto split: prod.splits)
next
  case (PushLink prev n)
  with assms PushLink_inv [OF inv PushLink] show ?thesis by auto
next
  case (RunLoop k)
  obtain q r where pop: "Pop (queue (box s)) = (q, r)" by fastforce
  show ?thesis
  proof (cases "k \<ge> thr")
    case True
    with assms RunLoop show ?thesis by (auto intro!: mb_inv_simple simp: watching_def)
  next
    case False
    with RunLoop_inv [OF inv RunLoop pop, of "k + 1"] assms RunLoop pop show ?thesis by (cases r) auto
  qed
next
  case (RunDec m k)
  then show ?thesis using assms by (auto intro!: holding_inv)
next
  case (RunInvoke m k)
  then show ?thesis using assms by (auto intro!: holding_inv split: if_splits)
next
  case StoreIdle
  have "consumer_ok (box s) (th s)" using inv by (simp add: mb_inv_def)
  from consumer_leaves [OF this, of t LoadMessages] StoreIdle
  have "consumer_ok ((box s)\<lparr>schedulerStatus := idle\<rparr>) ((th s)(t := LoadMessages))" by simp
  with inv StoreIdle have "mb_inv \<lparr>box = (box s)\<lparr>schedulerStatus := idle\<rparr>, th = (th s)(t := LoadMessages)\<rparr>"
    by (intro status_change_inv) (auto simp: watching_def)
  then show ?thesis using assms(1) StoreIdle by simp
next
  case LoadMessages
  show ?thesis
  proof (cases "messages (box s) > 0")
    case True
    then show ?thesis using assms LoadMessages by (auto intro!: mb_inv_simple simp: watching_def)
  next
    case False
    then show ?thesis using assms LoadMessages leaving_inv [OF inv, of t] by auto
  qed
next
  case CasRunning
  show ?thesis
  proof (cases "schedulerStatus (box s)")
    case idle
    have "consumer_ok (box s) (th s)" using inv by (simp add: mb_inv_def)
    from consumer_enters [OF this idle, of "RunLoop 0" t]
    have "mb_inv \<lparr>box = (box s)\<lparr>schedulerStatus := running\<rparr>, th = (th s)(t := RunLoop 0)\<rparr>"
      using inv CasRunning by (intro status_change_inv) (auto simp: watching_def)
    then show ?thesis using assms(1) CasRunning idle by simp
  next
    case running
    then show ?thesis using assms(1) CasRunning leaving_inv [OF inv, of t] by simp
  qed
next
  case Schedule
  then show ?thesis
    using assms leaving_inv [OF inv, of t] by (cases "schedulerStatus (box s)") auto
qed (use assms in \<open>auto intro!: mb_inv_simple simp: watching_def Let_def split: if_splits\<close>)

lemma mb_step_inv: "mb_step thr ivk s s' \<Longrightarrow> mb_inv s \<Longrightarrow> mb_inv s'"
proof (induction rule: mb_step.induct)
  case (call_user s t m)
  then have "mb_inv \<lparr>box = box s, th = (th s)(t := PushUserAdd m)\<rparr>" by (intro mb_inv_simple) (auto simp: watching_def)
  then show ?case by (simp add: mb_inv_def)
next
  case (call_system s t m)
  then have "mb_inv \<lparr>box = box s, th = (th s)(t := PushSystemAdd m)\<rparr>" by (intro mb_inv_simple) (auto simp: watching_def)
  then show ?case by (simp add: mb_inv_def)
next
  case (act s t mb p)
  then show ?case by (intro act_inv)
next
  case (act_spawn s t mb p t')
  then have "th s t = Schedule" "schedulerStatus (box s) = idle" "mb = (box s)\<lparr>schedulerStatus := running\<rparr>" "p = Free"
    by (cases "th s t"; auto simp: Let_def split: if_splits prod.splits option.splits)+
  with spawn_inv [of s t t'] act_spawn show ?case by simp
qed

lemma mb_init_inv: "mb_inv (mb_init c)"
  unfolding mb_init_def newMailbox_def
  by (rule mb_invI [where cs = "[]" and P = "{}"])
    (auto simp: threads_where_def consumer_ok_def mq.R_new links_ok_def counter_ok_def order_ok_def)

lemma mb_reachable_inv: "mb_reachable thr ivk c s \<Longrightarrow> mb_inv s"
  by (induction rule: mb_reachable.induct) (auto intro: mb_init_inv mb_step_inv)

subsection \<open>Properties of the mailbox\<close>

text \<open>
  C29: At every moment at most one goroutine handles messages of a mailbox, and one does exactly
  when the scheduler status says so, however the goroutines interleave.
\<close>

theorem mailbox_single_consumer:
  assumes "mb_reachable thr ivk c s"
  shows "(consuming (th s t) \<and> consuming (th s t') \<longrightarrow> t = t')
    \<and> (schedulerStatus (box s) = running \<longleftrightarrow> (\<exists>t. consuming (th s t)))"
  using mb_reachable_inv [OF assms] by (auto simp: mb_inv_def consumer_ok_def)

text \<open>
  C30: Messages are handled in the order in which they entered the queue, none twice, none
  skipped; at most the one in the consumer's hand is out of the queue and not yet handled.
\<close>

theorem mailbox_fifo:
  assumes "mb_reachable thr ivk c s"
  shows "prefix (handled (box s)) (pushed (box s)) \<and> prefix (popped (box s)) (pushed (box s))
    \<and> length (popped (box s)) \<le> Suc (length (handled (box s)))"
proof -
  from mb_reachable_inv [OF assms] obtain cs where o: "order_ok (box s) (th s) cs" by (auto simp: mb_inv_def)
  then have "popped (box s) = handled (box s) \<or> (\<exists>m. popped (box s) = handled (box s) @ [m])"
    unfolding order_ok_def by metis
  with order_ok_pushed [OF o] show ?thesis by auto
qed

text \<open>
  C6: No wakeup is lost: when every goroutine of a mailbox has come to rest, the queue is empty,
  the counter is zero, the mailbox is idle and every message that entered the queue has been handled.
\<close>

theorem mailbox_no_lost_wakeup:
  assumes "mb_reachable thr ivk c s" and rest: "\<forall>t. th s t = Free"
  shows "IsEmpty (box s) \<and> messages (box s) = 0 \<and> schedulerStatus (box s) = idle \<and> handled (box s) = pushed (box s)"
proof -
  from mb_reachable_inv [OF assms(1)] obtain cs P where
    i: "consumer_ok (box s) (th s)" "mpsc_rel (queue (box s)) cs P" "counter_ok (box s) (th s) cs" "order_ok (box s) (th s) cs"
      "cs \<noteq> [] \<longrightarrow> (\<exists>t. watching (th s t))" by (auto simp: mb_inv_def)
  have cs: "cs = []" using i(5) rest by (auto simp: watching_def)
  have "schedulerStatus (box s) = idle" using i(1) rest by (cases "schedulerStatus (box s)") (auto simp: consumer_ok_def)
  moreover have "threads_where counted (th s) = {}" using rest by (simp add: threads_where_def)
  then have "messages (box s) = 0" using i(3) cs by (simp add: counter_ok_def)
  moreover have "handled (box s) = pushed (box s)" using i(4) cs rest unfolding order_ok_def by auto
  moreover have "IsEmpty (box s)" using mq.R_pop_empty i(2) cs by (auto simp: IsEmpty_def)
  ultimately show ?thesis by blast
qed

subsection \<open>An example run\<close>

text \<open>One goroutine pushes a message, another one is started and handles it, and both end.\<close>

definition run_one :: "'m mb_sys \<Rightarrow> nat \<Rightarrow> 'm mb_sys" where
  "run_one s t = (case exec 300 (\<lambda>_ _. False) (box s) (th s t) of
      (mb, p, True) \<Rightarrow> \<lparr>box = mb, th = (th s)(t := p, Suc t := RunLoop 0)\<rparr>
    | (mb, p, False) \<Rightarrow> \<lparr>box = mb, th = (th s)(t := p)\<rparr>)"

lemma run_one_reachable:
  assumes "mb_reachable 300 (\<lambda>_ _. False) c s" and "th s t \<noteq> Free" and "th s (Suc t) = Free \<or> th s t \<noteq> Schedule"
  shows "mb_reachable 300 (\<lambda>_ _. False) c (run_one s t)"
proof -
  obtain mb p sp where e: "exec 300 (\<lambda>_ _. False) (box s) (th s t) = (mb, p, sp)" by (metis prod_cases3)
  show ?thesis
  proof (cases sp)
    case True
    then have "th s t = Schedule" using e assms(2)
      by (cases "th s t"; auto simp: Let_def split: if_splits prod.splits option.splits)
    with True e assms show ?thesis
      unfolding run_one_def by (auto intro: mb_reach_step [OF assms(1) act_spawn])
  next
    case False
    with e assms show ?thesis unfolding run_one_def by (auto intro: mb_reach_step [OF assms(1) act])
  qed
qed

fun run_all :: "'m mb_sys \<Rightarrow> nat list \<Rightarrow> 'm mb_sys" where
  "run_all s [] = s"
| "run_all s (t # ts) = run_all (run_one s t) ts"

fun runs_ok :: "'m mb_sys \<Rightarrow> nat list \<Rightarrow> bool" where
  "runs_ok s [] = True"
| "runs_ok s (t # ts) = (th s t \<noteq> Free \<and> (th s (Suc t) = Free \<or> th s t \<noteq> Schedule) \<and> runs_ok (run_one s t) ts)"

lemma run_all_reachable:
  "mb_reachable 300 (\<lambda>_ _. False) c s \<Longrightarrow> runs_ok s ts \<Longrightarrow> mb_reachable 300 (\<lambda>_ _. False) c (run_all s ts)"
  by (induction s ts rule: run_all.induct) (auto intro: run_one_reachable)

lemma run_all_other: "\<forall>t \<in> set ts. Suc t < u \<Longrightarrow> th (run_all s ts) u = th s u"
  by (induction s ts rule: run_all.induct) (auto simp: run_one_def split: prod.splits bool.splits)

definition sample_mb :: "nat list \<Rightarrow> nat mb_sys" where
  "sample_mb ts = run_all \<lparr>box = newMailbox 8, th = (\<lambda>_. Free)(0 := PushUserAdd 7)\<rparr> ts"

lemma sample_mb_reachable:
  assumes "runs_ok \<lparr>box = newMailbox 8, th = (\<lambda>_. Free)(0 := PushUserAdd (7 :: nat))\<rparr> ts"
  shows "mb_reachable 300 (\<lambda>_ _. False) 8 (sample_mb ts)"
proof -
  have "mb_reachable 300 (\<lambda>_ _. False) 8 \<lparr>box = newMailbox 8, th = (\<lambda>_. Free)(0 := PushUserAdd (7 :: nat))\<rparr>"
    using mb_reach_step [OF mb_reach_init call_user, of 8 0 300 "\<lambda>_ _. False" "7 :: nat"] by (simp add: mb_init_def)
  from run_all_reachable [OF this assms] show ?thesis by (simp add: sample_mb_def)
qed

theorem mailbox_single_consumer_witness:
  "consuming (th (sample_mb [0, 0, 0, 0]) 1) \<and> schedulerStatus (box (sample_mb [0, 0, 0, 0])) = running"
proof -
  have "mb_reachable 300 (\<lambda>_ _. False) 8 (sample_mb [0, 0, 0, 0])" by (rule sample_mb_reachable) code_simp
  from mailbox_single_consumer [OF this, of 1 1] have
    "schedulerStatus (box (sample_mb [0, 0, 0, 0])) = running \<longleftrightarrow> (\<exists>t. consuming (th (sample_mb [0, 0, 0, 0]) t))" by blast
  moreover have "consuming (th (sample_mb [0, 0, 0, 0]) 1)" by code_simp
  ultimately show ?thesis by blast
qed

theorem mailbox_fifo_witness:
  "prefix (handled (box (sample_mb [0, 0, 0, 0, 1]))) (pushed (box (sample_mb [0, 0, 0, 0, 1])))
     \<and> pushed (box (sample_mb [0, 0, 0, 0, 1])) = [7]"
proof -
  have "mb_reachable 300 (\<lambda>_ _. False) 8 (sample_mb [0, 0, 0, 0, 1])" by (rule sample_mb_reachable) code_simp
  from mailbox_fifo [OF this] show ?thesis by (intro conjI) (blast, code_simp)
qed

theorem mailbox_no_lost_wakeup_witness:
  "handled (box (sample_mb [0, 0, 0, 0, 1, 1, 1, 1, 1, 1])) = [7] \<and> messages (box (sample_mb [0, 0, 0, 0, 1, 1, 1, 1, 1, 1])) = 0"
proof -
  let ?s = "sample_mb [0, 0, 0, 0, 1, 1, 1, 1, 1, 1]"
  have "mb_reachable 300 (\<lambda>_ _. False) 8 ?s" by (rule sample_mb_reachable) code_simp
  moreover have "th ?s t = Free" for t
  proof -
    have "th ?s 0 = Free" "th ?s 1 = Free" by code_simp+
    moreover have "th ?s t = Free" if "2 < t" using that unfolding sample_mb_def by (subst run_all_other) simp_all
    moreover have "th ?s 2 = Free" by code_simp
    ultimately show ?thesis by (metis One_nat_def less_2_cases linorder_neqE_nat)
  qed
  ultimately have "handled (box ?s) = pushed (box ?s) \<and> messages (box ?s) = 0" using mailbox_no_lost_wakeup by blast
  moreover have "pushed (box ?s) = [7]" by code_simp
  ultimately show ?thesis by simp
qed

end
