(* ===== verification/ActorSystem.thy ===== *)
theory ActorSystem
  imports ActorTypes Component Snowflake Mailbox
begin

text \<open>
  The actor system of one node: \<^verbatim>\<open>actor/manager.go\<close>, \<^verbatim>\<open>actor/process.go\<close>, \<^verbatim>\<open>actor/sender.go\<close>,
  \<^verbatim>\<open>actor/system.go\<close> and \<^verbatim>\<open>actor/remote.go\<close>. A \<^verbatim>\<open>*Process\<close> is an index into the list of all
  processes ever created; the two maps of the manager are association lists from identifiers and
  names to such indices.

  A mailbox is here the list of the envelopes that wait in it: theory \<open>Mailbox\<close> shows that the
  concurrent mailbox hands out what entered it in order, to one goroutine at a time, and forgets
  nothing. Each operation of the API that holds a lock, and the sequence of such operations that a
  call makes, is one step; the interleaving of calls is that of theory \<open>ActorRun\<close>.

  What an actor does in a callback is a \<open>prog\<close>: a tree of calls of the \<^verbatim>\<open>Context\<close> interface, each
  with a continuation for its result. \<open>Ret\<close> ends the callback with the new state of the actor (and
  the results of \<^verbatim>\<open>HandleAsk\<close>), \<open>Panic\<close> is a panic of the callback, \<open>Read\<close> looks at the context.
  \<open>Wait\<close> is the point inside \<^verbatim>\<open>Ask\<close> where the goroutine blocks on the channel of the result.

  The ghost fields \<open>accepted\<close>, \<open>handled\<close>, \<open>forced\<close> of a process and \<open>issued_reqs\<close> of a system record
  what was put into the mailbox, what was taken out, the number of \<^verbatim>\<open>ForceStop\<close> calls, and the
  number of requests registered; \<open>outbox\<close> is what was given to the remote sender.
\<close>

subsection \<open>Callbacks as programs\<close>

record ('k, 'm) view =
  v_self :: PID
  v_sender :: "PID option"
  v_message :: "('k, 'm) payload"
  v_meta :: MessageMeta
  v_initArgs :: "('k, 'm) any list"

datatype ('a, 'k, 'm) prog =
    Ret 'a "('k, 'm) any" err
  | Panic 'a "('k, 'm) any"
  | Read "('k, 'm) view \<Rightarrow> ('a, 'k, 'm) prog"
  | CtxTell "PID option" "('k, 'm) any" "err \<Rightarrow> ('a, 'k, 'm) prog"
  | CtxForward "PID option" "('k, 'm) any" "err \<Rightarrow> ('a, 'k, 'm) prog"
  | CtxAsk "PID option" "('k, 'm) any" "('k, 'm) any \<Rightarrow> err \<Rightarrow> ('a, 'k, 'm) prog"
  | Wait nat "('k, 'm) any \<Rightarrow> err \<Rightarrow> ('a, 'k, 'm) prog"
  | CtxAskAsync "PID option" "('k, 'm) any" "'k option" "err \<Rightarrow> ('a, 'k, 'm) prog"
  | CtxRespond "('k, 'm) any" "err \<Rightarrow> ('a, 'k, 'm) prog"
  | CtxRespondError err "err \<Rightarrow> ('a, 'k, 'm) prog"
  | CtxTicker 'k "int \<Rightarrow> ('a, 'k, 'm) prog"
  | CtxAfterFunc 'k "int \<Rightarrow> ('a, 'k, 'm) prog"
  | CtxStopTimer int "('a, 'k, 'm) prog"
  | CtxSetAskTimeout int "('a, 'k, 'm) prog"
  | CtxStop "('a, 'k, 'm) prog"
  | CtxForceStop 'a "'a \<Rightarrow> ('a, 'k, 'm) prog"
  | CtxStopProcess "PID option" "PID option" "('a, 'k, 'm) prog"
  | CtxSpawn "'a option" "('k, 'm) SpawnOptions" "PID option \<Rightarrow> err \<Rightarrow> ('a, 'k, 'm) prog"

text \<open>The kinds of frames on the stack of the goroutine that runs a process.\<close>

datatype fkind = FInit | FTell | FAsk | FTask | FAfter int | FDestroy | FForce | FPanic

subsection \<open>State\<close>

datatype 'k timer = AfterTimer 'k bool | TickTimer 'k

record ('a, 'k, 'm) Process =
  pid :: PID
  actor :: 'a
  mailbox :: "('k, 'm) Envelope list"
  mb_capacity :: int
  current :: "('k, 'm) Envelope"
  responded :: bool
  timerId :: int
  timers :: "(int \<times> 'k timer) list"
  closing :: bool
  closed :: bool
  askTimeout :: int
  initArgs :: "('k, 'm) any list"
  stack :: "(fkind \<times> ('a, 'k, 'm) prog) list"
  accepted :: "('k, 'm) payload list"
  handled_msgs :: "('k, 'm) payload list"
  forced :: nat

text \<open>What a completion of a request does: send to the channel of \<^verbatim>\<open>Ask\<close>, or post the task of \<^verbatim>\<open>AskAsync\<close>.\<close>

datatype 'k completion = AskChan nat | AskTask 'k PID PID

record ('a, 'k, 'm) System =
  nodeID :: string
  ids :: "(64 word \<times> nat) list"
  names :: "(string \<times> nat) list"
  waitGroup :: int
  procs :: "('a, 'k, 'm) Process list"
  requests :: "'k completion requestManager"
  idGenerator :: SnowFlake
  remoteSender :: "(string \<Rightarrow> bytes \<Rightarrow> err) option"
  stopping :: bool
  sys_lifecycle :: Controller
  chans :: "(('k, 'm) any \<times> err) list list"
  outbox :: "(string \<times> bytes) list"
  issued_reqs :: nat

record 'm act_env =
  lib :: "'m proto_lib"
  wire :: "RemoteActorMessage proto_lib"

definition NewSystemWithOptions :: "string \<Rightarrow> (string \<Rightarrow> bytes \<Rightarrow> err) option \<Rightarrow> SnowFlake \<Rightarrow> request_id \<Rightarrow> ('a, 'k, 'm) System" where
  "NewSystemWithOptions node sender gen seed =
     \<lparr>nodeID = node, ids = [], names = [], waitGroup = 0, procs = [],
      requests = newRequestManager seed defaultMaxPendingRequests, idGenerator = gen, remoteSender = sender,
      stopping = False, sys_lifecycle = new_Controller, chans = [], outbox = [], issued_reqs = 0\<rparr>"

definition upd_proc :: "nat \<Rightarrow> (('a, 'k, 'm) Process \<Rightarrow> ('a, 'k, 'm) Process) \<Rightarrow> ('a, 'k, 'm) System \<Rightarrow> ('a, 'k, 'm) System" where
  "upd_proc i f s = s\<lparr>procs := (procs s)[i := f (procs s ! i)]\<rparr>"

subsection \<open>The manager\<close>

definition addLocked :: "PID \<Rightarrow> nat \<Rightarrow> ('a, 'k, 'm) System \<Rightarrow> ('a, 'k, 'm) System" where
  "addLocked p i s =
     (let s1 = (if ActorName p \<noteq> [] then s\<lparr>names := AList.update (ActorName p) i (names s)\<rparr> else s) in
      if ActorID p > 0 then s1\<lparr>ids := AList.update (ActorID p) i (ids s1), waitGroup := waitGroup s1 + 1\<rparr> else s1)"

definition removeId :: "64 word \<Rightarrow> ('a, 'k, 'm) System \<Rightarrow> ('a, 'k, 'm) System" where
  "removeId i s =
     (if i \<le> 0 then s
      else if map_of (ids s) i = None then s
      else s\<lparr>waitGroup := waitGroup s - 1, ids := AList.delete i (ids s)\<rparr>)"

definition removeName :: "string \<Rightarrow> ('a, 'k, 'm) System \<Rightarrow> ('a, 'k, 'm) System" where
  "removeName name s = (if name = [] then s else s\<lparr>names := AList.delete name (names s)\<rparr>)"

definition manager_remove :: "PID \<Rightarrow> ('a, 'k, 'm) System \<Rightarrow> ('a, 'k, 'm) System" where
  "manager_remove p s = removeId (ActorID p) (removeName (ActorName p) s)"

definition getByName :: "string \<Rightarrow> ('a, 'k, 'm) System \<Rightarrow> nat option" where
  "getByName name s = (if name = [] then None else map_of (names s) name)"

definition getById :: "64 word \<Rightarrow> ('a, 'k, 'm) System \<Rightarrow> nat option" where
  "getById i s = (if i \<le> 0 then None else map_of (ids s) i)"

definition manager_count :: "('a, 'k, 'm) System \<Rightarrow> nat" where
  "manager_count s = length (ids s)"

definition getProcess :: "PID option \<Rightarrow> ('a, 'k, 'm) System \<Rightarrow> nat result" where
  "getProcess target s =
     (case target of
        None \<Rightarrow> Inl ErrPidNil
      | Some p \<Rightarrow>
          if NodeID p \<noteq> nodeID s then Inl (Wrap (''nodeId:'' @ NodeID p @ '' '') ErrNotLocal [])
          else (case getById (ActorID p) s of
                  Some i \<Rightarrow> Inr i
                | None \<Rightarrow> (case getByName (ActorName p) s of Some i \<Rightarrow> Inr i | None \<Rightarrow> Inl ErrNotFound)))"

subsection \<open>A process\<close>

text \<open>The two ways into a mailbox.\<close>

definition enqueue :: "('k, 'm) Envelope \<Rightarrow> ('a, 'k, 'm) Process \<Rightarrow> ('a, 'k, 'm) Process" where
  "enqueue e p = p\<lparr>mailbox := mailbox p @ [e], accepted := accepted p @ [Payload e]\<rparr>"

definition Process_Push :: "('k, 'm) Envelope \<Rightarrow> nat \<Rightarrow> ('a, 'k, 'm) System \<Rightarrow> ('a, 'k, 'm) System \<times> err" where
  "Process_Push e i s =
     (if closing (procs s ! i) then (s, Some ErrActorProcessStopped)
      else if int (length (mailbox (procs s ! i))) + 1 > mb_capacity (procs s ! i) then (s, Some ErrMailboxFull)
      else (upd_proc i (enqueue e) s, None))"

definition Process_PushSystem :: "('k, 'm) Envelope \<Rightarrow> nat \<Rightarrow> ('a, 'k, 'm) System \<Rightarrow> ('a, 'k, 'm) System \<times> err" where
  "Process_PushSystem e i s =
     (if closing (procs s ! i) then (s, Some ErrActorProcessStopped)
      else (upd_proc i (enqueue e) s, None))"

definition Process_Stop :: "PID option \<Rightarrow> nat \<Rightarrow> ('a, 'k, 'm) System \<Rightarrow> ('a, 'k, 'm) System" where
  "Process_Stop from i s =
     (if closing (procs s ! i) then s
      else upd_proc i (\<lambda>p. enqueue \<lparr>Payload = StopMessage, Sender = from, Meta = no_meta\<rparr> (p\<lparr>closing := True\<rparr>)) s)"

definition stopTimer :: "int \<Rightarrow> ('a, 'k, 'm) Process \<Rightarrow> ('a, 'k, 'm) Process" where
  "stopTimer t p = p\<lparr>timers := AList.delete t (timers p)\<rparr>"

definition clearTimers :: "('a, 'k, 'm) Process \<Rightarrow> ('a, 'k, 'm) Process" where
  "clearTimers p = p\<lparr>timers := []\<rparr>"

definition add_timer :: "'k timer \<Rightarrow> ('a, 'k, 'm) Process \<Rightarrow> ('a, 'k, 'm) Process" where
  "add_timer t p = p\<lparr>timerId := timerId p + 1, timers := AList.update (timerId p + 1) t (timers p)\<rparr>"

definition Process_after :: "'k \<Rightarrow> nat \<Rightarrow> ('a, 'k, 'm) System \<Rightarrow> ('a, 'k, 'm) System \<times> int" where
  "Process_after k i s = (upd_proc i (add_timer (AfterTimer k False)) s, timerId (procs s ! i) + 1)"

definition Process_ticker :: "'k \<Rightarrow> nat \<Rightarrow> ('a, 'k, 'm) System \<Rightarrow> ('a, 'k, 'm) System \<times> int" where
  "Process_ticker k i s = (upd_proc i (add_timer (TickTimer k)) s, timerId (procs s ! i) + 1)"

text \<open>The timer wheel fires a timer of process \<open>i\<close> that has not been stopped; \<^verbatim>\<open>After\<close> fires once.\<close>

definition task_envelope :: "('k, 'm) task \<Rightarrow> ('k, 'm) Envelope" where
  "task_envelope t = \<lparr>Payload = User (TaskFn t), Sender = Some NoSender, Meta = no_meta\<rparr>"

definition fire_timer :: "int \<Rightarrow> nat \<Rightarrow> ('a, 'k, 'm) System \<Rightarrow> ('a, 'k, 'm) System" where
  "fire_timer t i s =
     (case map_of (timers (procs s ! i)) t of
        None \<Rightarrow> s
      | Some (AfterTimer k True) \<Rightarrow> s
      | Some (AfterTimer k False) \<Rightarrow>
          fst (Process_PushSystem (task_envelope (AfterTask t k)) i
            (upd_proc i (\<lambda>p. p\<lparr>timers := AList.update t (AfterTimer k True) (timers p)\<rparr>) s))
      | Some (TickTimer k) \<Rightarrow> fst (Process_PushSystem (task_envelope (UserTask k)) i s))"

subsection \<open>Remote messages out\<close>

definition as_message :: "('k, 'm) any \<Rightarrow> 'm option" where
  "as_message v = (case v of Val m \<Rightarrow> Some m | _ \<Rightarrow> None)"

definition payload_value :: "('k, 'm) payload \<Rightarrow> 'm option" where
  "payload_value p = (case p of User v \<Rightarrow> as_message v | _ \<Rightarrow> None)"

definition sendRemoteMessage :: "'m act_env \<Rightarrow> RemoteActorMessage option \<Rightarrow> ('a, 'k, 'm) System \<Rightarrow> ('a, 'k, 'm) System \<times> err" where
  "sendRemoteMessage env message s =
     (case remoteSender s of
        None \<Rightarrow> (s, Some ErrRemoteSenderNil)
      | Some send \<Rightarrow>
          (case message of
             None \<Rightarrow> (s, Some ErrRemoteMessageNil)
           | Some msg \<Rightarrow>
               (case Common msg of
                  None \<Rightarrow> (s, Some ErrRemoteCommonInvalid)
                | Some common \<Rightarrow>
                    (case Marshal (wire env) (Some msg) of
                       Inl e \<Rightarrow> (s, Some (Wrap ''marshal remote message:'' e []))
                     | Inr data \<Rightarrow>
                         (case send (TargetNodeId common) data of
                            Some e \<Rightarrow> (s, Some (Wrap ''send remote message:'' e []))
                          | None \<Rightarrow> (s\<lparr>outbox := outbox s @ [(TargetNodeId common, data)]\<rparr>, None))))))"

definition sendRemoteEnvelope :: "'m act_env \<Rightarrow> PID \<Rightarrow> ('k, 'm) Envelope \<Rightarrow> ('a, 'k, 'm) System \<Rightarrow> ('a, 'k, 'm) System \<times> err" where
  "sendRemoteEnvelope env target envelope s =
     (case MarshalWithName (lib env) (payload_value (Payload envelope)) of
        Inl e \<Rightarrow> (s, Some (Wrap ''marshal remote payload:'' e []))
      | Inr (messageName, data) \<Rightarrow>
          (let s1 = (case meta_Request (Meta envelope) of
                       Some r \<Rightarrow> if ref_NodeID r = nodeID s
                                 then s\<lparr>requests := rm_retarget (requests s) (ref_RequestID r) (NodeID target)\<rparr> else s
                     | None \<Rightarrow> s) in
           sendRemoteMessage env (Some
             \<lparr>Common = Some \<lparr>SourcePid = pidToProto (Sender envelope), TargetPid = pidToProto (Some target), TargetNodeId = NodeID target\<rparr>,
              Body = Body_Request (Some \<lparr>rq_MessageName = messageName, rq_Payload = data,
                       rq_Request = requestRefToProto (meta_Request (Meta envelope))\<rparr>)\<rparr>) s1))"

definition sendRemoteAskResponse :: "'m act_env \<Rightarrow> PID \<Rightarrow> RequestRef \<Rightarrow> ('k, 'm) any \<Rightarrow> ('a, 'k, 'm) System \<Rightarrow> ('a, 'k, 'm) System \<times> err" where
  "sendRemoteAskResponse env from request message s =
     (case MarshalWithName (lib env) (as_message message) of
        Inl e \<Rightarrow> (s, Some (Wrap ''marshal remote ask response:'' e []))
      | Inr (messageName, payload) \<Rightarrow>
          sendRemoteMessage env (Some
            \<lparr>Common = Some \<lparr>SourcePid = pidToProto (Some from), TargetPid = None, TargetNodeId = ref_NodeID request\<rparr>,
             Body = Body_Response (Some \<lparr>Kind = ASK_RESPONSE, rs_Request = requestRefToProto (Some request),
                      rs_MessageName = messageName, rs_Payload = payload, rs_Error = [], rs_ErrorCode = 0\<rparr>)\<rparr>) s)"

definition sendRemoteRequestError :: "'m act_env \<Rightarrow> PID option \<Rightarrow> RequestRef \<Rightarrow> go_error \<Rightarrow> ('a, 'k, 'm) System \<Rightarrow> ('a, 'k, 'm) System \<times> err" where
  "sendRemoteRequestError env from request cause s =
     sendRemoteMessage env (Some
       \<lparr>Common = Some \<lparr>SourcePid = pidToProto from, TargetPid = None, TargetNodeId = ref_NodeID request\<rparr>,
        Body = Body_Response (Some \<lparr>Kind = ASK_ERROR, rs_Request = requestRefToProto (Some request), rs_MessageName = [],
                 rs_Payload = [], rs_Error = error_string cause, rs_ErrorCode = fst (CodeOf (Some cause))\<rparr>)\<rparr>) s"

subsection \<open>Sending\<close>

text \<open>\<^verbatim>\<open>%v\<close> of a request reference.\<close>

definition show_ref :: "RequestRef \<Rightarrow> string" where
  "show_ref r = ''&{'' @ ref_NodeID r @ '' '' @ show_nat (unat (ref_RequestID r)) @ ''}''"

definition SendEnvelope :: "'m act_env \<Rightarrow> PID option \<Rightarrow> ('k, 'm) Envelope \<Rightarrow> ('a, 'k, 'm) System \<Rightarrow> ('a, 'k, 'm) System \<times> err" where
  "SendEnvelope env target envelope s =
     (case target of
        None \<Rightarrow> (s, Some ErrActorTargetNil)
      | Some t \<Rightarrow>
          if Sender envelope = None then (s, Some ErrActorSenderNil)
          else (case meta_Request (Meta envelope) of
                  Some r \<Rightarrow>
                    if ref_NodeID r = [] \<or> ref_RequestID r = 0
                    then (s, Some (Wrap (show_ref r @ '':'') ErrActorEnvelopeRequestInvalid []))
                    else if NodeID t \<noteq> nodeID s then sendRemoteEnvelope env t envelope s
                    else (case getProcess target s of Inl e \<Rightarrow> (s, Some e) | Inr i \<Rightarrow> Process_Push envelope i s)
                | None \<Rightarrow>
                    if NodeID t \<noteq> nodeID s then sendRemoteEnvelope env t envelope s
                    else (case getProcess target s of Inl e \<Rightarrow> (s, Some e) | Inr i \<Rightarrow> Process_Push envelope i s)))"

definition Tell :: "'m act_env \<Rightarrow> PID option \<Rightarrow> PID option \<Rightarrow> ('k, 'm) any \<Rightarrow> ('a, 'k, 'm) System \<Rightarrow> ('a, 'k, 'm) System \<times> err" where
  "Tell env from target message s = SendEnvelope env target \<lparr>Payload = User message, Sender = from, Meta = no_meta\<rparr> s"

definition doTask :: "'m act_env \<Rightarrow> PID option \<Rightarrow> PID option \<Rightarrow> ('k, 'm) task \<Rightarrow> ('a, 'k, 'm) System \<Rightarrow> ('a, 'k, 'm) System \<times> err" where
  "doTask env from target task s = SendEnvelope env target \<lparr>Payload = User (TaskFn task), Sender = from, Meta = no_meta\<rparr> s"

definition sendAsk :: "'m act_env \<Rightarrow> PID option \<Rightarrow> PID option \<Rightarrow> ('k, 'm) any \<Rightarrow> int \<Rightarrow> 'k completion \<Rightarrow> ('a, 'k, 'm) System \<Rightarrow> ('a, 'k, 'm) System \<times> err" where
  "sendAsk env from target message timeout complete s =
     (case from of
        None \<Rightarrow> (s, Some ErrActorSenderNil)
      | Some _ \<Rightarrow>
          (case target of
             None \<Rightarrow> (s, Some ErrActorTargetNil)
           | Some t \<Rightarrow>
               (let timeout1 = (if timeout \<le> 0 then defaultActorAskTimeout else timeout) in
                case rm_add (requests s) (nodeID s) (NodeID t) timeout1 complete of
                  (m, Inl e) \<Rightarrow> (s\<lparr>requests := m\<rparr>, Some e)
                | (m, Inr ref) \<Rightarrow>
                    (case SendEnvelope env target \<lparr>Payload = User message, Sender = from, Meta = \<lparr>meta_Request = Some ref\<rparr>\<rparr>
                            (s\<lparr>requests := m, issued_reqs := issued_reqs s + 1\<rparr>) of
                       (s1, Some e) \<Rightarrow>
                         (s1\<lparr>requests := fst (rm_remove (requests s1) (ref_RequestID ref))\<rparr>, Some (Wrap ''send ask:'' e []))
                     | (s1, None) \<Rightarrow> (s1, None)))))"

text \<open>
  \<^verbatim>\<open>Ask\<close> up to the point where it waits for the result on its channel (\<open>Inr\<close> the channel), and the
  receive operation, which is enabled once something was sent.
\<close>

definition Ask_send :: "'m act_env \<Rightarrow> PID option \<Rightarrow> PID option \<Rightarrow> ('k, 'm) any \<Rightarrow> int \<Rightarrow> ('a, 'k, 'm) System \<Rightarrow> ('a, 'k, 'm) System \<times> nat result" where
  "Ask_send env from target message timeout s =
     (case sendAsk env from target message timeout (AskChan (length (chans s))) (s\<lparr>chans := chans s @ [[]]\<rparr>) of
        (s1, Some e) \<Rightarrow> (s1, Inl e)
      | (s1, None) \<Rightarrow> (s1, Inr (length (chans s))))"

definition Ask_receive :: "nat \<Rightarrow> ('a, 'k, 'm) System \<Rightarrow> (('k, 'm) any \<times> err) option" where
  "Ask_receive n s = (case chans s ! n of [] \<Rightarrow> None | r # _ \<Rightarrow> Some r)"

definition AskAsync :: "'m act_env \<Rightarrow> PID option \<Rightarrow> PID option \<Rightarrow> ('k, 'm) any \<Rightarrow> int \<Rightarrow> 'k option \<Rightarrow> ('a, 'k, 'm) System \<Rightarrow> ('a, 'k, 'm) System \<times> err" where
  "AskAsync env from target message timeout complete s =
     (case from of
        None \<Rightarrow> (s, Some ErrActorSenderNil)
      | Some f \<Rightarrow>
          (case target of
             None \<Rightarrow> (s, Some ErrActorTargetNil)
           | Some t \<Rightarrow>
               (case complete of
                  None \<Rightarrow> (s, Some ErrAskCompletionNil)
                | Some k \<Rightarrow> sendAsk env from target message timeout (AskTask k t f) s)))"

subsection \<open>Completing requests\<close>

fun run_completion :: "'m act_env \<Rightarrow> 'k completion \<Rightarrow> ('k, 'm) any \<Rightarrow> err \<Rightarrow> ('a, 'k, 'm) System \<Rightarrow> ('a, 'k, 'm) System" where
  "run_completion env (AskChan n) v e s = s\<lparr>chans := (chans s)[n := chans s ! n @ [(v, e)]]\<rparr>"
| "run_completion env (AskTask k target from) v e s = fst (doTask env (Some target) (Some from) (AskDone k v e) s)"

definition complete_request :: "'m act_env \<Rightarrow> request_id \<Rightarrow> ('k, 'm) any \<Rightarrow> err \<Rightarrow> ('a, 'k, 'm) System \<Rightarrow> ('a, 'k, 'm) System \<times> err" where
  "complete_request env i v e s =
     (case rm_complete (requests s) i of
        (m, Inl x) \<Rightarrow> (s\<lparr>requests := m\<rparr>, Some x)
      | (m, Inr cb) \<Rightarrow> (run_completion env cb v e (s\<lparr>requests := m\<rparr>), None))"

text \<open>The timer of a pending request fires.\<close>

definition request_timeout :: "'m act_env \<Rightarrow> request_id \<Rightarrow> ('a, 'k, 'm) System \<Rightarrow> ('a, 'k, 'm) System" where
  "request_timeout env i s = fst (complete_request env i NilV (Some ErrAskTimeout) s)"

definition System_respond :: "'m act_env \<Rightarrow> PID \<Rightarrow> MessageMeta \<Rightarrow> ('k, 'm) any \<Rightarrow> ('a, 'k, 'm) System \<Rightarrow> ('a, 'k, 'm) System \<times> err" where
  "System_respond env from meta message s =
     (case meta_Request meta of
        None \<Rightarrow> (s, Some ErrRequestNil)
      | Some r \<Rightarrow>
          if ref_NodeID r \<noteq> nodeID s then sendRemoteAskResponse env from r message s
          else complete_request env (ref_RequestID r) message None s)"

definition System_respondError :: "'m act_env \<Rightarrow> PID \<Rightarrow> MessageMeta \<Rightarrow> err \<Rightarrow> ('a, 'k, 'm) System \<Rightarrow> ('a, 'k, 'm) System \<times> err" where
  "System_respondError env from meta responseError s =
     (case responseError of
        None \<Rightarrow> (s, Some ErrRespondErrorNil)
      | Some cause \<Rightarrow>
          (case meta_Request meta of
             None \<Rightarrow> (s, Some ErrRequestNil)
           | Some r \<Rightarrow>
               if ref_NodeID r \<noteq> nodeID s then sendRemoteRequestError env (Some from) r cause s
               else complete_request env (ref_RequestID r) NilV (Some cause) s))"

subsection \<open>Responses of a process\<close>

definition mark_responded :: "nat \<Rightarrow> ('a, 'k, 'm) System \<Rightarrow> ('a, 'k, 'm) System" where
  "mark_responded i = upd_proc i (\<lambda>p. p\<lparr>responded := True\<rparr>)"

definition Process_forward :: "'m act_env \<Rightarrow> nat \<Rightarrow> PID option \<Rightarrow> ('k, 'm) any \<Rightarrow> ('a, 'k, 'm) System \<Rightarrow> ('a, 'k, 'm) System \<times> err" where
  "Process_forward env i target message s =
     (let p = procs s ! i in
      if responded p then (s, Some (Wrap '': '' ErrAlreadyResponded []))
      else (case SendEnvelope env target \<lparr>Payload = User message, Sender = Sender (current p), Meta = Meta (current p)\<rparr> s of
              (s1, Some e) \<Rightarrow> (s1, Some e)
            | (s1, None) \<Rightarrow> (mark_responded i s1, None)))"

definition Process_respond :: "'m act_env \<Rightarrow> nat \<Rightarrow> ('k, 'm) any \<Rightarrow> ('a, 'k, 'm) System \<Rightarrow> ('a, 'k, 'm) System \<times> err" where
  "Process_respond env i message s =
     (let p = procs s ! i in
      if responded p then (s, Some (Wrap ''respond:'' ErrAlreadyResponded []))
      else (case System_respond env (pid p) (Meta (current p)) message s of
              (s1, Some e) \<Rightarrow> (s1, Some e)
            | (s1, None) \<Rightarrow> (mark_responded i s1, None)))"

definition Process_respondError :: "'m act_env \<Rightarrow> nat \<Rightarrow> err \<Rightarrow> ('a, 'k, 'm) System \<Rightarrow> ('a, 'k, 'm) System \<times> err" where
  "Process_respondError env i responseError s =
     (let p = procs s ! i in
      if responded p then (s, Some (Wrap ''respond err:'' ErrAlreadyResponded []))
      else if responseError = None then (s, Some ErrRespondErrorNil)
      else (case System_respondError env (pid p) (Meta (current p)) responseError s of
              (s1, Some e) \<Rightarrow> (s1, Some (Wrap ''respond err:'' e []))
            | (s1, None) \<Rightarrow> (mark_responded i s1, None)))"

text \<open>The end of \<^verbatim>\<open>handleAsk\<close>, after \<^verbatim>\<open>HandleAsk\<close> returned.\<close>

definition handleAsk_return :: "'m act_env \<Rightarrow> nat \<Rightarrow> ('k, 'm) any \<Rightarrow> err \<Rightarrow> ('a, 'k, 'm) System \<Rightarrow> ('a, 'k, 'm) System" where
  "handleAsk_return env i response askErr s =
     (if responded (procs s ! i) then s
      else
        (let s1 = (if askErr \<noteq> None then fst (Process_respondError env i askErr s) else s) in
         if response \<noteq> NilV then fst (Process_respond env i response s1) else s1))"

subsection \<open>Remote messages in\<close>

definition wire_name :: string where "wire_name = ''actor.RemoteActorMessage''"
definition wire_text :: string where "wire_text = ''*actorpb.RemoteActorMessage''"

definition rejectRemoteRequest :: "'m act_env \<Rightarrow> RemoteActorMessage \<Rightarrow> go_error \<Rightarrow> ('a, 'k, 'm) System \<Rightarrow> ('a, 'k, 'm) System" where
  "rejectRemoteRequest env message cause s =
     (case Body message of
        Body_Request (Some requestBody) \<Rightarrow>
          (case rq_Request requestBody of
             None \<Rightarrow> s
           | Some request \<Rightarrow>
               (case Common message of
                  None \<Rightarrow> s
                | Some common \<Rightarrow>
                    if remoteSender s = None then s
                    else if pb_RequestId request = 0 \<or> pb_RefNodeId request = [] then s
                    else fst (sendRemoteRequestError env (pidFromProto (TargetPid common))
                           \<lparr>ref_NodeID = pb_RefNodeId request, ref_RequestID = pb_RequestId request\<rparr> cause s)))
      | _ \<Rightarrow> s)"

definition onRemoteEnvelopeHandler :: "'m act_env \<Rightarrow> RemoteActorMessage \<Rightarrow> RemoteActorCommon \<Rightarrow> RemoteActorRequest option \<Rightarrow> ('a, 'k, 'm) System \<Rightarrow> ('a, 'k, 'm) System \<times> err" where
  "onRemoteEnvelopeHandler env message common request s =
     (case request of
        None \<Rightarrow> (s, Some ErrRequestNil)
      | Some req \<Rightarrow>
          (case UnmarshalWithName (lib env) (rq_MessageName req) (rq_Payload req) of
             Inl e \<Rightarrow> (s, Some (Wrap ''remote handler unmarshal body:'' e []))
           | Inr payload \<Rightarrow>
               (case SendEnvelope env (pidFromProto (TargetPid common))
                       \<lparr>Payload = User (Val payload), Sender = pidFromProto (SourcePid common),
                        Meta = \<lparr>meta_Request = requestRefFromProto (rq_Request req)\<rparr>\<rparr> s of
                  (s1, Some e) \<Rightarrow> (rejectRemoteRequest env message e s1, Some (Wrap ''remote handler:'' e []))
                | (s1, None) \<Rightarrow> (s1, None))))"

fun kind_text :: "RemoteMessageKind \<Rightarrow> string" where
  "kind_text KIND_UNSPECIFIED = ''REMOTE_MESSAGE_KIND_UNSPECIFIED''"
| "kind_text ASK_RESPONSE = ''ASK_RESPONSE''"
| "kind_text ASK_ERROR = ''ASK_ERROR''"
| "kind_text (UnknownKind n) = show_int n"

definition onRemoteResponseHandler :: "'m act_env \<Rightarrow> RemoteActorResponse option \<Rightarrow> ('a, 'k, 'm) System \<Rightarrow> ('a, 'k, 'm) System \<times> err" where
  "onRemoteResponseHandler env response s =
     (case response of
        None \<Rightarrow> (s, Some (Plain ''remote response nil response''))
      | Some resp \<Rightarrow>
          (case rs_Request resp of
             None \<Rightarrow> (s, Some ErrRequestNil)
           | Some request \<Rightarrow>
               if pb_RequestId request = 0 \<or> pb_RefNodeId request = [] then (s, Some ErrRequestNil)
               else (case Kind resp of
                       ASK_RESPONSE \<Rightarrow>
                         (case UnmarshalWithName (lib env) (rs_MessageName resp) (rs_Payload resp) of
                            Inl e \<Rightarrow> (s, Some (Wrap ''remote response handler unmarshal body:'' e []))
                          | Inr payload \<Rightarrow> complete_request env (pb_RequestId request) (Val payload) None s)
                     | ASK_ERROR \<Rightarrow>
                         complete_request env (pb_RequestId request) NilV (Some (Coded (rs_ErrorCode resp) (rs_Error resp))) s
                     | k \<Rightarrow> (s, Some (Wrap (''remote response handler kind:'' @ kind_text k @ '':'') ErrRemoteMessageKindInvalid [])))))"

definition onRemoteHandler :: "'m act_env \<Rightarrow> RemoteActorMessage \<Rightarrow> RemoteActorCommon \<Rightarrow> ('a, 'k, 'm) System \<Rightarrow> ('a, 'k, 'm) System \<times> err" where
  "onRemoteHandler env message common s =
     (case Body message of
        Body_Request request \<Rightarrow> onRemoteEnvelopeHandler env message common request s
      | Body_Response response \<Rightarrow> onRemoteResponseHandler env response s
      | NoBody \<Rightarrow> (s, Some ErrRemoteMessageBodyInvalid))"

text \<open>A message without a target node is a broadcast: it is made local.\<close>

definition localise :: "string \<Rightarrow> RemoteActorCommon \<Rightarrow> RemoteActorCommon" where
  "localise node common =
     (if TargetNodeId common = []
      then common\<lparr>TargetNodeId := node, TargetPid := map_option (\<lambda>p. p\<lparr>pb_NodeId := node\<rparr>) (TargetPid common)\<rparr>
      else common)"

definition OnMessage :: "'m act_env \<Rightarrow> string \<Rightarrow> bytes \<Rightarrow> ('a, 'k, 'm) System \<Rightarrow> ('a, 'k, 'm) System \<times> err" where
  "OnMessage env sourceNodeID data s =
     (if sourceNodeID = [] then (s, Some ErrRemoteSourceNodeInvalid)
      else (case Unmarshal (wire env) wire_name wire_text data of
              Inl e \<Rightarrow> (s, Some (Wrap ''unmarshal remote message:'' e []))
            | Inr message \<Rightarrow>
                (case Common message of
                   None \<Rightarrow> (s, Some ErrRemoteCommonInvalid)
                 | Some common0 \<Rightarrow>
                     (let common = localise (nodeID s) common0; message1 = message\<lparr>Common := Some common\<rparr> in
                      if SourcePid common = None then (s, Some ErrRemoteSenderNil)
                      else if TargetNodeId common \<noteq> nodeID s
                      then (s, Some (Plain (''not local message nodeId:'' @ TargetNodeId common)))
                      else onRemoteHandler env message1 common s))))"

subsection \<open>Spawning and stopping\<close>

definition newActorProcess :: "string \<Rightarrow> int \<Rightarrow> 'a \<Rightarrow> ('k, 'm) SpawnOptions \<Rightarrow> ('a, 'k, 'm) Process" where
  "newActorProcess node i handler options =
     \<lparr>pid = NewPID (of_int i) (Name options) node, actor = handler, mailbox = [],
      mb_capacity = capacity (newMailbox (MailboxSize options) :: ('k, 'm) Envelope Mailbox),
      current = \<lparr>Payload = User NilV, Sender = Some NoSender, Meta = no_meta\<rparr>, responded = False,
      timerId = 0, timers = [], closing = False, closed = False, askTimeout = 3000000000,
      initArgs = InitArgs options, stack = [], accepted = [], handled_msgs = [], forced = 0\<rparr>"

definition init_envelope :: "('k, 'm) Envelope" where
  "init_envelope = \<lparr>Payload = InitMessage, Sender = Some NoSender, Meta = no_meta\<rparr>"

text \<open>
  \<open>clock\<close> are the readings of the clock while the identifier is generated; \<open>None\<close> is a generator
  that still waits when they end. A name that is taken costs an identifier.
\<close>

definition SpawnActor :: "'a option \<Rightarrow> ('k, 'm) SpawnOptions \<Rightarrow> int list \<Rightarrow> ('a, 'k, 'm) System \<Rightarrow> (('a, 'k, 'm) System \<times> PID option \<times> err) option" where
  "SpawnActor handler options clock s =
     (if stopping s then Some (s, None, Some (Plain ''actor is stopping''))
      else (case handler of
              None \<Rightarrow> Some (s, Some NoSender, Some ErrHandlerNil)
            | Some h \<Rightarrow>
                (case GenId (idGenerator s) clock of
                   None \<Rightarrow> None
                 | Some (gen, i, _) \<Rightarrow>
                     (let p = newActorProcess (nodeID s) i h options; s1 = s\<lparr>idGenerator := gen\<rparr> in
                      if map_of (names s) (Name options) \<noteq> None
                      then Some (s1, None, Some (Wrap (Name options @ '':'') ErrNameExists []))
                      else Some (addLocked (pid p) (length (procs s)) (s1\<lparr>procs := procs s @ [enqueue init_envelope p]\<rparr>),
                                 Some (pid p), None)))))"

definition Has :: "PID option \<Rightarrow> ('a, 'k, 'm) System \<Rightarrow> bool" where
  "Has target s = (case getProcess target s of Inl _ \<Rightarrow> False | Inr _ \<Rightarrow> True)"

definition StopProcess :: "PID option \<Rightarrow> PID option \<Rightarrow> ('a, 'k, 'm) System \<Rightarrow> ('a, 'k, 'm) System" where
  "StopProcess from target s = (case getProcess target s of Inl _ \<Rightarrow> s | Inr i \<Rightarrow> Process_Stop from i s)"

definition requests_stop :: "'m act_env \<Rightarrow> 'k completion iter \<Rightarrow> ('a, 'k, 'm) System \<Rightarrow> ('a, 'k, 'm) System" where
  "requests_stop env iter s =
     (case rm_stop iter (requests s) of
        (m, cs) \<Rightarrow> fold (\<lambda>(i, cb) s. run_completion env cb NilV (Some ErrRequestManagerClosed) s) cs (s\<lparr>requests := m\<rparr>))"

definition manager_stop :: "('a, 'k, 'm) System \<Rightarrow> ('a, 'k, 'm) System" where
  "manager_stop s = fold (\<lambda>(_, i) s. Process_Stop (Some NoSender) i s) (ids s) s"

text \<open>
  \<^verbatim>\<open>System.Stop\<close> up to the point where it waits for the processes to end, and what the wait
  returns when it is over (after ten seconds at the latest).
\<close>

definition System_Stop :: "'m act_env \<Rightarrow> 'k completion iter \<Rightarrow> ('a, 'k, 'm) System \<Rightarrow> ('a, 'k, 'm) System \<times> err" where
  "System_Stop env iter s =
     (case Controller_Stop (sys_lifecycle s)
             (Some (\<lambda>s. (manager_stop (requests_stop env iter (s\<lparr>stopping := True\<rparr>)), None))) s of
        (c, s1, e) \<Rightarrow> (s1\<lparr>sys_lifecycle := c\<rparr>, e))"

definition System_Stop_wait :: "('a, 'k, 'm) System \<Rightarrow> err" where
  "System_Stop_wait s = (if waitGroup s = 0 then None else Some (Plain ''wait group timeout''))"

end
