(* ===== verification/Placement.thy ===== *)
theory Placement
  imports LogicalTypes "HOL-Library.Char_ord" "HOL-Library.List_Lexorder" "HOL-Library.Multiset"
begin

text \<open>
  \<^verbatim>\<open>logicalactor/placement/round_robin.go\<close>. The provider's answer is the list of the entries of its
  map in the order in which the \<^verbatim>\<open>range\<close> loop happens to visit them. Strings are ordered by their
  bytes, as in Go; the atomic counter is 64 bits wide.
\<close>

definition ErrNodeProviderNil :: go_error where "ErrNodeProviderNil = Plain ''dynamic round robin requires node provider''"
definition ErrNoAvailableNodes :: go_error where "ErrNoAvailableNodes = Plain ''dynamic round robin has no available nodes''"

type_synonym NodeProvider = "string \<Rightarrow> (string \<times> LNodeInfo) list"

record RoundRobinStrategy =
  has_provider :: bool
  nextIndex :: "64 word"

definition NewDynamicRoundRobinStrategy :: "bool \<Rightarrow> RoundRobinStrategy result" where
  "NewDynamicRoundRobinStrategy provider = Inr \<lparr>has_provider = provider, nextIndex = 0\<rparr>"

definition currentNodes :: "NodeProvider \<Rightarrow> string \<Rightarrow> LNodeInfo list result" where
  "currentNodes members kind =
     (let nodes = members kind in
      if nodes = [] then Inl ErrNoAvailableNodes
      else Inr (sort_key NodeId (map snd nodes)))"

definition PickNode :: "NodeProvider \<Rightarrow> LActorID \<Rightarrow> RoundRobinStrategy \<Rightarrow> RoundRobinStrategy \<times> LNodeInfo result" where
  "PickNode members actorID strategy =
     (if \<not> has_provider strategy then (strategy, Inl ErrNodeProviderNil)
      else (case currentNodes members (la_Kind actorID) of
              Inl e \<Rightarrow> (strategy, Inl e)
            | Inr nodes \<Rightarrow>
                (let index = nextIndex strategy + 1 - 1 in
                 (strategy\<lparr>nextIndex := nextIndex strategy + 1\<rparr>,
                  Inr (nodes ! unat (index mod of_nat (length nodes)))))))"

subsection \<open>Fairness\<close>

text \<open>Successive calls for one actor kind; the provider may list the members in another order each time.\<close>

fun picks :: "NodeProvider list \<Rightarrow> LActorID \<Rightarrow> RoundRobinStrategy \<Rightarrow> LNodeInfo result list" where
  "picks [] a s = []"
| "picks (members # rest) a s = (case PickNode members a s of (s', r) \<Rightarrow> r # picks rest a s')"

lemma currentNodes_unique:
  assumes "distinct (map NodeId nodes)" "nodes \<noteq> []" "mset (map snd (members kind)) = mset nodes"
  shows "currentNodes members kind = Inr (sort_key NodeId nodes)"
proof -
  have "sort_key NodeId (map snd (members kind)) = sort_key NodeId nodes"
    using assms by (intro sort_key_inj_key_eq) (auto simp: distinct_map simp flip: set_mset_mset)
  moreover have "members kind \<noteq> []" using assms(2,3) by auto
  ultimately show ?thesis by (simp add: currentNodes_def Let_def)
qed

lemma picks_index:
  assumes "has_provider s" and "distinct (map NodeId nodes)" and "nodes \<noteq> []"
    and "\<forall>members \<in> set ps. mset (map snd (members (la_Kind a))) = mset nodes"
    and "unat (nextIndex s) + length ps < 2 ^ 64" and "length nodes < 2 ^ 64"
  shows "picks ps a s = map (\<lambda>i. Inr (sort_key NodeId nodes ! ((unat (nextIndex s) + i) mod length nodes))) [0..<length ps]"
  using assms(1,4,5)
proof (induction ps arbitrary: s)
  case (Cons members ps)
  let ?L = "sort_key NodeId nodes"
  have c: "currentNodes members (la_Kind a) = Inr ?L"
    using currentNodes_unique [OF assms(2,3)] Cons.prems by simp
  have suc: "unat (nextIndex s + 1) = Suc (unat (nextIndex s))"
    using Cons.prems(3) by (simp add: unat_word_ariths)
  have idx: "unat (nextIndex s mod of_nat (length nodes)) = unat (nextIndex s) mod length nodes"
    using assms(6) by (simp add: unat_mod unat_of_nat take_bit_nat_eq_self)
  have "picks ps a (s\<lparr>nextIndex := nextIndex s + 1\<rparr>) =
      map (\<lambda>i. Inr (?L ! ((Suc (unat (nextIndex s)) + i) mod length nodes))) [0..<length ps]"
    using Cons.IH [of "s\<lparr>nextIndex := nextIndex s + 1\<rparr>"] Cons.prems suc by simp
  then show ?case
    using Cons.prems(1) c idx by (simp add: PickNode_def Let_def upt_conv_Cons map_Suc_upt [symmetric] del: upt_Suc)
qed simp

lemma rotation_mset: "xs \<noteq> [] \<Longrightarrow> mset (map (\<lambda>i. xs ! ((k + i) mod length xs)) [0..<length xs]) = mset xs"
proof -
  assume "xs \<noteq> []"
  have "map (\<lambda>i. xs ! ((k + i) mod length xs)) [0..<length xs] = rotate k xs"
    by (rule nth_equalityI) (simp_all add: nth_rotate)
  moreover have "mset (rotate k xs) = mset xs"
    unfolding rotate_drop_take mset_append by (metis append_take_drop_id mset_append union_commute)
  ultimately show ?thesis by simp
qed

text \<open>
  Over as many successive calls as there are members, the round robin strategy picks every
  member exactly once, whatever order the provider lists them in at each call and wherever the
  counter stands, as long as the counter does not overflow meanwhile.
\<close>

theorem round_robin_fair:
  assumes "has_provider s" and "distinct (map NodeId nodes)" and "nodes \<noteq> []" and "length ps = length nodes"
    and "\<forall>members \<in> set ps. mset (map snd (members (la_Kind a))) = mset nodes"
    and "unat (nextIndex s) + length nodes < 2 ^ 64"
  shows "mset (picks ps a s) = image_mset Inr (mset nodes)"
proof -
  have "picks ps a s = map Inr (map (\<lambda>i. sort_key NodeId nodes ! ((unat (nextIndex s) + i) mod length nodes)) [0..<length nodes])"
    using picks_index [of s nodes ps a] assms by simp
  moreover have "sort_key NodeId nodes \<noteq> []" using assms(3) by (metis length_0_conv length_sort)
  from rotation_mset [OF this, of "unat (nextIndex s)"]
  have "mset (map (\<lambda>i. sort_key NodeId nodes ! ((unat (nextIndex s) + i) mod length nodes)) [0..<length nodes]) = mset nodes" by simp
  ultimately show ?thesis by (simp only: mset_map)
qed

definition sample_members :: "LNodeInfo list" where
  "sample_members = [\<lparr>NodeId = ''n2'', ln_Kind = ''game'', InstanceId = ''x''\<rparr>, \<lparr>NodeId = ''n1'', ln_Kind = ''game'', InstanceId = ''y''\<rparr>]"

theorem round_robin_fair_witness:
  "mset (picks [\<lambda>_. map (Pair []) sample_members, \<lambda>_. map (Pair []) (rev sample_members)] \<lparr>la_Kind = ''game'', la_Key = ''1''\<rparr>
     \<lparr>has_provider = True, nextIndex = 3\<rparr>) = image_mset Inr (mset sample_members)"
  by (rule round_robin_fair) (simp_all add: sample_members_def)

end
