(* ===== verification/Router.thy ===== *)
theory Router
  imports DirectoryContract ActorSystem Member Placement
begin

text \<open>
  \<^verbatim>\<open>logicalactor/router.go\<close> and the discovery adapter of \<^verbatim>\<open>node/adapter.go\<close>: finding the node that owns
  a logical actor, and sending to the router there.

  The directory is a value of the interface \<^verbatim>\<open>OwnerDirectory\<close> with its state \<open>'d\<close>; a placement
  strategy is a value \<open>'p\<close> on which the function \<open>pick\<close> (its method \<^verbatim>\<open>PickNode\<close>) works. The dependencies
  that may be nil are booleans here, because only \<^verbatim>\<open>Start\<close> looks at that.
\<close>

subsection \<open>adapter.go\<close>

definition newLogicalActorNode :: "Member.NodeInfo \<Rightarrow> LNodeInfo" where
  "newLogicalActorNode n = \<lparr>NodeId = node_ID n, ln_Kind = node_Name n, InstanceId = show_int (StartedAt n)\<rparr>"

definition ActorNodeAdapter :: "(string \<Rightarrow> (string \<times> Member.NodeInfo) list) \<Rightarrow> (string \<Rightarrow> Member.NodeInfo \<times> bool) \<Rightarrow> Discovery" where
  "ActorNodeAdapter members member_by_id =
     \<lparr>Members = (\<lambda>service. map (\<lambda>(k, n). (k, newLogicalActorNode n)) (members service)),
      MemberById = (\<lambda>serviceID. case member_by_id serviceID of (n, ok) \<Rightarrow> (newLogicalActorNode n, ok))\<rparr>"

subsection \<open>The router\<close>

definition ErrDiscoveryNil :: go_error where "ErrDiscoveryNil = Plain ''discovery not initialized''"
definition ErrLogicalActorRouterNotStarted :: go_error where "ErrLogicalActorRouterNotStarted = Plain ''logical actor router is not started''"
definition maxOwnerResolveAttempts :: nat where "maxOwnerResolveAttempts = 3"
definition RouterActorName :: string where "RouterActorName = ''$logical-router''"
definition maxRouteForwards :: "32 word" where "maxRouteForwards = 3"

type_synonym ('f, 'k, 'm) ActorFactory = "LActorID \<Rightarrow> 'f option \<times> ('k, 'm) SpawnOptions"

record ('f, 'k, 'm, 'p) Router =
  local_node :: LNodeInfo
  has_system :: bool
  has_directory :: bool
  has_discovery :: bool
  placements :: "(string \<times> 'p) list"
  factories :: "(string \<times> ('f, 'k, 'm) ActorFactory) list"
  routerPID :: "PID option"
  router_lifecycle :: Controller

definition Router_New :: "LNodeInfo \<Rightarrow> bool \<Rightarrow> bool \<Rightarrow> bool \<Rightarrow> ('f, 'k, 'm, 'p) Router" where
  "Router_New local_info system directory discovery =
     \<lparr>local_node = local_info, has_system = system, has_directory = directory, has_discovery = discovery, placements = [], factories = [],
      routerPID = None, router_lifecycle = new_Controller\<rparr>"

definition isLocal :: "('f, 'k, 'm, 'p) Router \<Rightarrow> LNodeInfo \<Rightarrow> bool" where
  "isLocal router owner \<longleftrightarrow> NodeId owner = NodeId (local_node router)"

text \<open>\<open>handler\<close> is the router actor. \<open>None\<close>: the identifier generator waits for the clock.\<close>

definition startRouter :: "'a \<Rightarrow> int list \<Rightarrow> ('f, 'k, 'm, 'p) Router \<Rightarrow> ('a, 'k, 'm) System
    \<Rightarrow> (('f, 'k, 'm, 'p) Router \<times> ('a, 'k, 'm) System \<times> PID result) option" where
  "startRouter handler clock router s =
     (case routerPID router of
        Some p \<Rightarrow> Some (router, s, Inr p)
      | None \<Rightarrow>
          (case SpawnActor (Some handler) \<lparr>Name = RouterActorName, InitArgs = [], MailboxSize = 0\<rparr> clock s of
             None \<Rightarrow> None
           | Some (s1, p, Some e) \<Rightarrow> Some (router, s1, Inl (Wrap ''logical actor router spawn err:'' e []))
           | Some (s1, p, None) \<Rightarrow> Some (router\<lparr>routerPID := p\<rparr>, s1, Inr (the p))))"

text \<open>The function that \<^verbatim>\<open>Start\<close> runs under the guard of the lifecycle.\<close>

definition Router_start_hook :: "'a \<Rightarrow> int list \<Rightarrow> ('f, 'k, 'm, 'p) Router \<Rightarrow> ('a, 'k, 'm) System
    \<Rightarrow> (('f, 'k, 'm, 'p) Router \<times> ('a, 'k, 'm) System \<times> err) option" where
  "Router_start_hook handler clock router s =
     (if \<not> has_system router then Some (router, s, Some ErrActorSystemNil)
      else if \<not> has_directory router then Some (router, s, Some ErrOwnerDirectoryNil)
      else if \<not> has_discovery router then Some (router, s, Some ErrDiscoveryNil)
      else map_option (\<lambda>(router, s, r). (router, s, (case r of Inl e \<Rightarrow> Some e | Inr _ \<Rightarrow> None))) (startRouter handler clock router s))"

definition Router_stop_hook :: "('f, 'k, 'm, 'p) Router \<Rightarrow> ('a, 'k, 'm) System \<Rightarrow> ('f, 'k, 'm, 'p) Router \<times> ('a, 'k, 'm) System \<times> err" where
  "Router_stop_hook router s =
     (case routerPID router of
        Some p \<Rightarrow> if has_system router then (router\<lparr>routerPID := None\<rparr>, StopProcess (Some NoSender) (Some p) s, None) else (router, s, None)
      | None \<Rightarrow> (router, s, None))"

text \<open>The separator in the message is a full-width colon, three bytes in UTF-8.\<close>

definition RegisterFactory :: "string \<Rightarrow> ('f, 'k, 'm) ActorFactory option \<Rightarrow> ('f, 'k, 'm, 'p) Router \<Rightarrow> ('f, 'k, 'm, 'p) Router \<times> err" where
  "RegisterFactory kind factory router =
     (case ActorID_Validate \<lparr>la_Kind = kind, la_Key = ''validate''\<rparr> of
        Some e \<Rightarrow> (router, Some e)
      | None \<Rightarrow>
          (case factory of
             None \<Rightarrow> (router, Some ErrActorFactoryNil)
           | Some f \<Rightarrow>
               if map_of (factories router) kind \<noteq> None
               then (router, Some (Wrap (''kind '' @ kind @ [CHR 0xEF, CHR 0xBC, CHR 0x9A]) ErrFactoryAlreadyExist []))
               else (router\<lparr>factories := factories router @ [(kind, f)]\<rparr>, None)))"

definition RegisterPlacement :: "string \<Rightarrow> 'p option \<Rightarrow> ('f, 'k, 'm, 'p) Router \<Rightarrow> ('f, 'k, 'm, 'p) Router \<times> err" where
  "RegisterPlacement kind0 strategy router =
     (let kind = TrimSpace kind0 in
      case ActorID_Validate \<lparr>la_Kind = kind, la_Key = ''validate''\<rparr> of
        Some e \<Rightarrow> (router, Some e)
      | None \<Rightarrow>
          (case strategy of
             None \<Rightarrow> (router, Some ErrPlacementStrategyNil)
           | Some f \<Rightarrow>
               if map_of (placements router) kind \<noteq> None then (router, Some (Wrap [] ErrPlacementStrategyRegistered ('': '' @ kind)))
               else (router\<lparr>placements := placements router @ [(kind, f)]\<rparr>, None)))"

subsection \<open>Resolving the owner\<close>

definition isNodeAlive :: "Discovery \<Rightarrow> LNodeInfo \<Rightarrow> bool" where
  "isNodeAlive disc candidate \<longleftrightarrow> fst (MemberById disc (NodeId candidate)) = candidate"

definition pickNode :: "('p \<Rightarrow> LActorID \<Rightarrow> 'p \<times> LNodeInfo result) \<Rightarrow> LActorID \<Rightarrow> ('f, 'k, 'm, 'p) Router \<Rightarrow> ('f, 'k, 'm, 'p) Router \<times> LNodeInfo result" where
  "pickNode pick a router =
     (case map_of (placements router) (la_Kind a) of
        None \<Rightarrow> (router, Inl (Wrap (''kind:'' @ la_Kind a @ '' '') ErrPlacementStrategyNotFound []))
      | Some strategy \<Rightarrow>
          (case pick strategy a of
             (strategy1, r) \<Rightarrow>
               (router\<lparr>placements := AList.update (la_Kind a) strategy1 (placements router)\<rparr>,
                (case r of Inl e \<Rightarrow> Inl (Wrap ''strategy pick node:'' e []) | Inr n \<Rightarrow> Inr n))))"

definition placementFor :: "('p \<Rightarrow> LActorID \<Rightarrow> 'p \<times> LNodeInfo result) \<Rightarrow> 'd OwnerDirectory \<Rightarrow> LActorID \<Rightarrow> ('f, 'k, 'm, 'p) Router \<Rightarrow> 'd
    \<Rightarrow> ('f, 'k, 'm, 'p) Router \<times> 'd \<times> LNodeInfo result" where
  "placementFor pick D a router d =
     (case pickNode pick a router of
        (router1, Inl e) \<Rightarrow> (router1, d, Inl e)
      | (router1, Inr candidate) \<Rightarrow>
          (case AcquireOwner D a candidate d of
             (d1, Inl e) \<Rightarrow> (router1, d1, Inl (Wrap ''directory acquire owner :'' e []))
           | (d1, Inr (owner, _)) \<Rightarrow> (router1, d1, Inr owner)))"

text \<open>\<^verbatim>\<open>%s\<close> of a \<^verbatim>\<open>NodeInfo\<close>\<close>

definition show_node :: "LNodeInfo \<Rightarrow> string" where
  "show_node n = ''{'' @ NodeId n @ '' '' @ ln_Kind n @ '' '' @ InstanceId n @ ''}''"

text \<open>What one attempt finds: the owner with its directory entry, or the error to remember.\<close>

definition find_owner :: "('p \<Rightarrow> LActorID \<Rightarrow> 'p \<times> LNodeInfo result) \<Rightarrow> 'd OwnerDirectory \<Rightarrow> LActorID \<Rightarrow> ('f, 'k, 'm, 'p) Router \<Rightarrow> 'd
    \<Rightarrow> ('f, 'k, 'm, 'p) Router \<times> 'd \<times> LNodeInfo result" where
  "find_owner pick D a router d =
     (case GetOwner D a d of
        (d1, Inl e) \<Rightarrow> (router, d1, Inl (Wrap ''directory get owner :'' e []))
      | (d1, Inr (Some owner)) \<Rightarrow> (router, d1, Inr owner)
      | (d1, Inr None) \<Rightarrow>
          (case placementFor pick D a router d1 of
             (router1, d2, Inl e) \<Rightarrow> (router1, d2, Inl (Wrap ''placement for :'' e []))
           | (router1, d2, Inr owner) \<Rightarrow> (router1, d2, Inr owner)))"

text \<open>The loop; \<open>result\<close> are the variables \<^verbatim>\<open>owner\<close> and \<^verbatim>\<open>err\<close>.\<close>

primrec resolve_loop :: "nat \<Rightarrow> ('p \<Rightarrow> LActorID \<Rightarrow> 'p \<times> LNodeInfo result) \<Rightarrow> Discovery \<Rightarrow> 'd OwnerDirectory \<Rightarrow> LActorID
    \<Rightarrow> LNodeInfo \<times> err \<Rightarrow> ('f, 'k, 'm, 'p) Router \<Rightarrow> 'd \<Rightarrow> ('f, 'k, 'm, 'p) Router \<times> 'd \<times> LNodeInfo \<times> err" where
  "resolve_loop 0 pick disc D a result router d = (router, d, result)"
| "resolve_loop (Suc n) pick disc D a result router d =
     (case find_owner pick D a router d of
        (router1, d1, Inl e) \<Rightarrow> resolve_loop n pick disc D a (no_node, Some e) router1 d1
      | (router1, d1, Inr owner) \<Rightarrow>
          if isNodeAlive disc owner then (router1, d1, owner, None)
          else (case DeleteOwner D a owner d1 of
                  (d2, Inl e) \<Rightarrow> resolve_loop n pick disc D a (owner, Some (Wrap ''directory delete owner :'' e [])) router1 d2
                | (d2, Inr _) \<Rightarrow> resolve_loop n pick disc D a (owner, Some (Plain (''owner '' @ show_node owner @ '' is dead''))) router1 d2))"

definition resolveOwner :: "('p \<Rightarrow> LActorID \<Rightarrow> 'p \<times> LNodeInfo result) \<Rightarrow> Discovery \<Rightarrow> 'd OwnerDirectory \<Rightarrow> LActorID
    \<Rightarrow> ('f, 'k, 'm, 'p) Router \<Rightarrow> 'd \<Rightarrow> ('f, 'k, 'm, 'p) Router \<times> 'd \<times> LNodeInfo \<times> err" where
  "resolveOwner pick disc D a = resolve_loop maxOwnerResolveAttempts pick disc D a (no_node, None)"

subsection \<open>Sending to the router of the owner\<close>

record RouteRequest =
  rr_ActorId :: "PbActorID option"
  rr_Owner :: "PbOwner option"
  rr_Message :: "Any option"
  ForwardCount :: "32 word"

text \<open>What the router works with: placement, discovery and the directory, how a route
  request is a message (\<open>as_route\<close> is the type switch, of a pointer that may be nil), and an identity as an argument.\<close>

record ('d, 'p, 'm) route_env =
  re_pick :: "'p \<Rightarrow> LActorID \<Rightarrow> 'p \<times> LNodeInfo result"
  re_disc :: Discovery
  re_dir :: "'d OwnerDirectory"
  re_act :: "'m act_env"
  mk_route :: "RouteRequest \<Rightarrow> 'm"
  as_route :: "'m \<Rightarrow> RouteRequest option option"
  id_arg :: "LActorID \<Rightarrow> 'm"

definition newRouteRequest :: "('d, 'p, 'm) route_env \<Rightarrow> LActorID \<Rightarrow> 'm option \<Rightarrow> ('f, 'k, 'm, 'p) Router \<Rightarrow> 'd
    \<Rightarrow> ('f, 'k, 'm, 'p) Router \<times> 'd \<times> (LNodeInfo \<times> RouteRequest) result" where
  "newRouteRequest E a message router d =
     (case ActorID_Validate a of
        Some e \<Rightarrow> (router, d, Inl e)
      | None \<Rightarrow>
          (case resolveOwner (re_pick E) (re_disc E) (re_dir E) a router d of
             (router1, d1, owner, Some e) \<Rightarrow> (router1, d1, Inl e)
           | (router1, d1, owner, None) \<Rightarrow>
               (router1, d1, rbind (MessageToAny (lib (re_act E)) message) (\<lambda>payload.
                  Inr (owner, \<lparr>rr_ActorId = actorIDToProto a, rr_Owner = ownerToProto owner, rr_Message = Some payload, ForwardCount = 0\<rparr>)))))"

definition prepareRoute :: "('d, 'p, 'm) route_env \<Rightarrow> LActorID \<Rightarrow> 'm option \<Rightarrow> ('f, 'k, 'm, 'p) Router \<Rightarrow> 'd
    \<Rightarrow> ('f, 'k, 'm, 'p) Router \<times> 'd \<times> (PID \<times> RouteRequest) result" where
  "prepareRoute E a message router d =
     (if state (router_lifecycle router) \<noteq> StateStarted then (router, d, Inl ErrLogicalActorRouterNotStarted)
      else (case newRouteRequest E a message router d of
              (router1, d1, Inl e) \<Rightarrow> (router1, d1, Inl e)
            | (router1, d1, Inr (owner, request)) \<Rightarrow> (router1, d1, Inr (NewPID 0 RouterActorName (NodeId owner), request))))"

text \<open>\<open>i\<close> is the process of the actor whose context is used. \<^verbatim>\<open>Ask\<close> is modelled up to its wait.\<close>

definition Router_Tell :: "('d, 'p, 'm) route_env \<Rightarrow> nat \<Rightarrow> LActorID \<Rightarrow> 'm option \<Rightarrow> ('f, 'k, 'm, 'p) Router \<Rightarrow> 'd \<Rightarrow> ('a, 'k, 'm) System
    \<Rightarrow> ('f, 'k, 'm, 'p) Router \<times> 'd \<times> ('a, 'k, 'm) System \<times> err" where
  "Router_Tell E i a message router d s =
     (case prepareRoute E a message router d of
        (router1, d1, Inl e) \<Rightarrow> (router1, d1, s, Some (Wrap ''logical tell :'' e []))
      | (router1, d1, Inr (target, request)) \<Rightarrow>
          (case Tell (re_act E) (Some (pid (procs s ! i))) (Some target) (Val (mk_route E request)) s of
             (s1, e) \<Rightarrow> (router1, d1, s1, map_option (\<lambda>e. Wrap ''logical tell :'' e []) e)))"

definition Router_Ask :: "('d, 'p, 'm) route_env \<Rightarrow> nat \<Rightarrow> LActorID \<Rightarrow> 'm option \<Rightarrow> ('f, 'k, 'm, 'p) Router \<Rightarrow> 'd \<Rightarrow> ('a, 'k, 'm) System
    \<Rightarrow> ('f, 'k, 'm, 'p) Router \<times> 'd \<times> ('a, 'k, 'm) System \<times> nat result" where
  "Router_Ask E i a message router d s =
     (case prepareRoute E a message router d of
        (router1, d1, Inl e) \<Rightarrow> (router1, d1, s, Inl (Wrap ''logical ask :'' e []))
      | (router1, d1, Inr (target, request)) \<Rightarrow>
          (case Ask_send (re_act E) (Some (pid (procs s ! i))) (Some target) (Val (mk_route E request)) (askTimeout (procs s ! i)) s of
             (s1, Inl e) \<Rightarrow> (router1, d1, s1, Inl (Wrap ''logical ask :'' e []))
           | (s1, Inr n) \<Rightarrow> (router1, d1, s1, Inr n)))"

definition Router_Forward :: "('d, 'p, 'm) route_env \<Rightarrow> nat \<Rightarrow> LActorID \<Rightarrow> 'm option \<Rightarrow> ('f, 'k, 'm, 'p) Router \<Rightarrow> 'd \<Rightarrow> ('a, 'k, 'm) System
    \<Rightarrow> ('f, 'k, 'm, 'p) Router \<times> 'd \<times> ('a, 'k, 'm) System \<times> err" where
  "Router_Forward E i a message router d s =
     (case prepareRoute E a message router d of
        (router1, d1, Inl e) \<Rightarrow> (router1, d1, s, Some (Wrap ''logical forward :'' e []))
      | (router1, d1, Inr (target, request)) \<Rightarrow>
          (case Process_forward (re_act E) i (Some target) (Val (mk_route E request)) s of
             (s1, e) \<Rightarrow> (router1, d1, s1, map_option (\<lambda>e. Wrap ''logical forward :'' e []) e)))"

subsection \<open>What resolving does to the directory\<close>

definition picks_from :: "('p \<Rightarrow> LActorID \<Rightarrow> 'p \<times> LNodeInfo result) \<Rightarrow> LNodeInfo set \<Rightarrow> bool" where
  "picks_from pick N \<longleftrightarrow> (\<forall>st a n. snd (pick st a) = Inr n \<longrightarrow> n \<in> N)"

text \<open>An owner in \<open>P\<close> stays, and epochs grow by at most \<open>k\<close>.\<close>

definition table_moves :: "LActorID set \<Rightarrow> (LNodeInfo \<Rightarrow> bool) \<Rightarrow> nat \<Rightarrow> lease_table \<Rightarrow> lease_table \<Rightarrow> bool" where
  "table_moves A P k L M \<longleftrightarrow> (\<forall>a \<in> A. (\<forall>x. owner_of L a = Some x \<and> P x \<longrightarrow> owner_of M a = Some x)
     \<and> epoch_of L a \<le> epoch_of M a \<and> epoch_of M a \<le> epoch_of L a + k)"

lemma table_moves_refl [simp]: "table_moves A P k L L"
  by (simp add: table_moves_def)

lemma table_moves_agree: "agree A M L \<Longrightarrow> table_moves A P k L M"
  by (simp add: table_moves_def agree_def)

lemma table_moves_trans: "table_moves A P j L M \<Longrightarrow> table_moves A P k M K \<Longrightarrow> table_moves A P (j + k) L K"
  unfolding table_moves_def by (fastforce intro: le_trans)

lemma table_moves_mono: "table_moves A P j L M \<Longrightarrow> j \<le> k \<Longrightarrow> table_moves A P k L M"
  unfolding table_moves_def by (meson add_left_mono le_trans)

lemma table_moves_acquire:
  assumes "inj_on NodeId N" "n \<in> N" "\<And>x. owner_of L a = Some x \<Longrightarrow> x \<in> N" "agree A M (if effect then fst (lease_acquire a n L) else L)"
  shows "table_moves A P 1 L M"
proof -
  have "owner_of (fst (lease_acquire a n L)) a = Some x" if "owner_of L a = Some x" for x
    using that assms(1-3) by (auto simp: lease_acquire_def lease_set_def dest: inj_onD)
  then show ?thesis using assms(4)
    by (cases effect) (auto simp: table_moves_def agree_def lease_acquire_def lease_set_def split: option.splits if_splits)
qed

lemma table_moves_delete:
  assumes "inj_on NodeId N" "n \<in> N" "\<And>x. owner_of L a = Some x \<Longrightarrow> x \<in> N" "\<not> P n" "agree A M (if effect then fst (lease_delete a n L) else L)"
  shows "table_moves A P 1 L M"
proof -
  have "owner_of (fst (lease_delete a n L)) a = Some x" if "owner_of L a = Some x" "P x" for x
    using that assms(1-4) by (auto simp: lease_delete_def lease_set_def lease_held_def same_instance_def dest: inj_onD)
  then show ?thesis using assms(5)
    by (cases effect) (auto simp: table_moves_def agree_def lease_delete_def lease_set_def split: if_splits)
qed

context owner_directory
begin

lemma find_owner_contract:
  assumes "inv d" "a \<in> A" "epoch_of (tab d) a < 2 ^ 53" "inj_on NodeId N" "picks_from pick N"
    and f: "find_owner pick (D i) a router d = (router', d', y)"
  shows "inv d' \<and> table_moves A P 1 (tab d) (tab d') \<and> (\<forall>x. y = Inr x \<longrightarrow> x \<in> N)"
proof -
  obtain d1 z where g: "GetOwner (D i) a d = (d1, z)" by (cases "GetOwner (D i) a d")
  have d1: "inv d1" "agree A (tab d1) (tab d)" "\<And>x. z = Inr (Some x) \<Longrightarrow> x \<in> N" "z = Inr None \<Longrightarrow> owner_of (tab d) a = None"
    using get [OF assms(1-3) g] by auto
  show ?thesis
  proof (cases "z = Inr None")
    case False
    then show ?thesis using f g d1 table_moves_agree [OF d1(2)]
      by (auto simp: find_owner_def split: sum.splits option.splits)
  next
    case True
    obtain r1 w where p: "pickNode pick a router = (r1, w)" by (cases "pickNode pick a router")
    have w: "n \<in> N" if "w = Inr n" for n
      using p that assms(5) by (auto simp: pickNode_def picks_from_def split: option.splits prod.splits sum.splits) (metis snd_conv)
    show ?thesis
    proof (cases w)
      case (Inl e)
      then show ?thesis using f g True p d1 table_moves_agree [OF d1(2)] by (auto simp: find_owner_def placementFor_def)
    next
      case (Inr n)
      obtain d2 v where a: "AcquireOwner (D i) a n d1 = (d2, v)" by (cases "AcquireOwner (D i) a n d1")
      have room: "epoch_of (tab d1) a < 2 ^ 53" using assms(2,3) agreeD(2) [OF d1(2)] by simp
      obtain effect where e: "inv d2" "agree A (tab d2) (if effect then fst (lease_acquire a n (tab d1)) else tab d1)"
        "\<And>x b. v = Inr (x, b) \<Longrightarrow> effect \<and> snd (lease_acquire a n (tab d1)) = (x, b)"
        using acquire [OF d1(1) assms(2) w [OF Inr] room a] by blast
      have own: "x \<in> N" if "owner_of (tab d1) a = Some x" for x using owners [OF d1(1) assms(2) that] .
      have m: "table_moves A P 1 (tab d1) (tab d2)" by (rule table_moves_acquire [OF assms(4) w [OF Inr] own e(2)])
      have x: "x \<in> N" if "v = Inr (x, b)" for x b
        using e(3) [OF that] w [OF Inr] own by (auto simp: lease_acquire_def split: option.splits if_splits)
      have "table_moves A P 1 (tab d) (tab d2)" using table_moves_trans [OF table_moves_agree [OF d1(2), of P 0] m] by simp
      then show ?thesis using f g True p Inr a e(1) x
        by (auto simp: find_owner_def placementFor_def split: sum.splits prod.splits)
    qed
  qed
qed

lemma resolve_loop_contract:
  assumes "inv d" "a \<in> A" "epoch_of (tab d) a + 2 * n \<le> 2 ^ 53" "inj_on NodeId N" "picks_from pick N"
    and "resolve_loop n pick disc (D i) a res router d = (router', d', x, e)" and "snd res \<noteq> None \<or> n > 0"
  shows "inv d' \<and> table_moves A (isNodeAlive disc) (2 * n) (tab d) (tab d') \<and> (e = None \<longrightarrow> isNodeAlive disc x \<and> x \<in> N)"
  using assms
proof (induction n arbitrary: router d res)
  case 0
  then show ?case by auto
next
  case (Suc n)
  obtain r1 d1 y where f: "find_owner pick (D i) a router d = (r1, d1, y)" by (cases "find_owner pick (D i) a router d")
  have room: "epoch_of (tab d) a < 2 ^ 53" using Suc.prems(3) by simp
  have d1: "inv d1" "table_moves A (isNodeAlive disc) 1 (tab d) (tab d1)" "\<And>x. y = Inr x \<Longrightarrow> x \<in> N"
    using find_owner_contract [OF Suc.prems(1,2) room Suc.prems(4,5) f] by blast+
  have e1: "epoch_of (tab d1) a \<le> epoch_of (tab d) a + 1" using d1(2) Suc.prems(2) by (simp add: table_moves_def)
  have step: "inv d' \<and> table_moves A (isNodeAlive disc) (2 * Suc n) (tab d) (tab d') \<and> (e = None \<longrightarrow> isNodeAlive disc x \<and> x \<in> N)"
    if "inv d2" "table_moves A (isNodeAlive disc) 2 (tab d) (tab d2)" "resolve_loop n pick disc (D i) a (q, Some z) r2 d2 = (router', d', x, e)" for d2 q z r2
  proof -
    have "epoch_of (tab d2) a + 2 * n \<le> 2 ^ 53" using that(2) Suc.prems(2,3) by (auto simp: table_moves_def dest!: bspec)
    from Suc.IH [OF that(1) Suc.prems(2) this Suc.prems(4,5) that(3)] table_moves_trans [OF that(2)] show ?thesis by auto
  qed
  show ?case
  proof (cases y)
    case (Inl z)
    then have "resolve_loop n pick disc (D i) a (no_node, Some z) r1 d1 = (router', d', x, e)" using f Suc.prems(6) by simp
    with d1(1) table_moves_mono [OF d1(2), of 2] show ?thesis by (intro step) auto
  next
    case (Inr w)
    show ?thesis
    proof (cases "isNodeAlive disc w")
      case True
      then show ?thesis using f Inr Suc.prems(6) d1(1,3) table_moves_mono [OF d1(2), of "2 * Suc n"] by auto
    next
      case False
      obtain d2 v where dl: "DeleteOwner (D i) a w d1 = (d2, v)" by (cases "DeleteOwner (D i) a w d1")
      have room1: "epoch_of (tab d1) a < 2 ^ 53" using e1 Suc.prems(3) by simp
      obtain effect where ef: "inv d2" "agree A (tab d2) (if effect then fst (lease_delete a w (tab d1)) else tab d1)"
        using delete [OF d1(1) Suc.prems(2) d1(3) [OF Inr] room1 dl] by blast
      have own: "x \<in> N" if "owner_of (tab d1) a = Some x" for x using owners [OF d1(1) Suc.prems(2) that] .
      have "table_moves A (isNodeAlive disc) 1 (tab d1) (tab d2)"
        by (rule table_moves_delete [where N = N and n = w and P = "isNodeAlive disc", OF Suc.prems(4) d1(3) [OF Inr] own False ef(2)])
      from table_moves_trans [OF d1(2) this] have m: "table_moves A (isNodeAlive disc) 2 (tab d) (tab d2)" by (simp add: numeral_2_eq_2)
      obtain z where "resolve_loop n pick disc (D i) a (w, Some z) r1 d2 = (router', d', x, e)"
        using f Inr False dl Suc.prems(6) by (cases v) auto
      with ef(1) m show ?thesis by (rule step)
    qed
  qed
qed

end

text \<open>
  C36: An owner that \<^verbatim>\<open>resolveOwner\<close> returns without an error is alive: discovery reports exactly this
  node under its identifier. Whatever the directory, the placement and the network do, resolving
  never takes an actor away from an owner that is alive.
\<close>

theorem resolve_owner_alive:
  assumes "dir_inv env V p A N d" and "a \<in> A" and "epoch_of (dir_tab env p d) a + 6 \<le> 2 ^ 53"
    and "inj_on NodeId N" and "picks_from pick N"
    and "resolveOwner pick disc (redis_directory env i) a router d = (router', d', x, e)"
  shows "(e = None \<longrightarrow> isNodeAlive disc x \<and> x \<in> N)
    \<and> (\<forall>b \<in> A. \<forall>y. owner_of (dir_tab env p d) b = Some y \<and> isNodeAlive disc y \<longrightarrow> owner_of (dir_tab env p d') b = Some y)"
  using rd.resolve_loop_contract [of env V p A N d a 3 pick disc i "(no_node, None)" router router' d' x e] assms
  by (simp add: resolveOwner_def maxOwnerResolveAttempts_def table_moves_def)

end
