(* ===== verification/RouterActor.thy ===== *)
theory RouterActor
  imports Router
begin

text \<open>
  \<^verbatim>\<open>logicalactor/router_actor.go\<close>: the router actor of a node, which hands a routed message to the local
  actor, activates it, or passes the message on to the node that owns it. Its callbacks are written
  as functions on the directory and on the actor system of the node; \<open>i\<close> is the process of the router
  actor, whose current message is the request. Errors that are only logged are dropped.
\<close>

text \<open>The actors of a system with logical actors: ordinary ones, and those wrapped by \<^verbatim>\<open>ownedActor\<close>.\<close>

datatype 'f hosted = PlainActor 'f | OwnedActor 'f LActorID LNodeInfo int

definition show_pid :: "PID \<Rightarrow> string" where
  "show_pid p = ''&{'' @ show_nat (unat (ActorID p)) @ '' '' @ ActorName p @ '' '' @ NodeID p @ ''}''"

text \<open>The checks at the beginning of \<^verbatim>\<open>routeMessage\<close>.\<close>

definition decode_route :: "('d, 'p, 'm) route_env \<Rightarrow> RouteRequest option \<Rightarrow> (LActorID \<times> 'm) result" where
  "decode_route E request =
     (case request of
        None \<Rightarrow> Inl (Plain ''logical route request is nil'')
      | Some r \<Rightarrow>
          (case rr_Message r of
             None \<Rightarrow> Inl (Plain ''logical route message is nil'')
           | Some m \<Rightarrow>
               (case UnmarshalNew (lib (re_act E)) m of
                  Inl e \<Rightarrow> Inl (Wrap ''decode logical route message: '' e [])
                | Inr payload \<Rightarrow>
                    if ForwardCount r \<ge> maxRouteForwards then Inl ErrRouteForwardLimit
                    else Inr (actorIDFromProto (rr_ActorId r), payload))))"

definition local_target :: "LActorID \<Rightarrow> ('a, 'k, 'm) System \<Rightarrow> PID" where
  "local_target a s = NewPID 0 (ActorID_Name a) (nodeID s)"

definition forward_request :: "RouteRequest \<Rightarrow> LNodeInfo \<Rightarrow> RouteRequest" where
  "forward_request r owner =
     \<lparr>rr_ActorId = rr_ActorId r, rr_Owner = ownerToProto owner, rr_Message = rr_Message r, ForwardCount = ForwardCount r + 1\<rparr>"

definition forwardToOwner :: "('d, 'p, 'm) route_env \<Rightarrow> nat \<Rightarrow> RouteRequest \<Rightarrow> LNodeInfo \<Rightarrow> ('a, 'k, 'm) System \<Rightarrow> ('a, 'k, 'm) System \<times> err" where
  "forwardToOwner E i request owner s =
     (case Process_forward (re_act E) i (Some (NewPID 0 RouterActorName (NodeId owner))) (Val (mk_route E (forward_request request owner))) s of
        (s1, e) \<Rightarrow> (s1, map_option (\<lambda>e. Wrap (''forward to remote owner '' @ NodeId owner @ '': '') e []) e))"

definition activateActor :: "('d, 'p, 'm) route_env \<Rightarrow> int list \<Rightarrow> ('f, 'k, 'm, 'p) Router \<Rightarrow> LActorID \<Rightarrow> LNodeInfo \<Rightarrow> ('f hosted, 'k, 'm) System
    \<Rightarrow> (('f hosted, 'k, 'm) System \<times> PID result) option" where
  "activateActor E clock router a owner s =
     (case map_of (factories router) (la_Kind a) of
        None \<Rightarrow> Some (s, Inl ErrFactoryNotFound)
      | Some factory \<Rightarrow>
          (case factory a of
             (None, _) \<Rightarrow> Some (s, Inl ErrActorFactoryReturnedNil)
           | (Some handler, options) \<Rightarrow>
               (case SpawnActor (Some (OwnedActor handler a owner 0))
                       (options\<lparr>InitArgs := InitArgs options @ [Val (id_arg E a)], Name := ActorID_Name a\<rparr>) clock s of
                  None \<Rightarrow> None
                | Some (s1, _, Some e) \<Rightarrow> Some (s1, Inl e)
                | Some (s1, p, None) \<Rightarrow> Some (s1, Inr (the p)))))"

text \<open>The end of \<^verbatim>\<open>routeMessage\<close>, once this node owns the actor.\<close>

definition route_activate :: "('d, 'p, 'm) route_env \<Rightarrow> int list \<Rightarrow> ('f, 'k, 'm, 'p) Router \<Rightarrow> nat \<Rightarrow> LActorID \<Rightarrow> 'm \<Rightarrow> LNodeInfo
    \<Rightarrow> 'd \<Rightarrow> ('f hosted, 'k, 'm) System \<Rightarrow> ('d \<times> ('f hosted, 'k, 'm) System \<times> err) option" where
  "route_activate E clock router i a payload owner d s =
     (case activateActor E clock router a owner s of
        None \<Rightarrow> None
      | Some (s1, Inl e) \<Rightarrow> Some (fst (DeleteOwner (re_dir E) a owner d), s1, Some (Wrap ''activate actor :'' e []))
      | Some (s1, Inr p) \<Rightarrow>
          (case Process_forward (re_act E) i (Some p) (Val payload) s1 of
             (s2, e) \<Rightarrow> Some (d, s2, map_option (\<lambda>e. Wrap (''forward activate actor'' @ show_pid p @ '' :'') e []) e)))"

definition routeMessage :: "('d, 'p, 'm) route_env \<Rightarrow> int list \<Rightarrow> ('f, 'k, 'm, 'p) Router \<Rightarrow> nat \<Rightarrow> RouteRequest option
    \<Rightarrow> 'd \<Rightarrow> ('f hosted, 'k, 'm) System \<Rightarrow> ('d \<times> ('f hosted, 'k, 'm) System \<times> err) option" where
  "routeMessage E clock router i request d s =
     (case decode_route E request of
        Inl e \<Rightarrow> Some (d, s, Some e)
      | Inr (a, payload) \<Rightarrow>
          (let target = local_target a s in
           if Has (Some target) s then
             (case Process_forward (re_act E) i (Some target) (Val payload) s of
                (s1, e) \<Rightarrow> Some (d, s1, map_option (\<lambda>e. Wrap (''target:'' @ show_pid target @ '' local forward: '') e []) e))
           else
             (case AcquireOwner (re_dir E) a (local_node router) d of
                (d1, Inl e) \<Rightarrow> Some (d1, s, Some (Wrap ''acquire owner: '' e []))
              | (d1, Inr (owner, acquired)) \<Rightarrow>
                  if \<not> acquired \<and> \<not> isLocal router owner
                  then (case forwardToOwner E i (the request) owner s of (s1, e) \<Rightarrow> Some (d1, s1, e))
                  else route_activate E clock router i a payload owner d1 s)))"

definition handleMessage :: "('d, 'p, 'm) route_env \<Rightarrow> int list \<Rightarrow> ('f, 'k, 'm, 'p) Router \<Rightarrow> nat \<Rightarrow> ('k, 'm) any
    \<Rightarrow> 'd \<Rightarrow> ('f hosted, 'k, 'm) System \<Rightarrow> ('d \<times> ('f hosted, 'k, 'm) System \<times> err) option" where
  "handleMessage E clock router i message d s =
     (case message of
        Val m \<Rightarrow>
          (case as_route E m of
             Some request \<Rightarrow>
               map_option (\<lambda>(d, s, e). (d, s, map_option (\<lambda>e. Wrap ''route message: '' e []) e)) (routeMessage E clock router i request d s)
           | None \<Rightarrow> Some (d, s, Some (Plain (''unknown msg type: '' @ type_text (lib (re_act E)) m))))
      | _ \<Rightarrow> Some (d, s, Some (Plain (''unknown msg type: <nil>''))))"

definition RouterActor_HandleTell :: "('d, 'p, 'm) route_env \<Rightarrow> int list \<Rightarrow> ('f, 'k, 'm, 'p) Router \<Rightarrow> nat \<Rightarrow> ('k, 'm) any
    \<Rightarrow> 'd \<Rightarrow> ('f hosted, 'k, 'm) System \<Rightarrow> ('d \<times> ('f hosted, 'k, 'm) System) option" where
  "RouterActor_HandleTell E clock router i message d s = map_option (\<lambda>(d, s, _). (d, s)) (handleMessage E clock router i message d s)"

definition RouterActor_HandleAsk :: "('d, 'p, 'm) route_env \<Rightarrow> int list \<Rightarrow> ('f, 'k, 'm, 'p) Router \<Rightarrow> nat \<Rightarrow> ('k, 'm) any
    \<Rightarrow> 'd \<Rightarrow> ('f hosted, 'k, 'm) System \<Rightarrow> ('d \<times> ('f hosted, 'k, 'm) System \<times> ('k, 'm) any \<times> err) option" where
  "RouterActor_HandleAsk E clock router i message d s = map_option (\<lambda>(d, s, e). (d, s, NilV, e)) (handleMessage E clock router i message d s)"

subsection \<open>The wrapper of a logical actor\<close>

text \<open>The interval of the renewal timer in nanoseconds; \<open>None\<close> starts no timer.\<close>

definition renew_interval :: "int \<Rightarrow> int option" where
  "renew_interval lease = (if lease \<le> 0 then None else Some (if lease div 3 < 1000000000 then 1000000000 else lease div 3))"

text \<open>The task of the timer: the directory afterwards, and whether the timer goes on.\<close>

definition renew_task :: "'d OwnerDirectory \<Rightarrow> LActorID \<Rightarrow> LNodeInfo \<Rightarrow> 'd \<Rightarrow> 'd \<times> bool" where
  "renew_task D a owner d =
     (case RenewOwner D a owner d of
        (d1, Inl e) \<Rightarrow> (d1, True)
      | (d1, Inr renewed) \<Rightarrow> (d1, renewed))"

text \<open>What \<^verbatim>\<open>Destroy\<close> of the wrapper does before the business actor's \<^verbatim>\<open>Destroy\<close>.\<close>

definition owned_destroy :: "'d OwnerDirectory \<Rightarrow> 'f hosted \<Rightarrow> 'd \<Rightarrow> 'd" where
  "owned_destroy D h d = (case h of OwnedActor f a owner t \<Rightarrow> fst (DeleteOwner D a owner d) | PlainActor f \<Rightarrow> d)"

subsection \<open>Forwarding ends\<close>

text \<open>What a router that handles \<open>r\<close> passes on instead of delivering.\<close>

definition passes_on :: "('d, 'p, 'm) route_env \<Rightarrow> ('f, 'k, 'm, 'p) Router \<Rightarrow> RouteRequest \<Rightarrow> 'd \<Rightarrow> ('f hosted, 'k, 'm) System \<Rightarrow> RouteRequest option" where
  "passes_on E router r d s =
     (case decode_route E (Some r) of
        Inl e \<Rightarrow> None
      | Inr (a, payload) \<Rightarrow>
          if Has (Some (local_target a s)) s then None
          else (case AcquireOwner (re_dir E) a (local_node router) d of
                  (d1, Inr (owner, acquired)) \<Rightarrow> if \<not> acquired \<and> \<not> isLocal router owner then Some (forward_request r owner) else None
                | _ \<Rightarrow> None))"

lemma routeMessage_passes_on:
  assumes "passes_on E router r d s = Some r'"
  shows "\<exists>owner d1. r' = forward_request r owner \<and> NodeId owner \<noteq> NodeId (local_node router)
    \<and> routeMessage E clock router i (Some r) d s = (case forwardToOwner E i r owner s of (s1, e) \<Rightarrow> Some (d1, s1, e))"
  using assms by (auto simp: passes_on_def routeMessage_def isLocal_def Let_def split: sum.splits prod.splits if_splits)

text \<open>A request on its way over routers, each in the state in which the request reaches it.\<close>

fun hops :: "('d, 'p, 'm) route_env \<Rightarrow> (('f, 'k, 'm, 'p) Router \<times> 'd \<times> ('f hosted, 'k, 'm) System) list \<Rightarrow> RouteRequest \<Rightarrow> RouteRequest option" where
  "hops E [] r = Some r"
| "hops E ((router, d, s) # nodes) r = (case passes_on E router r d s of None \<Rightarrow> None | Some r' \<Rightarrow> hops E nodes r')"

lemma hops_count:
  "hops E nodes r = Some r' \<Longrightarrow> unat (ForwardCount r) \<le> 3 \<Longrightarrow>
   unat (ForwardCount r') = unat (ForwardCount r) + length nodes \<and> unat (ForwardCount r') \<le> 3
   \<and> rr_ActorId r' = rr_ActorId r \<and> rr_Message r' = rr_Message r"
proof (induction E nodes r rule: hops.induct)
  case (2 E router d s nodes r)
  then obtain q where q: "passes_on E router r d s = Some q" "hops E nodes q = Some r'" by (auto split: option.splits)
  from q(1) obtain x where x: "q = forward_request r x" "\<not> ForwardCount r \<ge> maxRouteForwards"
    by (auto simp: passes_on_def decode_route_def split: sum.splits prod.splits if_splits option.splits)
  then have n: "unat (ForwardCount r) < 3" by (simp add: maxRouteForwards_def word_le_nat_alt)
  then have "unat (ForwardCount q) = Suc (unat (ForwardCount r))" using x(1) by (simp add: forward_request_def unat_word_ariths)
  moreover have "rr_ActorId q = rr_ActorId r" "rr_Message q = rr_Message r" using x(1) by (simp_all add: forward_request_def)
  ultimately show ?case using "2.IH" [OF q] n by simp
qed simp


end
