(* ===== verification/ActorRun.thy ===== *)
theory ActorRun
  imports ActorSystem
begin

text \<open>
  The execution of actors: \<^verbatim>\<open>Process.InvokerMessage\<close> and the calls of \<^verbatim>\<open>actor/context.go\<close>. The
  goroutine of a process has a stack of frames, the callback that runs on top. \<open>begin_message\<close> is
  the beginning of \<^verbatim>\<open>InvokerMessage\<close>; \<open>proc_step\<close> is the next call that the callback on top makes,
  its return, or its panic. \<open>sys_step\<close> is the interleaving: the next action of the system is one of
  any process, of a timer, or a call from outside.

  The callbacks of all actors are a parameter (\<open>behavior\<close>). The deferred functions of \<^verbatim>\<open>after\<close> and
  \<^verbatim>\<open>handleDestroy\<close> run when their frame ends, by a return or by a panic. Logging is left out.
\<close>

record ('a, 'k, 'm) behavior =
  actor_Init :: "'a \<Rightarrow> ('a, 'k, 'm) prog"
  HandleTell :: "('k, 'm) any \<Rightarrow> 'a \<Rightarrow> ('a, 'k, 'm) prog"
  HandleAsk :: "('k, 'm) any \<Rightarrow> 'a \<Rightarrow> ('a, 'k, 'm) prog"
  Destroy :: "'a \<Rightarrow> ('a, 'k, 'm) prog"
  OnPanic :: "('k, 'm) any \<Rightarrow> 'a \<Rightarrow> ('a, 'k, 'm) prog"
  RunTask :: "'k \<Rightarrow> 'a \<Rightarrow> ('a, 'k, 'm) prog"
  RunCompletion :: "'k \<Rightarrow> ('k, 'm) any \<Rightarrow> err \<Rightarrow> 'a \<Rightarrow> ('a, 'k, 'm) prog"

definition DefaultActor :: "('a, 'k, 'm) behavior" where
  "DefaultActor = \<lparr>actor_Init = (\<lambda>a. Ret a NilV None), HandleTell = (\<lambda>_ a. Ret a NilV None),
     HandleAsk = (\<lambda>_ a. Ret a NilV None), Destroy = (\<lambda>a. Ret a NilV None), OnPanic = (\<lambda>_ a. Ret a NilV None),
     RunTask = (\<lambda>_ a. Ret a NilV None), RunCompletion = (\<lambda>_ _ _ a. Ret a NilV None)\<rparr>"

subsection \<open>InvokerMessage\<close>

text \<open>The frame that a message starts.\<close>

fun message_frame :: "('a, 'k, 'm) behavior \<Rightarrow> ('k, 'm) Envelope \<Rightarrow> 'a \<Rightarrow> fkind \<times> ('a, 'k, 'm) prog" where
  "message_frame b e a = (case Payload e of
      InitMessage \<Rightarrow> (FInit, actor_Init b a)
    | StopMessage \<Rightarrow> (FDestroy, Destroy b a)
    | User (TaskFn (UserTask k)) \<Rightarrow> (FTask, RunTask b k a)
    | User (TaskFn (AfterTask t k)) \<Rightarrow> (FAfter t, RunTask b k a)
    | User (TaskFn (AskDone k v x)) \<Rightarrow> (FTask, RunCompletion b k v x a)
    | User v \<Rightarrow> (case meta_Request (Meta e) of
          Some r \<Rightarrow> if ref_RequestID r > 0 then (FAsk, HandleAsk b v a) else (FTell, HandleTell b v a)
        | None \<Rightarrow> (FTell, HandleTell b v a)))"

definition begin_proc :: "('a, 'k, 'm) behavior \<Rightarrow> ('k, 'm) Envelope \<Rightarrow> ('a, 'k, 'm) Process \<Rightarrow> ('a, 'k, 'm) Process" where
  "begin_proc b e p =
     (let p1 = p\<lparr>mailbox := tl (mailbox p), handled_msgs := handled_msgs p @ [Payload e], current := e, responded := False,
                 stack := [message_frame b e (actor p)]\<rparr>
      in if Payload e = StopMessage then clearTimers p1 else p1)"

definition begin_message :: "('a, 'k, 'm) behavior \<Rightarrow> nat \<Rightarrow> ('a, 'k, 'm) System \<Rightarrow> ('a, 'k, 'm) System option" where
  "begin_message b i s =
     (case (stack (procs s ! i), mailbox (procs s ! i)) of
        ([], e # _) \<Rightarrow> Some (upd_proc i (begin_proc b e) s)
      | _ \<Rightarrow> None)"

text \<open>The deferred function of a frame.\<close>

definition frame_defer :: "nat \<Rightarrow> fkind \<Rightarrow> ('a, 'k, 'm) System \<Rightarrow> ('a, 'k, 'm) System" where
  "frame_defer i k s = (case k of
      FAfter t \<Rightarrow> upd_proc i (stopTimer t) s
    | FDestroy \<Rightarrow> manager_remove (pid (procs s ! i)) s
    | FForce \<Rightarrow> manager_remove (pid (procs s ! i)) s
    | _ \<Rightarrow> s)"

text \<open>
  A callback returns. The frame below a forced stop is at its call of \<^verbatim>\<open>ForceStop\<close>, which returns
  now.
\<close>

definition resume_below :: "'a \<Rightarrow> (fkind \<times> ('a, 'k, 'm) prog) list \<Rightarrow> (fkind \<times> ('a, 'k, 'm) prog) list" where
  "resume_below a rest = (case rest of
      (k, CtxForceStop _ cont) # rest' \<Rightarrow> (k, cont a) # rest'
    | _ \<Rightarrow> rest)"

definition frame_return :: "'m act_env \<Rightarrow> nat \<Rightarrow> fkind \<Rightarrow> 'a \<Rightarrow> ('k, 'm) any \<Rightarrow> err \<Rightarrow> ('a, 'k, 'm) System \<Rightarrow> ('a, 'k, 'm) System" where
  "frame_return env i k a v e s =
     (let s1 = upd_proc i (\<lambda>p. p\<lparr>actor := a\<rparr>) s;
          s2 = (if k = FAsk then handleAsk_return env i v e s1 else frame_defer i k s1)
      in upd_proc i (\<lambda>p. p\<lparr>stack := (if k = FForce then resume_below a (tl (stack p)) else tl (stack p)),
                           closed := (closed p \<or> k = FDestroy \<or> k = FForce)\<rparr>) s2)"

text \<open>
  A panic leaves the frames one after the other, running their deferred functions, up to the
  recovering function: that of \<^verbatim>\<open>Process.panic\<close> when the callback \<^verbatim>\<open>Panic\<close> itself panics, that of
  \<^verbatim>\<open>InvokerMessage\<close> otherwise, which calls \<^verbatim>\<open>Panic\<close>.
\<close>

fun unwind :: "nat \<Rightarrow> (fkind \<times> ('a, 'k, 'm) prog) list \<Rightarrow> ('a, 'k, 'm) System \<Rightarrow> ('a, 'k, 'm) System \<times> bool" where
  "unwind i [] s = (s, True)"
| "unwind i ((k, _) # rest) s = (if k = FPanic then (s, False) else unwind i rest (frame_defer i k s))"

definition frame_panic :: "('a, 'k, 'm) behavior \<Rightarrow> nat \<Rightarrow> 'a \<Rightarrow> ('k, 'm) any \<Rightarrow> ('a, 'k, 'm) System \<Rightarrow> ('a, 'k, 'm) System" where
  "frame_panic b i a v s =
     (case unwind i (stack (procs s ! i)) (upd_proc i (\<lambda>p. p\<lparr>actor := a\<rparr>) s) of
        (s1, recovers) \<Rightarrow> upd_proc i (\<lambda>p. p\<lparr>stack := (if recovers then [(FPanic, OnPanic b v a)] else [])\<rparr>) s1)"

subsection \<open>Calls of the context\<close>

definition process_view :: "('a, 'k, 'm) Process \<Rightarrow> ('k, 'm) view" where
  "process_view p = \<lparr>v_self = pid p, v_sender = Sender (current p), v_message = Payload (current p),
     v_meta = Meta (current p), v_initArgs = initArgs p\<rparr>"

definition set_top :: "nat \<Rightarrow> ('a, 'k, 'm) prog \<Rightarrow> ('a, 'k, 'm) System \<Rightarrow> ('a, 'k, 'm) System" where
  "set_top i q = upd_proc i (\<lambda>p. p\<lparr>stack := (case stack p of [] \<Rightarrow> [] | (k, _) # rest \<Rightarrow> (k, q) # rest)\<rparr>)"

definition force_stop :: "('a, 'k, 'm) behavior \<Rightarrow> nat \<Rightarrow> 'a \<Rightarrow> ('a, 'k, 'm) System \<Rightarrow> ('a, 'k, 'm) System" where
  "force_stop b i a = upd_proc i (\<lambda>p. (clearTimers p)\<lparr>stack := (FForce, Destroy b a) # stack p, forced := forced p + 1, actor := a\<rparr>)"

text \<open>
  One call: the state afterwards, or \<open>None\<close> when the call blocks (a result that has not arrived, a
  generator that waits for the clock).
\<close>

fun call_step :: "'m act_env \<Rightarrow> ('a, 'k, 'm) behavior \<Rightarrow> int list \<Rightarrow> nat \<Rightarrow> ('a, 'k, 'm) prog \<Rightarrow> ('a, 'k, 'm) System \<Rightarrow> ('a, 'k, 'm) System option" where
  "call_step env b clock i (Ret a v e) s = Some (frame_return env i (fst (hd (stack (procs s ! i)))) a v e s)"
| "call_step env b clock i (Panic a v) s = Some (frame_panic b i a v s)"
| "call_step env b clock i (Read f) s = Some (set_top i (f (process_view (procs s ! i))) s)"
| "call_step env b clock i (CtxTell target m f) s =
     (case Tell env (Some (pid (procs s ! i))) target m s of (s1, e) \<Rightarrow> Some (set_top i (f e) s1))"
| "call_step env b clock i (CtxForward target m f) s =
     (case Process_forward env i target m s of (s1, e) \<Rightarrow> Some (set_top i (f e) s1))"
| "call_step env b clock i (CtxAsk target m f) s =
     (case Ask_send env (Some (pid (procs s ! i))) target m (askTimeout (procs s ! i)) s of
        (s1, Inl e) \<Rightarrow> Some (set_top i (f NilV (Some e)) s1)
      | (s1, Inr n) \<Rightarrow> Some (set_top i (Wait n f) s1))"
| "call_step env b clock i (Wait n f) s =
     (case Ask_receive n s of None \<Rightarrow> None | Some (v, e) \<Rightarrow> Some (set_top i (f v e) s))"
| "call_step env b clock i (CtxAskAsync target m k f) s =
     (case AskAsync env (Some (pid (procs s ! i))) target m (askTimeout (procs s ! i)) k s of
        (s1, e) \<Rightarrow> Some (set_top i (f e) s1))"
| "call_step env b clock i (CtxRespond m f) s =
     (case Process_respond env i m s of (s1, e) \<Rightarrow> Some (set_top i (f e) s1))"
| "call_step env b clock i (CtxRespondError x f) s =
     (case Process_respondError env i x s of (s1, e) \<Rightarrow> Some (set_top i (f e) s1))"
| "call_step env b clock i (CtxTicker k f) s = (case Process_ticker k i s of (s1, t) \<Rightarrow> Some (set_top i (f t) s1))"
| "call_step env b clock i (CtxAfterFunc k f) s = (case Process_after k i s of (s1, t) \<Rightarrow> Some (set_top i (f t) s1))"
| "call_step env b clock i (CtxStopTimer t q) s = Some (set_top i q (upd_proc i (stopTimer t) s))"
| "call_step env b clock i (CtxSetAskTimeout d q) s = Some (set_top i q (upd_proc i (\<lambda>p. p\<lparr>askTimeout := d\<rparr>) s))"
| "call_step env b clock i (CtxStop q) s = Some (set_top i q (Process_Stop (Some (pid (procs s ! i))) i s))"
| "call_step env b clock i (CtxForceStop a f) s = Some (force_stop b i a s)"
| "call_step env b clock i (CtxStopProcess from target q) s = Some (set_top i q (StopProcess from target s))"
| "call_step env b clock i (CtxSpawn h options f) s =
     (case SpawnActor h options clock s of None \<Rightarrow> None | Some (s1, p, e) \<Rightarrow> Some (set_top i (f p e) s1))"

definition proc_step :: "'m act_env \<Rightarrow> ('a, 'k, 'm) behavior \<Rightarrow> int list \<Rightarrow> nat \<Rightarrow> ('a, 'k, 'm) System \<Rightarrow> ('a, 'k, 'm) System option" where
  "proc_step env b clock i s =
     (case stack (procs s ! i) of
        [] \<Rightarrow> begin_message b i s
      | (_, q) # _ \<Rightarrow> call_step env b clock i q s)"

subsection \<open>The system\<close>

text \<open>A call from a goroutine that does not belong to an actor, or an event of the environment.\<close>

datatype ('a, 'k, 'm) event =
    EProc nat "int list"
  | ETimer nat int
  | ERequestTimeout request_id
  | ETell "PID option" "PID option" "('k, 'm) any"
  | EAsk "PID option" "PID option" "('k, 'm) any" int
  | EAskAsync "PID option" "PID option" "('k, 'm) any" int "'k option"
  | ESpawn "'a option" "('k, 'm) SpawnOptions" "int list"
  | EStopProcess "PID option" "PID option"
  | EOnMessage string bytes
  | ELifecycleInit
  | EStop "'k completion iter"

text \<open>\<open>None\<close>: the event cannot happen (now).\<close>

fun do_event :: "'m act_env \<Rightarrow> ('a, 'k, 'm) behavior \<Rightarrow> ('a, 'k, 'm) event \<Rightarrow> ('a, 'k, 'm) System \<Rightarrow> ('a, 'k, 'm) System option" where
  "do_event env b (EProc i clock) s = (if i < length (procs s) then proc_step env b clock i s else None)"
| "do_event env b (ETimer i t) s = (if i < length (procs s) then Some (fire_timer t i s) else None)"
| "do_event env b (ERequestTimeout i) s =
     (case map_of (pending (requests s)) i of
        Some r \<Rightarrow> if req_timer r \<noteq> None then Some (request_timeout env i s) else None
      | None \<Rightarrow> None)"
| "do_event env b (ETell from target m) s = Some (fst (Tell env from target m s))"
| "do_event env b (EAsk from target m d) s = Some (fst (Ask_send env from target m d s))"
| "do_event env b (EAskAsync from target m d k) s = Some (fst (AskAsync env from target m d k s))"
| "do_event env b (ESpawn h options clock) s = map_option fst (SpawnActor h options clock s)"
| "do_event env b (EStopProcess from target) s = Some (StopProcess from target s)"
| "do_event env b (EOnMessage node data) s = Some (fst (OnMessage env node data s))"
| "do_event env b ELifecycleInit s =
     (case Controller_Init (sys_lifecycle s) (None :: unit hook) () of (c, _, _) \<Rightarrow> Some (s\<lparr>sys_lifecycle := c\<rparr>))"
| "do_event env b (EStop iter) s = Some (fst (System_Stop env iter s))"

text \<open>
  The readings of the clock are within the range of the identifier layout (69 years from its start
  in the default one), and Go's iteration over a map visits every entry once.
\<close>

fun event_ok :: "('a, 'k, 'm) event \<Rightarrow> ('a, 'k, 'm) System \<Rightarrow> bool" where
  "event_ok (EProc i clock) s = list_all (in_range (idGenerator s)) clock"
| "event_ok (ESpawn h options clock) s = list_all (in_range (idGenerator s)) clock"
| "event_ok (EStop iter) s = (mset (iter (pending (requests s))) = mset (pending (requests s)))"
| "event_ok _ s = True"

inductive sys_reachable :: "'m act_env \<Rightarrow> ('a, 'k, 'm) behavior \<Rightarrow> ('a, 'k, 'm) System \<Rightarrow> ('a, 'k, 'm) System \<Rightarrow> bool"
  for env b s0 where
  start: "sys_reachable env b s0 s0"
| step: "sys_reachable env b s0 s \<Longrightarrow> event_ok ev s \<Longrightarrow> do_event env b ev s = Some s' \<Longrightarrow> sys_reachable env b s0 s'"

text \<open>A run given by its events.\<close>

fun run_events :: "'m act_env \<Rightarrow> ('a, 'k, 'm) behavior \<Rightarrow> ('a, 'k, 'm) event list \<Rightarrow> ('a, 'k, 'm) System \<Rightarrow> ('a, 'k, 'm) System option" where
  "run_events env b [] s = Some s"
| "run_events env b (ev # evs) s =
     (if event_ok ev s then (case do_event env b ev s of None \<Rightarrow> None | Some s1 \<Rightarrow> run_events env b evs s1) else None)"

lemma run_events_reachable:
  "run_events env b evs s = Some s' \<Longrightarrow> sys_reachable env b s0 s \<Longrightarrow> sys_reachable env b s0 s'"
  by (induction evs arbitrary: s) (auto intro: sys_reachable.step split: if_splits option.splits)

end
