(* ===== verification/ActorInv.thy ===== *)
theory ActorInv
  imports ActorRun
begin

text \<open>
  The invariant of an actor system: what every process has in its mailbox and on its stack, and how
  the registry relates to the processes.
\<close>

lemma upd_proc_simps [simp]:
  "ids (upd_proc i f s) = ids s" "names (upd_proc i f s) = names s" "waitGroup (upd_proc i f s) = waitGroup s"
  "requests (upd_proc i f s) = requests s" "idGenerator (upd_proc i f s) = idGenerator s" "stopping (upd_proc i f s) = stopping s"
  "chans (upd_proc i f s) = chans s" "outbox (upd_proc i f s) = outbox s" "nodeID (upd_proc i f s) = nodeID s"
  "remoteSender (upd_proc i f s) = remoteSender s" "sys_lifecycle (upd_proc i f s) = sys_lifecycle s"
  "issued_reqs (upd_proc i f s) = issued_reqs s"
  "length (procs (upd_proc i f s)) = length (procs s)"
  by (simp_all add: upd_proc_def)

lemma procs_upd_proc: "procs (upd_proc i f s) = (procs s)[i := f (procs s ! i)]"
  by (simp add: upd_proc_def)

lemma nth_upd_proc [simp]: "i < length (procs s) \<Longrightarrow> procs (upd_proc i f s) ! i = f (procs s ! i)"
  "j \<noteq> i \<Longrightarrow> procs (upd_proc i f s) ! j = procs s ! j"
  by (simp_all add: upd_proc_def)

lemma upd_proc_beyond: "\<not> i < length (procs s) \<Longrightarrow> upd_proc i f s = s"
  by (simp add: upd_proc_def list_update_beyond)

subsection \<open>What sending may change\<close>

text \<open>
  The contract of all operations that only send, answer or register requests: a reflexive and
  transitive relation that allows changes of the request table, the channels and the outbox, user
  messages for processes that are not closing, and the mark that a message was answered.
\<close>

locale sending =
  fixes R :: "('a, 'k, 'm) System \<Rightarrow> ('a, 'k, 'm) System \<Rightarrow> bool"
  assumes R_refl: "R s s"
    and R_trans: "R s s1 \<Longrightarrow> R s1 s2 \<Longrightarrow> R s s2"
    and R_requests: "R s (s\<lparr>requests := m\<rparr>)"
    and R_issued: "R s (s\<lparr>issued_reqs := issued_reqs s + 1\<rparr>)"
    and R_chans: "R s (s\<lparr>chans := c\<rparr>)"
    and R_outbox: "R s (s\<lparr>outbox := outbox s @ [x]\<rparr>)"
    and R_push: "\<not> closing (procs s ! i) \<Longrightarrow> Payload e = User v \<Longrightarrow> R s (upd_proc i (enqueue e) s)"
    and R_responded: "R s (mark_responded i s)"
begin

lemma R_Push: "Payload e = User v \<Longrightarrow> R s (fst (Process_Push e i s))"
  by (auto simp: Process_Push_def R_refl R_push)

lemma R_PushSystem: "Payload e = User v \<Longrightarrow> R s (fst (Process_PushSystem e i s))"
  by (auto simp: Process_PushSystem_def R_refl R_push)

lemma R_sendRemoteMessage: "R s (fst (sendRemoteMessage env message s))"
  by (auto simp: sendRemoteMessage_def R_refl R_outbox split: option.splits sum.splits)

lemma R_sendRemoteEnvelope: "R s (fst (sendRemoteEnvelope env target e s))"
  using R_trans [OF R_requests R_sendRemoteMessage, of s] R_sendRemoteMessage [of s]
  by (auto simp: sendRemoteEnvelope_def R_refl Let_def split: option.splits sum.splits)

lemma R_SendEnvelope: "Payload e = User v \<Longrightarrow> R s (fst (SendEnvelope env target e s))"
  by (auto simp: SendEnvelope_def R_refl R_sendRemoteEnvelope R_Push split: option.splits sum.splits)

lemma R_Tell: "R s (fst (Tell env from target m s))"
  by (simp add: Tell_def R_SendEnvelope)

lemma R_doTask: "R s (fst (doTask env from target t s))"
  by (simp add: doTask_def R_SendEnvelope)

lemma R_sendAsk: "R s (fst (sendAsk env from target m d c s))"
proof -
  have send: "R s (fst (SendEnvelope env target \<lparr>Payload = User m, Sender = from, Meta = meta\<rparr> (s\<lparr>requests := q, issued_reqs := issued_reqs s + 1\<rparr>)))" for q meta
    using R_trans [OF R_requests R_issued, of s q] by (intro R_trans [OF _ R_SendEnvelope [of _ m]]) simp_all
  obtain q ref where add: "rm_add (requests s) (nodeID s) (NodeID (the target)) (if d \<le> 0 then defaultActorAskTimeout else d) c = (q, ref)"
    by fastforce
  obtain s1 e where s1: "SendEnvelope env target \<lparr>Payload = User m, Sender = from, Meta = \<lparr>meta_Request = Some (projr ref)\<rparr>\<rparr>
      (s\<lparr>requests := q, issued_reqs := issued_reqs s + 1\<rparr>) = (s1, e)" by fastforce
  have "R s s1" using send [of "\<lparr>meta_Request = Some (projr ref)\<rparr>" q] s1 by simp
  then show ?thesis
    using add s1 R_trans [OF _ R_requests, of s s1]
    by (auto simp: sendAsk_def R_refl R_requests Let_def split: option.splits sum.splits)
qed

lemma R_Ask_send: "R s (fst (Ask_send env from target m d s))"
  using R_trans [OF R_chans R_sendAsk, of s]
  by (auto simp: Ask_send_def split: option.splits prod.splits) (metis fst_conv)+

lemma R_AskAsync: "R s (fst (AskAsync env from target m d k s))"
  by (auto simp: AskAsync_def R_refl R_sendAsk split: option.splits)

lemma R_run_completion: "R s (run_completion env cb v e s)"
  by (cases cb) (simp_all add: R_chans R_doTask)

lemma R_complete_request: "R s (fst (complete_request env i v e s))"
  using R_trans [OF R_requests R_run_completion, of s] by (auto simp: complete_request_def R_requests split: prod.splits sum.splits)

lemma R_request_timeout: "R s (request_timeout env i s)"
  by (simp add: request_timeout_def R_complete_request)

lemma R_respond: "R s (fst (System_respond env from meta m s))"
  by (auto simp: System_respond_def sendRemoteAskResponse_def R_refl R_sendRemoteMessage R_complete_request split: option.splits sum.splits)

lemma R_respondError: "R s (fst (System_respondError env from meta e s))"
  by (auto simp: System_respondError_def sendRemoteRequestError_def R_refl R_sendRemoteMessage R_complete_request split: option.splits)

lemma R_marked: "R s s1 \<Longrightarrow> R s (mark_responded i s1)"
  by (rule R_trans [OF _ R_responded])

lemma R_Process_respond: "R s (fst (Process_respond env i m s))"
  using R_respond [of s env "pid (procs s ! i)" "Meta (current (procs s ! i))" m]
  by (auto simp: Process_respond_def Let_def R_refl R_marked split: prod.splits option.splits)

lemma R_Process_respondError: "R s (fst (Process_respondError env i e s))"
  using R_respondError [of s env "pid (procs s ! i)" "Meta (current (procs s ! i))" e]
  by (auto simp: Process_respondError_def Let_def R_refl R_marked split: prod.splits option.splits)

lemma R_Process_forward: "R s (fst (Process_forward env i target m s))"
  using R_SendEnvelope [of "\<lparr>Payload = User m, Sender = Sender (current (procs s ! i)), Meta = Meta (current (procs s ! i))\<rparr>" m s env target]
  by (auto simp: Process_forward_def Let_def R_refl R_marked split: prod.splits option.splits)

lemma R_handleAsk_return: "R s (handleAsk_return env i v e s)"
  using R_trans [OF R_Process_respondError R_Process_respond, of s]
  by (auto simp: handleAsk_return_def Let_def R_refl R_Process_respond R_Process_respondError)

lemma R_reject: "R s (rejectRemoteRequest env message cause s)"
  by (auto simp: rejectRemoteRequest_def sendRemoteRequestError_def R_refl R_sendRemoteMessage split: RemoteBody.splits option.splits)

lemma R_onRemoteEnvelope: "R s (fst (onRemoteEnvelopeHandler env message common request s))"
proof (cases request)
  case (Some req)
  show ?thesis
  proof (cases "UnmarshalWithName (lib env) (rq_MessageName req) (rq_Payload req)")
    case (Inr payload)
    let ?e = "\<lparr>Payload = User (Val payload), Sender = pidFromProto (SourcePid common), Meta = \<lparr>meta_Request = requestRefFromProto (rq_Request req)\<rparr>\<rparr>"
    obtain s1 e where s1: "SendEnvelope env (pidFromProto (TargetPid common)) ?e s = (s1, e)" by fastforce
    then have "R s s1" using R_SendEnvelope [of ?e "Val payload" s env "pidFromProto (TargetPid common)"] by simp
    with s1 Inr Some R_trans [OF _ R_reject] show ?thesis by (simp add: onRemoteEnvelopeHandler_def split: option.splits)
  qed (simp add: onRemoteEnvelopeHandler_def Some R_refl)
qed (simp add: onRemoteEnvelopeHandler_def R_refl)

lemma R_onRemoteResponse: "R s (fst (onRemoteResponseHandler env response s))"
  by (auto simp: onRemoteResponseHandler_def R_refl R_complete_request split: option.splits RemoteMessageKind.splits sum.splits)

lemma R_OnMessage: "R s (fst (OnMessage env node data s))"
  by (auto simp: OnMessage_def onRemoteHandler_def R_refl R_onRemoteEnvelope R_onRemoteResponse Let_def
      split: sum.splits option.splits RemoteBody.splits)

lemma R_requests_stop: "R s (requests_stop env iter s)"
proof -
  have "R s (fold (\<lambda>(i, cb) s. run_completion env cb NilV x s) cs s)" for s x and cs :: "(request_id \<times> 'k completion) list"
    by (induction cs arbitrary: s) (auto simp: R_refl intro: R_trans [OF R_run_completion])
  note R_trans [OF R_requests this]
  then show ?thesis by (simp add: requests_stop_def split: prod.split)
qed

end

text \<open>The relation that the invariant is stable under.\<close>

definition proc_delivers :: "('a, 'k, 'm) Process \<Rightarrow> ('a, 'k, 'm) Process \<Rightarrow> bool" where
  "proc_delivers p p' \<longleftrightarrow> (\<exists>es r. p' = p\<lparr>mailbox := mailbox p @ es, accepted := accepted p @ map Payload es, responded := r\<rparr>
     \<and> (\<forall>e \<in> set es. \<exists>v. Payload e = User v) \<and> (closing p \<longrightarrow> es = []))"

definition delivers :: "('a, 'k, 'm) System \<Rightarrow> ('a, 'k, 'm) System \<Rightarrow> bool" where
  "delivers s s' \<longleftrightarrow> list_all2 proc_delivers (procs s) (procs s') \<and> ids s' = ids s \<and> names s' = names s
     \<and> waitGroup s' = waitGroup s \<and> stopping s' = stopping s \<and> idGenerator s' = idGenerator s \<and> nodeID s' = nodeID s
     \<and> remoteSender s' = remoteSender s \<and> sys_lifecycle s' = sys_lifecycle s"

lemma proc_delivers_refl [simp]: "proc_delivers p p"
  unfolding proc_delivers_def by (intro exI [of _ "[]"] exI [of _ "responded p"]) simp

lemma proc_delivers_trans: "proc_delivers p q \<Longrightarrow> proc_delivers q r \<Longrightarrow> proc_delivers p r"
proof -
  assume "proc_delivers p q" "proc_delivers q r"
  then obtain es r1 es' r2 where "q = p\<lparr>mailbox := mailbox p @ es, accepted := accepted p @ map Payload es, responded := r1\<rparr>"
    "\<forall>e \<in> set es. \<exists>v. Payload e = User v" "closing p \<longrightarrow> es = []"
    "r = q\<lparr>mailbox := mailbox q @ es', accepted := accepted q @ map Payload es', responded := r2\<rparr>"
    "\<forall>e \<in> set es'. \<exists>v. Payload e = User v" "closing q \<longrightarrow> es' = []" unfolding proc_delivers_def by blast
  then show ?thesis unfolding proc_delivers_def by (intro exI [of _ "es @ es'"] exI [of _ r2]) auto
qed

lemma proc_delivers_enqueue:
  "\<not> closing p \<Longrightarrow> Payload e = User v \<Longrightarrow> proc_delivers p (enqueue e p)"
  unfolding proc_delivers_def by (intro exI [of _ "[e]"] exI [of _ "responded p"]) (simp add: enqueue_def)

lemma proc_delivers_responded: "proc_delivers p (p\<lparr>responded := r\<rparr>)"
  unfolding proc_delivers_def by (intro exI [of _ "[]"] exI [of _ r]) simp

lemma proc_delivers_keeps:
  assumes "proc_delivers p p'"
  shows "pid p' = pid p" "stack p' = stack p" "closing p' = closing p" "handled_msgs p' = handled_msgs p" "closed p' = closed p"
    "timers p' = timers p" "forced p' = forced p" "actor p' = actor p" "askTimeout p' = askTimeout p" "current p' = current p"
  using assms by (auto simp: proc_delivers_def)

lemma list_all2_refl_update: "(\<And>x. P x x) \<Longrightarrow> (i < length xs \<Longrightarrow> P (xs ! i) y) \<Longrightarrow> list_all2 P xs (xs[i := y])"
  unfolding list_all2_conv_all_nth by (metis length_list_update nth_list_update_eq nth_list_update_neq)

interpretation dlv: sending delivers
proof (unfold_locales, goal_cases)
  case (1 s) show ?case by (simp add: delivers_def list.rel_refl)
next
  case (2 s s1 s2)
  then show ?case by (auto simp: delivers_def intro: list_all2_trans [of proc_delivers proc_delivers proc_delivers, OF proc_delivers_trans])
next
  case (7 s i e v)
  then show ?case by (auto simp: delivers_def procs_upd_proc intro!: list_all2_refl_update proc_delivers_enqueue)
next
  case (8 s i)
  then show ?case by (auto simp: delivers_def mark_responded_def procs_upd_proc intro!: list_all2_refl_update proc_delivers_responded)
qed (simp_all add: delivers_def list.rel_refl)

lemma delivers_nth: "delivers s s' \<Longrightarrow> i < length (procs s) \<Longrightarrow> proc_delivers (procs s ! i) (procs s' ! i)"
  by (simp add: delivers_def list_all2_conv_all_nth)

lemma delivers_length: "delivers s s' \<Longrightarrow> length (procs s') = length (procs s)"
  by (auto simp: delivers_def dest: list_all2_lengthD)

subsection \<open>The invariant\<close>

abbreviation kinds :: "('a, 'k, 'm) Process \<Rightarrow> fkind list" where "kinds p \<equiv> map fst (stack p)"

text \<open>
  A process: what was accepted is the init message, user messages, and the stop message when it is
  closing; what was handled and what waits make up what was accepted; all frames but the
  bottom one are forced stops.
\<close>

definition accepted_shape :: "('k, 'm) payload list \<Rightarrow> bool \<Rightarrow> bool" where
  "accepted_shape acc stops \<longleftrightarrow> (\<exists>us. acc = InitMessage # us @ (if stops then [StopMessage] else []) \<and> (\<forall>u \<in> set us. \<exists>v. u = User v))"

definition proc_ok :: "('a, 'k, 'm) Process \<Rightarrow> bool" where
  "proc_ok p \<longleftrightarrow> accepted_shape (accepted p) (closing p)
     \<and> accepted p = handled_msgs p @ map Payload (mailbox p)
     \<and> (\<forall>k \<in> set (butlast (kinds p)). k = FForce)"

text \<open>A process that has taken its stop message out of the mailbox and is still registered is being destroyed.\<close>

definition destroying_ok :: "('a, 'k, 'm) Process \<Rightarrow> bool" where
  "destroying_ok p \<longleftrightarrow> (StopMessage \<in> set (handled_msgs p) \<longrightarrow> FDestroy \<in> set (kinds p))"

definition registry_ok :: "('a, 'k, 'm) System \<Rightarrow> bool" where
  "registry_ok s \<longleftrightarrow>
     distinct (map fst (ids s)) \<and> waitGroup s = int (length (ids s))
     \<and> (\<forall>(k, i) \<in> set (ids s). k > 0 \<and> i < length (procs s) \<and> ActorID (pid (procs s ! i)) = k)
     \<and> distinct (map fst (names s))
     \<and> (\<forall>(n, i) \<in> set (names s). n \<noteq> [] \<and> i < length (procs s) \<and> ActorName (pid (procs s ! i)) = n)"

text \<open>The identifiers of the processes come from the generator, one after the other.\<close>

abbreviation proc_ids :: "('a, 'k, 'm) System \<Rightarrow> int list" where
  "proc_ids s \<equiv> map (\<lambda>p. uint (ActorID (pid p))) (procs s)"

definition gen_ok :: "('a, 'k, 'm) System \<Rightarrow> bool" where
  "gen_ok s \<longleftrightarrow> (let g = idGenerator s in
     snow_wf g \<and> (in_range g (lastTime g) \<or> lastTime g < offsetTime g \<and> proc_ids s = [])
     \<and> sorted_wrt (<) (proc_ids s) \<and> (\<forall>x \<in> set (proc_ids s). x \<le> make_id g (lastTime g) (lastSeq g)))"

definition life_inv :: "('a, 'k, 'm) System \<Rightarrow> bool" where
  "life_inv s \<longleftrightarrow> (\<forall>p \<in> set (procs s). proc_ok p) \<and> registry_ok s
     \<and> (\<forall>(_, i) \<in> set (ids s). destroying_ok (procs s ! i) \<and> (stopping s \<longrightarrow> closing (procs s ! i)))
     \<and> gen_ok s"

lemma accepted_shape_users:
  "accepted_shape acc False \<Longrightarrow> \<forall>u \<in> set us. \<exists>v. u = User v \<Longrightarrow> accepted_shape (acc @ us) False"
  unfolding accepted_shape_def by (elim exE conjE, intro exI [of _ "_ @ us"]) auto

lemma accepted_shape_stop: "accepted_shape acc False \<Longrightarrow> accepted_shape (acc @ [StopMessage]) True"
  by (auto simp: accepted_shape_def)

lemma proc_ok_delivers:
  assumes d: "proc_delivers p p'" and ok: "proc_ok p"
  shows "proc_ok p'"
proof -
  obtain es r where es: "p' = p\<lparr>mailbox := mailbox p @ es, accepted := accepted p @ map Payload es, responded := r\<rparr>"
      "\<forall>e \<in> set es. \<exists>v. Payload e = User v" "closing p \<longrightarrow> es = []"
    using d unfolding proc_delivers_def by blast
  have "accepted_shape (accepted p') (closing p')"
    using ok es accepted_shape_users [of "accepted p" "map Payload es"] by (cases "closing p") (auto simp: proc_ok_def)
  then show ?thesis using ok es(1) by (simp add: proc_ok_def)
qed

lemma pids_delivers: "delivers s s' \<Longrightarrow> map pid (procs s') = map pid (procs s)"
  by (intro nth_equalityI) (auto simp: delivers_length proc_delivers_keeps(1) [OF delivers_nth])

text \<open>The registry and the generator depend on the processes only through their identifiers.\<close>

lemma registry_ok_cong:
  assumes "registry_ok s" "map pid (procs s') = map pid (procs s)" "ids s' = ids s" "names s' = names s" "waitGroup s' = waitGroup s"
  shows "registry_ok s'"
proof -
  have "length (procs s') = length (procs s)" using arg_cong [OF assms(2), of length] by simp
  moreover from this assms(2) have "i < length (procs s) \<Longrightarrow> pid (procs s' ! i) = pid (procs s ! i)" for i by (metis nth_map)
  ultimately show ?thesis using assms(1,3-5) by (auto simp: registry_ok_def)
qed

lemma gen_ok_cong:
  assumes "gen_ok s" "map pid (procs s') = map pid (procs s)" "idGenerator s' = idGenerator s"
  shows "gen_ok s'"
proof -
  have "proc_ids s' = proc_ids s" using arg_cong [OF assms(2), of "map (\<lambda>p. uint (ActorID p))"] by (simp add: comp_def)
  then show ?thesis using assms(1) unfolding gen_ok_def Let_def assms(3) by metis
qed

lemma life_inv_delivers [inv_intros]:
  assumes "delivers s s'" and inv: "life_inv s"
  shows "life_inv s'"
proof -
  have len: "length (procs s') = length (procs s)" by (rule delivers_length [OF assms(1)])
  have "proc_ok p" if "p \<in> set (procs s')" for p
    using that len proc_ok_delivers [OF delivers_nth [OF assms(1)]] inv by (auto simp: in_set_conv_nth life_inv_def) (metis nth_mem)
  moreover have "registry_ok s'" "gen_ok s'"
    using inv registry_ok_cong [of s s'] gen_ok_cong [of s s'] pids_delivers [OF assms(1)] assms(1)
    by (simp_all add: life_inv_def delivers_def)
  moreover have "destroying_ok (procs s' ! i) \<and> (stopping s' \<longrightarrow> closing (procs s' ! i))" if "(k, i) \<in> set (ids s')" for k i
  proof -
    from that assms(1) have k: "(k, i) \<in> set (ids s)" by (simp add: delivers_def)
    then have "i < length (procs s)" using inv by (auto simp: life_inv_def registry_ok_def)
    note keeps = proc_delivers_keeps [OF delivers_nth [OF assms(1) this]]
    have "stopping s' = stopping s" using assms(1) by (simp add: delivers_def)
    with inv k keeps show ?thesis by (auto simp: life_inv_def destroying_ok_def)
  qed
  ultimately show ?thesis by (auto simp: life_inv_def)
qed

subsection \<open>Changes of one process\<close>

lemma life_inv_proc: "life_inv s \<Longrightarrow> i < length (procs s) \<Longrightarrow> proc_ok (procs s ! i)"
  by (simp add: life_inv_def)

lemma registered_index: "life_inv s \<Longrightarrow> (k, i) \<in> set (ids s) \<Longrightarrow> i < length (procs s) \<and> k = ActorID (pid (procs s ! i))"
  by (auto simp: life_inv_def registry_ok_def)

lemma life_inv_upd:
  assumes inv: "life_inv s" and i: "i < length (procs s)" and ok: "proc_ok (f (procs s ! i))"
    and pid: "pid (f (procs s ! i)) = pid (procs s ! i)"
    and closing: "closing (procs s ! i) \<Longrightarrow> closing (f (procs s ! i))"
    and destroy: "\<And>k. (k, i) \<in> set (ids s) \<Longrightarrow> destroying_ok (f (procs s ! i))"
  shows "life_inv (upd_proc i f s)"
proof -
  have pids: "map pid (procs (upd_proc i f s)) = map pid (procs s)"
    using i pid by (simp add: procs_upd_proc map_update list_update_same_conv)
  have "proc_ok p" if "p \<in> set (procs (upd_proc i f s))" for p
    using that ok inv set_update_subset_insert [of "procs s" i "f (procs s ! i)"] by (auto simp: procs_upd_proc life_inv_def)
  moreover have "registry_ok (upd_proc i f s)" "gen_ok (upd_proc i f s)"
    using inv registry_ok_cong [OF _ pids] gen_ok_cong [OF _ pids] by (simp_all add: life_inv_def)
  moreover have "destroying_ok (procs (upd_proc i f s) ! j) \<and> (stopping s \<longrightarrow> closing (procs (upd_proc i f s) ! j))"
    if "(k, j) \<in> set (ids s)" for k j
    using that inv i destroy closing by (cases "j = i") (auto simp: life_inv_def)
  ultimately show ?thesis by (auto simp: life_inv_def)
qed

text \<open>A change that leaves mailbox, logs and the kinds of the frames alone.\<close>

definition same_life :: "('a, 'k, 'm) Process \<Rightarrow> ('a, 'k, 'm) Process \<Rightarrow> bool" where
  "same_life p q \<longleftrightarrow> pid q = pid p \<and> mailbox q = mailbox p \<and> accepted q = accepted p \<and> handled_msgs q = handled_msgs p \<and> closing q = closing p"

lemma life_inv_same:
  assumes "life_inv s" "same_life (procs s ! i) (f (procs s ! i))" "kinds (f (procs s ! i)) = kinds (procs s ! i)"
  shows "life_inv (upd_proc i f s)"
proof (cases "i < length (procs s)")
  case True
  note keep = assms(2) [unfolded same_life_def]
  have "proc_ok (f (procs s ! i))"
    using life_inv_proc [OF assms(1) True] keep assms(3) by (auto simp: proc_ok_def)
  moreover have "destroying_ok (f (procs s ! i))" if "(k, i) \<in> set (ids s)" for k
    using assms(1) that keep assms(3) by (auto simp: life_inv_def destroying_ok_def)
  ultimately show ?thesis using life_inv_upd [OF assms(1) True] keep by simp
qed (use assms(1) in \<open>simp add: upd_proc_beyond\<close>)

lemma life_inv_top [inv_intros]: "life_inv s \<Longrightarrow> life_inv (set_top i q s)"
  unfolding set_top_def by (erule life_inv_same) (auto simp: same_life_def split: list.splits)

lemma life_inv_actor [inv_intros]: "life_inv s \<Longrightarrow> life_inv (upd_proc i (\<lambda>p. p\<lparr>actor := a\<rparr>) s)"
  by (erule life_inv_same) (simp_all add: same_life_def)

lemma life_inv_stopTimer [inv_intros]: "life_inv s \<Longrightarrow> life_inv (upd_proc i (stopTimer t) s)"
  by (erule life_inv_same) (simp_all add: same_life_def stopTimer_def)

lemma life_inv_timeout [inv_intros]: "life_inv s \<Longrightarrow> life_inv (upd_proc i (\<lambda>p. p\<lparr>askTimeout := d\<rparr>) s)"
  by (erule life_inv_same) (simp_all add: same_life_def)

lemma life_inv_add_timer [inv_intros]: "life_inv s \<Longrightarrow> life_inv (upd_proc i (add_timer t) s)"
  by (erule life_inv_same) (simp_all add: same_life_def add_timer_def)

lemma life_inv_timers [inv_intros]: "life_inv s \<Longrightarrow> life_inv (upd_proc i (\<lambda>p. p\<lparr>timers := ts p\<rparr>) s)"
  by (erule life_inv_same) (simp_all add: same_life_def)

lemma life_inv_Stop [inv_intros]:
  assumes inv: "life_inv s"
  shows "life_inv (Process_Stop from i s)"
proof (cases "closing (procs s ! i) \<or> \<not> i < length (procs s)")
  case True
  then show ?thesis using inv by (auto simp: Process_Stop_def upd_proc_beyond)
next
  case False
  let ?p = "procs s ! i"
  let ?f = "\<lambda>p :: ('a, 'b, 'c) Process. enqueue \<lparr>Payload = StopMessage, Sender = from, Meta = no_meta\<rparr> (p\<lparr>closing := True\<rparr>)"
  have i: "i < length (procs s)" and opn: "\<not> closing ?p" using False by simp_all
  have "accepted_shape (accepted ?p @ [StopMessage]) True"
    using life_inv_proc [OF inv i] opn accepted_shape_stop [of "accepted ?p"] by (auto simp: proc_ok_def)
  then have "proc_ok (?f ?p)" using life_inv_proc [OF inv i] by (auto simp: proc_ok_def enqueue_def)
  moreover have "destroying_ok (?f ?p)" if "(k, i) \<in> set (ids s)" for k
    using inv that by (auto simp: life_inv_def destroying_ok_def enqueue_def)
  ultimately have "life_inv (upd_proc i ?f s)" by (intro life_inv_upd [OF inv i]) (simp_all add: enqueue_def)
  then show ?thesis using opn by (simp add: Process_Stop_def)
qed

lemma Process_Stop_keeps [simp]:
  "ids (Process_Stop from i s) = ids s" "stopping (Process_Stop from i s) = stopping s" "length (procs (Process_Stop from i s)) = length (procs s)"
  by (simp_all add: Process_Stop_def)

lemma life_inv_StopProcess [inv_intros]: "life_inv s \<Longrightarrow> life_inv (StopProcess from target s)"
  by (auto simp: StopProcess_def inv_intros split: sum.splits)

lemma life_inv_fire_timer [inv_intros]:
  assumes "life_inv s"
  shows "life_inv (fire_timer t i s)"
proof -
  have push: "life_inv s \<Longrightarrow> life_inv (fst (Process_PushSystem (task_envelope x) i s))" for x s
    by (rule life_inv_delivers [OF dlv.R_PushSystem]) (simp_all add: task_envelope_def)
  show ?thesis using assms
    by (auto simp: fire_timer_def split: option.splits timer.splits bool.splits intro!: push life_inv_timers)
qed

text \<open>The beginning of a message.\<close>

lemma life_inv_begin [inv_intros]:
  assumes inv: "life_inv s" and i: "i < length (procs s)" and step: "begin_message b i s = Some s'"
  shows "life_inv s'"
proof -
  let ?p = "procs s ! i"
  from step obtain e es where e: "stack ?p = []" "mailbox ?p = e # es" "s' = upd_proc i (begin_proc b e) s"
    by (auto simp: begin_message_def split: list.splits)
  have f: "pid (begin_proc b e ?p) = pid ?p" "closing (begin_proc b e ?p) = closing ?p" "accepted (begin_proc b e ?p) = accepted ?p"
    "handled_msgs (begin_proc b e ?p) = handled_msgs ?p @ [Payload e]" "mailbox (begin_proc b e ?p) = es"
    "stack (begin_proc b e ?p) = [message_frame b e (actor ?p)]"
    using e by (simp_all add: begin_proc_def Let_def clearTimers_def)
  have "proc_ok (begin_proc b e ?p)"
    using life_inv_proc [OF inv i] e f by (auto simp: proc_ok_def)
  moreover have "destroying_ok (begin_proc b e ?p)" if "(k, i) \<in> set (ids s)" for k
    using inv that e f by (auto simp: life_inv_def destroying_ok_def)
  ultimately show ?thesis unfolding e(3) by (intro life_inv_upd [OF inv i]) (simp_all add: f)
qed

text \<open>Leaving the registry.\<close>

lemma manager_remove_keeps [simp]:
  "procs (manager_remove p s) = procs s" "stopping (manager_remove p s) = stopping s" "idGenerator (manager_remove p s) = idGenerator s"
  "requests (manager_remove p s) = requests s" "chans (manager_remove p s) = chans s" "issued_reqs (manager_remove p s) = issued_reqs s"
  "outbox (manager_remove p s) = outbox s" "nodeID (manager_remove p s) = nodeID s" "remoteSender (manager_remove p s) = remoteSender s"
  by (simp_all add: manager_remove_def removeId_def removeName_def)

lemma manager_remove_ids: "life_inv s \<Longrightarrow> ids (manager_remove p s) = AList.delete (ActorID p) (ids s)"
proof -
  assume "life_inv s"
  then have "ActorID p = 0 \<Longrightarrow> ActorID p \<notin> set (map fst (ids s))" by (auto simp: life_inv_def registry_ok_def)
  then show ?thesis
    by (auto simp: manager_remove_def removeId_def removeName_def AList.delete_id map_of_eq_None_iff)
qed

lemma distinct_delete: "distinct (map fst xs) \<Longrightarrow> distinct (map fst (AList.delete k xs))"
  by (rule AList.distinct_delete)

lemma length_delete: "distinct (map fst xs) \<Longrightarrow> map_of xs k \<noteq> None \<Longrightarrow> length (AList.delete k xs) = length xs - 1"
  using pending_delete [of xs k] arg_cong [of _ _ size] by (metis diff_Suc_1 option.exhaust size_add_mset size_mset)

lemma life_inv_remove [inv_intros]:
  assumes inv: "life_inv s"
  shows "life_inv (manager_remove p s)" and "(k, i) \<in> set (ids (manager_remove p s)) \<Longrightarrow> k \<noteq> ActorID p \<and> (k, i) \<in> set (ids s)"
proof -
  note ids = manager_remove_ids [OF inv, of p]
  show keep: "(k, i) \<in> set (ids (manager_remove p s)) \<Longrightarrow> k \<noteq> ActorID p \<and> (k, i) \<in> set (ids s)" for k i
    by (auto simp: ids AList.delete_eq)
  have reg: "registry_ok s" using inv by (simp add: life_inv_def)
  have wg: "waitGroup (manager_remove p s) = int (length (ids (manager_remove p s)))"
  proof (cases "ActorID p \<le> 0 \<or> map_of (ids s) (ActorID p) = None")
    case True
    then show ?thesis using reg by (auto simp: registry_ok_def manager_remove_def removeId_def removeName_def)
  next
    case False
    then obtain j where "map_of (ids s) (ActorID p) = Some j" by auto
    then have "ids s \<noteq> []" by auto
    then show ?thesis
      using False reg length_delete [of "ids s" "ActorID p"]
      by (auto simp: registry_ok_def manager_remove_def removeId_def removeName_def Suc_le_eq of_nat_diff)
  qed
  have "set (names (manager_remove p s)) \<subseteq> set (names s)" "distinct (map fst (names (manager_remove p s)))"
    using reg by (auto simp: registry_ok_def manager_remove_def removeId_def removeName_def AList.delete_eq distinct_map_filter)
  then have "registry_ok (manager_remove p s)"
    using reg wg keep distinct_delete [of "ids s" "ActorID p"] by (fastforce simp: registry_ok_def ids)
  moreover have "gen_ok (manager_remove p s)" using inv by (auto simp: life_inv_def intro: gen_ok_cong)
  ultimately show "life_inv (manager_remove p s)" using inv keep by (fastforce simp: life_inv_def)
qed

lemma unregistered: "life_inv s \<Longrightarrow> (k, i) \<notin> set (ids (manager_remove (pid (procs s ! i)) s))"
  using life_inv_remove(2) registered_index by metis

text \<open>The ends of frames.\<close>

lemma kinds_tl: "kinds (p\<lparr>stack := tl (stack p)\<rparr>) = tl (kinds p)"
  by (simp add: map_tl)

lemma resume_below_kinds: "map fst (resume_below a rest) = map fst rest"
  by (auto simp: resume_below_def split: list.splits prog.splits)

lemma butlast_tl_subset: "set (butlast (tl xs)) \<subseteq> set (butlast xs)"
  by (cases xs) (auto split: if_splits)

lemma life_inv_frame_defer [inv_intros]: "life_inv s \<Longrightarrow> life_inv (frame_defer i k s)"
  by (auto simp: frame_defer_def inv_intros split: fkind.splits)

lemma frame_defer_keeps:
  "length (procs (frame_defer i k s)) = length (procs s)"
  "kinds (procs (frame_defer i k s) ! j) = kinds (procs s ! j)" "pid (procs (frame_defer i k s) ! j) = pid (procs s ! j)"
  by (cases "j = i"; cases "i < length (procs s)";
      auto simp: frame_defer_def stopTimer_def upd_proc_beyond split: fkind.splits)+

lemma frame_defer_ids: "life_inv s \<Longrightarrow> set (ids (frame_defer i k s)) \<subseteq> set (ids s)"
  by (auto simp: frame_defer_def dest: life_inv_remove(2) split: fkind.splits)

lemma frame_defer_unregisters:
  "life_inv s \<Longrightarrow> k = FDestroy \<or> k = FForce \<Longrightarrow> (n, i) \<notin> set (ids (frame_defer i k s))"
  by (auto simp: frame_defer_def unregistered)

text \<open>Dropping frames of a process is fine when it is unregistered, or when the frame of the stop message stays.\<close>

lemma life_inv_pop:
  assumes inv: "life_inv s" and i: "i < length (procs s)"
    and f: "same_life (procs s ! i) (f (procs s ! i))" and ks: "set (butlast (kinds (f (procs s ! i)))) \<subseteq> {FForce}"
    and d: "(\<forall>n. (n, i) \<notin> set (ids s)) \<or> (FDestroy \<in> set (kinds (procs s ! i)) \<longrightarrow> FDestroy \<in> set (kinds (f (procs s ! i))))"
  shows "life_inv (upd_proc i f s)"
proof -
  note keep = f [unfolded same_life_def]
  have "proc_ok (f (procs s ! i))"
    using life_inv_proc [OF inv i] keep ks by (auto simp: proc_ok_def)
  moreover have "destroying_ok (f (procs s ! i))" if "(n, i) \<in> set (ids s)" for n
    using inv that keep d by (auto simp: life_inv_def destroying_ok_def)
  ultimately show ?thesis using life_inv_upd [OF inv i] keep by simp
qed

lemma delivers_frames:
  assumes "delivers s s'" "i < length (procs s)"
  shows "kinds (procs s' ! i) = kinds (procs s ! i)" "i < length (procs s')"
  using proc_delivers_keeps(2) [OF delivers_nth [OF assms]] delivers_length [OF assms(1)] assms(2) by simp_all

lemma life_inv_frame_return:
  assumes inv: "life_inv s" and i: "i < length (procs s)" and top: "stack (procs s ! i) = (k, q) # rest"
  shows "life_inv (frame_return env i k a v e s)"
proof -
  define s1 where "s1 = upd_proc i (\<lambda>p. p\<lparr>actor := a\<rparr>) s"
  define s2 where "s2 = (if k = FAsk then handleAsk_return env i v e s1 else frame_defer i k s1)"
  let ?f = "\<lambda>p. p\<lparr>stack := (if k = FForce then resume_below a (tl (stack p)) else tl (stack p)),
                   closed := (closed p \<or> k = FDestroy \<or> k = FForce)\<rparr>"
  have s1: "life_inv s1" "i < length (procs s1)" "kinds (procs s1 ! i) = k # map fst rest"
    using inv i top by (simp_all add: s1_def inv_intros)
  have s2: "life_inv s2 \<and> i < length (procs s2) \<and> kinds (procs s2 ! i) = k # map fst rest"
  proof (cases "k = FAsk")
    case True
    then show ?thesis
      using s1 life_inv_delivers [OF dlv.R_handleAsk_return] delivers_frames [OF dlv.R_handleAsk_return s1(2)] by (simp add: s2_def)
  next
    case False
    then show ?thesis using s1 life_inv_frame_defer [OF s1(1), of i k] by (simp add: s2_def frame_defer_keeps)
  qed
  then have inv2: "life_inv s2" and i2: "i < length (procs s2)" and ks: "kinds (procs s2 ! i) = k # map fst rest" by blast+
  have after: "kinds (?f (procs s2 ! i)) = map fst rest"
    using ks by (simp add: map_tl resume_below_kinds)
  have "set (butlast (kinds (?f (procs s2 ! i)))) \<subseteq> {FForce}"
    using life_inv_proc [OF inv2 i2] butlast_tl_subset [of "kinds (procs s2 ! i)"] unfolding after proc_ok_def by (auto simp: ks)
  moreover have "(\<forall>n. (n, i) \<notin> set (ids s2)) \<or> (FDestroy \<in> set (kinds (procs s2 ! i)) \<longrightarrow> FDestroy \<in> set (kinds (?f (procs s2 ! i))))"
    using frame_defer_unregisters [OF s1(1), of k] unfolding after ks by (auto simp: s2_def)
  ultimately have "life_inv (upd_proc i ?f s2)"
    by (intro life_inv_pop [OF inv2 i2]) (simp_all add: same_life_def)
  then show ?thesis unfolding frame_return_def Let_def s1_def [symmetric] s2_def [symmetric] .
qed

text \<open>A panic that leaves the frame of the stop message also leaves the registry.\<close>

lemma unwind_inv:
  assumes "life_inv s" and "unwind i ks s = (s', r)"
  shows "life_inv s' \<and> length (procs s') = length (procs s) \<and> kinds (procs s' ! i) = kinds (procs s ! i)
    \<and> set (ids s') \<subseteq> set (ids s)
    \<and> (FDestroy \<in> fst ` set ks \<longrightarrow> FPanic \<notin> fst ` set ks \<longrightarrow> (\<forall>n. (n, i) \<notin> set (ids s')))"
  using assms
proof (induction i ks s rule: unwind.induct)
  case (2 i k q rest s)
  show ?case
  proof (cases "k = FPanic")
    case False
    have inv1: "life_inv (frame_defer i k s)" by (rule life_inv_frame_defer [OF 2(2)])
    have IH: "life_inv s' \<and> length (procs s') = length (procs (frame_defer i k s))
        \<and> kinds (procs s' ! i) = kinds (procs (frame_defer i k s) ! i) \<and> set (ids s') \<subseteq> set (ids (frame_defer i k s))
        \<and> (FDestroy \<in> fst ` set rest \<longrightarrow> FPanic \<notin> fst ` set rest \<longrightarrow> (\<forall>n. (n, i) \<notin> set (ids s')))"
      using 2(1) [OF False inv1] 2(3) False by simp
    have "k = FDestroy \<Longrightarrow> (n, i) \<notin> set (ids s')" for n
      using IH frame_defer_unregisters [OF 2(2), of k n i] by blast
    moreover have "set (ids s') \<subseteq> set (ids s)" using IH frame_defer_ids [OF 2(2), of i k] by blast
    ultimately show ?thesis using IH by (auto simp: frame_defer_keeps)
  qed (use 2 in simp)
qed simp

lemma life_inv_frame_panic:
  assumes inv: "life_inv s" and i: "i < length (procs s)"
  shows "life_inv (frame_panic b i a v s)"
proof -
  let ?s0 = "upd_proc i (\<lambda>p. p\<lparr>actor := a\<rparr>) s"
  obtain s1 r where u: "unwind i (stack (procs s ! i)) ?s0 = (s1, r)" by fastforce
  let ?f = "\<lambda>p. p\<lparr>stack := (if r then [(FPanic, OnPanic b v a)] else [])\<rparr>"
  from unwind_inv [OF life_inv_actor [OF inv] u] i have
    s1: "life_inv s1" "i < length (procs s1)" "kinds (procs s1 ! i) = kinds (procs s ! i)"
      "FDestroy \<in> set (kinds (procs s ! i)) \<longrightarrow> FPanic \<notin> set (kinds (procs s ! i)) \<longrightarrow> (\<forall>n. (n, i) \<notin> set (ids s1))"
    by auto
  have "\<not> (FDestroy \<in> set (kinds (procs s ! i)) \<and> FPanic \<in> set (kinds (procs s ! i)))"
  proof (cases "kinds (procs s ! i)" rule: rev_cases)
    case (snoc ks k)
    have "set ks \<subseteq> {FForce}" using life_inv_proc [OF inv i] unfolding proc_ok_def snoc by (auto simp: butlast_append)
    then show ?thesis unfolding snoc by auto
  qed simp
  then have "life_inv (upd_proc i ?f s1)"
    using s1 by (intro life_inv_pop) (auto simp: same_life_def)
  then show ?thesis using u by (simp add: frame_panic_def)
qed

lemma life_inv_force_stop:
  assumes inv: "life_inv s" and i: "i < length (procs s)" and top: "stack (procs s ! i) = (k, q) # rest"
  shows "life_inv (force_stop b i a s)"
  unfolding force_stop_def
  using life_inv_proc [OF inv i] top
  by (intro life_inv_pop [OF inv i]) (auto simp: same_life_def clearTimers_def proc_ok_def)

subsection \<open>Spawning\<close>

lemma gen_ok_spawn:
  assumes gen: "gen_ok s" and g: "GenId (idGenerator s) clock = Some (g', x, clock')" and r: "list_all (in_range (idGenerator s)) clock"
    and s': "idGenerator s' = g'" "proc_ids s' = proc_ids s @ [uint (of_int x :: 64 word)] \<or> proc_ids s' = proc_ids s"
  shows "gen_ok s'" and "uint (of_int x :: 64 word) \<notin> set (proc_ids s)"
proof -
  let ?g = "idGenerator s"
  have wf: "snow_wf ?g" and last: "in_range ?g (lastTime ?g) \<or> lastTime ?g < offsetTime ?g \<and> proc_ids s = []"
    and sorted: "sorted_wrt (<) (proc_ids s)" and le: "\<forall>y \<in> set (proc_ids s). y \<le> make_id ?g (lastTime ?g) (lastSeq ?g)"
    using gen unfolding gen_ok_def Let_def by blast+
  from GenId_step [OF wf g] obtain now q where
    st: "g' = ?g\<lparr>lastTime := now, lastSeq := q\<rparr>" "x = make_id ?g now q" "0 \<le> q" "q \<le> maxSequence ?g"
      "lastTime ?g < now \<or> lastTime ?g = now \<and> lastSeq ?g < q" by blast
  have now: "in_range ?g now"
    using GenId_time [OF wf g] r last st(1) by (auto simp: list_all_iff)
  have same: "make_id g' t r = make_id ?g t r" "in_range g' t = in_range ?g t" "snow_wf g'" for t r
    using GenId_wf [OF wf g] by (simp_all add: st(1) make_id_def in_range_def)
  have x: "0 \<le> x" "x < 2 ^ 63" using make_id_value(2,3) [OF wf now st(3,4)] st(2) by auto
  then have ux: "uint (of_int x :: 64 word) = x" by (simp add: uint_word_of_int_eq take_bit_int_eq_self)
  have lt: "y < x" if "y \<in> set (proc_ids s)" for y
  proof -
    from that last have "in_range ?g (lastTime ?g)" by auto
    moreover have "0 \<le> lastSeq ?g" "lastSeq ?g \<le> maxSequence ?g" using wf by (auto simp: snow_wf_def)
    ultimately have "make_id ?g (lastTime ?g) (lastSeq ?g) < x"
      unfolding st(2) using make_id_mono [OF wf _ now _ _ st(3,4,5)] by blast
    with le that show ?thesis by force
  qed
  show "uint (of_int x :: 64 word) \<notin> set (proc_ids s)" using lt ux by force
  have "lastTime g' = now" "lastSeq g' = q" using st(1) by simp_all
  then have last': "make_id g' (lastTime g') (lastSeq g') = x" by (simp only: same(1) st(2))
  have extend: "sorted_wrt (<) ys' \<and> (\<forall>y \<in> set ys'. y \<le> x)" if "ys' = ys @ [x] \<or> ys' = ys" "sorted_wrt (<) ys" "\<And>y. y \<in> set ys \<Longrightarrow> y < x"
    for ys ys' :: "int list" using that by (auto simp: sorted_wrt_append order.strict_implies_order)
  have "sorted_wrt (<) (proc_ids s') \<and> (\<forall>y \<in> set (proc_ids s'). y \<le> x)"
    by (rule extend [OF s'(2) [unfolded ux] sorted lt])
  moreover have "in_range g' (lastTime g')" using now st(1) same(2) by simp
  ultimately show "gen_ok s'" unfolding gen_ok_def Let_def s'(1) last' using same(3) by blast
qed

lemma life_inv_gen:
  assumes "life_inv s" "gen_ok (s\<lparr>idGenerator := g\<rparr>)"
  shows "life_inv (s\<lparr>idGenerator := g\<rparr>)"
  using assms by (auto simp: life_inv_def registry_ok_def)

lemma new_process:
  "pid (enqueue init_envelope (newActorProcess node x h options)) = NewPID (of_int x) (Name options) node"
  "proc_ok (enqueue init_envelope (newActorProcess node x h options))"
  "destroying_ok (enqueue init_envelope (newActorProcess node x h options))"
  by (auto simp: newActorProcess_def enqueue_def init_envelope_def proc_ok_def accepted_shape_def destroying_ok_def)

lemma addLocked_keeps [simp]:
  "procs (addLocked p i s) = procs s" "idGenerator (addLocked p i s) = idGenerator s" "stopping (addLocked p i s) = stopping s"
  "requests (addLocked p i s) = requests s" "chans (addLocked p i s) = chans s" "issued_reqs (addLocked p i s) = issued_reqs s"
  by (simp_all add: addLocked_def Let_def)

lemma registry_ok_add:
  fixes s :: "('a, 'k, 'm) System"
  assumes reg: "registry_ok s" and new: "ActorID (pid p) \<notin> set (map fst (ids s))" and name: "map_of (names s) (ActorName (pid p)) = None"
  shows "registry_ok (addLocked (pid p) (length (procs s)) (s\<lparr>idGenerator := g, procs := procs s @ [p]\<rparr>))"
proof -
  have n: "ActorName (pid p) \<notin> set (map fst (names s))" using name by (simp add: map_of_eq_None_iff)
  then have "AList.update (ActorName (pid p)) i (names s) = names s @ [(ActorName (pid p), i)]"
    "AList.update (ActorID (pid p)) i (ids s) = ids s @ [(ActorID (pid p), i)]" for i
    using update_new new by metis+
  then show ?thesis
    using reg new n unfolding registry_ok_def addLocked_def Let_def
    by (auto simp: nth_append split: if_splits)
qed

lemma life_inv_Spawn [inv_intros]:
  assumes inv: "life_inv s" and spawn: "SpawnActor h options clock s = Some (s', p, e)"
    and r: "list_all (in_range (idGenerator s)) clock"
  shows "life_inv s'"
proof (cases "stopping s \<or> h = None")
  case True
  then show ?thesis using inv spawn by (auto simp: SpawnActor_def split: if_splits)
next
  case False
  then obtain hd where h: "h = Some hd" "\<not> stopping s" by auto
  with spawn obtain g x clock' where g: "GenId (idGenerator s) clock = Some (g, x, clock')"
    by (auto simp: SpawnActor_def split: option.splits)
  have gen: "gen_ok s" and reg: "registry_ok s" using inv by (simp_all add: life_inv_def)
  let ?p = "enqueue init_envelope (newActorProcess (nodeID s) x hd options)"
  show ?thesis
  proof (cases "map_of (names s) (Name options) = None")
    case False
    then have "s' = s\<lparr>idGenerator := g\<rparr>" using spawn h g by (auto simp: SpawnActor_def Let_def)
    with life_inv_gen [OF inv] gen_ok_spawn(1) [OF gen g r, of s'] show ?thesis by simp
  next
    case True
    then have s': "s' = addLocked (pid ?p) (length (procs s)) (s\<lparr>idGenerator := g, procs := procs s @ [?p]\<rparr>)"
      using spawn h g by (auto simp: SpawnActor_def Let_def enqueue_def newActorProcess_def)
    have pid: "ActorID (pid ?p) = of_int x" "ActorName (pid ?p) = Name options" by (simp_all add: new_process NewPID_def)
    have gen': "gen_ok s'"
      by (rule gen_ok_spawn(1) [OF gen g r]) (simp_all add: s' pid)
    have fresh: "uint (ActorID (pid ?p)) \<notin> set (proc_ids s)"
      using gen_ok_spawn(2) [OF gen g r, of s'] pid by (simp add: s')
    have "ActorID (pid ?p) \<notin> set (map fst (ids s))"
    proof
      assume "ActorID (pid ?p) \<in> set (map fst (ids s))"
      then obtain i where "(ActorID (pid ?p), i) \<in> set (ids s)" by auto
      from registered_index [OF inv this] fresh show False by auto
    qed
    then have reg': "registry_ok s'" unfolding s' using registry_ok_add [OF reg] True pid(2) by simp
    have ids: "set (ids s') \<subseteq> insert (ActorID (pid ?p), length (procs s)) (set (ids s))"
      using \<open>ActorID (pid ?p) \<notin> set (map fst (ids s))\<close> by (auto simp: s' addLocked_def Let_def update_new)
    have "destroying_ok (procs s' ! i) \<and> (stopping s' \<longrightarrow> closing (procs s' ! i))" if "(k, i) \<in> set (ids s')" for k i
    proof (cases "i = length (procs s)")
      case True
      then show ?thesis using new_process(3) h(2) by (simp add: s')
    next
      case False
      with that ids have "(k, i) \<in> set (ids s)" by auto
      with inv registered_index [OF inv this] show ?thesis by (auto simp: s' nth_append life_inv_def)
    qed
    moreover have "\<forall>q \<in> set (procs s'). proc_ok q" using inv new_process(2) by (auto simp: s' life_inv_def)
    ultimately show ?thesis using reg' gen' unfolding life_inv_def by auto
  qed
qed

subsection \<open>Every step keeps the invariant\<close>

lemma life_inv_call_step:
  assumes inv: "life_inv s" and i: "i < length (procs s)" and top: "stack (procs s ! i) = (k, q) # rest"
    and r: "list_all (in_range (idGenerator s)) clock" and step: "call_step env b clock i q s = Some s'"
  shows "life_inv s'"
proof (cases q)
    case (Ret a v e)
    then show ?thesis using life_inv_frame_return [OF inv i top] step top by auto
  next
    case (Panic a v)
    then show ?thesis using life_inv_frame_panic [OF inv i] step by auto
  next
    case (CtxForceStop a f)
    then show ?thesis using life_inv_force_stop [OF inv i top] step by auto
  next
    case (CtxSpawn h options f)
    then show ?thesis using step life_inv_Spawn [OF inv _ r] by (auto intro: life_inv_top split: option.splits)
  next
    case (CtxTell target m f)
    then show ?thesis
      using step life_inv_delivers [OF dlv.R_Tell inv, of env "Some (pid (procs s ! i))" target m] by (auto intro: life_inv_top split: prod.splits)
  next
    case (CtxForward target m f)
    then show ?thesis
      using step life_inv_delivers [OF dlv.R_Process_forward inv, of env i target m] by (auto intro: life_inv_top split: prod.splits)
  next
    case (CtxAsk target m f)
    then show ?thesis
      using step life_inv_delivers [OF dlv.R_Ask_send inv, of env "Some (pid (procs s ! i))" target m "askTimeout (procs s ! i)"]
      by (auto intro: life_inv_top split: prod.splits sum.splits)
  next
    case (CtxAskAsync target m c f)
    then show ?thesis
      using step life_inv_delivers [OF dlv.R_AskAsync inv, of env "Some (pid (procs s ! i))" target m "askTimeout (procs s ! i)" c]
      by (auto intro: life_inv_top split: prod.splits)
  next
    case (CtxRespond m f)
    then show ?thesis
      using step life_inv_delivers [OF dlv.R_Process_respond inv, of env i m] by (auto intro: life_inv_top split: prod.splits)
  next
    case (CtxRespondError x f)
    then show ?thesis
      using step life_inv_delivers [OF dlv.R_Process_respondError inv, of env i x] by (auto intro: life_inv_top split: prod.splits)
qed (use step inv in \<open>auto simp: Process_ticker_def Process_after_def intro: life_inv_top life_inv_stopTimer life_inv_timeout life_inv_Stop life_inv_StopProcess life_inv_add_timer split: option.splits\<close>)

lemma manager_stop_closes:
  "life_inv s \<Longrightarrow> let s' = fold (\<lambda>(_, i) s. Process_Stop from i s) xs s in
     life_inv s' \<and> ids s' = ids s \<and> stopping s' = stopping s \<and> length (procs s') = length (procs s)
     \<and> (\<forall>i. closing (procs s ! i) \<longrightarrow> closing (procs s' ! i))
     \<and> (\<forall>(k, i) \<in> set xs. i < length (procs s) \<longrightarrow> closing (procs s' ! i))"
proof (induction xs arbitrary: s)
  case (Cons x xs)
  obtain k i where x: "x = (k, i)" by fastforce
  let ?s1 = "Process_Stop from i s"
  have mono: "closing (procs s ! j) \<longrightarrow> closing (procs ?s1 ! j)" for j
    by (cases "j = i"; cases "i < length (procs s)") (auto simp: Process_Stop_def enqueue_def upd_proc_beyond)
  have "i < length (procs s) \<longrightarrow> closing (procs ?s1 ! i)" by (auto simp: Process_Stop_def enqueue_def)
  with Cons.IH [OF life_inv_Stop [OF Cons.prems, of "from" i]] mono show ?case
    by (auto simp: x Let_def split_beta)
qed simp

text \<open>
  \<^verbatim>\<open>System.Stop\<close> sets its flag first and closes the processes afterwards; in between the invariant
  holds but for the flag.
\<close>

lemma life_inv_stopping_set:
  assumes "life_inv s" "\<And>k i. (k, i) \<in> set (ids s) \<Longrightarrow> closing (procs s ! i)"
  shows "life_inv (s\<lparr>stopping := True\<rparr>)"
  using assms by (auto simp: life_inv_def registry_ok_def gen_ok_def)

lemma life_inv_stopping_cleared: "life_inv s \<Longrightarrow> life_inv (s\<lparr>stopping := False\<rparr>)"
  by (auto simp: life_inv_def registry_ok_def gen_ok_def)

lemma Process_Stop_flag: "Process_Stop from i (s\<lparr>stopping := x\<rparr>) = (Process_Stop from i s)\<lparr>stopping := x\<rparr>"
  by (simp add: Process_Stop_def upd_proc_def)

lemma fold_Stop_flag: "fold (\<lambda>(_, i) s. Process_Stop from i s) xs (s\<lparr>stopping := x\<rparr>) = (fold (\<lambda>(_, i) s. Process_Stop from i s) xs s)\<lparr>stopping := x\<rparr>"
  by (induction xs arbitrary: s) (auto simp: Process_Stop_flag)

lemma life_inv_stop_hook:
  assumes inv: "life_inv s"
  shows "life_inv (manager_stop (requests_stop env iter (s\<lparr>stopping := True\<rparr>)))"
proof -
  let ?s1 = "requests_stop env iter (s\<lparr>stopping := True\<rparr>)"
  have d: "delivers (s\<lparr>stopping := True\<rparr>) ?s1" by (rule dlv.R_requests_stop)
  then have "delivers (s\<lparr>stopping := False\<rparr>) (?s1\<lparr>stopping := False\<rparr>)" by (simp add: delivers_def)
  then have inv1: "life_inv (?s1\<lparr>stopping := False\<rparr>)" by (rule life_inv_delivers [OF _ life_inv_stopping_cleared [OF inv]])
  let ?s2 = "fold (\<lambda>(_, i) s. Process_Stop (Some NoSender) i s) (ids ?s1) (?s1\<lparr>stopping := False\<rparr>)"
  note closes = manager_stop_closes [OF inv1, of "Some NoSender" "ids ?s1", unfolded Let_def]
  have "life_inv (?s2\<lparr>stopping := True\<rparr>)"
    using closes registered_index [OF inv1] by (intro life_inv_stopping_set) fastforce+
  moreover have "stopping ?s1" using d by (simp add: delivers_def)
  then have "?s1 = ?s1\<lparr>stopping := True\<rparr>" by simp
  then have "?s2\<lparr>stopping := True\<rparr> = manager_stop ?s1"
    by (simp add: manager_stop_def fold_Stop_flag flip: fold_Stop_flag)
  ultimately show ?thesis by simp
qed

lemma life_inv_lifecycle: "life_inv s \<Longrightarrow> life_inv (s\<lparr>sys_lifecycle := c\<rparr>)"
  by (auto simp: life_inv_def registry_ok_def gen_ok_def)

lemma life_inv_System_Stop [inv_intros]: "life_inv s \<Longrightarrow> life_inv (fst (System_Stop env iter s))"
  using life_inv_stop_hook [of s env iter]
  by (auto simp: System_Stop_def controller_defs intro: life_inv_lifecycle split: prod.splits)

lemma life_inv_event:
  assumes "life_inv s" "event_ok ev s" "do_event env b ev s = Some s'"
  shows "life_inv s'"
proof (cases ev)
  case (EProc i clock)
  then have i: "i < length (procs s)" and r: "list_all (in_range (idGenerator s)) clock" and step: "proc_step env b clock i s = Some s'"
    using assms by (auto split: if_splits)
  show ?thesis
  proof (cases "stack (procs s ! i)")
    case Nil
    then show ?thesis using step life_inv_begin [OF assms(1) i] by (simp add: proc_step_def)
  next
    case (Cons fr rest)
    obtain k q where "fr = (k, q)" by fastforce
    with Cons step life_inv_call_step [OF assms(1) i _ r] show ?thesis by (simp add: proc_step_def)
  qed
next
  case (ESpawn h options clock)
  then show ?thesis using assms life_inv_Spawn [OF assms(1)] by auto
next
  case ELifecycleInit
  then show ?thesis using assms by (auto intro: life_inv_lifecycle split: prod.splits)
qed (use assms in \<open>auto intro: life_inv_fire_timer life_inv_StopProcess life_inv_System_Stop life_inv_delivers [OF dlv.R_Tell]
   life_inv_delivers [OF dlv.R_Ask_send] life_inv_delivers [OF dlv.R_AskAsync] life_inv_delivers [OF dlv.R_OnMessage]
   life_inv_delivers [OF dlv.R_request_timeout] split: if_splits option.splits\<close>)

text \<open>A new system, with a generator that has not been used.\<close>

definition fresh_system :: "('a, 'k, 'm) System \<Rightarrow> bool" where
  "fresh_system s \<longleftrightarrow> (\<exists>node sender gen seed. s = NewSystemWithOptions node sender gen seed
     \<and> snow_wf gen \<and> lastTime gen < offsetTime gen)"

lemma life_inv_fresh: "fresh_system s \<Longrightarrow> life_inv s"
  by (auto simp: fresh_system_def NewSystemWithOptions_def life_inv_def registry_ok_def gen_ok_def Let_def)

lemma sys_reachable_life: "sys_reachable env b s0 s \<Longrightarrow> fresh_system s0 \<Longrightarrow> life_inv s"
  by (induction rule: sys_reachable.induct) (auto intro: life_inv_fresh life_inv_event)

subsection \<open>Properties of the actor system\<close>


text \<open>
  C9: The registry is exact: an entry under an identifier or a name points to the process with that
  identifier or name, no identifier is used twice, and the wait group counts the registered
  processes.
\<close>

theorem registry_consistent:
  assumes "fresh_system s0" and "sys_reachable env b s0 s"
  shows "(\<forall>k i. getById k s = Some i \<longrightarrow> i < length (procs s) \<and> ActorID (pid (procs s ! i)) = k)
    \<and> (\<forall>n i. getByName n s = Some i \<longrightarrow> i < length (procs s) \<and> ActorName (pid (procs s ! i)) = n)
    \<and> distinct (map (\<lambda>p. ActorID (pid p)) (procs s))
    \<and> waitGroup s = int (manager_count s)"
proof -
  have inv: "registry_ok s" "gen_ok s" using sys_reachable_life [OF assms(2,1)] by (simp_all add: life_inv_def)
  have "distinct (proc_ids s)" using inv(2) strict_sorted_iff by (auto simp: gen_ok_def Let_def)
  then have "distinct (map (\<lambda>p. ActorID (pid p)) (procs s))" by (auto simp: distinct_map inj_on_def)
  moreover have "i < length (procs s) \<and> ActorID (pid (procs s ! i)) = k" if "getById k s = Some i" for k i
    using that inv(1) by (auto simp: getById_def registry_ok_def dest!: map_of_SomeD split: if_splits)
  moreover have "i < length (procs s) \<and> ActorName (pid (procs s ! i)) = n" if "getByName n s = Some i" for n i
    using that inv(1) by (auto simp: getByName_def registry_ok_def dest!: map_of_SomeD split: if_splits)
  ultimately show ?thesis using inv(1) by (simp add: registry_ok_def manager_count_def)
qed

text \<open>
  C10: The wait of \<^verbatim>\<open>System.Stop\<close> succeeds as soon as the actors have worked off their mailboxes:
  once a system is stopping and no process has a message left or a callback running, no process is
  registered and the wait group is at zero. This holds whatever the callbacks do, panics in
  \<^verbatim>\<open>Destroy\<close> included.
\<close>

theorem system_stop_completes:
  assumes "fresh_system s0" and "sys_reachable env b s0 s" and "stopping s"
    and quiet: "\<forall>p \<in> set (procs s). mailbox p = [] \<and> stack p = []"
  shows "ids s = [] \<and> System_Stop_wait s = None"
proof -
  have inv: "life_inv s" by (rule sys_reachable_life [OF assms(2,1)])
  have "ids s = []"
  proof (rule ccontr)
    assume "ids s \<noteq> []"
    then obtain k i where k: "(k, i) \<in> set (ids s)" by (metis list.set_intros(1) neq_Nil_conv surj_pair)
    let ?p = "procs s ! i"
    have i: "i < length (procs s)" using registered_index [OF inv k] by simp
    have c: "closing ?p" "destroying_ok ?p" using inv k assms(3) by (auto simp: life_inv_def)
    have m: "mailbox ?p = []" "stack ?p = []" using quiet i by auto
    have ok: "accepted_shape (accepted ?p) (closing ?p)" "accepted ?p = handled_msgs ?p @ map Payload (mailbox ?p)"
      using life_inv_proc [OF inv i] unfolding proc_ok_def by blast+
    have "StopMessage \<in> set (accepted ?p)" using ok(1) c(1) by (auto simp: accepted_shape_def)
    then have "StopMessage \<in> set (handled_msgs ?p)" using ok(2) m(1) by simp
    with c(2) m(2) show False by (simp add: destroying_ok_def)
  qed
  moreover have "waitGroup s = int (length (ids s))" using inv by (simp add: life_inv_def registry_ok_def)
  ultimately show ?thesis by (simp add: System_Stop_wait_def)
qed

end
