(* ===== verification/LogicalMesh.thy ===== *)
theory LogicalMesh
  imports RouterActor ActorInv
begin

text \<open>
  A cluster of nodes, each with a router actor, that share an owner directory. The router actor of a
  node handles one message at a time; between the check for a local actor, the call of the directory
  and the activation, the other nodes and the other actors of the node run. \<open>m_pc\<close> is the point of
  \<^verbatim>\<open>routeMessage\<close> that the router actor of a node has reached.

  \<open>m_owned i a\<close> is the owner with which node \<open>i\<close> activated actor \<open>a\<close>, from the spawn of the process
  until its \<^verbatim>\<open>Destroy\<close> deletes the directory entry; \<open>m_alive\<close> are the nodes that run. The relation is
  parameterised by the invariant \<open>dinv\<close> and the table \<open>tab\<close> of the directory, which say what may
  happen to a directory between calls: entries of nodes that do not run may expire.
\<close>

datatype 'm router_pc = RIdle | RChecked LActorID 'm | ROwns LActorID 'm LNodeInfo

record ('d, 'f, 'k, 'm) mesh =
  m_dir :: 'd
  m_sys :: "nat \<Rightarrow> ('f hosted, 'k, 'm) System"
  m_pc :: "nat \<Rightarrow> 'm router_pc"
  m_owned :: "nat \<Rightarrow> LActorID \<Rightarrow> LNodeInfo option"
  m_alive :: "nat set"

definition hosts :: "('a, 'k, 'm) System \<Rightarrow> LActorID \<Rightarrow> bool" where
  "hosts s a = Has (Some (local_target a s)) s"

text \<open>Where the router goes on after \<^verbatim>\<open>AcquireOwner\<close> has returned.\<close>

definition after_owner :: "('f, 'k, 'm, 'p) Router \<Rightarrow> LActorID \<Rightarrow> 'm \<Rightarrow> (LNodeInfo \<times> bool) result \<Rightarrow> 'm router_pc" where
  "after_owner router a payload y =
     (case y of
        Inl e \<Rightarrow> RIdle
      | Inr (owner, acquired) \<Rightarrow> if \<not> acquired \<and> \<not> isLocal router owner then RIdle else ROwns a payload owner)"

lemma Process_forward_names: "names (fst (Process_forward env i target m s)) = names s" "nodeID (fst (Process_forward env i target m s)) = nodeID s"
  using dlv.R_Process_forward [of s env i target m] by (simp_all add: delivers_def)

lemma forward_names: "names (fst (forwardToOwner E i r x s)) = names s"
  using Process_forward_names(1) [of "re_act E" i _ _ s] by (simp add: forwardToOwner_def split: prod.splits) (metis fst_conv)

text \<open>\<^verbatim>\<open>routeMessage\<close> goes through these points.\<close>

lemma routeMessage_phases:
  assumes "decode_route E (Some r) = Inr (a, payload)" "\<not> hosts s a" "AcquireOwner (re_dir E) a (local_node router) d = (d1, y)"
  shows "after_owner router a payload y = ROwns a payload owner \<Longrightarrow>
      routeMessage E clock router i (Some r) d s = route_activate E clock router i a payload owner d1 s"
    and "after_owner router a payload y = RIdle \<Longrightarrow>
      \<exists>s1 e. routeMessage E clock router i (Some r) d s = Some (d1, s1, e) \<and> names s1 = names s"
proof -
  show "after_owner router a payload y = ROwns a payload owner \<Longrightarrow>
      routeMessage E clock router i (Some r) d s = route_activate E clock router i a payload owner d1 s"
    using assms by (auto simp: routeMessage_def after_owner_def hosts_def Let_def split: sum.splits prod.splits if_splits)
  assume idle: "after_owner router a payload y = RIdle"
  show "\<exists>s1 e. routeMessage E clock router i (Some r) d s = Some (d1, s1, e) \<and> names s1 = names s"
  proof (cases y)
    case (Inl e)
    then show ?thesis using assms by (simp add: routeMessage_def hosts_def Let_def)
  next
    case (Inr z)
    then obtain x where x: "y = Inr (x, False)" "\<not> isLocal router x"
      using idle by (cases z) (auto simp: after_owner_def split: if_splits)
    obtain s1 e where f: "forwardToOwner E i r x s = (s1, e)" by (cases "forwardToOwner E i r x s")
    then have "routeMessage E clock router i (Some r) d s = Some (d1, s1, e)"
      using assms x by (simp add: routeMessage_def hosts_def Let_def)
    then show ?thesis using forward_names [of E i r x s] f by simp
  qed
qed

inductive mesh_step :: "('d \<Rightarrow> bool) \<Rightarrow> ('d \<Rightarrow> lease_table) \<Rightarrow> LActorID set \<Rightarrow> (nat \<Rightarrow> ('d, 'p, 'm) route_env) \<Rightarrow> (nat \<Rightarrow> ('f, 'k, 'm, 'p) Router)
    \<Rightarrow> ('d, 'f, 'k, 'm) mesh \<Rightarrow> ('d, 'f, 'k, 'm) mesh \<Rightarrow> bool"
  for dinv tab A E R where
  check: "i \<in> m_alive s \<Longrightarrow> m_pc s i = RIdle \<Longrightarrow> a \<in> A \<Longrightarrow> \<not> hosts (m_sys s i) a \<Longrightarrow>
    mesh_step dinv tab A E R s (s\<lparr>m_pc := (m_pc s)(i := RChecked a payload)\<rparr>)"
| acquire: "i \<in> m_alive s \<Longrightarrow> m_pc s i = RChecked a payload \<Longrightarrow> epoch_of (tab (m_dir s)) a + 6 \<le> 2 ^ 53 \<Longrightarrow>
    AcquireOwner (re_dir (E i)) a (local_node (R i)) (m_dir s) = (d', y) \<Longrightarrow>
    mesh_step dinv tab A E R s (s\<lparr>m_dir := d', m_pc := (m_pc s)(i := after_owner (R i) a payload y)\<rparr>)"
| activate: "i \<in> m_alive s \<Longrightarrow> m_pc s i = ROwns a payload owner \<Longrightarrow> epoch_of (tab (m_dir s)) a + 6 \<le> 2 ^ 53 \<Longrightarrow>
    route_activate (E i) clock (R i) q a payload owner (m_dir s) (m_sys s i) = Some (d', s', e) \<Longrightarrow>
    mesh_step dinv tab A E R s
      (s\<lparr>m_dir := d', m_sys := (m_sys s)(i := s'), m_pc := (m_pc s)(i := RIdle),
         m_owned := (m_owned s)(i := (m_owned s i)(a := if hosts s' a then Some owner else None))\<rparr>)"
| sys_move: "i \<in> m_alive s \<Longrightarrow> \<forall>a \<in> A. hosts s' a \<longrightarrow> hosts (m_sys s i) a \<Longrightarrow> \<forall>a \<in> A. m_owned s i a \<noteq> None \<longrightarrow> hosts s' a \<Longrightarrow>
    mesh_step dinv tab A E R s (s\<lparr>m_sys := (m_sys s)(i := s')\<rparr>)"
| destroy: "i \<in> m_alive s \<Longrightarrow> a \<in> A \<Longrightarrow> m_owned s i a = Some owner \<Longrightarrow> epoch_of (tab (m_dir s)) a + 6 \<le> 2 ^ 53 \<Longrightarrow>
    mesh_step dinv tab A E R s
      (s\<lparr>m_dir := owned_destroy (re_dir (E i)) (OwnedActor (h :: 'f) a owner t) (m_dir s), m_owned := (m_owned s)(i := (m_owned s i)(a := None))\<rparr>)"
| resolve: "i \<in> m_alive s \<Longrightarrow> a \<in> A \<Longrightarrow> epoch_of (tab (m_dir s)) a + 6 \<le> 2 ^ 53 \<Longrightarrow>
    \<forall>j \<in> m_alive s. isNodeAlive disc (local_node (R j)) \<Longrightarrow>
    resolveOwner (re_pick (E i)) disc (re_dir (E i)) a ((R i)\<lparr>placements := strategies\<rparr>) (m_dir s) = (router', d', x, e) \<Longrightarrow>
    mesh_step dinv tab A E R s (s\<lparr>m_dir := d'\<rparr>)"
| renew: "i \<in> m_alive s \<Longrightarrow> a \<in> A \<Longrightarrow> m_owned s i a = Some owner \<Longrightarrow>
    mesh_step dinv tab A E R s (s\<lparr>m_dir := fst (renew_task (re_dir (E i)) a owner (m_dir s))\<rparr>)"
| crash: "mesh_step dinv tab A E R s (s\<lparr>m_alive := m_alive s - {i}, m_owned := (m_owned s)(i := \<lambda>_. None)\<rparr>)"
| dir_move: "dinv d' \<Longrightarrow>
    \<forall>a \<in> A. owner_of (tab d') a = owner_of (tab (m_dir s)) a \<or>
      owner_of (tab d') a = None \<and> (\<forall>j \<in> m_alive s. owner_of (tab (m_dir s)) a \<noteq> Some (local_node (R j))) \<Longrightarrow>
    mesh_step dinv tab A E R s (s\<lparr>m_dir := d'\<rparr>)"

inductive mesh_reachable :: "('d \<Rightarrow> bool) \<Rightarrow> ('d \<Rightarrow> lease_table) \<Rightarrow> LActorID set \<Rightarrow> (nat \<Rightarrow> ('d, 'p, 'm) route_env) \<Rightarrow> (nat \<Rightarrow> ('f, 'k, 'm, 'p) Router)
    \<Rightarrow> ('d, 'f, 'k, 'm) mesh \<Rightarrow> ('d, 'f, 'k, 'm) mesh \<Rightarrow> bool"
  for dinv tab A E R s0 where
  mesh_start: "mesh_reachable dinv tab A E R s0 s0"
| mesh_next: "mesh_reachable dinv tab A E R s0 s \<Longrightarrow> mesh_step dinv tab A E R s s' \<Longrightarrow> mesh_reachable dinv tab A E R s0 s'"

definition mesh_init :: "('d \<Rightarrow> bool) \<Rightarrow> ('d, 'f, 'k, 'm) mesh \<Rightarrow> bool" where
  "mesh_init dinv s \<longleftrightarrow> dinv (m_dir s) \<and> (\<forall>i a. m_owned s i a = None) \<and> (\<forall>i. m_pc s i = RIdle)"

subsection \<open>The invariant\<close>

definition pc_actor :: "'m router_pc \<Rightarrow> LActorID option" where
  "pc_actor q = (case q of RIdle \<Rightarrow> None | RChecked a m \<Rightarrow> Some a | ROwns a m x \<Rightarrow> Some a)"

text \<open>What holds of a running node with the local information \<open>x\<close>.\<close>

definition node_ok :: "lease_table \<Rightarrow> LActorID set \<Rightarrow> LNodeInfo \<Rightarrow> ('f hosted, 'k, 'm) System \<Rightarrow> 'm router_pc \<Rightarrow> (LActorID \<Rightarrow> LNodeInfo option) \<Rightarrow> bool" where
  "node_ok L A x s q w \<longleftrightarrow>
     (\<forall>a \<in> A. w a \<noteq> None \<longrightarrow> w a = Some x \<and> owner_of L a = Some x \<and> hosts s a)
     \<and> (\<forall>a. pc_actor q = Some a \<longrightarrow> a \<in> A \<and> \<not> hosts s a)
     \<and> (\<forall>a m y. q = ROwns a m y \<longrightarrow> y = x \<and> owner_of L a = Some x)"

definition mesh_inv :: "('d \<Rightarrow> bool) \<Rightarrow> ('d \<Rightarrow> lease_table) \<Rightarrow> LActorID set \<Rightarrow> (nat \<Rightarrow> ('f, 'k, 'm, 'p) Router) \<Rightarrow> ('d, 'f, 'k, 'm) mesh \<Rightarrow> bool" where
  "mesh_inv dinv tab A R s \<longleftrightarrow> dinv (m_dir s)
     \<and> (\<forall>i \<in> m_alive s. node_ok (tab (m_dir s)) A (local_node (R i)) (m_sys s i) (m_pc s i) (m_owned s i))"

lemma mesh_invD:
  assumes "mesh_inv dinv tab A R s"
  shows "dinv (m_dir s)" "i \<in> m_alive s \<Longrightarrow> node_ok (tab (m_dir s)) A (local_node (R i)) (m_sys s i) (m_pc s i) (m_owned s i)"
  using assms by (simp_all add: mesh_inv_def)

lemma node_okD:
  assumes "node_ok L A x s q w"
  shows "a \<in> A \<Longrightarrow> w a = Some y \<Longrightarrow> y = x" "a \<in> A \<Longrightarrow> w a = Some y \<Longrightarrow> owner_of L a = Some x" "a \<in> A \<Longrightarrow> w a = Some y \<Longrightarrow> hosts s a"
    and "pc_actor q = Some a \<Longrightarrow> a \<in> A" "pc_actor q = Some a \<Longrightarrow> \<not> hosts s a"
    and "q = ROwns a m y \<Longrightarrow> y = x" "q = ROwns a m y \<Longrightarrow> owner_of L a = Some x"
  using assms by (auto simp: node_ok_def)

text \<open>Only the owners of the node's own actors matter.\<close>

lemma node_ok_table:
  assumes "node_ok L A x s q w" "\<And>a. a \<in> A \<Longrightarrow> owner_of L a = Some x \<Longrightarrow> owner_of M a = Some x"
  shows "node_ok M A x s q w"
  using assms unfolding node_ok_def pc_actor_def by (auto split: router_pc.splits)

lemma mesh_inv_dir:
  assumes "mesh_inv dinv tab A R s" "dinv d'"
    and "\<And>a j. a \<in> A \<Longrightarrow> j \<in> m_alive s \<Longrightarrow> owner_of (tab (m_dir s)) a = Some (local_node (R j)) \<Longrightarrow> owner_of (tab d') a = Some (local_node (R j))"
  shows "mesh_inv dinv tab A R (s\<lparr>m_dir := d'\<rparr>)"
  using assms by (auto simp: mesh_inv_def intro: node_ok_table)

text \<open>A step of node \<open>i\<close> that keeps the owners of the other running nodes.\<close>

lemma mesh_inv_node:
  assumes mi: "mesh_inv dinv tab A R s" and d': "dinv d'"
    and others: "\<And>a j. a \<in> A \<Longrightarrow> j \<in> m_alive s \<Longrightarrow> j \<noteq> i \<Longrightarrow> owner_of (tab (m_dir s)) a = Some (local_node (R j)) \<Longrightarrow> owner_of (tab d') a = Some (local_node (R j))"
    and own: "node_ok (tab d') A (local_node (R i)) s' q w"
  shows "mesh_inv dinv tab A R (s\<lparr>m_dir := d', m_sys := (m_sys s)(i := s'), m_pc := (m_pc s)(i := q), m_owned := (m_owned s)(i := w)\<rparr>)"
  using mesh_invD [OF mi] d' others own by (auto simp: mesh_inv_def intro: node_ok_table)

subsection \<open>Activation\<close>

lemma hosts_names: "hosts s a \<longleftrightarrow> map_of (names s) (ActorID_Name a) \<noteq> None"
  by (auto simp: hosts_def Has_def getProcess_def local_target_def NewPID_def getById_def getByName_def ActorID_Name_def split: option.splits)

lemma hosts_cong: "names s' = names s \<Longrightarrow> hosts s' = hosts s"
  by (simp add: hosts_names fun_eq_iff)

lemma SpawnActor_names:
  assumes "SpawnActor h options clock s = Some (s', q, e)"
  shows "(e \<noteq> None \<longrightarrow> names s' = names s) \<and> (e = None \<and> Name options \<noteq> [] \<longrightarrow> names s' = AList.update (Name options) (length (procs s)) (names s))"
  using assms
  by (auto simp: SpawnActor_def newActorProcess_def NewPID_def addLocked_def Let_def split: if_splits option.splits)

lemma activateActor_names:
  assumes "activateActor E clock router a owner s = Some (s1, y)"
  shows "case y of Inl e \<Rightarrow> names s1 = names s | Inr q \<Rightarrow> \<exists>n. names s1 = AList.update (ActorID_Name a) n (names s)"
  using assms SpawnActor_names [of _ _ clock s]
  by (auto simp: activateActor_def ActorID_Name_def split: option.splits prod.splits)

lemma route_activate_cases:
  assumes "route_activate E clock router i a payload owner d s = Some (d', s', e)"
  shows "(d' = fst (DeleteOwner (re_dir E) a owner d) \<and> names s' = names s)
    \<or> (d' = d \<and> (\<exists>n. names s' = AList.update (ActorID_Name a) n (names s)))"
proof -
  obtain s1 y where act: "activateActor E clock router a owner s = Some (s1, y)"
    using assms by (auto simp: route_activate_def split: option.splits)
  show ?thesis
  proof (cases y)
    case (Inl z)
    then show ?thesis using assms act activateActor_names [OF act] by (simp add: route_activate_def)
  next
    case (Inr q)
    obtain s2 z where f: "Process_forward (re_act E) i (Some q) (Val payload) s1 = (s2, z)" by (cases "Process_forward (re_act E) i (Some q) (Val payload) s1")
    then have "names s2 = names s1" using Process_forward_names(1) [of "re_act E" i "Some q" "Val payload" s1] by simp
    then show ?thesis using assms act Inr f activateActor_names [OF act] by (simp add: route_activate_def)
  qed
qed

lemma hosts_update:
  assumes "names s' = AList.update (ActorID_Name a) n (names s)" "ActorID_Validate a = None" "ActorID_Validate b = None"
  shows "hosts s' b \<longleftrightarrow> b = a \<or> hosts s b"
  using assms ActorID_Name_inj [of a b] by (auto simp: hosts_names update_conv' split: if_splits)

lemma local_inj: "inj_on (\<lambda>i. NodeId (local_node (R i))) K \<Longrightarrow> i \<in> K \<Longrightarrow> j \<in> K \<Longrightarrow> local_node (R i) = local_node (R j) \<Longrightarrow> i = j"
  by (simp add: inj_on_def)

lemma mesh_alive: "mesh_step dinv tab A E R s s' \<Longrightarrow> m_alive s' \<subseteq> m_alive s"
  by (induction rule: mesh_step.induct) auto

context owner_directory
begin

lemma delete_effect:
  assumes "inv d" "a \<in> A" "n \<in> N" "epoch_of (tab d) a + 6 \<le> 2 ^ 53"
  shows "inv (fst (DeleteOwner (D i) a n d))"
    and "b \<in> A \<Longrightarrow> b \<noteq> a \<Longrightarrow> owner_of (tab (fst (DeleteOwner (D i) a n d))) b = owner_of (tab d) b"
proof -
  obtain d' y where d: "DeleteOwner (D i) a n d = (d', y)" by (cases "DeleteOwner (D i) a n d")
  obtain effect where ef: "inv d'" "agree A (tab d') (if effect then fst (lease_delete a n (tab d)) else tab d)"
    using delete [OF assms(1-3) _ d] assms(4) by auto
  show "inv (fst (DeleteOwner (D i) a n d))" using d ef(1) by simp
  show "b \<in> A \<Longrightarrow> b \<noteq> a \<Longrightarrow> owner_of (tab (fst (DeleteOwner (D i) a n d))) b = owner_of (tab d) b"
    using ef(2) d by (auto simp: agree_def lease_delete_def lease_set_def split: if_splits)
qed

lemma mesh_inv_step:
  assumes step: "mesh_step inv tab A E R s s'" and mi: "mesh_inv inv tab A R s"
    and E: "\<And>i. re_dir (E i) = D i" "\<And>i. picks_from (re_pick (E i)) N"
    and R: "\<And>i. i \<in> m_alive s \<Longrightarrow> local_node (R i) \<in> N" "inj_on (\<lambda>i. NodeId (local_node (R i))) (m_alive s)" and N: "inj_on NodeId N"
  shows "mesh_inv inv tab A R s'"
  using step mi R
proof (induction rule: mesh_step.induct)
  case (check i s a payload)
  have "node_ok (tab (m_dir s)) A (local_node (R i)) (m_sys s i) (RChecked a payload) (m_owned s i)"
    using mesh_invD(2) [OF check(5,1)] check(3,4) by (simp add: node_ok_def pc_actor_def)
  from mesh_inv_node [OF check(5) mesh_invD(1) [OF check(5)] _ this] show ?case by simp
next
  case (acquire i s a payload d' y)
  note iv = mesh_invD(1) [OF acquire(5)] and ok = mesh_invD(2) [OF acquire(5,1)]
  have a: "a \<in> A" using node_okD(4) [OF ok] acquire(2) by (simp add: pc_actor_def)
  have room: "epoch_of (tab (m_dir s)) a < 2 ^ 53" using acquire(3) by simp
  obtain effect where ef: "inv d'" "agree A (tab d') (if effect then fst (lease_acquire a (local_node (R i)) (tab (m_dir s))) else tab (m_dir s))"
    "\<And>x b. y = Inr (x, b) \<Longrightarrow> effect \<and> snd (lease_acquire a (local_node (R i)) (tab (m_dir s))) = (x, b)"
    using owner_directory.acquire [OF owner_directory_axioms iv a acquire(6) [OF acquire(1)] room acquire(4) [unfolded E(1)]] by blast
  have "table_moves A (\<lambda>_. True) 1 (tab (m_dir s)) (tab d')"
    by (rule table_moves_acquire [OF N acquire(6) [OF acquire(1)] _ ef(2)]) (rule owners [OF iv a])
  then have keep: "owner_of (tab d') b = Some x" if "b \<in> A" "owner_of (tab (m_dir s)) b = Some x" for b x
    using that by (simp add: table_moves_def)
  have "x = local_node (R i) \<and> owner_of (tab d') a = Some (local_node (R i)) \<and> b = a" if "after_owner (R i) a payload y = ROwns b m x" for b m x
    using that ef(2,3) a
    by (cases y) (auto simp: after_owner_def isLocal_def lease_acquire_def lease_set_def agree_def split: prod.splits if_splits option.splits)
  moreover have "b = a" if "pc_actor (after_owner (R i) a payload y) = Some b" for b
    using that by (auto simp: after_owner_def pc_actor_def split: sum.splits prod.splits if_splits)
  ultimately have "node_ok (tab d') A (local_node (R i)) (m_sys s i) (after_owner (R i) a payload y) (m_owned s i)"
    using node_ok_table [OF ok keep] acquire(2) by (auto simp: node_ok_def pc_actor_def)
  from mesh_inv_node [OF acquire(5) ef(1) keep this] show ?case by simp
next
  case (activate i s a payload owner clock q d' s' e)
  note iv = mesh_invD(1) [OF activate(5)] and ok = mesh_invD(2) [OF activate(5,1)]
  have a: "a \<in> A" "\<not> hosts (m_sys s i) a" and o: "owner = local_node (R i)" "owner_of (tab (m_dir s)) a = Some (local_node (R i))"
    using node_okD(4-7) [OF ok] activate(2) by (auto simp: pc_actor_def)
  from route_activate_cases [OF activate(4)] show ?case
  proof (elim disjE conjE exE)
    assume d': "d' = fst (DeleteOwner (re_dir (E i)) a owner (m_dir s))" and n: "names s' = names (m_sys s i)"
    have ef: "inv d'" "\<And>b. b \<in> A \<Longrightarrow> b \<noteq> a \<Longrightarrow> owner_of (tab d') b = owner_of (tab (m_dir s)) b"
      using delete_effect [where i = i, OF iv a(1) activate(6) [OF activate(1)]] activate(3) d' o(1) E(1) by auto
    have "node_ok (tab d') A (local_node (R i)) s' RIdle ((m_owned s i)(a := if hosts s' a then Some owner else None))"
      using ok ef(2) a hosts_cong [OF n] by (auto simp: node_ok_def pc_actor_def)
    moreover have "owner_of (tab d') b = Some (local_node (R j))"
      if "b \<in> A" "j \<in> m_alive s" "j \<noteq> i" "owner_of (tab (m_dir s)) b = Some (local_node (R j))" for b j
      using that ef(2) [of b] o(2) local_inj [OF activate(7), of j i] activate(1) by (cases "b = a") auto
    ultimately show ?thesis using mesh_inv_node [OF activate(5) ef(1)] by blast
  next
    fix n assume d': "d' = m_dir s" and n: "names s' = AList.update (ActorID_Name a) n (names (m_sys s i))"
    have h: "hosts s' b \<longleftrightarrow> b = a \<or> hosts (m_sys s i) b" if "b \<in> A" for b
      using hosts_update [OF n valid(1) [OF iv a(1)] valid(1) [OF iv that]] .
    then have "node_ok (tab d') A (local_node (R i)) s' RIdle ((m_owned s i)(a := if hosts s' a then Some owner else None))"
      using ok o a d' by (auto simp: node_ok_def pc_actor_def)
    from mesh_inv_node [OF activate(5) iv _ this [unfolded d']] show ?thesis unfolding d' by blast
  qed
next
  case (sys_move i s s')
  have "node_ok (tab (m_dir s)) A (local_node (R i)) s' (m_pc s i) (m_owned s i)"
    using mesh_invD(2) [OF sys_move(4,1)] sys_move(2,3) by (auto simp: node_ok_def)
  from mesh_inv_node [OF sys_move(4) mesh_invD(1) [OF sys_move(4)] _ this] show ?case by simp
next
  case (destroy i s a owner h t)
  note iv = mesh_invD(1) [OF destroy(5)] and ok = mesh_invD(2) [OF destroy(5,1)]
  have o: "owner = local_node (R i)" "owner_of (tab (m_dir s)) a = Some (local_node (R i))" "hosts (m_sys s i) a"
    using node_okD(1-3) [OF ok destroy(2,3)] by auto
  define d' where "d' = owned_destroy (re_dir (E i)) (OwnedActor h a owner t) (m_dir s)"
  have ef: "inv d'" "\<And>b. b \<in> A \<Longrightarrow> b \<noteq> a \<Longrightarrow> owner_of (tab d') b = owner_of (tab (m_dir s)) b"
    using delete_effect [where i = i, OF iv destroy(2) destroy(6) [OF destroy(1)]] destroy(4) o(1) E(1) by (auto simp: d'_def owned_destroy_def)
  have "m_pc s i \<noteq> ROwns a m x" for m x using node_okD(5) [OF ok, of a] o(3) by (auto simp: pc_actor_def)
  then have "node_ok (tab d') A (local_node (R i)) (m_sys s i) (m_pc s i) ((m_owned s i)(a := None))"
    using ok ef(2) unfolding node_ok_def pc_actor_def by (auto split: router_pc.splits) metis+
  moreover have "owner_of (tab d') b = Some (local_node (R j))"
    if "b \<in> A" "j \<in> m_alive s" "j \<noteq> i" "owner_of (tab (m_dir s)) b = Some (local_node (R j))" for b j
    using that ef(2) [of b] o(2) local_inj [OF destroy(7), of j i] destroy(1) by (cases "b = a") auto
  ultimately have "mesh_inv inv tab A R (s\<lparr>m_dir := d', m_sys := (m_sys s)(i := m_sys s i), m_pc := (m_pc s)(i := m_pc s i),
      m_owned := (m_owned s)(i := (m_owned s i)(a := None))\<rparr>)"
    by (intro mesh_inv_node [OF destroy(5) ef(1)])
  then show ?case by (simp add: d'_def)
next
  case (resolve i s a disc strategies router' d' x e)
  note iv = mesh_invD(1) [OF resolve(6)]
  have "inv d' \<and> table_moves A (isNodeAlive disc) (2 * 3) (tab (m_dir s)) (tab d') \<and> (e = None \<longrightarrow> isNodeAlive disc x \<and> x \<in> N)"
    using resolve(3,5) E(1)
    by (intro resolve_loop_contract [OF iv resolve(2) _ N E(2)]) (auto simp: resolveOwner_def maxOwnerResolveAttempts_def)
  then show ?case using resolve(4,6) by (intro mesh_inv_dir) (auto simp: table_moves_def)
next
  case (renew i s a owner)
  note iv = mesh_invD(1) [OF renew(4)]
  have o: "owner \<in> N" using node_okD(1) [OF mesh_invD(2) [OF renew(4,1)] renew(2,3)] renew(5) [OF renew(1)] by simp
  obtain yr where "RenewOwner (D i) a owner (m_dir s) = (fst (renew_task (re_dir (E i)) a owner (m_dir s)), yr)"
    using E(1) by (cases "RenewOwner (D i) a owner (m_dir s)") (auto simp: renew_task_def split: sum.splits)
  from owner_directory.renew [OF owner_directory_axioms iv renew(2) o this] show ?case
    using renew(4) by (intro mesh_inv_dir) (auto simp: agree_def)
next
  case (crash s i)
  then show ?case by (auto simp: mesh_inv_def)
next
  case (dir_move d' s)
  show ?case using dir_move(2) by (intro mesh_inv_dir [OF dir_move(3,1)]) force
qed

lemma mesh_single:
  assumes "mesh_reachable inv tab A E R s0 s" "mesh_init inv s0"
    and "\<And>i. re_dir (E i) = D i" "\<And>i. picks_from (re_pick (E i)) N"
    and R: "\<And>i. i \<in> m_alive s0 \<Longrightarrow> local_node (R i) \<in> N" "inj_on (\<lambda>i. NodeId (local_node (R i))) (m_alive s0)" and "inj_on NodeId N"
    and a: "a \<in> A" "i \<in> m_alive s" "m_owned s i a = Some x" "j \<in> m_alive s" "m_owned s j a = Some y"
  shows "i = j \<and> owner_of (tab (m_dir s)) a = Some (local_node (R i))"
proof -
  have "mesh_inv inv tab A R s0" using assms(2) by (simp add: mesh_init_def mesh_inv_def node_ok_def pc_actor_def)
  with assms(1) have s: "mesh_inv inv tab A R s \<and> m_alive s \<subseteq> m_alive s0"
  proof (induction rule: mesh_reachable.induct)
    case (mesh_next s s')
    then have sub: "m_alive s \<subseteq> m_alive s0" by simp
    with mesh_next show ?case using mesh_inv_step [OF mesh_next(2) _ assms(3,4) _ inj_on_subset [OF R(2)] assms(7)] R(1) mesh_alive by blast
  qed simp
  from node_okD(2) [OF mesh_invD(2) [OF conjunct1 [OF s] a(2)] a(1,3)] node_okD(2) [OF mesh_invD(2) [OF conjunct1 [OF s] a(4)] a(1,5)]
  show ?thesis using local_inj [OF R(2), of i j] a(2,4) s by auto
qed

end


end
