(* ===== verification/DirectoryCache.thy ===== *)
theory DirectoryCache
  imports DirectoryContract
begin

text \<open>
  The caches of the nodes under concurrency. Between the script of a call and the change of the cache
  that follows it, and between that and the notification, other calls on any node may run; messages
  of the channel arrive at any node at any time, in any order, more than once or never; cache
  entries may be dropped and leases may expire at any time. A step of \<open>dir_step\<close> is one of these;
  \<open>inflight\<close> are the cache operations and notifications that are still to be made.
\<close>

datatype cache_op = SetCached string Owner | DelCached string "64 word" | RefreshCached string LNodeInfo | Notify LActorID "64 word"

record ('r, 'c) dir_sys =
  sys_dir :: "('r, 'c) directory"
  inflight :: "(nat \<times> cache_op) list"

fun apply_op :: "('r, 'c) dir_env \<Rightarrow> nat \<Rightarrow> cache_op \<Rightarrow> ('r, 'c) directory \<Rightarrow> ('r, 'c) directory" where
  "apply_op env i (SetCached k x) d = upd_dir i (trySetCached (lru env) k x) d"
| "apply_op env i (DelCached k e) d = upd_dir i (tryDelCached (lru env) k e) d"
| "apply_op env i (RefreshCached k n) d = upd_dir i (refreshCached (lru env) k n) d"
| "apply_op env i (Notify a e) d = d\<lparr>client := notifyOwnerUpdate env (updateChannel (dirs d i)) a e (client d)\<rparr>"

text \<open>What the methods do after the script has answered.\<close>

definition after_get :: "LActorID \<Rightarrow> Owner option result \<Rightarrow> cache_op list" where
  "after_get a y = (case y of Inr (Some x) \<Rightarrow> [SetCached (ActorID_String a) x] | _ \<Rightarrow> [])"

definition after_acquire :: "LActorID \<Rightarrow> (Owner \<times> bool) result \<Rightarrow> cache_op list" where
  "after_acquire a y = (case y of
      Inr (x, acquired) \<Rightarrow> SetCached (ActorID_String a) x # (if acquired then [Notify a (Epoch x)] else [])
    | Inl _ \<Rightarrow> [])"

definition after_renew :: "LActorID \<Rightarrow> LNodeInfo \<Rightarrow> bool result \<Rightarrow> cache_op list" where
  "after_renew a n y = (case y of Inr True \<Rightarrow> [RefreshCached (ActorID_String a) n] | _ \<Rightarrow> [])"

definition after_delete :: "LActorID \<Rightarrow> (bool \<times> 64 word) result \<Rightarrow> cache_op list" where
  "after_delete a y = (case y of Inr (True, e) \<Rightarrow> [DelCached (ActorID_String a) e, Notify a e] | _ \<Rightarrow> [])"

text \<open>The methods are their script followed by these operations.\<close>

lemma method_phases:
  assumes "ActorID_Validate a = None" "LNodeInfo_Validate n = None"
  shows "acquireOwnerFromRedis env (dir_prefix (dirs d i)) a n (leaseTTL (dirs d i)) (client d) = (c', y) \<Longrightarrow>
      fst (redis_AcquireOwner env i a n d) = fold (apply_op env i) (after_acquire a y) (d\<lparr>client := c'\<rparr>)"
    and "renewOwnerFromRedis env (dir_prefix (dirs d i)) a n (leaseTTL (dirs d i)) (client d) = (c', z) \<Longrightarrow>
      fst (redis_RenewOwner env i a n d) = fold (apply_op env i) (after_renew a n z) (d\<lparr>client := c'\<rparr>)"
    and "deleteOwnerFromRedis env (dir_prefix (dirs d i)) a n (client d) = (c', w) \<Longrightarrow>
      fst (redis_DeleteOwner env i a n d) = fold (apply_op env i) (after_delete a w) (d\<lparr>client := c'\<rparr>)"
  using assms
  by (auto simp: redis_AcquireOwner_def redis_RenewOwner_def redis_DeleteOwner_def after_acquire_def after_renew_def after_delete_def
      upd_dir_def updateChannel_def trySetCached_def tryDelCached_def Let_def split: sum.splits prod.splits option.splits bool.splits if_splits)

inductive dir_step :: "('r, 'c) dir_env \<Rightarrow> ('c \<Rightarrow> string \<Rightarrow> Owner option) \<Rightarrow> string \<Rightarrow> LActorID set \<Rightarrow> LNodeInfo set \<Rightarrow> ('r, 'c) dir_sys \<Rightarrow> ('r, 'c) dir_sys \<Rightarrow> bool"
  for env V p A N where
  get_call: "a \<in> A \<Longrightarrow> epoch_of (dir_tab env p d) a < 2 ^ 53 \<Longrightarrow> getOwnerFromRedis env p a (client d) = (c', y) \<Longrightarrow>
    dir_step env V p A N \<lparr>sys_dir = d, inflight = ops\<rparr> \<lparr>sys_dir = d\<lparr>client := c'\<rparr>, inflight = ops @ map (Pair i) (after_get a y)\<rparr>"
| acquire_call: "a \<in> A \<Longrightarrow> n \<in> N \<Longrightarrow> epoch_of (dir_tab env p d) a < 2 ^ 53 \<Longrightarrow>
    acquireOwnerFromRedis env p a n lease (client d) = (c', ya) \<Longrightarrow>
    dir_step env V p A N \<lparr>sys_dir = d, inflight = ops\<rparr> \<lparr>sys_dir = d\<lparr>client := c'\<rparr>, inflight = ops @ map (Pair i) (after_acquire a ya)\<rparr>"
| renew_call: "a \<in> A \<Longrightarrow> n \<in> N \<Longrightarrow> renewOwnerFromRedis env p a n lease (client d) = (c', yr) \<Longrightarrow>
    dir_step env V p A N \<lparr>sys_dir = d, inflight = ops\<rparr> \<lparr>sys_dir = d\<lparr>client := c'\<rparr>, inflight = ops @ map (Pair i) (after_renew a n yr)\<rparr>"
| delete_call: "a \<in> A \<Longrightarrow> n \<in> N \<Longrightarrow> epoch_of (dir_tab env p d) a < 2 ^ 53 \<Longrightarrow>
    deleteOwnerFromRedis env p a n (client d) = (c', yd) \<Longrightarrow>
    dir_step env V p A N \<lparr>sys_dir = d, inflight = ops\<rparr> \<lparr>sys_dir = d\<lparr>client := c'\<rparr>, inflight = ops @ map (Pair i) (after_delete a yd)\<rparr>"
| finish: "(i, op) \<in> set ops \<Longrightarrow>
    dir_step env V p A N \<lparr>sys_dir = d, inflight = ops\<rparr> \<lparr>sys_dir = apply_op env i op d, inflight = remove1 (i, op) ops\<rparr>"
| deliver: "msg \<in> set (published (client d)) \<Longrightarrow>
    dir_step env V p A N \<lparr>sys_dir = d, inflight = ops\<rparr> \<lparr>sys_dir = upd_dir i (handleOwnerEvent env (Some msg)) d, inflight = ops\<rparr>"
| drop_entries: "V c' \<subseteq>\<^sub>m V (cache (dirs d i)) \<Longrightarrow>
    dir_step env V p A N \<lparr>sys_dir = d, inflight = ops\<rparr> \<lparr>sys_dir = upd_dir i (\<lambda>m. m\<lparr>cache := c'\<rparr>) d, inflight = ops\<rparr>"
| expire: "r_GET (redis env) r' = (r_GET (redis env) (store (client d)))(owner_key p a := None) \<Longrightarrow> a \<in> A \<Longrightarrow>
    dir_step env V p A N \<lparr>sys_dir = d, inflight = ops\<rparr> \<lparr>sys_dir = d\<lparr>client := (client d)\<lparr>store := r'\<rparr>\<rparr>, inflight = ops\<rparr>"

inductive dir_reachable :: "('r, 'c) dir_env \<Rightarrow> ('c \<Rightarrow> string \<Rightarrow> Owner option) \<Rightarrow> string \<Rightarrow> LActorID set \<Rightarrow> LNodeInfo set \<Rightarrow> ('r, 'c) dir_sys \<Rightarrow> ('r, 'c) dir_sys \<Rightarrow> bool"
  for env V p A N s0 where
  dir_start: "dir_reachable env V p A N s0 s0"
| dir_next: "dir_reachable env V p A N s0 s \<Longrightarrow> dir_step env V p A N s s' \<Longrightarrow> dir_reachable env V p A N s0 s'"

subsection \<open>The invariant\<close>

text \<open>\<open>G a e\<close> is the node that actor \<open>a\<close> was given to at epoch \<open>e\<close>.\<close>

definition granted :: "LActorID set \<Rightarrow> LNodeInfo set \<Rightarrow> (LActorID \<Rightarrow> nat \<Rightarrow> LNodeInfo option) \<Rightarrow> string \<Rightarrow> Owner \<Rightarrow> bool" where
  "granted A N G k x \<longleftrightarrow> Node x \<in> N \<and> (\<forall>a \<in> A. k = ActorID_String a \<longrightarrow> G a (unat (Epoch x)) = Some (Node x))"

definition history_ok :: "LActorID set \<Rightarrow> lease_table \<Rightarrow> (LActorID \<Rightarrow> nat \<Rightarrow> LNodeInfo option) \<Rightarrow> bool" where
  "history_ok A L G \<longleftrightarrow> (\<forall>a \<in> A. epoch_of L a \<le> 2 ^ 53 \<and> (\<forall>e n. G a e = Some n \<longrightarrow> e \<le> epoch_of L a)
     \<and> (\<forall>n. owner_of L a = Some n \<longrightarrow> G a (epoch_of L a) = Some n))"

definition cache_inv :: "('r, 'c) dir_env \<Rightarrow> ('c \<Rightarrow> string \<Rightarrow> Owner option) \<Rightarrow> string \<Rightarrow> LActorID set \<Rightarrow> LNodeInfo set \<Rightarrow>
    (LActorID \<Rightarrow> nat \<Rightarrow> LNodeInfo option) \<Rightarrow> ('r, 'c) dir_sys \<Rightarrow> bool" where
  "cache_inv env V p A N G s \<longleftrightarrow> dir_inv env V p A N (sys_dir s) \<and> history_ok A (dir_tab env p (sys_dir s)) G
     \<and> (\<forall>i. cached_all V (granted A N G) (dirs (sys_dir s) i))
     \<and> (\<forall>i k x. (i, SetCached k x) \<in> set (inflight s) \<longrightarrow> granted A N G k x)"

definition grants_grow :: "(LActorID \<Rightarrow> nat \<Rightarrow> LNodeInfo option) \<Rightarrow> (LActorID \<Rightarrow> nat \<Rightarrow> LNodeInfo option) \<Rightarrow> bool" where
  "grants_grow G G' \<longleftrightarrow> (\<forall>a e n. G a e = Some n \<longrightarrow> G' a e = Some n)"

lemma granted_grow: "grants_grow G G' \<Longrightarrow> granted A N G k x \<Longrightarrow> granted A N G' k x"
  by (simp add: grants_grow_def granted_def)

lemma history_agree: "agree A L M \<Longrightarrow> history_ok A M G \<Longrightarrow> history_ok A L G"
  by (simp add: history_ok_def agree_def)

text \<open>A call that changes the store and adds operations.\<close>

lemma cache_inv_call:
  assumes inv: "cache_inv env V p A N G \<lparr>sys_dir = d, inflight = ops\<rparr>"
    and rel: "dir_rel (redis env) (libs env) p A N (store c') L" and grow: "grants_grow G G'" "history_ok A L G'"
    and new: "\<And>k x. SetCached k x \<in> set after \<Longrightarrow> granted A N G' k x"
  shows "cache_inv env V p A N G' \<lparr>sys_dir = d\<lparr>client := c'\<rparr>, inflight = ops @ map (Pair i) after\<rparr>"
proof -
  have d: "dir_inv env V p A N d" using inv by (simp add: cache_inv_def)
  then have "dir_inv env V p A N (d\<lparr>client := c'\<rparr>) \<and> agree A (dir_tab env p (d\<lparr>client := c'\<rparr>)) L"
    using dir_invI [of env V p A N "d\<lparr>client := c'\<rparr>" L] rel by (simp add: dir_inv_def)
  then show ?thesis
    using inv grow(2) new granted_grow [OF grow(1)] history_agree by (auto simp: cache_inv_def cached_all_def)
qed

lemma grants_grow_refl [simp]: "grants_grow G G"
  by (simp add: grants_grow_def)

text \<open>Acquiring grants the new epoch, or reports the grant of the current one.\<close>

lemma acquire_history:
  assumes h: "history_ok A L G" and a: "a \<in> A" "epoch_of L a < 2 ^ 53" and spec: "lease_acquire a n L = (L', x, b)"
  shows "\<exists>G'. grants_grow G G' \<and> history_ok A L' G' \<and> G' a (epoch_of L' a) = Some x"
proof (cases b)
  case False
  then have "owner_of L a = Some x" "L' = L" using spec by (auto simp: lease_acquire_def split: option.splits if_splits)
  then show ?thesis using h a by (intro exI [of _ G]) (auto simp: history_ok_def)
next
  case True
  then have L': "L' = lease_set a (Some n) L" "x = n" using spec by (auto simp: lease_acquire_def split: option.splits if_splits)
  let ?G = "G(a := (G a)(Suc (epoch_of L a) := Some n))"
  have "grants_grow G ?G" using h a unfolding grants_grow_def history_ok_def by fastforce
  moreover have "history_ok A L' ?G"
    using h a unfolding history_ok_def L' lease_set_def by (auto simp: le_Suc_eq dest: bspec)
  ultimately show ?thesis using L' by (intro exI [of _ ?G]) (simp add: lease_set_def)
qed

lemma delete_history:
  "history_ok A L G \<Longrightarrow> a \<in> A \<Longrightarrow> epoch_of L a < 2 ^ 53 \<Longrightarrow> lease_delete a n L = (L', b) \<Longrightarrow> history_ok A L' G"
  unfolding history_ok_def lease_delete_def lease_set_def by (auto simp: le_Suc_eq split: if_splits dest: bspec)

lemma granted_now:
  assumes "keys_apart p A" "a \<in> A" "n \<in> N" "G a e = Some n" "e < 2 ^ 64"
  shows "granted A N G (ActorID_String a) \<lparr>Node = n, Epoch = of_nat e\<rparr>"
proof -
  have "unat (of_nat e :: 64 word) = e" using assms(5) by (simp add: unat_of_nat take_bit_nat_eq_self)
  moreover have "b = a" if "b \<in> A" "ActorID_String a = ActorID_String b" for b
    using ActorID_String_inj [of a b] assms(1,2) that by (simp add: keys_apart_def)
  ultimately show ?thesis using assms(3,4) by (auto simp: granted_def)
qed

lemma cached_all_conj: "cached_all V P m \<Longrightarrow> cached_all V Q m \<Longrightarrow> cached_all V (\<lambda>k x. P k x \<and> Q k x) m"
  by (simp add: cached_all_def)

text \<open>Steps that change one cache only.\<close>

lemma cache_inv_upd:
  assumes inv: "cache_inv env V p A N G \<lparr>sys_dir = d, inflight = ops\<rparr>" and sub: "set ops' \<subseteq> set ops"
    and pre: "\<And>m. dir_prefix (f m) = dir_prefix m" and keep: "cached_all V (granted A N G) (f (dirs d i))"
  shows "cache_inv env V p A N G \<lparr>sys_dir = upd_dir i f d, inflight = ops'\<rparr>"
proof -
  have d: "dir_inv env V p A N d" using inv by (simp add: cache_inv_def)
  have "cached_all V (\<lambda>_ x. Node x \<in> N) (f (dirs d i))" using keep by (simp add: cached_all_def granted_def)
  then have "dir_inv env V p A N (upd_dir i f d) \<and> agree A (dir_tab env p (upd_dir i f d)) (dir_tab env p d)"
    using dir_invI [of env V p A N "upd_dir i f d" "dir_tab env p d"] d pre by (simp add: dir_inv_def)
  then show ?thesis using inv sub keep history_agree by (auto simp: cache_inv_def)
qed

lemma cache_inv_apply:
  assumes inv: "cache_inv env V p A N G \<lparr>sys_dir = d, inflight = ops\<rparr>" and op: "(i, op) \<in> set ops"
  shows "cache_inv env V p A N G \<lparr>sys_dir = apply_op env i op d, inflight = remove1 (i, op) ops\<rparr>"
proof -
  have lru: "lru_ok (lru env) V" and c: "cached_all V (granted A N G) (dirs d i)"
    using inv by (auto simp: cache_inv_def dir_inv_def env_ok_def)
  have sub: "set (remove1 (i, op) ops) \<subseteq> set ops" by (rule set_remove1_subset)
  note ops = cached_all_ops [OF lru c]
  show ?thesis
  proof (cases op)
    case (SetCached k x)
    then have "granted A N G k x" using inv op by (auto simp: cache_inv_def)
    then show ?thesis using cache_inv_upd [OF inv sub, of "trySetCached (lru env) k x" i] ops(3) SetCached by simp
  next
    case (DelCached k e)
    then show ?thesis using cache_inv_upd [OF inv sub, of "tryDelCached (lru env) k e" i] ops(1) by simp
  next
    case (RefreshCached k n)
    then show ?thesis using cache_inv_upd [OF inv sub, of "refreshCached (lru env) k n" i] ops(4) by simp
  next
    case (Notify a e)
    then show ?thesis using inv sub by (auto simp: cache_inv_def dir_inv_def dir_tab_def)
  qed
qed

lemma cache_inv_step:
  assumes "dir_step env V p A N s s'" "cache_inv env V p A N G s"
  shows "\<exists>G'. cache_inv env V p A N G' s'"
  using assms
proof (induction rule: dir_step.induct)
  case (get_call a d c' y ops i)
  then have inv: "dir_inv env V p A N d" and h: "history_ok A (dir_tab env p d) G" by (auto simp: cache_inv_def)
  note parts = inv_parts [OF inv get_call(1)]
  obtain z where z: "store c' = store (client d)" "y = z"
    "if answered (client d) then z = Inr (map_option (\<lambda>x. \<lparr>Node = x, Epoch = of_nat (epoch_of (dir_tab env p d) a)\<rparr>) (owner_of (dir_tab env p d) a))
     else \<exists>e. z = Inl e"
    using getOwnerFromRedis_refines [OF parts(2,8) get_call(1,2)] get_call(3) by auto
  have new: "granted A N G k x" if "SetCached k x \<in> set (after_get a y)" for k x
  proof -
    from that z obtain n where n: "owner_of (dir_tab env p d) a = Some n" "k = ActorID_String a"
      "x = \<lparr>Node = n, Epoch = of_nat (epoch_of (dir_tab env p d) a)\<rparr>"
      by (cases "owner_of (dir_tab env p d) a") (auto simp: after_get_def split: sum.splits option.splits if_splits)
    have "G a (epoch_of (dir_tab env p d) a) = Some n" using h get_call(1) n(1) by (simp add: history_ok_def)
    then show ?thesis using granted_now [OF parts(3) get_call(1) parts(11)] n get_call(2) by simp
  qed
  have "dir_rel (redis env) (libs env) p A N (store c') (dir_tab env p d)" using z(1) parts(8) by simp
  from cache_inv_call [OF get_call(4) this grants_grow_refl h new] show ?case by blast
next
  case (acquire_call a n d lease c' y ops i)
  then have inv: "dir_inv env V p A N d" and h: "history_ok A (dir_tab env p d) G" by (auto simp: cache_inv_def)
  note parts = inv_parts [OF inv acquire_call(1)]
  obtain L' x b where spec: "lease_acquire a n (dir_tab env p d) = (L', x, b)" by (cases "lease_acquire a n (dir_tab env p d)")
  obtain z where z: "dir_rel (redis env) (libs env) p A N (store c') (if executed (client d) then L' else dir_tab env p d)" "y = z"
    "if answered (client d) then z = Inr (\<lparr>Node = x, Epoch = of_nat (epoch_of L' a)\<rparr>, b) else \<exists>e. z = Inl e"
    using acquireOwnerFromRedis_refines [OF parts(1-3,8) acquire_call(1-3) spec, of lease] acquire_call(4) by auto
  obtain G' where G': "grants_grow G G'" "history_ok A L' G'" "G' a (epoch_of L' a) = Some x"
    using acquire_history [OF h acquire_call(1,3) spec] by blast
  have x: "x \<in> N" using lease_acquire_owner [OF spec] acquire_call(2) parts(11) by blast
  have e: "epoch_of L' a < 2 ^ 64" using G'(2) acquire_call(1) by (auto simp: history_ok_def dest!: bspec)
  have new: "granted A N G' k w" if "SetCached k w \<in> set (after_acquire a y)" for k w
    using that z granted_now [of p A a x N G', OF parts(3) acquire_call(1) x G'(3) e]
    by (auto simp: after_acquire_def split: sum.splits if_splits)
  show ?case
  proof (cases "executed (client d)")
    case True
    then have "dir_rel (redis env) (libs env) p A N (store c') L'" using z(1) by simp
    from cache_inv_call [OF acquire_call(5) this G'(1,2) new] show ?thesis by blast
  next
    case False
    then have "after_acquire a y = []" using z(2,3) answered_executed by (auto simp: after_acquire_def split: if_splits)
    then show ?thesis using cache_inv_call [OF acquire_call(5) _ grants_grow_refl h, of c' "[]"] z(1) False by auto
  qed
next
  case (renew_call a n lease d c' y ops i)
  then have inv: "dir_inv env V p A N d" and h: "history_ok A (dir_tab env p d) G" by (auto simp: cache_inv_def)
  note parts = inv_parts [OF inv renew_call(1)]
  have "dir_rel (redis env) (libs env) p A N (store c') (dir_tab env p d)"
    using renewOwnerFromRedis_refines [OF parts(1,2,8) renew_call(1,2), of lease] renew_call(3) by auto
  moreover have "SetCached k x \<notin> set (after_renew a n y)" for k x by (auto simp: after_renew_def split: sum.splits bool.splits)
  ultimately show ?case using cache_inv_call [OF renew_call(4) _ grants_grow_refl h] by blast
next
  case (delete_call a n d c' y ops i)
  then have inv: "dir_inv env V p A N d" and h: "history_ok A (dir_tab env p d) G" by (auto simp: cache_inv_def)
  note parts = inv_parts [OF inv delete_call(1)]
  obtain L' b where spec: "lease_delete a n (dir_tab env p d) = (L', b)" by (cases "lease_delete a n (dir_tab env p d)")
  have rel: "dir_rel (redis env) (libs env) p A N (store c') (if executed (client d) then L' else dir_tab env p d)"
    using deleteOwnerFromRedis_refines [OF parts(1-3,8) delete_call(1-3) spec] delete_call(4) by auto
  have "history_ok A (if executed (client d) then L' else dir_tab env p d) G"
    using h delete_history [OF h delete_call(1,3) spec] by simp
  moreover have "SetCached k x \<notin> set (after_delete a y)" for k x by (auto simp: after_delete_def split: sum.splits bool.splits prod.splits)
  ultimately show ?case using cache_inv_call [OF delete_call(5) rel grants_grow_refl] by blast
next
  case (finish i op ops d)
  then show ?case using cache_inv_apply by blast
next
  case (deliver msg d ops i)
  then have lru: "lru_ok (lru env) V" and c: "cached_all V (granted A N G) (dirs d i)"
    by (auto simp: cache_inv_def dir_inv_def env_ok_def)
  have "cached_all V (granted A N G) (handleOwnerEvent env (Some msg) (dirs d i))"
    using c cached_all_ops(1) [OF lru c] by (auto simp: handleOwnerEvent_def split: prod.splits sum.splits)
  from cache_inv_upd [OF deliver(2) subset_refl cache_prefix(5) this] show ?case by blast
next
  case (drop_entries c' d i ops)
  have "cached_all V (granted A N G) (dirs d i)" using drop_entries(2) by (simp add: cache_inv_def)
  then have "cached_all V (granted A N G) ((dirs d i)\<lparr>cache := c'\<rparr>)"
    unfolding cached_all_def using map_le_Some [OF drop_entries(1)] by simp
  then show ?case using cache_inv_upd [OF drop_entries(2) subset_refl, of "\<lambda>m. m\<lparr>cache := c'\<rparr>"] by auto
next
  case (expire r' d a ops)
  then have inv: "dir_inv env V p A N d" and h: "history_ok A (dir_tab env p d) G" by (auto simp: cache_inv_def)
  note parts = inv_parts [OF inv expire(2)]
  let ?L = "(dir_tab env p d)\<lparr>owner_of := (owner_of (dir_tab env p d))(a := None)\<rparr>"
  have "dir_rel (redis env) (libs env) p A N r' ?L"
    using parts(8) expire(1,2) keys_apart_simps [OF parts(3)] owner_key_inj [OF parts(3)] unfolding dir_rel_def by (auto split: if_splits)
  moreover have "history_ok A ?L G" using h by (auto simp: history_ok_def)
  ultimately show ?case
    using cache_inv_call [OF expire(3) _ grants_grow_refl, of "(client d)\<lparr>store := r'\<rparr>" ?L "[]"] by auto
qed

text \<open>
  C35: Whatever the interleaving of calls, cache updates, notifications, evictions and lease expiries
  on all nodes, a cached owner of an actor carries an epoch that is not newer than the one in Redis,
  and if it is that epoch then Redis names the same owner or none (its lease has expired).
\<close>

theorem owner_cache_coherent:
  assumes "dir_reachable env V p A N s0 s" and "dir_inv env V p A N (sys_dir s0)" and "inflight s0 = []"
    and "\<forall>i k. V (cache (dirs (sys_dir s0) i)) k = None" and "\<forall>a \<in> A. epoch_of (dir_tab env p (sys_dir s0)) a \<le> 2 ^ 53"
    and "a \<in> A" and "V (cache (dirs (sys_dir s) i)) (ActorID_String a) = Some x"
  shows "unat (Epoch x) \<le> epoch_of (dir_tab env p (sys_dir s)) a
    \<and> (unat (Epoch x) = epoch_of (dir_tab env p (sys_dir s)) a \<longrightarrow> owner_of (dir_tab env p (sys_dir s)) a \<in> {None, Some (Node x)})"
proof -
  let ?L = "dir_tab env p (sys_dir s0)"
  let ?G = "\<lambda>a e. if e = epoch_of ?L a then owner_of ?L a else None"
  have "cache_inv env V p A N ?G s0"
    using assms(2-5) by (auto simp: cache_inv_def history_ok_def cached_all_def)
  with assms(1) obtain G where "cache_inv env V p A N G s"
    by (induction arbitrary: thesis rule: dir_reachable.induct) (blast, meson cache_inv_step)
  then have "granted A N G (ActorID_String a) x" "history_ok A (dir_tab env p (sys_dir s)) G"
    using assms(7) by (auto simp: cache_inv_def cached_all_def)
  with assms(6) show ?thesis by (fastforce simp: granted_def history_ok_def)
qed

end
