(* ===== verification/DirectoryExamples.thy ===== *)
theory DirectoryExamples
  imports DirectoryCache "HOL-Library.AList"
begin

text \<open>
  A small Redis, cache and JSON encoding that fulfil what the theories of the directory rely on, and
  the properties of the directory applied to them.
\<close>

definition list_redis :: "(string \<times> string) list redis" where
  "list_redis = \<lparr>r_GET = map_of, r_SET = (\<lambda>r k v t. (k, v) # r),
     r_INCR = (\<lambda>r k. let n = (case map_of r k of None \<Rightarrow> 0 | Some s \<Rightarrow> read_nat s) + 1 in ((k, show_nat n) # r, int n)),
     r_DEL = (\<lambda>r k. AList.delete k r), r_PEXPIRE = (\<lambda>r k t. (r, if map_of r k = None then 0 else 1))\<rparr>"

definition list_lru :: "(string \<times> Owner) list lru" where
  "list_lru = \<lparr>lru_Get = (\<lambda>c k. (c, map_of c k)), lru_Add = (\<lambda>c k x. (k, x) # c), lru_Remove = (\<lambda>c k. AList.delete k c), lru_Purge = (\<lambda>_. [])\<rparr>"

lemma list_redis_ok: "redis_ok list_redis"
  by (auto simp: redis_ok_def list_redis_def Let_def fun_eq_iff AList.delete_conv' split: option.splits)

lemma list_lru_ok: "lru_ok list_lru map_of"
  by (auto simp: lru_ok_def list_lru_def AList.delete_conv' map_le_def)

definition node_one :: LNodeInfo where "node_one = \<lparr>NodeId = ''n1'', ln_Kind = ''game'', InstanceId = ''x''\<rparr>"
definition node_two :: LNodeInfo where "node_two = \<lparr>NodeId = ''n2'', ln_Kind = ''game'', InstanceId = ''y''\<rparr>"
definition player :: LActorID where "player = \<lparr>la_Kind = ''p'', la_Key = ''1''\<rparr>"

text \<open>The encodings of the two nodes; the digits are read by \<open>read_nat\<close>.\<close>

definition sample_libs :: dir_lib where
  "sample_libs =
     \<lparr>json_of_node = (\<lambda>n. if n = node_one then Inr ''{1}'' else if n = node_two then Inr ''{2}'' else Inl (Plain ''unsupported'')),
      node_of_json = (\<lambda>s. if s = ''{1}'' then Inr node_one else if s = ''{2}'' then Inr node_two else Inl (Plain ''invalid character'')),
      json_of_event = (\<lambda>ev. Inr (ActorID_String (ev_ActorId ev))),
      event_of_json = (\<lambda>s. Inl (Plain ''unsupported'')),
      cjson_decode = (\<lambda>s. if s = ''{1}'' then Some (Some ''n1'', Some ''x'') else if s = ''{2}'' then Some (Some ''n2'', Some ''y'') else None),
      cjson_error = Plain ''invalid'', Sscan_uint64 = (\<lambda>s. Inr (of_nat (read_nat s)))\<rparr>"

definition sample_dir_env :: "((string \<times> string) list, (string \<times> Owner) list) dir_env" where
  "sample_dir_env = \<lparr>redis = list_redis, lru = list_lru, libs = sample_libs\<rparr>"

lemma nodes_valid: "LNodeInfo_Validate node_one = None" "LNodeInfo_Validate node_two = None"
  by code_simp+

lemma sample_libs_ok: "lib_ok sample_libs {node_one, node_two}"
proof -
  have "node_one \<noteq> node_two" by (simp add: node_one_def node_two_def)
  then show ?thesis using nodes_valid
    by (simp add: lib_ok_def encodes_def sample_libs_def) (simp add: node_one_def node_two_def)
qed

lemma sample_keys_apart: "keys_apart [] {player}"
  unfolding keys_apart_def by (simp add: owner_key_def epoch_key_def genRedisKey_def player_def ActorID_Validate_def ActorID_String_def)

lemma sample_env_ok: "env_ok sample_dir_env map_of [] {player} {node_one, node_two}"
  using list_redis_ok list_lru_ok sample_libs_ok sample_keys_apart by (simp add: env_ok_def sample_dir_env_def)

definition empty_table :: lease_table where
  "empty_table = \<lparr>owner_of = (\<lambda>_. None), epoch_of = (\<lambda>_. 0)\<rparr>"

definition empty_client :: "(string \<times> string) list redis_client" where
  "empty_client = \<lparr>store = [], published = [], outcomes = []\<rparr>"

lemma empty_rel: "dir_rel (redis sample_dir_env) (libs sample_dir_env) p A N [] empty_table"
  by (simp add: dir_rel_def empty_table_def sample_dir_env_def list_redis_def)

theorem redis_directory_refines_witness:
  "\<exists>c'. acquireOwnerFromRedis sample_dir_env [] player node_one 5000000 empty_client = (c', Inr (\<lparr>Node = node_one, Epoch = 1\<rparr>, True))
    \<and> store c' \<noteq> []"
proof -
  have ok: "redis_ok (redis sample_dir_env)" "lib_ok (libs sample_dir_env) {node_one, node_two}"
    "dir_rel (redis sample_dir_env) (libs sample_dir_env) [] {player} {node_one, node_two} (store empty_client) empty_table"
    using list_redis_ok sample_libs_ok empty_rel by (simp_all add: sample_dir_env_def empty_client_def)
  have "player \<in> {player}" "node_one \<in> {node_one, node_two}" "epoch_of empty_table player < 2 ^ 53" by (simp_all add: empty_table_def)
  from redis_directory_refines [OF ok(1,2) sample_keys_apart ok(3) this, THEN conjunct1, of 5000000] show ?thesis
    by (auto simp: lease_acquire_def lease_set_def empty_table_def executed_def answered_def empty_client_def dir_rel_def
        sample_dir_env_def list_redis_def)
qed

definition empty_dir :: "(string \<times> Owner) list RedisOwnerDirectory" where
  "empty_dir = \<lparr>dir_prefix = [], cache = [], leaseTTL = 5000000, stopOnce = False\<rparr>"

definition empty_sys :: "((string \<times> string) list, (string \<times> Owner) list) dir_sys" where
  "empty_sys = \<lparr>sys_dir = \<lparr>dirs = (\<lambda>_. empty_dir), client = empty_client\<rparr>, inflight = []\<rparr>"

lemma empty_dir_inv: "dir_inv sample_dir_env map_of [] {player} {node_one, node_two} (sys_dir empty_sys)"
  using dir_invI [OF sample_env_ok, of "sys_dir empty_sys" empty_table] empty_rel
  by (simp add: empty_sys_def empty_dir_def empty_client_def cached_all_def)

text \<open>Node 0 acquires the actor for itself and enters the answer into its cache.\<close>

definition acquired_client :: "(string \<times> string) list redis_client" where
  "acquired_client = fst (acquireOwnerFromRedis sample_dir_env [] player node_one 5000000 empty_client)"

definition acquired_dir :: "((string \<times> string) list, (string \<times> Owner) list) directory" where
  "acquired_dir = upd_dir 0 (trySetCached list_lru (ActorID_String player) \<lparr>Node = node_one, Epoch = 1\<rparr>)
     ((sys_dir empty_sys)\<lparr>client := acquired_client\<rparr>)"

lemma acquired_call: "acquireOwnerFromRedis sample_dir_env [] player node_one 5000000 empty_client = (acquired_client, Inr (\<lparr>Node = node_one, Epoch = 1\<rparr>, True))"
proof -
  have "snd (acquireOwnerFromRedis sample_dir_env [] player node_one 5000000 empty_client) = Inr (\<lparr>Node = node_one, Epoch = 1\<rparr>, True)" by code_simp
  then show ?thesis by (simp add: acquired_client_def prod_eq_iff)
qed

lemma empty_sys_tab: "epoch_of (dir_tab sample_dir_env [] (sys_dir empty_sys)) a = 0"
  by (simp add: dir_tab_def table_of_def empty_sys_def empty_client_def sample_dir_env_def list_redis_def)

lemma acquired_reachable:
  "dir_reachable sample_dir_env map_of [] {player} {node_one, node_two} empty_sys
     \<lparr>sys_dir = acquired_dir, inflight = [(0, Notify player 1)]\<rparr>"
proof -
  let ?op = "SetCached (ActorID_String player) \<lparr>Node = node_one, Epoch = 1\<rparr>"
  let ?d = "sys_dir empty_sys"
  let ?s = "\<lparr>sys_dir = ?d\<lparr>client := acquired_client\<rparr>, inflight = [(0, ?op), (0, Notify player 1)]\<rparr>"
  have c: "acquireOwnerFromRedis sample_dir_env [] player node_one 5000000 (client ?d) = (acquired_client, Inr (\<lparr>Node = node_one, Epoch = 1\<rparr>, True))"
    using acquired_call by (simp add: empty_sys_def)
  have "dir_step sample_dir_env map_of [] {player} {node_one, node_two} \<lparr>sys_dir = ?d, inflight = []\<rparr> ?s"
    using dir_step.acquire_call [of player "{player}" node_one "{node_one, node_two}" sample_dir_env "[]" ?d 5000000 acquired_client _ map_of "[]" 0, OF _ _ _ c]
    by (simp add: empty_sys_tab after_acquire_def)
  moreover have "empty_sys = \<lparr>sys_dir = ?d, inflight = []\<rparr>" by (simp add: empty_sys_def)
  ultimately have 1: "dir_reachable sample_dir_env map_of [] {player} {node_one, node_two} empty_sys ?s"
    using dir_next [OF dir_start] by metis
  have "dir_step sample_dir_env map_of [] {player} {node_one, node_two} ?s \<lparr>sys_dir = acquired_dir, inflight = [(0, Notify player 1)]\<rparr>"
    using dir_step.finish [of 0 ?op "[(0, ?op), (0, Notify player 1)]" sample_dir_env map_of "[]" "{player}" "{node_one, node_two}" "?d\<lparr>client := acquired_client\<rparr>"]
    by (simp add: acquired_dir_def sample_dir_env_def)
  with 1 show ?thesis by (rule dir_next)
qed

theorem owner_cache_coherent_witness:
  "map_of (cache (dirs acquired_dir 0)) ''p:1'' = Some \<lparr>Node = node_one, Epoch = 1\<rparr>
    \<and> epoch_of (dir_tab sample_dir_env [] acquired_dir) player \<ge> 1"
proof -
  have c: "map_of (cache (dirs acquired_dir 0)) (ActorID_String player) = Some \<lparr>Node = node_one, Epoch = 1\<rparr>" by code_simp
  have p: "ActorID_String player = ''p:1''" by code_simp
  have e: "\<forall>i k. map_of (cache (dirs (sys_dir empty_sys) i)) k = None" by (simp add: empty_sys_def empty_dir_def)
  have b: "\<forall>a \<in> {player}. epoch_of (dir_tab sample_dir_env [] (sys_dir empty_sys)) a \<le> 2 ^ 53" by (simp add: empty_sys_tab)
  have i: "inflight empty_sys = []" by (simp add: empty_sys_def)
  from owner_cache_coherent [OF acquired_reachable empty_dir_inv i e b, of player 0] c p show ?thesis by simp
qed

end
