(* ===== verification/ActorAsk.thy ===== *)
theory ActorAsk
  imports ActorInv
begin

text \<open>
  Asks: the request table of a system, the channels on which \<^verbatim>\<open>Ask\<close> waits, and the goroutines that
  wait on them.
\<close>

subsection \<open>The request table and the channels\<close>

type_synonym 'k req_entry = "request_id \<times> 'k completion \<times> int option"

definition entries :: "'k completion requestManager \<Rightarrow> 'k req_entry list" where
  "entries m = map (\<lambda>(i, p). (i, complete_cb p, req_timer p)) (pending m)"

definition chan_of :: "'k req_entry \<Rightarrow> nat option" where
  "chan_of x = (case fst (snd x) of AskChan n \<Rightarrow> Some n | AskTask _ _ _ \<Rightarrow> None)"

definition chan_ids :: "'k completion requestManager \<Rightarrow> nat list" where
  "chan_ids m = List.map_filter chan_of (entries m)"

text \<open>
  Identifiers are those issued, none twice; every channel belongs to at most one pending request, and
  is empty while the request is pending; no channel ever receives a second value; every pending
  request has a timer.
\<close>

definition table_ok :: "request_id \<Rightarrow> nat \<Rightarrow> 'k completion requestManager \<Rightarrow> 'v list list \<Rightarrow> bool" where
  "table_ok seed k m cs \<longleftrightarrow>
     nextRequestId m = seed + of_nat k
     \<and> distinct (map fst (entries m)) \<and> set (map fst (entries m)) \<subseteq> set (issued seed k)
     \<and> distinct (chan_ids m) \<and> (\<forall>n \<in> set (chan_ids m). n < length cs \<and> cs ! n = [])
     \<and> (\<forall>c \<in> set cs. length c \<le> 1) \<and> (\<forall>x \<in> set (entries m). snd (snd x) \<noteq> None)"

abbreviation req_ok :: "request_id \<Rightarrow> ('a, 'k, 'm) System \<Rightarrow> bool" where
  "req_ok seed s \<equiv> table_ok seed (issued_reqs s) (requests s) (chans s)"

text \<open>A goroutine that waits on channel \<open>n\<close> finds a value there, or its request is pending.\<close>

definition awaited :: "'k completion requestManager \<Rightarrow> 'v list list \<Rightarrow> nat \<Rightarrow> bool" where
  "awaited m cs n \<longleftrightarrow> n < length cs \<and> (cs ! n = [] \<longrightarrow> n \<in> set (chan_ids m))"

abbreviation waiting_ok :: "('a, 'k, 'm) System \<Rightarrow> nat \<Rightarrow> bool" where
  "waiting_ok s \<equiv> awaited (requests s) (chans s)"

lemma map_entries_update:
  "map_of xs i = Some p \<Longrightarrow> g q = g p \<Longrightarrow> map (\<lambda>(i, p). (i, g p)) (AList.update i q xs) = map (\<lambda>(i, p). (i, g p)) xs"
  by (induction xs) (auto split: if_splits)

lemma entries_retarget [simp]: "entries (rm_retarget m i t) = entries m"
  by (auto simp: rm_retarget_def entries_def map_entries_update [where g = "\<lambda>p. (complete_cb p, req_timer p)"] split: option.splits)

lemma next_retarget [simp]: "nextRequestId (rm_retarget m i t) = nextRequestId m"
  by (auto simp: rm_retarget_def split: option.splits)

lemma table_cong: "entries m' = entries m \<Longrightarrow> nextRequestId m' = nextRequestId m \<Longrightarrow> table_ok seed k m' cs = table_ok seed k m cs"
  by (simp add: table_ok_def chan_ids_def)

lemma awaited_cong: "entries m' = entries m \<Longrightarrow> awaited m' cs = awaited m cs"
  by (simp add: awaited_def chan_ids_def fun_eq_iff)

lemma map_fst_entries: "map fst (entries m) = map fst (pending m)"
  by (simp add: entries_def comp_def case_prod_unfold)

subsection \<open>Operations on the table\<close>

lemma entries_add:
  assumes "nextRequestId m + 1 \<notin> set (map fst (entries m))" and "rm_add m n t d cb = (m', Inr r)"
  shows "entries m' = entries m @ [(nextRequestId m + 1, cb, if d > 0 then Some d else None)]"
    and "nextRequestId m' = nextRequestId m + 1" and "ref_RequestID r = nextRequestId m + 1"
  using assms update_new [of "nextRequestId m + 1" "pending m"]
  by (auto simp: rm_add_def Let_def entries_def map_fst_entries comp_def case_prod_unfold split: if_splits)

lemma rm_add_Inl: "rm_add m n t d cb = (m', Inl e) \<Longrightarrow> m' = m"
  by (auto simp: rm_add_def Let_def split: if_splits)

lemma fresh_request:
  assumes "table_ok seed k m cs" "Suc k < 2 ^ 64"
  shows "nextRequestId m + 1 \<notin> set (map fst (entries m))" "nextRequestId m + 1 \<in> set (issued seed (Suc k))"
proof -
  have n: "nextRequestId m + 1 = seed + of_nat (Suc k)" using assms(1) by (simp add: table_ok_def)
  then show "nextRequestId m + 1 \<in> set (issued seed (Suc k))" by (simp add: issued_Suc)
  have "seed + of_nat (Suc k) \<notin> set (issued seed k)" using issued_distinct [OF assms(2), of seed] by (simp add: issued_Suc)
  then show "nextRequestId m + 1 \<notin> set (map fst (entries m))" unfolding n using assms(1) by (auto simp: table_ok_def)
qed

lemma entries_remove: "entries (fst (rm_remove m i)) = filter (\<lambda>x. fst x \<noteq> i) (entries m)"
  by (simp add: rm_remove_def entries_def AList.delete_eq filter_map comp_def case_prod_unfold eq_commute)

lemma next_remove [simp]: "nextRequestId (fst (rm_remove m i)) = nextRequestId m"
  by (simp add: rm_remove_def)

lemma map_filter_filter: "distinct (List.map_filter f xs) \<Longrightarrow> distinct (List.map_filter f (filter P xs))"
  "set (List.map_filter f (filter P xs)) \<subseteq> set (List.map_filter f xs)"
  by (induction xs) (auto simp: List.map_filter_simps in_map_filter split: option.splits)

lemma table_ok_remove: "table_ok seed k m cs \<Longrightarrow> table_ok seed k (fst (rm_remove m i)) cs"
  using map_filter_filter [where f = chan_of and xs = "entries m" and P = "\<lambda>x. fst x \<noteq> i"]
  by (auto simp: table_ok_def entries_remove chan_ids_def distinct_map_filter)

text \<open>A new channel and its request.\<close>

lemma table_ok_chan: "table_ok seed k m cs \<Longrightarrow> table_ok seed k m (cs @ [[]])"
  by (auto simp: table_ok_def nth_append)

lemma table_ok_add:
  assumes ok: "table_ok seed k m cs" and k: "Suc k < 2 ^ 64" and add: "rm_add m n t d cb = (m', Inr r)" and d: "d > 0"
    and cb: "\<And>j. cb = AskChan j \<Longrightarrow> j < length cs \<and> cs ! j = [] \<and> j \<notin> set (chan_ids m)"
  shows "table_ok seed (Suc k) m' cs" and "set (chan_ids m) \<subseteq> set (chan_ids m')"
    and "\<And>j. cb = AskChan j \<Longrightarrow> j \<in> set (chan_ids m')"
    and "set (chan_ids (fst (rm_remove m' (ref_RequestID r)))) = set (chan_ids m)"
proof -
  note fresh = fresh_request [OF ok k]
  note e = entries_add [OF fresh(1) add]
  have ids: "chan_ids m' = chan_ids m @ (case cb of AskChan j \<Rightarrow> [j] | AskTask _ _ _ \<Rightarrow> [])"
    unfolding chan_ids_def e(1) by (auto simp: List.map_filter_def chan_of_def split: completion.splits)
  show "set (chan_ids m) \<subseteq> set (chan_ids m')" "\<And>j. cb = AskChan j \<Longrightarrow> j \<in> set (chan_ids m')" using ids by auto
  have "filter (\<lambda>x. fst x \<noteq> ref_RequestID r) (entries m') = entries m"
    using fresh(1) unfolding e(1,3) by (auto simp: filter_id_conv) (metis fst_conv image_eqI)+
  then show "set (chan_ids (fst (rm_remove m' (ref_RequestID r)))) = set (chan_ids m)"
    by (simp add: chan_ids_def entries_remove)
  have "distinct (chan_ids m')" "\<forall>n \<in> set (chan_ids m'). n < length cs \<and> cs ! n = []"
    using ok cb by (auto simp: ids table_ok_def split: completion.splits)
  moreover have "nextRequestId m' = seed + of_nat (Suc k)" using e(2) ok by (simp add: table_ok_def)
  ultimately show "table_ok seed (Suc k) m' cs"
    using ok fresh d unfolding table_ok_def e(1) by (auto simp: issued_Suc)
qed

text \<open>A completed request sends one value to its channel.\<close>

lemma rm_complete_entry:
  assumes "rm_complete m i = (m', Inr cb)"
  shows "\<exists>t. (i, cb, t) \<in> set (entries m)" "m' = fst (rm_remove m i)"
proof -
  from assms obtain p where p: "map_of (pending m) i = Some p" "cb = complete_cb p" and m': "m' = fst (rm_remove m i)"
    by (auto simp: rm_complete_def rm_remove_def split: option.splits)
  show "\<exists>t. (i, cb, t) \<in> set (entries m)"
    unfolding entries_def using map_of_SomeD [OF p(1)] p(2) by (intro exI [of _ "req_timer p"]) force
  show "m' = fst (rm_remove m i)" by (rule m')
qed

lemma table_ok_complete_chan:
  assumes ok: "table_ok seed k m cs" and c: "rm_complete m i = (m', Inr (AskChan n))"
  shows "table_ok seed k m' (cs[n := cs ! n @ [r]])" and "awaited m cs j \<Longrightarrow> awaited m' (cs[n := cs ! n @ [r]]) j"
proof -
  from rm_complete_entry [OF c] obtain t where t: "(i, AskChan n, t) \<in> set (entries m)" and m': "m' = fst (rm_remove m i)" by blast
  have chan: "chan_of (i, AskChan n, t) = Some n" by (simp add: chan_of_def)
  with t have n: "n \<in> set (chan_ids m)" unfolding chan_ids_def in_map_filter by blast
  then have n': "n < length cs" "cs ! n = []" using ok by (auto simp: table_ok_def)
  obtain xs ys where split: "entries m = xs @ (i, AskChan n, t) # ys" using t by (meson split_list)
  have keys: "i \<notin> fst ` set xs" "i \<notin> fst ` set ys" using ok unfolding table_ok_def split by auto
  have "filter (\<lambda>x. fst x \<noteq> i) xs = xs" "filter (\<lambda>x. fst x \<noteq> i) ys = ys"
    by (rule filter_True; use keys in force)+
  then have rest: "filter (\<lambda>x. fst x \<noteq> i) (entries m) = xs @ ys" unfolding split by simp
  have dist: "distinct (chan_ids m)" using ok by (simp add: table_ok_def)
  have ids: "chan_ids m = List.map_filter chan_of xs @ n # List.map_filter chan_of ys"
    "chan_ids m' = List.map_filter chan_of xs @ List.map_filter chan_of ys"
    unfolding chan_ids_def m' entries_remove rest by (simp_all add: split List.map_filter_def chan)
  have set': "set (chan_ids m') = set (chan_ids m) - {n}" using dist unfolding ids by auto
  have "table_ok seed k m' cs" unfolding m' by (rule table_ok_remove [OF ok])
  then show "table_ok seed k m' (cs[n := cs ! n @ [r]])"
    using set' n' by (auto simp: table_ok_def nth_list_update dest!: set_update_subset_insert [THEN subsetD])
  show "awaited m' (cs[n := cs ! n @ [r]]) j" if "awaited m cs j"
    using that set' n' by (cases "j = n") (auto simp: awaited_def)
qed

lemma table_ok_complete_task:
  assumes ok: "table_ok seed k m cs" and c: "rm_complete m i = (m', Inr (AskTask f t g))"
  shows "table_ok seed k m' cs" and "awaited m cs j \<Longrightarrow> awaited m' cs j"
proof -
  from rm_complete_entry [OF c] obtain d where d: "(i, AskTask f t g, d) \<in> set (entries m)" and m': "m' = fst (rm_remove m i)" by blast
  show "table_ok seed k m' cs" unfolding m' by (rule table_ok_remove [OF ok])
  have "x = (i, AskTask f t g, d)" if "x \<in> set (entries m)" "fst x = i" for x
    using ok d that eq_key_imp_eq_value [of "entries m" i "snd x"] by (cases x) (auto simp: table_ok_def)
  from this [THEN arg_cong [of _ _ chan_of]] have "chan_of x = None" if "x \<in> set (entries m)" "fst x = i" for x
    using that by (simp add: chan_of_def)
  then have "set (chan_ids m) \<subseteq> set (chan_ids m')"
    unfolding m' chan_ids_def entries_remove by (auto simp: in_map_filter) (metis option.distinct(1))
  then show "awaited m cs j \<Longrightarrow> awaited m' cs j" by (auto simp: awaited_def)
qed

subsection \<open>Operations of the system\<close>

text \<open>The number of requests never falls.\<close>

interpretation iss: sending "\<lambda>s s'. issued_reqs s \<le> issued_reqs s'"
  by unfold_locales (auto simp: mark_responded_def)

text \<open>Sending leaves the table as it is, but for the target of a request.\<close>

definition same_table :: "('a, 'k, 'm) System \<Rightarrow> ('a, 'k, 'm) System \<Rightarrow> bool" where
  "same_table s s' \<longleftrightarrow> entries (requests s') = entries (requests s) \<and> nextRequestId (requests s') = nextRequestId (requests s)
     \<and> issued_reqs s' = issued_reqs s \<and> chans s' = chans s"

lemma same_table_refl [simp]: "same_table s s"
  by (simp add: same_table_def)

lemma same_table_trans: "same_table s s1 \<Longrightarrow> same_table s1 s2 \<Longrightarrow> same_table s s2"
  by (simp add: same_table_def)

lemma same_table_upd [simp]: "same_table s (upd_proc i f s')  = same_table s s'"
  by (simp add: same_table_def)

lemma same_table_remote: "same_table s (fst (sendRemoteMessage env message s))"
  by (auto simp: sendRemoteMessage_def same_table_def split: option.splits sum.splits)

lemma same_table_SendEnvelope: "same_table s (fst (SendEnvelope env target e s))"
proof -
  have retarget: "same_table s (s\<lparr>requests := rm_retarget (requests s) i t\<rparr>)" for i t by (simp add: same_table_def)
  have "same_table s (fst (sendRemoteEnvelope env t e s))" for t
    using same_table_trans [OF retarget same_table_remote]
    by (auto simp: sendRemoteEnvelope_def Let_def same_table_remote split: option.splits sum.splits)
  then show ?thesis by (auto simp: SendEnvelope_def Process_Push_def split: option.splits sum.splits)
qed

lemma same_table_ok: "same_table s s' \<Longrightarrow> req_ok seed s' = req_ok seed s" "same_table s s' \<Longrightarrow> waiting_ok s' = waiting_ok s"
  using table_cong [of "requests s'" "requests s"] awaited_cong [of "requests s'" "requests s"] by (auto simp: same_table_def)

text \<open>What every operation guarantees of the table, as long as identifiers do not run out.\<close>

definition keeps_table :: "('a, 'k, 'm) System \<Rightarrow> ('a, 'k, 'm) System \<Rightarrow> bool" where
  "keeps_table s s' \<longleftrightarrow> issued_reqs s \<le> issued_reqs s'
     \<and> (\<forall>seed. issued_reqs s' < 2 ^ 64 \<longrightarrow> req_ok seed s \<longrightarrow> req_ok seed s' \<and> (\<forall>n. waiting_ok s n \<longrightarrow> waiting_ok s' n))"

lemma keeps_table_same: "same_table s s' \<Longrightarrow> keeps_table s s'"
  using same_table_ok [of s s'] by (simp add: keeps_table_def same_table_def)

lemma keeps_table_trans:
  assumes "keeps_table s s1" "keeps_table s1 s2"
  shows "keeps_table s s2"
proof -
  have "issued_reqs s1 < 2 ^ 64" if "issued_reqs s2 < 2 ^ 64" using that assms(2) by (simp add: keeps_table_def)
  then show ?thesis using assms unfolding keeps_table_def by (meson le_trans)
qed

text \<open>
  Registering a request and sending it: on an error the request is taken out again.
\<close>

lemma keeps_table_sendAsk:
  assumes step: "sendAsk env from target m d cb s = (s', e)"
    and cb: "\<And>j. cb = AskChan j \<Longrightarrow> j < length (chans s) \<and> chans s ! j = [] \<and> j \<notin> set (chan_ids (requests s))"
  shows "keeps_table s s'" and "chans s' = chans s"
    and "e = None \<Longrightarrow> issued_reqs s' < 2 ^ 64 \<Longrightarrow> req_ok seed s \<Longrightarrow> cb = AskChan j \<Longrightarrow> j \<in> set (chan_ids (requests s'))"
proof -
  define d1 where "d1 = (if d \<le> 0 then defaultActorAskTimeout else d)"
  have d1: "d1 > 0" by (simp add: d1_def defaultActorAskTimeout_def)
  have "(keeps_table s s' \<and> chans s' = chans s)
     \<and> (e = None \<longrightarrow> issued_reqs s' < 2 ^ 64 \<longrightarrow> req_ok seed s \<longrightarrow> (\<forall>j. cb = AskChan j \<longrightarrow> j \<in> set (chan_ids (requests s'))))"
  proof (cases "\<exists>t r q. target = Some t \<and> from \<noteq> None \<and> rm_add (requests s) (nodeID s) (NodeID t) d1 cb = (q, Inr r)")
    case False
    then have "s' = s \<and> e \<noteq> None"
      using step by (auto simp: sendAsk_def Let_def d1_def dest: rm_add_Inl split: option.splits prod.splits sum.splits)
    then show ?thesis by (auto simp: keeps_table_same)
  next
    case True
    then obtain t r q where t: "target = Some t" "from \<noteq> None" and add: "rm_add (requests s) (nodeID s) (NodeID t) d1 cb = (q, Inr r)" by blast
    let ?s0 = "s\<lparr>requests := q, issued_reqs := issued_reqs s + 1\<rparr>"
    obtain s1 e1 where send: "SendEnvelope env target \<lparr>Payload = User m, Sender = from, Meta = \<lparr>meta_Request = Some r\<rparr>\<rparr> ?s0 = (s1, e1)" by fastforce
    from same_table_SendEnvelope [of ?s0 env target "\<lparr>Payload = User m, Sender = from, Meta = \<lparr>meta_Request = Some r\<rparr>\<rparr>"]
    have same: "same_table ?s0 s1" using send by simp
    then have s1: "entries (requests s1) = entries q" "issued_reqs s1 = Suc (issued_reqs s)" "chans s1 = chans s" by (simp_all add: same_table_def)
    have s': "s' = (if e1 = None then s1 else s1\<lparr>requests := fst (rm_remove (requests s1) (ref_RequestID r))\<rparr>)" "e = None \<longleftrightarrow> e1 = None"
      using step t add send by (auto simp: sendAsk_def Let_def d1_def split: option.splits)
    have ok: "req_ok seed s' \<and> (\<forall>n. waiting_ok s n \<longrightarrow> waiting_ok s' n)
        \<and> (e = None \<longrightarrow> (\<forall>j. cb = AskChan j \<longrightarrow> j \<in> set (chan_ids (requests s'))))"
      if "Suc (issued_reqs s) < 2 ^ 64" "req_ok seed s" for seed
    proof -
      note new = table_ok_add [OF that(2,1) add d1 cb]
      have ok1: "req_ok seed s1" using new(1) same_table_ok(1) [OF same, of seed] by simp
      have ids1: "chan_ids (requests s1) = chan_ids q" using s1(1) by (simp add: chan_ids_def)
      show ?thesis
      proof (cases "e1 = None")
        case True
        then show ?thesis using ok1 new(2,3) s' ids1 s1(3) by (auto simp: awaited_def)
      next
        case False
        have "chan_ids (fst (rm_remove (requests s1) (ref_RequestID r))) = chan_ids (fst (rm_remove q (ref_RequestID r)))"
          by (simp add: chan_ids_def entries_remove s1(1))
        then have "set (chan_ids (requests s')) = set (chan_ids (requests s))" using new(4) s' False by simp
        with False s' s1(3) table_ok_remove [OF ok1] show ?thesis by (auto simp: awaited_def)
      qed
    qed
    have "issued_reqs s' = Suc (issued_reqs s)" "chans s' = chans s" using s' s1 by simp_all
    with ok show ?thesis unfolding keeps_table_def by simp
  qed
  then show "keeps_table s s'" "chans s' = chans s"
    "e = None \<Longrightarrow> issued_reqs s' < 2 ^ 64 \<Longrightarrow> req_ok seed s \<Longrightarrow> cb = AskChan j \<Longrightarrow> j \<in> set (chan_ids (requests s'))" by blast+
qed

lemma keeps_table_Ask_send:
  assumes "Ask_send env from target m d s = (s', r)"
  shows "keeps_table s s'"
    and "r = Inr n \<Longrightarrow> issued_reqs s' < 2 ^ 64 \<Longrightarrow> req_ok seed s \<Longrightarrow> waiting_ok s' n"
proof -
  let ?s0 = "s\<lparr>chans := chans s @ [[]]\<rparr>" and ?n = "length (chans s)"
  obtain e where send: "sendAsk env from target m d (AskChan ?n) ?s0 = (s', e)" and r: "r = (case e of None \<Rightarrow> Inr ?n | Some x \<Rightarrow> Inl x)"
    using assms by (auto simp: Ask_send_def split: prod.splits option.splits)
  have fresh: "?n \<notin> set (chan_ids (requests s))" if "req_ok seed s" for seed using that by (auto simp: table_ok_def)
  have chan: "keeps_table s ?s0"
    by (auto simp: keeps_table_def awaited_def nth_append intro: table_ok_chan)
  show "keeps_table s s'"
  proof (cases "\<exists>seed. req_ok seed s")
    case True
    with fresh keeps_table_sendAsk(1) [OF send] chan show ?thesis by (auto simp: nth_append intro: keeps_table_trans)
  next
    case False
    from iss.R_sendAsk [of ?s0 env "from" target m d "AskChan ?n"] send have "issued_reqs s \<le> issued_reqs s'" by simp
    with False show ?thesis by (simp add: keeps_table_def)
  qed
  assume a: "r = Inr n" "issued_reqs s' < 2 ^ 64" "req_ok seed s"
  then have n: "n = ?n" "e = None" using r by (auto split: option.splits)
  have "req_ok seed ?s0" using table_ok_chan [OF a(3)] by simp
  with keeps_table_sendAsk(2,3) [OF send] fresh [OF a(3)] a(2) n show "waiting_ok s' n" by (auto simp: awaited_def)
qed

lemma keeps_table_AskAsync: "keeps_table s (fst (AskAsync env from target m d k s))"
proof -
  have "keeps_table s (fst (sendAsk env from target m d (AskTask c t f) s))" for c t f
    using keeps_table_sendAsk(1) [of env "from" target m d "AskTask c t f" s] by (metis completion.distinct(1) prod.collapse)
  then show ?thesis by (auto simp: AskAsync_def keeps_table_same split: option.splits)
qed

lemma keeps_table_complete: "keeps_table s (fst (complete_request env i v e s))"
proof (cases "rm_complete (requests s) i")
  case (Pair m' r)
  show ?thesis
  proof (cases r)
    case (Inl x)
    then have "m' = requests s" using Pair by (auto simp: rm_complete_def dest: rm_remove_None split: prod.splits option.splits)
    then show ?thesis using Pair Inl by (simp add: complete_request_def keeps_table_same)
  next
    case (Inr cb)
    show ?thesis
    proof (cases cb)
      case (AskChan n)
      note c = Pair [unfolded Inr AskChan]
      show ?thesis
        by (auto simp: complete_request_def c keeps_table_def intro: table_ok_complete_chan [OF _ c])
    next
      case (AskTask k t f)
      note c = Pair [unfolded Inr AskTask]
      have "keeps_table s (s\<lparr>requests := m'\<rparr>)" 
        by (auto simp: keeps_table_def intro: table_ok_complete_task [OF _ c])
      moreover have "same_table (s\<lparr>requests := m'\<rparr>) (fst (doTask env (Some t) (Some f) (AskDone k v e) (s\<lparr>requests := m'\<rparr>)))"
        unfolding doTask_def by (rule same_table_SendEnvelope)
      ultimately show ?thesis using c by (auto simp: complete_request_def intro: keeps_table_trans keeps_table_same)
    qed
  qed
qed

lemma keeps_table_refl [simp]: "keeps_table s s"
  by (simp add: keeps_table_same)

lemma keeps_table_sent: "keeps_table s (fst (SendEnvelope env target e s))"
  by (rule keeps_table_same [OF same_table_SendEnvelope])

lemma keeps_table_Tell: "keeps_table s (fst (Tell env from target m s))"
  by (simp add: Tell_def keeps_table_sent)

lemma keeps_table_upd: "keeps_table s s' \<Longrightarrow> keeps_table s (upd_proc i f s')"
  by (simp add: keeps_table_def)

lemma keeps_table_remote: "keeps_table s (fst (sendRemoteMessage env message s))"
  by (rule keeps_table_same [OF same_table_remote])

lemma keeps_table_respond:
  "keeps_table s (fst (System_respond env from meta m s))" "keeps_table s (fst (System_respondError env from meta e s))"
  by (auto simp: System_respond_def System_respondError_def sendRemoteAskResponse_def sendRemoteRequestError_def
      keeps_table_remote keeps_table_complete split: option.splits sum.splits)

lemma keeps_table_Process_respond: "keeps_table s (fst (Process_respond env i m s))"
  using keeps_table_respond(1) [of s env "pid (procs s ! i)" "Meta (current (procs s ! i))" m]
  by (auto simp: Process_respond_def Let_def mark_responded_def intro: keeps_table_upd split: prod.splits option.splits)

lemma keeps_table_Process_respondError: "keeps_table s (fst (Process_respondError env i e s))"
  using keeps_table_respond(2) [of s env "pid (procs s ! i)" "Meta (current (procs s ! i))" e]
  by (auto simp: Process_respondError_def Let_def mark_responded_def intro: keeps_table_upd split: prod.splits option.splits)

lemma keeps_table_forward: "keeps_table s (fst (Process_forward env i target m s))"
  using keeps_table_sent [of s env target "\<lparr>Payload = User m, Sender = Sender (current (procs s ! i)), Meta = Meta (current (procs s ! i))\<rparr>"]
  by (auto simp: Process_forward_def Let_def mark_responded_def intro: keeps_table_upd split: prod.splits option.splits)

lemma keeps_table_handleAsk: "keeps_table s (handleAsk_return env i v e s)"
  using keeps_table_trans [OF keeps_table_Process_respondError keeps_table_Process_respond, of s]
  by (auto simp: handleAsk_return_def Let_def keeps_table_Process_respond keeps_table_Process_respondError)

lemma keeps_table_OnMessage: "keeps_table s (fst (OnMessage env node data s))"
proof -
  have reject: "keeps_table s (rejectRemoteRequest env message cause s)" for message cause and s :: "('a, 'b, 'c) System"
    by (auto simp: rejectRemoteRequest_def sendRemoteRequestError_def keeps_table_remote split: RemoteBody.splits option.splits)
  have request: "keeps_table s (fst (onRemoteEnvelopeHandler env message common request s))" for message common request
  proof (cases request)
    case (Some req)
    show ?thesis
    proof (cases "UnmarshalWithName (lib env) (rq_MessageName req) (rq_Payload req)")
      case (Inr payload)
      let ?e = "\<lparr>Payload = User (Val payload), Sender = pidFromProto (SourcePid common), Meta = \<lparr>meta_Request = requestRefFromProto (rq_Request req)\<rparr>\<rparr>"
      obtain s1 e where s1: "SendEnvelope env (pidFromProto (TargetPid common)) ?e s = (s1, e)" by fastforce
      then have "keeps_table s s1" using keeps_table_sent [of s env "pidFromProto (TargetPid common)" ?e] by simp
      with s1 Inr Some keeps_table_trans [OF _ reject] show ?thesis by (simp add: onRemoteEnvelopeHandler_def split: option.splits)
    qed (simp add: onRemoteEnvelopeHandler_def Some)
  qed (simp add: onRemoteEnvelopeHandler_def)
  show ?thesis
    by (auto simp: OnMessage_def onRemoteHandler_def onRemoteResponseHandler_def request keeps_table_complete Let_def
        split: sum.splits option.splits RemoteBody.splits RemoteMessageKind.splits)
qed

text \<open>Stopping the table completes every pending request.\<close>

definition cb_chan :: "request_id \<times> 'k completion \<Rightarrow> nat option" where
  "cb_chan x = (case snd x of AskChan n \<Rightarrow> Some n | AskTask _ _ _ \<Rightarrow> None)"

lemma stop_completions:
  fixes s :: "('a, 'k, 'm) System"
  assumes "distinct (List.map_filter cb_chan xs)"
    and "\<forall>n \<in> set (List.map_filter cb_chan xs). n < length (chans s) \<and> chans s ! n = []" and "\<forall>c \<in> set (chans s). length c \<le> 1"
  shows "let s' = fold (\<lambda>(i, cb) s. run_completion env cb v e s) xs s in
    entries (requests s') = entries (requests s) \<and> nextRequestId (requests s') = nextRequestId (requests s) \<and> issued_reqs s' = issued_reqs s
    \<and> length (chans s') = length (chans s) \<and> (\<forall>c \<in> set (chans s'). length c \<le> 1)
    \<and> (\<forall>n < length (chans s). chans s ! n \<noteq> [] \<or> n \<in> set (List.map_filter cb_chan xs) \<longrightarrow> chans s' ! n \<noteq> [])"
  using assms
proof (induction xs arbitrary: s)
  case (Cons x xs)
  obtain i cb where x: "x = (i, cb)" by fastforce
  let ?s1 = "run_completion env cb v e s"
  show ?case
  proof (cases cb)
    case (AskChan n)
    then have ids: "List.map_filter cb_chan (x # xs) = n # List.map_filter cb_chan xs" by (simp add: x cb_chan_def List.map_filter_simps)
    have s1: "?s1 = s\<lparr>chans := (chans s)[n := [(v, e)]]\<rparr>" using AskChan Cons.prems(2) ids by simp
    have "\<forall>c \<in> set (chans ?s1). length c \<le> 1" using Cons.prems(3) unfolding s1 by (auto dest!: set_update_subset_insert [THEN subsetD])
    moreover have "\<forall>n \<in> set (List.map_filter cb_chan xs). n < length (chans ?s1) \<and> chans ?s1 ! n = []"
      using Cons.prems(1,2) unfolding ids s1 by (auto simp: nth_list_update)
    moreover have "distinct (List.map_filter cb_chan xs)" using Cons.prems(1) unfolding ids by simp
    ultimately show ?thesis
      using Cons.IH [of ?s1] Cons.prems(2) unfolding ids by (auto simp: Let_def x s1 nth_list_update)
  next
    case (AskTask k t f)
    then have ids: "List.map_filter cb_chan (x # xs) = List.map_filter cb_chan xs" by (simp add: x cb_chan_def List.map_filter_simps)
    have "same_table s ?s1" unfolding AskTask run_completion.simps doTask_def by (rule same_table_SendEnvelope)
    then obtain s1 where s1: "?s1 = s1" "entries (requests s1) = entries (requests s)" "nextRequestId (requests s1) = nextRequestId (requests s)"
      "issued_reqs s1 = issued_reqs s" "chans s1 = chans s" by (simp add: same_table_def)
    have step: "fold (\<lambda>(i, cb) s. run_completion env cb v e s) (x # xs) s = fold (\<lambda>(i, cb) s. run_completion env cb v e s) xs s1"
      by (simp only: x fold_simps comp_def prod.case s1(1))
    show ?thesis using Cons.IH [of s1] Cons.prems unfolding ids step s1(2-5) by blast
  qed
qed simp

lemma keeps_table_requests_stop:
  fixes s :: "('a, 'k, 'm) System"
  assumes iter: "mset (iter (pending (requests s))) = mset (pending (requests s))"
  shows "keeps_table s (requests_stop env iter s)"
proof (cases "rm_closed (requests s)")
  case True
  then show ?thesis by (simp add: requests_stop_def rm_stop_def)
next
  case False
  let ?m = "(requests s)\<lparr>rm_closed := True, pending := []\<rparr>"
  let ?xs = "map (\<lambda>(i, p). (i, complete_cb p)) (iter (pending (requests s)))"
  let ?s' = "requests_stop env iter s"
  have s': "?s' = fold (\<lambda>(i, cb) s. run_completion env cb NilV (Some ErrRequestManagerClosed) s) ?xs (s\<lparr>requests := ?m\<rparr>)"
    using False by (simp add: requests_stop_def rm_stop_def)
  have same: "List.map_filter cb_chan (map (\<lambda>(i, p). (i, complete_cb p)) ps) = List.map_filter chan_of (map (\<lambda>(i, p). (i, complete_cb p, req_timer p)) ps)"
    for ps :: "(request_id \<times> 'k completion pendingRequest) list"
    by (induction ps) (auto simp: cb_chan_def chan_of_def List.map_filter_simps split: completion.splits option.splits)
  have perm: "mset (List.map_filter f (map g xs)) = mset (List.map_filter f (map g ys))" if "mset xs = mset ys"
    for f :: "'k req_entry \<Rightarrow> nat option" and g and xs ys :: "(request_id \<times> 'k completion pendingRequest) list"
    using that by (simp add: List.map_filter_def filter_map)
  have ids: "mset (List.map_filter cb_chan ?xs) = mset (chan_ids (requests s))"
    unfolding same chan_ids_def entries_def by (rule perm [OF iter])
  have issued: "issued_reqs ?s' = issued_reqs s" and rest: "req_ok seed ?s' \<and> (\<forall>n. waiting_ok s n \<longrightarrow> waiting_ok ?s' n)"
    if ok: "req_ok seed s" for seed
  proof -
    have dist: "distinct (List.map_filter cb_chan ?xs)" using ok mset_eq_imp_distinct_iff [OF ids] by (simp add: table_ok_def)
    have set: "set (List.map_filter cb_chan ?xs) = set (chan_ids (requests s))" using mset_eq_setD [OF ids] .
    have empty: "\<forall>n \<in> set (List.map_filter cb_chan ?xs). n < length (chans (s\<lparr>requests := ?m\<rparr>)) \<and> chans (s\<lparr>requests := ?m\<rparr>) ! n = []"
      unfolding set using ok by (simp add: table_ok_def)
    have one: "\<forall>c \<in> set (chans (s\<lparr>requests := ?m\<rparr>)). length c \<le> 1" using ok by (simp add: table_ok_def)
    define s1 where "s1 = ?s'"
    note all = stop_completions [OF dist empty one, of env NilV "Some ErrRequestManagerClosed", folded s' s1_def, unfolded Let_def set]
    have e: "entries (requests s1) = []" using all by (simp add: entries_def)
    have n: "nextRequestId (requests s1) = nextRequestId (requests s)" "issued_reqs s1 = issued_reqs s" "length (chans s1) = length (chans s)"
      "\<forall>c \<in> set (chans s1). length c \<le> 1"
      "\<forall>n < length (chans s). chans s ! n \<noteq> [] \<or> n \<in> set (chan_ids (requests s)) \<longrightarrow> chans s1 ! n \<noteq> []"
      using all by simp_all
    have "req_ok seed s1" using ok e n(1,2,4) by (simp add: table_ok_def chan_ids_def List.map_filter_simps)
    moreover have "waiting_ok s1 n" if "waiting_ok s n" for n using that n(3,5) by (auto simp: awaited_def)
    ultimately show "issued_reqs ?s' = issued_reqs s" "req_ok seed ?s' \<and> (\<forall>n. waiting_ok s n \<longrightarrow> waiting_ok ?s' n)"
      using n(2) unfolding s1_def by blast+
  qed
  from iss.R_requests_stop [of s env iter] rest show ?thesis by (simp add: keeps_table_def)
qed

subsection \<open>Goroutines that wait\<close>

text \<open>Programs of the application: \<open>Wait\<close> is a point inside \<^verbatim>\<open>Ask\<close>, not a call.\<close>

primrec user_prog :: "('a, 'k, 'm) prog \<Rightarrow> bool" where
  "user_prog (Ret a v e) = True"
| "user_prog (Panic a v) = True"
| "user_prog (Read f) = (\<forall>x. user_prog (f x))"
| "user_prog (CtxTell t m f) = (\<forall>x. user_prog (f x))"
| "user_prog (CtxForward t m f) = (\<forall>x. user_prog (f x))"
| "user_prog (CtxAsk t m f) = (\<forall>x y. user_prog (f x y))"
| "user_prog (Wait n f) = False"
| "user_prog (CtxAskAsync t m k f) = (\<forall>x. user_prog (f x))"
| "user_prog (CtxRespond m f) = (\<forall>x. user_prog (f x))"
| "user_prog (CtxRespondError e f) = (\<forall>x. user_prog (f x))"
| "user_prog (CtxTicker k f) = (\<forall>x. user_prog (f x))"
| "user_prog (CtxAfterFunc k f) = (\<forall>x. user_prog (f x))"
| "user_prog (CtxStopTimer t q) = user_prog q"
| "user_prog (CtxSetAskTimeout d q) = user_prog q"
| "user_prog (CtxStop q) = user_prog q"
| "user_prog (CtxForceStop a f) = (\<forall>x. user_prog (f x))"
| "user_prog (CtxStopProcess p t q) = user_prog q"
| "user_prog (CtxSpawn h p f) = (\<forall>x y. user_prog (f x y))"

definition user_behavior :: "('a, 'k, 'm) behavior \<Rightarrow> bool" where
  "user_behavior b \<longleftrightarrow> (\<forall>a. user_prog (actor_Init b a) \<and> user_prog (Destroy b a)) \<and> (\<forall>v a. user_prog (HandleTell b v a) \<and> user_prog (HandleAsk b v a)
     \<and> user_prog (OnPanic b v a)) \<and> (\<forall>k a. user_prog (RunTask b k a)) \<and> (\<forall>k v e a. user_prog (RunCompletion b k v e a))"

definition frame_ok :: "('a, 'k, 'm) System \<Rightarrow> ('a, 'k, 'm) prog \<Rightarrow> bool" where
  "frame_ok s q \<longleftrightarrow> user_prog q \<or> (\<exists>n f. q = Wait n f \<and> (\<forall>v e. user_prog (f v e)) \<and> waiting_ok s n)"

definition frames_ok :: "('a, 'k, 'm) System \<Rightarrow> bool" where
  "frames_ok s \<longleftrightarrow> (\<forall>p \<in> set (procs s). \<forall>q \<in> snd ` set (stack p). frame_ok s q)"

text \<open>Operations that leave the stacks alone and keep the table.\<close>

definition same_stacks :: "('a, 'k, 'm) System \<Rightarrow> ('a, 'k, 'm) System \<Rightarrow> bool" where
  "same_stacks s s' \<longleftrightarrow> set (map stack (procs s')) \<subseteq> insert [] (set (map stack (procs s)))"

definition ask_inv :: "request_id \<Rightarrow> ('a, 'k, 'm) System \<Rightarrow> bool" where
  "ask_inv seed s \<longleftrightarrow> (issued_reqs s < 2 ^ 64 \<longrightarrow> req_ok seed s \<and> frames_ok s)"

lemma same_stacks_refl [simp]: "same_stacks s s"
  by (auto simp: same_stacks_def)

lemma same_stacks_delivers: "delivers s s' \<Longrightarrow> same_stacks s s'"
proof -
  assume d: "delivers s s'"
  have "map stack (procs s') = map stack (procs s)"
    by (intro nth_equalityI) (auto simp: delivers_length [OF d] proc_delivers_keeps(2) [OF delivers_nth [OF d]])
  then show ?thesis by (simp add: same_stacks_def del: set_map) blast
qed

lemma frames_ok_same:
  assumes "frames_ok s" "same_stacks s s'" "\<And>n. waiting_ok s n \<Longrightarrow> waiting_ok s' n"
  shows "frames_ok s'"
  unfolding frames_ok_def
proof (intro ballI)
  fix p q assume p: "p \<in> set (procs s')" and q: "q \<in> snd ` set (stack p)"
  have "stack p \<in> set (map stack (procs s'))" using p by simp
  then have "stack p \<in> insert [] (set (map stack (procs s)))" using assms(2) by (auto simp: same_stacks_def)
  with q obtain p' where "p' \<in> set (procs s)" "stack p' = stack p" by auto
  with assms(1) q have "frame_ok s q" unfolding frames_ok_def by metis
  with assms(3) show "frame_ok s' q" unfolding frame_ok_def by blast
qed

lemma ask_inv_same:
  assumes inv: "ask_inv seed s" and t: "keeps_table s s'" and st: "same_stacks s s'"
  shows "ask_inv seed s'"
  unfolding ask_inv_def
proof
  assume "issued_reqs s' < 2 ^ 64"
  with t have "issued_reqs s < 2 ^ 64" by (simp add: keeps_table_def)
  with inv have "req_ok seed s" "frames_ok s" by (auto simp: ask_inv_def)
  with t \<open>issued_reqs s' < 2 ^ 64\<close> have "req_ok seed s'" "\<And>n. waiting_ok s n \<Longrightarrow> waiting_ok s' n" by (auto simp: keeps_table_def)
  with frames_ok_same [OF \<open>frames_ok s\<close> st] show "req_ok seed s' \<and> frames_ok s'" by blast
qed

lemma ask_inv_sent: "ask_inv seed s \<Longrightarrow> keeps_table s s' \<Longrightarrow> delivers s s' \<Longrightarrow> ask_inv seed s'"
  by (blast intro: ask_inv_same same_stacks_delivers)

text \<open>A change of the stack of one process.\<close>

lemma ask_inv_upd:
  assumes inv: "ask_inv seed s" and i: "i < length (procs s)"
    and q: "\<And>q. issued_reqs s < 2 ^ 64 \<Longrightarrow> req_ok seed s \<Longrightarrow> frames_ok s \<Longrightarrow> q \<in> snd ` set (stack (f (procs s ! i))) \<Longrightarrow> frame_ok s q"
  shows "ask_inv seed (upd_proc i f s)"
  unfolding ask_inv_def
proof
  assume "issued_reqs (upd_proc i f s) < 2 ^ 64"
  then have *: "issued_reqs s < 2 ^ 64" "req_ok seed s" "frames_ok s" using inv by (auto simp: ask_inv_def)
  have fr: "frame_ok (upd_proc i f s) q = frame_ok s q" for q by (simp add: frame_ok_def)
  have "frames_ok (upd_proc i f s)"
    unfolding frames_ok_def fr
  proof (intro ballI)
    fix p r assume p: "p \<in> set (procs (upd_proc i f s))" and r: "r \<in> snd ` set (stack p)"
    from p have "p \<in> set (procs s) \<or> p = f (procs s ! i)"
      using set_update_subset_insert [of "procs s" i "f (procs s ! i)"] by (auto simp: procs_upd_proc)
    then show "frame_ok s r" using *(3) r q [OF *] unfolding frames_ok_def by blast
  qed
  with *(2) show "req_ok seed (upd_proc i f s) \<and> frames_ok (upd_proc i f s)" by simp
qed

lemma frame_user [simp]: "user_prog q \<Longrightarrow> frame_ok s q"
  by (simp add: frame_ok_def)

lemma frames_below: "frames_ok s \<Longrightarrow> i < length (procs s) \<Longrightarrow> q \<in> snd ` set (stack (procs s ! i)) \<Longrightarrow> frame_ok s q"
  unfolding frames_ok_def by (meson nth_mem)

lemma frames_below_pair: "frames_ok s \<Longrightarrow> i < length (procs s) \<Longrightarrow> (k, q) \<in> set (stack (procs s ! i)) \<Longrightarrow> frame_ok s q"
  by (erule (1) frames_below) (metis image_eqI snd_conv)

lemma ask_inv_top:
  assumes inv: "ask_inv seed s" and i: "i < length (procs s)" and q: "issued_reqs s < 2 ^ 64 \<Longrightarrow> req_ok seed s \<Longrightarrow> frame_ok s q"
  shows "ask_inv seed (set_top i q s)"
  unfolding set_top_def
proof (rule ask_inv_upd [OF inv i])
  fix r assume a: "issued_reqs s < 2 ^ 64" "req_ok seed s" "frames_ok s"
    and r: "r \<in> snd ` set (stack ((procs s ! i)\<lparr>stack := (case stack (procs s ! i) of [] \<Rightarrow> [] | (k, _) # rest \<Rightarrow> (k, q) # rest)\<rparr>))"
  from r have "r = q \<or> r \<in> snd ` set (stack (procs s ! i))" by (cases "stack (procs s ! i)") auto
  with a q frames_below [OF a(3) i] show "frame_ok s r" by blast
qed

lemma ask_inv_local: "ask_inv seed s \<Longrightarrow> i < length (procs s) \<Longrightarrow> stack (f (procs s ! i)) = stack (procs s ! i) \<Longrightarrow> ask_inv seed (upd_proc i f s)"
  by (erule ask_inv_upd) (auto intro: frames_below)

lemma keeps_table_Stop [simp]: "keeps_table s (Process_Stop from i s)"
  by (simp add: Process_Stop_def keeps_table_upd)

lemma ask_inv_Stop: "ask_inv seed s \<Longrightarrow> ask_inv seed (Process_Stop from i s)"
  by (cases "i < length (procs s)") (auto simp: Process_Stop_def upd_proc_beyond enqueue_def intro!: ask_inv_local)

lemma ask_inv_StopProcess: "ask_inv seed s \<Longrightarrow> ask_inv seed (StopProcess from target s)"
  by (auto simp: StopProcess_def ask_inv_Stop split: sum.splits)

lemma length_StopProcess: "length (procs (StopProcess from target s)) = length (procs s)"
  by (simp add: StopProcess_def split: sum.splits)

lemma ask_inv_remove: "ask_inv seed s \<Longrightarrow> ask_inv seed (manager_remove p s)"
  by (auto simp: ask_inv_def frames_ok_def frame_ok_def)

lemma ask_inv_frame_defer: "ask_inv seed s \<Longrightarrow> i < length (procs s) \<Longrightarrow> ask_inv seed (frame_defer i k s)"
  by (auto simp: frame_defer_def ask_inv_remove stopTimer_def intro!: ask_inv_local split: fkind.splits)

lemma ask_inv_Spawn:
  assumes "ask_inv seed s" and spawn: "SpawnActor h options clock s = Some (s', p, e)"
  shows "ask_inv seed s'" and "i < length (procs s) \<Longrightarrow> i < length (procs s')"
proof -
  have "same_table s s'" "same_stacks s s'"
    using spawn by (auto simp: SpawnActor_def Let_def same_table_def same_stacks_def newActorProcess_def enqueue_def split: if_splits option.splits)
  then show "ask_inv seed s'" by (blast intro: ask_inv_same [OF assms(1)] keeps_table_same)
  show "i < length (procs s) \<Longrightarrow> i < length (procs s')"
    using spawn by (auto simp: SpawnActor_def Let_def split: if_splits option.splits)
qed

text \<open>The ends of frames.\<close>

lemma resume_below_user:
  "(\<And>q. q \<in> snd ` set rest \<Longrightarrow> frame_ok s q) \<Longrightarrow> r \<in> snd ` set (resume_below a rest) \<Longrightarrow> frame_ok s r"
proof (cases "\<exists>k b c rest'. rest = (k, CtxForceStop b c) # rest'")
  case True
  then obtain k b c rest' where rest: "rest = (k, CtxForceStop b c) # rest'" by blast
  assume all: "\<And>q. q \<in> snd ` set rest \<Longrightarrow> frame_ok s q" and r: "r \<in> snd ` set (resume_below a rest)"
  have "frame_ok s (CtxForceStop b c)" by (rule all) (simp add: rest)
  then have "user_prog (c a)" by (simp add: frame_ok_def)
  with r all show ?thesis by (auto simp: resume_below_def rest)
next
  case False
  assume "\<And>q. q \<in> snd ` set rest \<Longrightarrow> frame_ok s q" "r \<in> snd ` set (resume_below a rest)"
  moreover have "resume_below a rest = rest" using False by (auto simp: resume_below_def split: list.splits prog.splits)
  ultimately show ?thesis by simp
qed

lemma ask_inv_frame_return:
  assumes inv: "ask_inv seed s" and i: "i < length (procs s)"
  shows "ask_inv seed (frame_return env i k a v e s)"
proof -
  define s1 where "s1 = upd_proc i (\<lambda>p. p\<lparr>actor := a\<rparr>) s"
  define s2 where "s2 = (if k = FAsk then handleAsk_return env i v e s1 else frame_defer i k s1)"
  have s1: "ask_inv seed s1" "i < length (procs s1)" using inv i by (auto simp: s1_def intro: ask_inv_local)
  have s2: "ask_inv seed s2" "i < length (procs s2)"
    using ask_inv_sent [OF s1(1) keeps_table_handleAsk dlv.R_handleAsk_return] ask_inv_frame_defer [OF s1] s1(2)
    by (auto simp: s2_def frame_defer_keeps delivers_length [OF dlv.R_handleAsk_return])
  have "ask_inv seed (upd_proc i (\<lambda>p. p\<lparr>stack := (if k = FForce then resume_below a (tl (stack p)) else tl (stack p)),
                           closed := (closed p \<or> k = FDestroy \<or> k = FForce)\<rparr>) s2)"
  proof (rule ask_inv_upd [OF s2])
    fix q assume fr: "frames_ok s2"
      and q: "q \<in> snd ` set (stack ((procs s2 ! i)\<lparr>stack := (if k = FForce then resume_below a (tl (stack (procs s2 ! i))) else tl (stack (procs s2 ! i))),
          closed := (closed (procs s2 ! i) \<or> k = FDestroy \<or> k = FForce)\<rparr>))"
    have tl: "r \<in> snd ` set (tl (stack (procs s2 ! i))) \<Longrightarrow> frame_ok s2 r" for r
      using frames_below [OF fr s2(2)] by (cases "stack (procs s2 ! i)") auto
    show "frame_ok s2 q" using q tl resume_below_user [OF tl] by (auto split: if_splits)
  qed
  then show ?thesis unfolding frame_return_def Let_def s1_def [symmetric] s2_def [symmetric] .
qed

lemma unwind_ask:
  "ask_inv seed s \<Longrightarrow> i < length (procs s) \<Longrightarrow> unwind i ks s = (s', r) \<Longrightarrow> ask_inv seed s' \<and> length (procs s') = length (procs s)"
  by (induction i ks s rule: unwind.induct) (auto simp: frame_defer_keeps ask_inv_frame_defer split: if_splits)

lemma ask_inv_frame_panic:
  assumes b: "user_behavior b" and inv: "ask_inv seed s" and i: "i < length (procs s)"
  shows "ask_inv seed (frame_panic b i a v s)"
proof -
  obtain s1 r where u: "unwind i (stack (procs s ! i)) (upd_proc i (\<lambda>p. p\<lparr>actor := a\<rparr>) s) = (s1, r)" by fastforce
  have "ask_inv seed (upd_proc i (\<lambda>p. p\<lparr>actor := a\<rparr>) s)" using inv i by (auto intro: ask_inv_local)
  with unwind_ask [OF this _ u] i have s1: "ask_inv seed s1" "i < length (procs s1)" by auto
  have "user_prog (OnPanic b v a)" using b by (simp add: user_behavior_def)
  then have "ask_inv seed (upd_proc i (\<lambda>p. p\<lparr>stack := (if r then [(FPanic, OnPanic b v a)] else [])\<rparr>) s1)"
    by (intro ask_inv_upd [OF s1]) (auto split: if_splits)
  then show ?thesis using u by (simp add: frame_panic_def)
qed

lemma message_frame_user: "user_behavior b \<Longrightarrow> user_prog (snd (message_frame b e a))"
  by (auto simp: user_behavior_def split: payload.splits any.splits task.splits option.splits)

lemma ask_inv_begin:
  assumes b: "user_behavior b" and inv: "ask_inv seed s" and i: "i < length (procs s)" and step: "begin_message b i s = Some s'"
  shows "ask_inv seed s'"
proof -
  from step obtain e where e: "s' = upd_proc i (begin_proc b e) s" by (auto simp: begin_message_def split: list.splits)
  have "stack (begin_proc b e (procs s ! i)) = [message_frame b e (actor (procs s ! i))]"
    by (simp add: begin_proc_def Let_def clearTimers_def del: message_frame.simps)
  with message_frame_user [OF b, of e "actor (procs s ! i)"] show ?thesis
    unfolding e by (intro ask_inv_upd [OF inv i]) (simp del: message_frame.simps)
qed

text \<open>A call that sends: the continuation replaces the call.\<close>

lemma ask_inv_sent_top:
  assumes inv: "ask_inv seed s" and i: "i < length (procs s)" and t: "keeps_table s s'" and d: "delivers s s'" and q: "user_prog q"
  shows "ask_inv seed (set_top i q s')"
  using ask_inv_top [OF ask_inv_sent [OF inv t d]] delivers_length [OF d] i q by simp

lemma issued_top [simp]: "issued_reqs (set_top i q s) = issued_reqs s"
  by (simp add: set_top_def)

lemma issued_frame_defer [simp]: "issued_reqs (frame_defer i k s) = issued_reqs s"
  by (simp add: frame_defer_def split: fkind.splits)

lemma issued_unwind: "unwind i ks s = (s', r) \<Longrightarrow> issued_reqs s' = issued_reqs s"
  by (induction i ks s rule: unwind.induct) (auto split: if_splits)

lemma issued_call_step:
  assumes "call_step env b clock i q s = Some s'"
  shows "issued_reqs s \<le> issued_reqs s'"
proof (cases q)
  case (Ret a v e)
  then show ?thesis
    using assms iss.R_handleAsk_return [of "upd_proc i (\<lambda>p. p\<lparr>actor := a\<rparr>) s" env i v e] by (auto simp: frame_return_def Let_def)
next
  case (Panic a v)
  then show ?thesis using assms by (auto simp: frame_panic_def dest!: issued_unwind split: prod.splits)
next
  case (CtxTell target m f)
  then show ?thesis using assms iss.R_Tell [of s env "Some (pid (procs s ! i))" target m] by (auto split: prod.splits)
next
  case (CtxForward target m f)
  then show ?thesis using assms iss.R_Process_forward [of s env i target m] by (auto split: prod.splits)
next
  case (CtxAsk target m f)
  then show ?thesis
    using assms iss.R_Ask_send [of s env "Some (pid (procs s ! i))" target m "askTimeout (procs s ! i)"] by (auto split: prod.splits sum.splits)
next
  case (CtxAskAsync target m c f)
  then show ?thesis
    using assms iss.R_AskAsync [of s env "Some (pid (procs s ! i))" target m "askTimeout (procs s ! i)" c] by (auto split: prod.splits)
next
  case (CtxRespond m f)
  then show ?thesis using assms iss.R_Process_respond [of s env i m] by (auto split: prod.splits)
next
  case (CtxRespondError x f)
  then show ?thesis using assms iss.R_Process_respondError [of s env i x] by (auto split: prod.splits)
next
  case (CtxSpawn h options f)
  then show ?thesis using assms by (auto simp: SpawnActor_def Let_def split: option.splits if_splits)
qed (use assms in \<open>auto simp: Process_ticker_def Process_after_def Process_Stop_def StopProcess_def force_stop_def split: option.splits sum.splits\<close>)

lemma ask_inv_call_step:
  assumes b: "user_behavior b" and inv: "ask_inv seed s" and i: "i < length (procs s)" and top: "stack (procs s ! i) = (k, q) # rest"
    and step: "call_step env b clock i q s = Some s'"
  shows "ask_inv seed s'"
proof (cases "issued_reqs s < 2 ^ 64")
  case False
  then show ?thesis using issued_call_step [OF step] by (simp add: ask_inv_def)
next
  case True
  then have ok: "req_ok seed s" "frames_ok s" using inv by (auto simp: ask_inv_def)
  have fr: "frame_ok s q" using frames_below [OF ok(2) i] top by simp
  note sent = ask_inv_sent_top [OF inv i]
  show ?thesis
  proof (cases q)
    case (Ret a v e)
    then show ?thesis using ask_inv_frame_return [OF inv i] step by auto
  next
    case (Panic a v)
    then show ?thesis using ask_inv_frame_panic [OF b inv i] step by auto
  next
    case (Wait n f)
    then show ?thesis using step fr by (auto simp: frame_ok_def intro!: ask_inv_top [OF inv i] split: option.splits)
  next
    case (CtxForceStop a f)
    have "user_prog (Destroy b a)" using b by (simp add: user_behavior_def)
    then show ?thesis
      using step CtxForceStop
      by (auto simp: force_stop_def clearTimers_def intro!: ask_inv_upd [OF inv i] intro: frames_below_pair [OF _ i])
  next
    case (CtxSpawn h options f)
    then show ?thesis using step fr ask_inv_Spawn [OF inv] i by (auto simp: frame_ok_def intro!: ask_inv_top split: option.splits)
  next
    case (CtxTell target m f)
    then show ?thesis
      using step fr sent [OF keeps_table_Tell dlv.R_Tell] by (auto simp: frame_ok_def split: prod.splits) (metis fst_conv)
  next
    case (CtxForward target m f)
    then show ?thesis
      using step fr sent [OF keeps_table_forward dlv.R_Process_forward] by (auto simp: frame_ok_def split: prod.splits) (metis fst_conv)
  next
    case (CtxAsk target m f)
    obtain s1 r where send: "Ask_send env (Some (pid (procs s ! i))) target m (askTimeout (procs s ! i)) s = (s1, r)" by fastforce
    have d: "delivers s s1" using dlv.R_Ask_send [of s env "Some (pid (procs s ! i))" target m "askTimeout (procs s ! i)"] send by simp
    note t = keeps_table_Ask_send [OF send]
    have u: "user_prog (f v e)" for v e using fr CtxAsk by (simp add: frame_ok_def)
    show ?thesis
    proof (cases r)
      case (Inl e)
      then show ?thesis using step CtxAsk send sent [OF t(1) d u] by auto
    next
      case (Inr n)
      have "ask_inv seed (set_top i (Wait n f) s1)"
        using t(2) [OF Inr _ ok(1)] u ask_inv_sent [OF inv t(1) d] delivers_length [OF d] i by (intro ask_inv_top) (auto simp: frame_ok_def)
      then show ?thesis using step CtxAsk send Inr by auto
    qed
  next
    case (CtxAskAsync target m c f)
    then show ?thesis
      using step fr sent [OF keeps_table_AskAsync dlv.R_AskAsync] by (auto simp: frame_ok_def split: prod.splits) (metis fst_conv)
  next
    case (CtxRespond m f)
    then show ?thesis
      using step fr sent [OF keeps_table_Process_respond dlv.R_Process_respond] by (auto simp: frame_ok_def split: prod.splits) (metis fst_conv)
  next
    case (CtxRespondError x f)
    then show ?thesis
      using step fr sent [OF keeps_table_Process_respondError dlv.R_Process_respondError] by (auto simp: frame_ok_def split: prod.splits) (metis fst_conv)
  qed (use step fr i in \<open>auto simp: frame_ok_def Process_ticker_def Process_after_def add_timer_def stopTimer_def
     length_StopProcess inv intro!: ask_inv_top ask_inv_local [OF inv] ask_inv_Stop [OF inv] ask_inv_StopProcess [OF inv]\<close>)
qed

subsection \<open>Every step keeps the invariant\<close>

lemma ask_inv_fire_timer:
  assumes "ask_inv seed s" "i < length (procs s)"
  shows "ask_inv seed (fire_timer t i s)"
proof -
  have push: "ask_inv seed s \<Longrightarrow> i < length (procs s) \<Longrightarrow> ask_inv seed (fst (Process_PushSystem e i s))" for e and s :: "('a, 'b, 'c) System"
    by (auto simp: Process_PushSystem_def enqueue_def intro: ask_inv_local)
  show ?thesis using assms
    by (auto simp: fire_timer_def intro!: push ask_inv_local split: option.splits timer.splits bool.splits)
qed

lemma ask_inv_flags: "ask_inv seed (s\<lparr>stopping := x\<rparr>) = ask_inv seed s" "ask_inv seed (s\<lparr>sys_lifecycle := c\<rparr>) = ask_inv seed s"
  by (simp_all add: ask_inv_def frames_ok_def frame_ok_def)

lemma ask_inv_System_Stop:
  assumes inv: "ask_inv seed s" and iter: "mset (iter (pending (requests s))) = mset (pending (requests s))"
  shows "ask_inv seed (fst (System_Stop env iter s))"
proof -
  let ?s0 = "s\<lparr>stopping := True\<rparr>"
  have "ask_inv seed (requests_stop env iter ?s0)"
    using ask_inv_sent [OF _ keeps_table_requests_stop dlv.R_requests_stop, of seed ?s0 iter env] inv iter by (simp add: ask_inv_flags)
  moreover have "ask_inv seed s \<Longrightarrow> ask_inv seed (fold (\<lambda>(_, i) s. Process_Stop x i s) xs s)" for xs :: "(64 word \<times> nat) list" and x s
    by (induction xs arbitrary: s) (auto simp: ask_inv_Stop)
  ultimately have "ask_inv seed (manager_stop (requests_stop env iter ?s0))" by (simp add: manager_stop_def)
  with inv show ?thesis by (auto simp: System_Stop_def controller_defs ask_inv_flags split: prod.splits)
qed

lemma ask_inv_event:
  assumes b: "user_behavior b" and inv: "ask_inv seed s" and ev: "event_ok ev s" and step: "do_event env b ev s = Some s'"
  shows "ask_inv seed s'"
proof (cases ev)
  case (EProc i clock)
  then have i: "i < length (procs s)" and st: "proc_step env b clock i s = Some s'" using step by (auto split: if_splits)
  show ?thesis
  proof (cases "stack (procs s ! i)")
    case Nil
    then show ?thesis using st ask_inv_begin [OF b inv i] by (simp add: proc_step_def)
  next
    case (Cons fr rest)
    obtain k q where "fr = (k, q)" by fastforce
    with Cons st ask_inv_call_step [OF b inv i] show ?thesis by (simp add: proc_step_def)
  qed
next
  case (ETimer i t)
  then show ?thesis using step ask_inv_fire_timer [OF inv] by (auto split: if_splits)
next
  case (ERequestTimeout i)
  then show ?thesis using step ask_inv_sent [OF inv keeps_table_complete dlv.R_complete_request]
    by (auto simp: request_timeout_def split: option.splits if_splits)
next
  case (ETell f t m)
  then show ?thesis using step ask_inv_sent [OF inv keeps_table_sent dlv.R_SendEnvelope] by (auto simp: Tell_def)
next
  case (EAsk f t m d)
  then show ?thesis using step ask_inv_sent [OF inv keeps_table_Ask_send(1) [OF prod.collapse [symmetric]] dlv.R_Ask_send] by auto
next
  case (EAskAsync f t m d k)
  then show ?thesis using step ask_inv_sent [OF inv keeps_table_AskAsync dlv.R_AskAsync] by auto
next
  case (ESpawn h options clock)
  then show ?thesis using step ask_inv_Spawn(1) [OF inv] by auto
next
  case (EStopProcess f t)
  then show ?thesis using step ask_inv_StopProcess [OF inv] by auto
next
  case (EOnMessage node data)
  then show ?thesis using step ask_inv_sent [OF inv keeps_table_OnMessage dlv.R_OnMessage] by auto
next
  case ELifecycleInit
  then show ?thesis using step inv by (auto simp: ask_inv_flags split: prod.splits)
next
  case (EStop iter)
  then show ?thesis using step ask_inv_System_Stop [OF inv] ev by auto
qed

lemma ask_inv_new: "ask_inv seed (NewSystemWithOptions node sender gen seed)"
  by (simp add: ask_inv_def NewSystemWithOptions_def table_ok_def newRequestManager_def entries_def chan_ids_def issued_def
      frames_ok_def List.map_filter_simps)

lemma sys_reachable_ask:
  "sys_reachable env b s0 s \<Longrightarrow> user_behavior b \<Longrightarrow> s0 = NewSystemWithOptions node sender gen seed \<Longrightarrow> ask_inv seed s"
  by (induction rule: sys_reachable.induct) (auto intro: ask_inv_new ask_inv_event)

subsection \<open>Properties of asks\<close>

text \<open>
  C14: At most one answer: however responses, errors, forwards, timeouts, remote answers and the
  stop of the system race, the channel of an \<^verbatim>\<open>Ask\<close> never receives a second value (so that no sender
  blocks on it), and it is empty as long as its request is pending.
\<close>

theorem ask_answered_once:
  assumes "user_behavior b" and "sys_reachable env b (NewSystemWithOptions node sender gen seed) s" and "issued_reqs s < 2 ^ 64"
  shows "(\<forall>c \<in> set (chans s). length c \<le> 1)
    \<and> (\<forall>(i, r) \<in> set (pending (requests s)). \<forall>n. complete_cb r = AskChan n \<longrightarrow> n < length (chans s) \<and> chans s ! n = [])"
proof -
  have ok: "req_ok seed s" using sys_reachable_ask [OF assms(2,1) refl] assms(3) by (simp add: ask_inv_def)
  have "n \<in> set (chan_ids (requests s))" if "(i, r) \<in> set (pending (requests s))" "complete_cb r = AskChan n" for i r n
    unfolding chan_ids_def in_map_filter entries_def using that
    by (intro bexI [of _ "(i, complete_cb r, req_timer r)"]) (force simp: chan_of_def)+
  with ok show ?thesis by (fastforce simp: table_ok_def)
qed

text \<open>
  C15: No goroutine waits for an answer in vain: an actor that is blocked in \<^verbatim>\<open>Ask\<close> can go on at once,
  or its request is still pending and has a timer, whose expiry will wake it.
\<close>

theorem ask_never_stuck:
  assumes "user_behavior b" and "sys_reachable env b (NewSystemWithOptions node sender gen seed) s" and "issued_reqs s < 2 ^ 64"
    and p: "i < length (procs s)" "stack (procs s ! i) = (k, Wait n f) # rest"
  shows "(\<exists>s'. proc_step env b [] i s = Some s')
    \<or> (\<exists>r q. map_of (pending (requests s)) r = Some q \<and> complete_cb q = AskChan n \<and> req_timer q \<noteq> None
          \<and> (\<exists>s1 s2. do_event env b (ERequestTimeout r) s = Some s1 \<and> proc_step env b [] i s1 = Some s2))"
proof -
  have ok: "req_ok seed s" "frames_ok s" using sys_reachable_ask [OF assms(2,1) refl] assms(3) by (auto simp: ask_inv_def)
  have w: "waiting_ok s n" using frames_below [OF ok(2) p(1), of "Wait n f"] p(2) by (auto simp: frame_ok_def)
  show ?thesis
  proof (cases "chans s ! n")
    case (Cons r rs)
    then show ?thesis using p by (cases r) (simp add: proc_step_def Ask_receive_def)
  next
    case Nil
    with w have n: "n < length (chans s)" "n \<in> set (chan_ids (requests s))" by (auto simp: awaited_def)
    then obtain j q where j: "(j, q) \<in> set (pending (requests s))" "complete_cb q = AskChan n"
      by (auto simp: chan_ids_def in_map_filter entries_def chan_of_def split: completion.splits) (metis completion.exhaust)
    have dist: "distinct (map fst (pending (requests s)))" using ok(1) by (simp add: table_ok_def map_fst_entries)
    then have mp: "map_of (pending (requests s)) j = Some q" using j(1) by simp
    have timer: "req_timer q \<noteq> None" using ok(1) j(1) by (force simp: table_ok_def entries_def)
    obtain s1 where s1: "request_timeout env j s = s1" by blast
    have "chans s1 ! n \<noteq> []" "stack (procs s1 ! i) = (k, Wait n f) # rest"
      using mp j(2) n(1) p s1 by (auto simp: request_timeout_def complete_request_def rm_complete_def rm_remove_def)
    then have "\<exists>s2. proc_step env b [] i s1 = Some s2" by (auto simp: proc_step_def Ask_receive_def split: list.splits)
    then obtain s2 where s2: "proc_step env b [] i s1 = Some s2" by blast
    have "do_event env b (ERequestTimeout j) s = Some s1" using mp timer s1 by simp
    with mp j(2) timer s2 show ?thesis by blast
  qed
qed

end
