(* ===== verification/ActorRoundtrip.thy ===== *)
theory ActorRoundtrip
  imports ActorAsk
begin

text \<open>
  Asks from end to end: to an actor of the same node, and to an actor of another node through the
  remote messages of both systems.
\<close>

subsection \<open>An ask within a node\<close>

text \<open>The target can take a message: it is running, has nothing to do, and its mailbox is not closed.\<close>

definition ready :: "('a, 'k, 'm) System \<Rightarrow> PID \<Rightarrow> nat \<Rightarrow> bool" where
  "ready s t i \<longleftrightarrow> getProcess (Some t) s = Inr i \<and> i < length (procs s) \<and> stack (procs s ! i) = [] \<and> mailbox (procs s ! i) = []
     \<and> \<not> closing (procs s ! i) \<and> mb_capacity (procs s ! i) \<ge> 1"

text \<open>The request table can take a request: it is open, not full, and the next identifier is new and not zero.\<close>

definition accepts :: "('a, 'k, 'm) System \<Rightarrow> bool" where
  "accepts s \<longleftrightarrow> \<not> rm_closed (requests s) \<and> int (length (pending (requests s))) < rm_max (requests s)
     \<and> nextRequestId (requests s) + 1 \<noteq> 0 \<and> nextRequestId (requests s) + 1 \<notin> set (map fst (pending (requests s))) \<and> nodeID s \<noteq> []"

text \<open>What the caller of an ask gets when \<^verbatim>\<open>HandleAsk\<close> returns \<open>v\<close> and \<open>e\<close>.\<close>

definition answer :: "('k, 'm) any \<Rightarrow> err \<Rightarrow> ('k, 'm) any \<times> err" where
  "answer v e = (if e = None then (v, None) else (NilV, e))"

definition is_task :: "('k, 'm) any \<Rightarrow> bool" where
  "is_task v = (case v of TaskFn _ \<Rightarrow> True | _ \<Rightarrow> False)"

lemma message_frame_ask:
  "\<not> is_task m \<Longrightarrow> Payload e = User m \<Longrightarrow> meta_Request (Meta e) = Some r \<Longrightarrow> ref_RequestID r \<noteq> 0 \<Longrightarrow>
   message_frame b e a = (FAsk, HandleAsk b m a)"
  by (auto simp: is_task_def word_gt_0 split: any.splits)

text \<open>The two steps of a process that answers an ask of the node \<open>ref_NodeID r\<close>.\<close>

lemma begin_ask:
  assumes "i < length (procs s)" "stack (procs s ! i) = []" "mailbox (procs s ! i) = [e]" "\<not> is_task m" "Payload e = User m"
    and "meta_Request (Meta e) = Some r" "ref_RequestID r \<noteq> 0"
  shows "proc_step env b clock i s = Some (upd_proc i (\<lambda>p. p\<lparr>mailbox := [], handled_msgs := handled_msgs p @ [Payload e],
      current := e, responded := False, stack := [(FAsk, HandleAsk b m (actor p))]\<rparr>) s)"
  using assms message_frame_ask [OF assms(4-7), of b "actor (procs s ! i)"]
  by (simp add: proc_step_def begin_message_def upd_proc_def begin_proc_def Let_def del: message_frame.simps)

lemma getProcess_cong:
  "nodeID s' = nodeID s \<Longrightarrow> ids s' = ids s \<Longrightarrow> names s' = names s \<Longrightarrow> getProcess t s' = getProcess t s"
  by (simp add: getProcess_def getById_def getByName_def split: option.splits)

lemma upd_proc_twice: "i < length (procs s) \<Longrightarrow> upd_proc i f (upd_proc i g s) = upd_proc i (\<lambda>p. f (g p)) s"
  by (simp add: upd_proc_def)

text \<open>A local request is completed by the first response, whatever follows.\<close>

lemma handleAsk_return_local:
  assumes i: "i < length (procs s)" and p: "\<not> responded (procs s ! i)" "meta_Request (Meta (current (procs s ! i))) = Some r"
    and local: "ref_NodeID r = nodeID s" and table: "map_of (pending (requests s)) (ref_RequestID r) = Some q" "complete_cb q = AskChan n"
    and ans: "e \<noteq> None \<or> v \<noteq> NilV"
  shows "chans (handleAsk_return env i v e s) = (chans s)[n := chans s ! n @ [answer v e]]"
proof (cases e)
  case None
  with assms show ?thesis
    by (simp add: handleAsk_return_def Let_def Process_respond_def System_respond_def complete_request_def rm_complete_def rm_remove_def
        mark_responded_def answer_def)
next
  case (Some x)
  let ?s1 = "s\<lparr>requests := fst (rm_remove (requests s) (ref_RequestID r)), chans := (chans s)[n := chans s ! n @ [(NilV, e)]]\<rparr>"
  have "fst (Process_respondError env i e s) = mark_responded i ?s1"
    using Some assms
    by (simp add: Process_respondError_def Let_def System_respondError_def complete_request_def rm_complete_def rm_remove_def)
  moreover have "chans (fst (Process_respond env i v (mark_responded i ?s1))) = chans ?s1"
    using i by (simp add: Process_respond_def Let_def mark_responded_def)
  moreover have "chans (mark_responded i ?s1) = chans ?s1" by (simp add: mark_responded_def)
  ultimately show ?thesis using Some p(1) by (simp add: handleAsk_return_def answer_def Let_def)
qed

text \<open>
  C16: An ask to a local actor that is ready returns what the actor's \<^verbatim>\<open>HandleAsk\<close> returned: after
  the message has been handled the result is on the channel, the value if there is no error and the
  error otherwise.
\<close>

theorem local_ask_roundtrip:
  assumes r: "ready s t i" and acc: "accepts s" and t: "NodeID t = nodeID s" and m: "\<not> is_task m"
    and h: "HandleAsk b m (actor (procs s ! i)) = Ret a' v e" and ans: "e \<noteq> None \<or> v \<noteq> NilV"
  shows "\<exists>s1 n s2 s3. Ask_send env (Some f) (Some t) m d s = (s1, Inr n)
    \<and> do_event env b (EProc i []) s1 = Some s2 \<and> do_event env b (EProc i []) s2 = Some s3
    \<and> Ask_receive n s3 = Some (answer v e)"
proof -
  let ?n = "length (chans s)" and ?id = "nextRequestId (requests s) + 1"
  define ref where "ref = \<lparr>ref_NodeID = nodeID s, ref_RequestID = ?id\<rparr>"
  define q where "q = \<lparr>targetNodeId = NodeID t, complete_cb = AskChan ?n :: 'b completion,
      req_timer = (if (if d \<le> 0 then defaultActorAskTimeout else d) > 0 then Some (if d \<le> 0 then defaultActorAskTimeout else d) else None)\<rparr>"
  define e1 where "e1 = \<lparr>Payload = User m, Sender = Some f, Meta = \<lparr>meta_Request = Some ref\<rparr>\<rparr>"
  define s0 where "s0 = s\<lparr>chans := chans s @ [[]], requests := (requests s)\<lparr>nextRequestId := ?id, pending := AList.update ?id q (pending (requests s))\<rparr>,
      issued_reqs := issued_reqs s + 1\<rparr>"
  define s1 where "s1 = upd_proc i (enqueue e1) s0"
  have i: "i < length (procs s)" and free: "stack (procs s ! i) = []" "mailbox (procs s ! i) = []" "\<not> closing (procs s ! i)" "mb_capacity (procs s ! i) \<ge> 1"
    and gp: "getProcess (Some t) s = Inr i" using r by (auto simp: ready_def)
  have s0: "procs s0 = procs s" "nodeID s0 = nodeID s" "getProcess (Some t) s0 = Inr i"
    using gp getProcess_cong [of s0 s "Some t"] by (simp_all add: s0_def)
  have send: "Ask_send env (Some f) (Some t) m d s = (s1, Inr ?n)"
  proof -
    have "SendEnvelope env (Some t) e1 s0 = (s1, None)"
      using acc t s0 free by (auto simp: SendEnvelope_def e1_def ref_def accepts_def Process_Push_def s1_def)
    then show ?thesis
      using acc t by (simp add: Ask_send_def sendAsk_def rm_add_def Let_def accepts_def s0_def q_def e1_def ref_def split: if_splits)
  qed
  have s1: "i < length (procs s1)" "stack (procs s1 ! i) = []" "mailbox (procs s1 ! i) = [e1]" "actor (procs s1 ! i) = actor (procs s ! i)"
    using i free s0 by (simp_all add: s1_def enqueue_def)
  define s2 where "s2 = upd_proc i (\<lambda>p. p\<lparr>mailbox := [], handled_msgs := handled_msgs p @ [Payload e1],
      current := e1, responded := False, stack := [(FAsk, HandleAsk b m (actor p))]\<rparr>) s1"
  have e1: "Payload e1 = User m" "meta_Request (Meta e1) = Some ref" "ref_RequestID ref \<noteq> 0"
    using acc by (simp_all add: e1_def ref_def accepts_def)
  have step1: "do_event env b (EProc i []) s1 = Some s2"
    using begin_ask [OF s1(1-3) m e1] s1(1) by (simp add: s2_def)
  define s2' where "s2' = upd_proc i (\<lambda>p. p\<lparr>actor := a'\<rparr>) s2"
  have s2: "i < length (procs s2)" "stack (procs s2 ! i) = [(FAsk, Ret a' v e)]" "requests s2 = requests s0" "chans s2 = chans s0" "nodeID s2 = nodeID s"
    "\<not> responded (procs s2 ! i)" "current (procs s2 ! i) = e1"
    using s1 h s0 by (simp_all add: s2_def s1_def)
  have table: "map_of (pending (requests s2')) (ref_RequestID ref) = Some q" by (simp add: s2'_def s2(3) s0_def ref_def update_conv')
  let ?s3 = "frame_return env i FAsk a' v e s2"
  have step2: "do_event env b (EProc i []) s2 = Some ?s3" using s2(1,2) by (simp add: proc_step_def)
  have "chans ?s3 = (chans s2')[?n := chans s2' ! ?n @ [answer v e]]"
    using handleAsk_return_local [of i s2' ref q ?n e v env] s2 table e1(2) ans
    by (simp add: frame_return_def Let_def s2'_def q_def ref_def)
  moreover have "chans s2' = chans s @ [[]]" using s2(4) by (simp add: s2'_def s0_def)
  ultimately have "Ask_receive ?n ?s3 = Some (answer v e)" by (simp add: Ask_receive_def)
  with send step1 step2 show ?thesis by blast
qed

subsection \<open>An ask to another node\<close>

text \<open>The two messages on the wire.\<close>

definition ask_message :: "string \<Rightarrow> bytes \<Rightarrow> PID \<Rightarrow> PID \<Rightarrow> RequestRef \<Rightarrow> RemoteActorMessage" where
  "ask_message name data f t r =
     \<lparr>Common = Some \<lparr>SourcePid = pidToProto (Some f), TargetPid = pidToProto (Some t), TargetNodeId = NodeID t\<rparr>,
      Body = Body_Request (Some \<lparr>rq_MessageName = name, rq_Payload = data, rq_Request = requestRefToProto (Some r)\<rparr>)\<rparr>"

definition value_message :: "string \<Rightarrow> bytes \<Rightarrow> PID \<Rightarrow> RequestRef \<Rightarrow> RemoteActorMessage" where
  "value_message name data p r =
     \<lparr>Common = Some \<lparr>SourcePid = pidToProto (Some p), TargetPid = None, TargetNodeId = ref_NodeID r\<rparr>,
      Body = Body_Response (Some \<lparr>Kind = ASK_RESPONSE, rs_Request = requestRefToProto (Some r), rs_MessageName = name, rs_Payload = data,
               rs_Error = [], rs_ErrorCode = 0\<rparr>)\<rparr>"

definition error_message :: "go_error \<Rightarrow> PID option \<Rightarrow> RequestRef \<Rightarrow> RemoteActorMessage" where
  "error_message x p r =
     \<lparr>Common = Some \<lparr>SourcePid = pidToProto p, TargetPid = None, TargetNodeId = ref_NodeID r\<rparr>,
      Body = Body_Response (Some \<lparr>Kind = ASK_ERROR, rs_Request = requestRefToProto (Some r), rs_MessageName = [], rs_Payload = [],
               rs_Error = error_string x, rs_ErrorCode = fst (CodeOf (Some x))\<rparr>)\<rparr>"

text \<open>An error crosses the wire as its code and its text.\<close>

definition remote_error :: "go_error \<Rightarrow> go_error" where
  "remote_error x = Coded (fst (CodeOf (Some x))) (error_string x)"

text \<open>The environment: the protobuf runtime decodes what it encoded, and types are linked.\<close>

definition wire_ok :: "'m act_env \<Rightarrow> bool" where
  "wire_ok env \<longleftrightarrow> proto_roundtrip (lib env) \<and> all_linked (lib env) \<and> proto_roundtrip (wire env)
     \<and> (\<forall>msg. full_name (wire env) msg = wire_name)"

lemma wire_decode: "wire_ok env \<Longrightarrow> Marshal (wire env) (Some msg) = Inr bs \<Longrightarrow> Unmarshal (wire env) wire_name wire_text bs = Inr msg"
  using Unmarshal_Marshal [of "wire env" msg bs wire_text] by (simp add: wire_ok_def)

lemma lib_decode: "wire_ok env \<Longrightarrow> MarshalWithName (lib env) (Some m) = Inr (name, data) \<Longrightarrow> UnmarshalWithName (lib env) name data = Inr m"
  using Unmarshal_MarshalWithName [of "lib env" "Some m" name data] by (simp add: wire_ok_def)

lemma sendRemoteMessage_ok:
  "remoteSender s = Some send \<Longrightarrow> Common msg = Some c \<Longrightarrow> Marshal (wire env) (Some msg) = Inr bs \<Longrightarrow> send (TargetNodeId c) bs = None \<Longrightarrow>
   sendRemoteMessage env (Some msg) s = (s\<lparr>outbox := outbox s @ [(TargetNodeId c, bs)]\<rparr>, None)"
  by (simp add: sendRemoteMessage_def)

text \<open>The asking node sends the request and waits.\<close>

lemma Ask_send_remote:
  assumes acc: "accepts s" and t: "NodeID t \<noteq> nodeID s" "NodeID t \<noteq> []"
    and enc: "MarshalWithName (lib env) (Some m) = Inr (name, data)"
    and r: "r = \<lparr>ref_NodeID = nodeID s, ref_RequestID = nextRequestId (requests s) + 1\<rparr>"
    and wire: "Marshal (wire env) (Some (ask_message name data f t r)) = Inr bs"
    and send: "remoteSender s = Some send" "send (NodeID t) bs = None"
  shows "\<exists>s1 q. Ask_send env (Some f) (Some t) (Val m) d s = (s1, Inr (length (chans s))) \<and> outbox s1 = outbox s @ [(NodeID t, bs)]
    \<and> map_of (pending (requests s1)) (ref_RequestID r) = Some q \<and> complete_cb q = AskChan (length (chans s))
    \<and> chans s1 = chans s @ [[]] \<and> nodeID s1 = nodeID s \<and> remoteSender s1 = remoteSender s"
proof -
  let ?n = "length (chans s)" and ?d = "if d \<le> 0 then defaultActorAskTimeout else d"
  define q where "q = \<lparr>targetNodeId = NodeID t, complete_cb = AskChan ?n :: 'b completion, req_timer = (if ?d > 0 then Some ?d else None)\<rparr>"
  define tab where "tab = (requests s)\<lparr>nextRequestId := ref_RequestID r, pending := AList.update (ref_RequestID r) q (pending (requests s))\<rparr>"
  define s0 where "s0 = s\<lparr>chans := chans s @ [[]], requests := tab, issued_reqs := issued_reqs s + 1\<rparr>"
  define s1 where "s1 = s0\<lparr>requests := rm_retarget tab (ref_RequestID r) (NodeID t), outbox := outbox s @ [(NodeID t, bs)]\<rparr>"
  let ?e = "\<lparr>Payload = User (Val m), Sender = Some f, Meta = \<lparr>meta_Request = Some r\<rparr>\<rparr>"
  have add: "rm_add (requests s) (nodeID s) (NodeID t) ?d (AskChan ?n) = (tab, Inr r)"
    using acc by (simp add: rm_add_def accepts_def Let_def tab_def q_def r)
  have "sendRemoteMessage env (Some (ask_message name data f t r)) (s0\<lparr>requests := rm_retarget tab (ref_RequestID r) (NodeID t)\<rparr>) = (s1, None)"
    using wire send by (simp add: sendRemoteMessage_def ask_message_def s1_def s0_def)
  then have "sendRemoteEnvelope env t ?e s0 = (s1, None)"
    using enc by (simp add: sendRemoteEnvelope_def payload_value_def as_message_def r s0_def ask_message_def)
  then have "SendEnvelope env (Some t) ?e s0 = (s1, None)"
    using acc t by (simp add: SendEnvelope_def accepts_def r s0_def)
  then have "Ask_send env (Some f) (Some t) (Val m) d s = (s1, Inr ?n)"
    using add by (simp add: Ask_send_def sendAsk_def Let_def s0_def)
  moreover have "map_of (pending tab) (ref_RequestID r) = Some q" by (simp add: tab_def update_conv')
  then have "\<exists>q'. map_of (pending (requests s1)) (ref_RequestID r) = Some q' \<and> complete_cb q' = AskChan ?n"
    by (simp add: s1_def rm_retarget_def t(2) update_conv' q_def)
  ultimately show ?thesis by (auto simp: s1_def s0_def)
qed

text \<open>The node of the target delivers it.\<close>

lemma OnMessage_ask:
  assumes ok: "wire_ok env" and enc: "MarshalWithName (lib env) (Some m) = Inr (name, data)"
    and wire: "Marshal (wire env) (Some (ask_message name data f t r)) = Inr bs"
    and rd: "ready s t i" and t: "NodeID t = nodeID s" "nodeID s \<noteq> []" and r: "ref_NodeID r \<noteq> []" "ref_RequestID r \<noteq> 0" and src: "src \<noteq> []"
  shows "OnMessage env src bs s = (upd_proc i (enqueue \<lparr>Payload = User (Val m), Sender = Some f, Meta = \<lparr>meta_Request = Some r\<rparr>\<rparr>) s, None)"
  using wire_decode [OF ok wire] lib_decode [OF ok enc] rd t r src pid_roundtrip [of "Some t"] pid_roundtrip [of "Some f"] requestRef_roundtrip [of "Some r"]
  by (simp add: OnMessage_def localise_def ask_message_def onRemoteHandler_def onRemoteEnvelopeHandler_def Let_def
      SendEnvelope_def Process_Push_def ready_def pidToProto_def)

text \<open>The answering node sends the response.\<close>

lemma handleAsk_return_remote:
  assumes i: "i < length (procs s)" and p: "\<not> responded (procs s ! i)" "meta_Request (Meta (current (procs s ! i))) = Some r"
    and remote: "ref_NodeID r \<noteq> nodeID s" and send: "remoteSender s = Some send" "send (ref_NodeID r) bs = None"
    and wire: "Marshal (wire env) (Some (case e of
        Some x \<Rightarrow> error_message x (Some (pid (procs s ! i))) r | None \<Rightarrow> value_message name data (pid (procs s ! i)) r)) = Inr bs"
    and val: "e = None \<Longrightarrow> v \<noteq> NilV \<and> MarshalWithName (lib env) (as_message v) = Inr (name, data)"
  shows "outbox (handleAsk_return env i v e s) = outbox s @ [(ref_NodeID r, bs)]"
proof (cases e)
  case None
  with assms show ?thesis
    by (simp add: handleAsk_return_def Let_def Process_respond_def System_respond_def sendRemoteAskResponse_def
        value_message_def sendRemoteMessage_ok mark_responded_def)
next
  case (Some x)
  let ?s1 = "s\<lparr>outbox := outbox s @ [(ref_NodeID r, bs)]\<rparr>"
  have "fst (Process_respondError env i e s) = mark_responded i ?s1"
    using Some assms
    by (simp add: Process_respondError_def Let_def System_respondError_def sendRemoteRequestError_def error_message_def sendRemoteMessage_ok)
  moreover have "outbox (fst (Process_respond env i v (mark_responded i ?s1))) = outbox ?s1"
    using i by (simp add: Process_respond_def Let_def mark_responded_def)
  moreover have "outbox (mark_responded i ?s1) = outbox ?s1" by (simp add: mark_responded_def)
  ultimately show ?thesis using Some p(1) by (simp add: handleAsk_return_def Let_def)
qed

text \<open>The asking node completes the request.\<close>

lemma OnMessage_reply:
  assumes ok: "wire_ok env" and r: "ref_NodeID r = nodeID s" "ref_RequestID r \<noteq> 0" "nodeID s \<noteq> []" and src: "src \<noteq> []"
    and wire: "Marshal (wire env) (Some (case e of Some x \<Rightarrow> error_message x (Some p) r | None \<Rightarrow> value_message name data p r)) = Inr bs"
    and val: "e = None \<Longrightarrow> MarshalWithName (lib env) (Some w) = Inr (name, data)"
  shows "OnMessage env src bs s =
    (case e of Some x \<Rightarrow> complete_request env (ref_RequestID r) NilV (Some (remote_error x)) s
     | None \<Rightarrow> complete_request env (ref_RequestID r) (Val w) None s)"
  using wire_decode [OF ok wire] lib_decode [OF ok val] r src
  by (cases e)
    (simp_all add: OnMessage_def localise_def error_message_def value_message_def onRemoteHandler_def onRemoteResponseHandler_def Let_def
      pidToProto_def requestRefToProto_def remote_error_def)

text \<open>
  C1: An ask to a ready actor of another node comes back with what the actor answered: the request
  crosses to the other node, is handled there, and the response completes the ask on the first node,
  with the value, or with an error that has the code and the text of the one the actor returned.
\<close>

theorem remote_ask_roundtrip:
  fixes A B :: "('a, 'k, 'm) System"
  assumes ok: "wire_ok env" and acc: "accepts A" and rd: "ready B t i"
    and nodes: "NodeID t = nodeID B" "nodeID B \<noteq> nodeID A" "nodeID B \<noteq> []" "nodeID A \<noteq> []"
    and r: "r = \<lparr>ref_NodeID = nodeID A, ref_RequestID = nextRequestId (requests A) + 1\<rparr>"
    and h: "HandleAsk b (Val m) (actor (procs B ! i)) = Ret a' v e" "e = None \<Longrightarrow> v = Val w"
    and enc: "MarshalWithName (lib env) (Some m) = Inr (name, data)" "e = None \<Longrightarrow> MarshalWithName (lib env) (Some w) = Inr (name', data')"
    and wire: "Marshal (wire env) (Some (ask_message name data f t r)) = Inr bs"
      "Marshal (wire env) (Some (case e of Some x \<Rightarrow> error_message x (Some (pid (procs B ! i))) r
          | None \<Rightarrow> value_message name' data' (pid (procs B ! i)) r)) = Inr bs'"
    and send: "remoteSender A = Some sendA" "sendA (nodeID B) bs = None" "remoteSender B = Some sendB" "sendB (nodeID A) bs' = None"
  shows "\<exists>A1 n B1 B2 B3 A2. Ask_send env (Some f) (Some t) (Val m) d A = (A1, Inr n) \<and> outbox A1 = outbox A @ [(nodeID B, bs)]
    \<and> OnMessage env (nodeID A) bs B = (B1, None) \<and> do_event env b (EProc i []) B1 = Some B2 \<and> do_event env b (EProc i []) B2 = Some B3
    \<and> outbox B3 = outbox B @ [(nodeID A, bs')]
    \<and> OnMessage env (nodeID B) bs' A1 = (A2, None)
    \<and> Ask_receive n A2 = Some (case e of None \<Rightarrow> (v, None) | Some x \<Rightarrow> (NilV, Some (remote_error x)))"
proof -
  let ?n = "length (chans A)"
  have id: "ref_RequestID r \<noteq> 0" "ref_NodeID r = nodeID A" using acc by (simp_all add: accepts_def r)
  obtain A1 q where A1: "Ask_send env (Some f) (Some t) (Val m) d A = (A1, Inr ?n)" "outbox A1 = outbox A @ [(nodeID B, bs)]"
    "map_of (pending (requests A1)) (ref_RequestID r) = Some q" "complete_cb q = AskChan ?n" "chans A1 = chans A @ [[]]" "nodeID A1 = nodeID A"
    using Ask_send_remote [OF acc _ _ enc(1) r wire(1) send(1), of d] nodes send(2) by auto
  define e1 :: "('k, 'm) Envelope" where "e1 = \<lparr>Payload = User (Val m), Sender = Some f, Meta = \<lparr>meta_Request = Some r\<rparr>\<rparr>"
  define B1 where "B1 = upd_proc i (enqueue e1) B"
  have i: "i < length (procs B)" and free: "stack (procs B ! i) = []" "mailbox (procs B ! i) = []" using rd by (auto simp: ready_def)
  have B1: "OnMessage env (nodeID A) bs B = (B1, None)"
    using OnMessage_ask [OF ok enc(1) wire(1) rd nodes(1,3), of "nodeID A"] id nodes by (simp add: B1_def e1_def)
  have b1: "i < length (procs B1)" "stack (procs B1 ! i) = []" "mailbox (procs B1 ! i) = [e1]" "actor (procs B1 ! i) = actor (procs B ! i)"
    using i free by (simp_all add: B1_def enqueue_def)
  define B2 where "B2 = upd_proc i (\<lambda>p. p\<lparr>mailbox := [], handled_msgs := handled_msgs p @ [Payload e1],
      current := e1, responded := False, stack := [(FAsk, HandleAsk b (Val m) (actor p))]\<rparr>) B1"
  have step1: "do_event env b (EProc i []) B1 = Some B2"
    using begin_ask [OF b1(1-3), of "Val m" r] b1(1) id by (simp add: B2_def e1_def is_task_def)
  have b2: "i < length (procs B2)" "stack (procs B2 ! i) = [(FAsk, Ret a' v e)]" "nodeID B2 = nodeID B" "\<not> responded (procs B2 ! i)"
    "current (procs B2 ! i) = e1" "pid (procs B2 ! i) = pid (procs B ! i)" "remoteSender B2 = Some sendB" "outbox B2 = outbox B"
    using b1 h(1) i send by (simp_all add: B2_def B1_def enqueue_def)
  let ?B3 = "frame_return env i FAsk a' v e B2"
  have step2: "do_event env b (EProc i []) B2 = Some ?B3" using b2(1,2) by (simp add: proc_step_def)
  define B2' where "B2' = upd_proc i (\<lambda>p. p\<lparr>actor := a'\<rparr>) B2"
  have p2: "pid (procs B2' ! i) = pid (procs B ! i)" using b2(1,6) by (simp add: B2'_def)
  have "outbox (handleAsk_return env i v e B2') = outbox B2' @ [(nodeID A, bs')]"
    using handleAsk_return_remote [where i = i and s = B2' and r = r and send = sendB and bs = bs' and env = env and e = e
        and name = name' and data = data' and v = v, unfolded p2] b2 id nodes send(4) wire(2) h(2) enc(2)
    by (simp add: B2'_def e1_def as_message_def)
  then have out: "outbox ?B3 = outbox B @ [(nodeID A, bs')]"
    using b2(8) by (simp add: frame_return_def Let_def B2'_def)
  note reply = OnMessage_reply [OF ok, where r = r and s = A1 and src = "nodeID B" and e = e and p = "pid (procs B ! i)" and name = name' and data = data'
        and bs = bs' and w = w]
  define res where "res = (case e of None \<Rightarrow> (v, None) | Some x \<Rightarrow> (NilV, Some (remote_error x)))"
  have "\<exists>A2. OnMessage env (nodeID B) bs' A1 = (A2, None) \<and> chans A2 = (chans A1)[?n := chans A1 ! ?n @ [res]]"
    using reply id nodes A1 wire(2) enc(2) h(2)
    by (cases e) (simp_all add: complete_request_def rm_complete_def rm_remove_def res_def)
  then obtain A2 where A2: "OnMessage env (nodeID B) bs' A1 = (A2, None)" "Ask_receive ?n A2 = Some res"
    using A1(5) by (auto simp: Ask_receive_def)
  then show ?thesis using A1(1,2) B1 step1 step2 out unfolding res_def by blast
qed

text \<open>
  C17: An ask to an actor that does not exist on the other node, or no longer takes messages, or whose
  mailbox is full, fails at once with the code of that reason: the receiving node sends the error
  back, and the asking node hands it to the caller, with the code of \<^verbatim>\<open>ErrNotFound\<close>,
  \<^verbatim>\<open>ErrActorProcessStopped\<close> or \<^verbatim>\<open>ErrMailboxFull\<close>.
\<close>

theorem remote_ask_rejected:
  fixes A B :: "('a, 'k, 'm) System"
  assumes ok: "wire_ok env" and acc: "accepts A"
    and nodes: "NodeID t = nodeID B" "nodeID B \<noteq> nodeID A" "nodeID B \<noteq> []" "nodeID A \<noteq> []"
    and r: "r = \<lparr>ref_NodeID = nodeID A, ref_RequestID = nextRequestId (requests A) + 1\<rparr>"
    and refused: "x = (case getProcess (Some t) B of Inl x \<Rightarrow> x
        | Inr i \<Rightarrow> if closing (procs B ! i) then ErrActorProcessStopped else ErrMailboxFull)"
      "\<And>i. getProcess (Some t) B = Inr i \<Longrightarrow> closing (procs B ! i) \<or> int (length (mailbox (procs B ! i))) \<ge> mb_capacity (procs B ! i)"
    and enc: "MarshalWithName (lib env) (Some m) = Inr (name, data)"
    and wire: "Marshal (wire env) (Some (ask_message name data f t r)) = Inr bs" "Marshal (wire env) (Some (error_message x (Some t) r)) = Inr bs'"
    and send: "remoteSender A = Some sendA" "sendA (nodeID B) bs = None" "remoteSender B = Some sendB" "sendB (nodeID A) bs' = None"
  shows "\<exists>A1 n B1 A2 e. Ask_send env (Some f) (Some t) (Val m) d A = (A1, Inr n)
    \<and> OnMessage env (nodeID A) bs B = (B1, Some e) \<and> procs B1 = procs B \<and> outbox B1 = outbox B @ [(nodeID A, bs')]
    \<and> OnMessage env (nodeID B) bs' A1 = (A2, None) \<and> Ask_receive n A2 = Some (NilV, Some (remote_error x))
    \<and> fst (CodeOf (Some x)) \<in> {ErrorCodeActorNotFound, ErrorCodeActorProcessStopped, ErrorCodeActorMailboxFull}"
proof -
  let ?n = "length (chans A)"
  have id: "ref_RequestID r \<noteq> 0" "ref_NodeID r = nodeID A" using acc by (simp_all add: accepts_def r)
  obtain A1 q where A1: "Ask_send env (Some f) (Some t) (Val m) d A = (A1, Inr ?n)"
    "map_of (pending (requests A1)) (ref_RequestID r) = Some q" "complete_cb q = AskChan ?n" "chans A1 = chans A @ [[]]" "nodeID A1 = nodeID A"
    using Ask_send_remote [OF acc _ _ enc(1) r wire(1) send(1), of d] nodes send(2) by auto
  let ?e = "\<lparr>Payload = User (Val m), Sender = Some f, Meta = \<lparr>meta_Request = Some r\<rparr>\<rparr> :: ('k, 'm) Envelope"
  have push: "SendEnvelope env (Some t) ?e B = (B, Some x)"
    using nodes id refused by (auto simp: SendEnvelope_def Process_Push_def split: sum.splits)
  let ?B1 = "B\<lparr>outbox := outbox B @ [(nodeID A, bs')]\<rparr>"
  have reject: "sendRemoteRequestError env (Some t) r x B = (?B1, None)"
    using wire(2) send(3,4) id by (simp add: sendRemoteRequestError_def sendRemoteMessage_def error_message_def)
  have pids: "pidFromProto (pidToProto (Some p)) = Some p" for p by simp
  have rr: "\<lparr>ref_NodeID = nodeID A, ref_RequestID = ref_RequestID r\<rparr> = r" by (simp add: r)
  have "OnMessage env (nodeID A) bs B = (?B1, Some (Wrap ''remote handler:'' x []))"
    using wire_decode [OF ok wire(1)] lib_decode [OF ok enc] nodes id push reject send(3) pids [of t] pids [of f] requestRef_roundtrip [of "Some r"]
    by (simp add: OnMessage_def localise_def ask_message_def onRemoteHandler_def onRemoteEnvelopeHandler_def Let_def rejectRemoteRequest_def
        pidToProto_def requestRefToProto_def rr)
  moreover have "OnMessage env (nodeID B) bs' A1 = complete_request env (ref_RequestID r) NilV (Some (remote_error x)) A1"
    using OnMessage_reply [OF ok, where r = r and s = A1 and src = "nodeID B" and e = "Some x" and p = t and bs = bs'] wire(2) id nodes A1(5) by simp
  then obtain A2 where "OnMessage env (nodeID B) bs' A1 = (A2, None)" "Ask_receive ?n A2 = Some (NilV, Some (remote_error x))"
    using A1(2-4) by (auto simp: complete_request_def rm_complete_def rm_remove_def Ask_receive_def)
  moreover have "fst (CodeOf (Some x)) \<in> {ErrorCodeActorNotFound, ErrorCodeActorProcessStopped, ErrorCodeActorMailboxFull}"
  proof (cases "getProcess (Some t) B")
    case (Inl y)
    then have "y = ErrNotFound" using nodes(1) by (auto simp: getProcess_def split: option.splits if_splits)
    then show ?thesis using refused(1) Inl by (simp add: coded_error_defs CodeOf_def error_code_defs)
  qed (use refused(1) in \<open>simp add: coded_error_defs CodeOf_def error_code_defs\<close>)
  ultimately show ?thesis using A1(1) by auto
qed

end
