(* ===== verification/ActorExamples.thy ===== *)
theory ActorExamples
  imports ActorRoundtrip
begin

text \<open>
  Example systems on which the properties of the actor theories are applied: two nodes with an echo
  actor each, whose messages are strings.
\<close>

definition sample_gen :: SnowFlake where
  "sample_gen = projr (SnowFlake_New DefaultConfig 1700000000000)"

definition text_lib :: "string proto_lib" where
  "text_lib = \<lparr>is_message = (\<lambda>_. True), is_valid = (\<lambda>_. True), full_name = (\<lambda>_. ''pb.Text''), name_valid = (\<lambda>_. True),
     proto_Marshal = (\<lambda>m. if m = ''hello'' then Inr [1] else Inl (Plain ''unsupported'')), linked = (\<lambda>_. True),
     proto_Unmarshal = (\<lambda>_ bs. if bs = [1] then Inr ''hello'' else Inl (Plain ''malformed'')), type_text = (\<lambda>_. ''*pb.Text'')\<rparr>"

text \<open>An actor that answers with what it was asked, and stops when told so; asked nothing it fails.\<close>

definition echo :: "(nat, nat, string) behavior" where
  "echo = DefaultActor\<lparr>HandleAsk := (\<lambda>v a. Ret (a + 1) v (if v = NilV then Some ErrNotFound else None)),
     HandleTell := (\<lambda>v a. if v = Val ''stop'' then CtxStop (Ret a NilV None)
                    else if v = Val ''panic'' then Panic a v
                    else CtxAsk (Some \<lparr>ActorID = 0, ActorName = ''other'', NodeID = ''n1''\<rparr>) v (\<lambda>w e. Ret (a + 1) w e))\<rparr>"

lemma echo_user: "user_behavior echo"
  by (simp add: user_behavior_def echo_def DefaultActor_def)

definition pid_of :: "string \<Rightarrow> string \<Rightarrow> PID" where
  "pid_of name node = \<lparr>ActorID = 0, ActorName = name, NodeID = node\<rparr>"

definition node1 :: "(nat, nat, string) System" where
  "node1 = NewSystemWithOptions ''n1'' (Some (\<lambda>_ _. None)) sample_gen 41"

definition node2 :: "(nat, nat, string) System" where
  "node2 = NewSystemWithOptions ''n2'' (Some (\<lambda>_ _. None)) sample_gen 7"

text \<open>The wire format of the two messages of the remote example.\<close>

definition example_ref :: RequestRef where "example_ref = \<lparr>ref_NodeID = ''n1'', ref_RequestID = 42\<rparr>"

definition echo2_pid :: PID where
  "echo2_pid = \<lparr>ActorID = of_int (make_id sample_gen 1700000000001 0), ActorName = ''echo'', NodeID = ''n2''\<rparr>"

definition example_ask :: RemoteActorMessage where
  "example_ask = ask_message ''pb.Text'' [1] NoSender (pid_of ''echo'' ''n2'') example_ref"

definition example_lost :: RemoteActorMessage where
  "example_lost = ask_message ''pb.Text'' [1] NoSender (pid_of ''gone'' ''n2'') example_ref"

definition example_reply :: RemoteActorMessage where
  "example_reply = value_message ''pb.Text'' [1] echo2_pid example_ref"

definition example_reject :: RemoteActorMessage where
  "example_reject = error_message ErrNotFound (Some (pid_of ''gone'' ''n2'')) example_ref"

definition wire_lib :: "RemoteActorMessage proto_lib" where
  "wire_lib = \<lparr>is_message = (\<lambda>_. True), is_valid = (\<lambda>_. True), full_name = (\<lambda>_. wire_name), name_valid = (\<lambda>_. True),
     proto_Marshal = (\<lambda>m. if m = example_ask then Inr [1] else if m = example_reply then Inr [2] else if m = example_lost then Inr [3]
        else if m = example_reject then Inr [4] else Inl (Plain ''unsupported'')), linked = (\<lambda>_. True),
     proto_Unmarshal = (\<lambda>_ bs. if bs = [1] then Inr example_ask else if bs = [2] then Inr example_reply else if bs = [3] then Inr example_lost
        else if bs = [4] then Inr example_reject else Inl (Plain ''malformed'')),
     type_text = (\<lambda>_. wire_text)\<rparr>"

definition text_env :: "string act_env" where
  "text_env = \<lparr>lib = text_lib, wire = wire_lib\<rparr>"

lemma sample_wire_ok: "wire_ok text_env"
  by (auto simp: wire_ok_def text_env_def text_lib_def wire_lib_def proto_roundtrip_def all_linked_def split: if_splits)

lemma sample_gen_wf: "snow_wf sample_gen \<and> lastTime sample_gen < offsetTime sample_gen"
proof -
  have "SnowFlake_New DefaultConfig 1700000000000 = Inr sample_gen \<and> lastTime sample_gen < offsetTime sample_gen"
    by (simp add: sample_gen_def SnowFlake_New_def DefaultConfig_def totalBitLength_def Let_def)
  then show ?thesis using SnowFlake_New_wf by blast
qed

lemma node1_fresh: "fresh_system node1"
  using sample_gen_wf unfolding fresh_system_def node1_def by blast

subsection \<open>A run\<close>

definition spawn :: "string \<Rightarrow> int \<Rightarrow> (nat, nat, string) event" where
  "spawn name now = ESpawn (Some 0) \<lparr>Name = name, InitArgs = [], MailboxSize = 0\<rparr> [now]"

text \<open>Two actors; the first asks the second and waits.\<close>

definition events_asking :: "(nat, nat, string) event list" where
  "events_asking = [ELifecycleInit, spawn ''echo'' 1700000000001, spawn ''other'' 1700000000001, EProc 0 [], EProc 0 [], EProc 1 [], EProc 1 [],
     ETell (Some NoSender) (Some (pid_of ''echo'' ''n1'')) (Val ''hello''), EProc 0 [], EProc 0 []]"

text \<open>The answer arrives, the first actor is told to stop and the system stops.\<close>

definition events_stopping :: "(nat, nat, string) event list" where
  "events_stopping = events_asking @ [EProc 1 [], EProc 1 [], EProc 0 [], EProc 0 [],
     ETell (Some NoSender) (Some (pid_of ''echo'' ''n1'')) (Val ''stop''), EProc 0 [], EProc 0 [], EProc 0 [], EStop (\<lambda>xs. xs),
     EProc 0 [], EProc 0 [], EProc 1 [], EProc 1 []]"

definition asking :: "(nat, nat, string) System" where
  "asking = the (run_events text_env echo events_asking node1)"

definition stopped :: "(nat, nat, string) System" where
  "stopped = the (run_events text_env echo events_stopping node1)"

lemma asking_run: "run_events text_env echo events_asking node1 = Some asking"
proof -
  have "run_events text_env echo events_asking node1 \<noteq> None" by code_simp
  then show ?thesis by (simp add: asking_def)
qed

lemma stopped_run: "run_events text_env echo events_stopping node1 = Some stopped"
proof -
  have "run_events text_env echo events_stopping node1 \<noteq> None" by code_simp
  then show ?thesis by (simp add: stopped_def)
qed

lemmas asking_reachable = run_events_reachable [OF asking_run sys_reachable.start]
  and stopped_reachable = run_events_reachable [OF stopped_run sys_reachable.start]

subsection \<open>The properties on the example\<close>


theorem registry_consistent_witness:
  "waitGroup asking = int (manager_count asking) \<and> manager_count asking = 2 \<and> getByName ''other'' asking = Some 1
   \<and> ActorName (pid (procs asking ! 1)) = ''other''"
proof -
  have "manager_count asking = 2" "getByName ''other'' asking = Some 1" by code_simp+
  with registry_consistent [OF node1_fresh asking_reachable] show ?thesis by auto
qed

theorem system_stop_completes_witness:
  "stopping stopped \<and> length (procs stopped) = 2 \<and> ids stopped = [] \<and> System_Stop_wait stopped = None"
proof -
  have s: "stopping stopped" "length (procs stopped) = 2" "list_all (\<lambda>p. mailbox p = [] \<and> stack p = []) (procs stopped)"
    by code_simp+
  with system_stop_completes [OF node1_fresh stopped_reachable] show ?thesis by (simp add: list_all_iff)
qed

lemma example_requests: "issued_reqs stopped = 1" "issued_reqs asking = 1"
  by code_simp+

theorem ask_answered_once_witness:
  "\<exists>c. chans stopped = [c] \<and> length c \<le> 1"
proof -
  have n: "issued_reqs stopped < 2 ^ 64" by (simp add: example_requests)
  have c: "length (chans stopped) = 1" by code_simp
  from ask_answered_once [OF echo_user stopped_reachable [unfolded node1_def] n] c show ?thesis by (auto simp: length_Suc_conv)
qed

definition waits_for :: "nat \<Rightarrow> (nat, nat, string) Process \<Rightarrow> bool" where
  "waits_for n p = (case stack p of (_, Wait i _) # _ \<Rightarrow> i = n | _ \<Rightarrow> False)"

theorem ask_never_stuck_witness:
  "\<exists>k f rest. stack (procs asking ! 0) = (k, Wait 0 f) # rest \<and>
    ((\<exists>s'. proc_step text_env echo [] 0 asking = Some s')
     \<or> (\<exists>r q. map_of (pending (requests asking)) r = Some q \<and> complete_cb q = AskChan 0 \<and> req_timer q \<noteq> None
          \<and> (\<exists>s1 s2. do_event text_env echo (ERequestTimeout r) asking = Some s1 \<and> proc_step text_env echo [] 0 s1 = Some s2)))"
proof -
  have n: "issued_reqs asking < 2 ^ 64" by (simp add: example_requests)
  have l: "0 < length (procs asking)" by code_simp
  have "waits_for 0 (procs asking ! 0)" by code_simp
  then obtain k f rest where w: "stack (procs asking ! 0) = (k, Wait 0 f) # rest"
    by (cases "stack (procs asking ! 0)"; cases "snd (hd (stack (procs asking ! 0)))") (auto simp: waits_for_def)
  from ask_never_stuck [OF echo_user asking_reachable [unfolded node1_def] n l w] w show ?thesis by blast
qed

text \<open>Node 2 with its echo actor, which has been initialised.\<close>

definition serving :: "(nat, nat, string) System" where
  "serving = the (run_events text_env echo [spawn ''echo'' 1700000000001, EProc 0 [], EProc 0 []] node2)"

definition serving1 :: "(nat, nat, string) System" where
  "serving1 = the (run_events text_env echo [spawn ''echo'' 1700000000001, EProc 0 [], EProc 0 []] node1)"

lemma serving_ready:
  "ready serving1 (pid_of ''echo'' ''n1'') 0" "ready serving (pid_of ''echo'' ''n2'') 0" "accepts serving1" "accepts node1"
  unfolding ready_def accepts_def by code_simp+

theorem local_ask_roundtrip_witness:
  "\<exists>s1 n s2 s3. Ask_send text_env (Some NoSender) (Some (pid_of ''echo'' ''n1'')) (Val ''hello'') 0 serving1 = (s1, Inr n)
    \<and> do_event text_env echo (EProc 0 []) s1 = Some s2 \<and> do_event text_env echo (EProc 0 []) s2 = Some s3
    \<and> Ask_receive n s3 = Some (Val ''hello'', None)"
proof -
  have n: "NodeID (pid_of ''echo'' ''n1'') = nodeID serving1" by code_simp
  have "HandleAsk echo (Val ''hello'') (actor (procs serving1 ! 0)) = Ret (actor (procs serving1 ! 0) + 1) (Val ''hello'') None"
    by (simp add: echo_def)
  from local_ask_roundtrip [OF serving_ready(1,3) n _ this, of text_env NoSender 0] show ?thesis
    by (simp add: is_task_def answer_def)
qed

definition hands_over :: "string \<Rightarrow> byte list \<Rightarrow> (nat, nat, string) System \<Rightarrow> bool" where
  "hands_over n bs s = (case remoteSender s of Some f \<Rightarrow> f n bs = None | None \<Rightarrow> False)"

lemma hands_over_sender:
  assumes "hands_over n bs s"
  shows "remoteSender s = Some (the (remoteSender s))" "the (remoteSender s) n bs = None"
  using assms by (auto simp: hands_over_def split: option.splits)

lemma example_wire:
  "Marshal wire_lib (Some example_ask) = Inr [1]" "Marshal wire_lib (Some example_reply) = Inr [2]"
  "Marshal wire_lib (Some example_lost) = Inr [3]" "Marshal wire_lib (Some example_reject) = Inr [4]"
  "MarshalWithName text_lib (Some ''hello'') = Inr (''pb.Text'', [1])"
  by code_simp+

lemma example_nodes:
  "nodeID serving = ''n2''" "nodeID node1 = ''n1''" "nodeID node2 = ''n2''" "outbox serving = []" "pid (procs serving ! 0) = echo2_pid"
  "nextRequestId (requests node1) + 1 = 42" "hands_over ''n1'' [2] serving" "hands_over ''n2'' bs node1" "hands_over ''n1'' bs node2"
  "getProcess (Some (pid_of ''gone'' ''n2'')) node2 = Inl ErrNotFound"
  by code_simp+

lemma example_env [simp]: "lib text_env = text_lib" "wire text_env = wire_lib"
  by (simp_all add: text_env_def)

lemma example_ref_next: "example_ref = \<lparr>ref_NodeID = nodeID node1, ref_RequestID = nextRequestId (requests node1) + 1\<rparr>"
  by (simp add: example_nodes example_ref_def)

theorem remote_ask_roundtrip_witness:
  "\<exists>A1 n B1 B2 B3 A2. Ask_send text_env (Some NoSender) (Some (pid_of ''echo'' ''n2'')) (Val ''hello'') 0 node1 = (A1, Inr n)
    \<and> OnMessage text_env ''n1'' [1] serving = (B1, None) \<and> do_event text_env echo (EProc 0 []) B1 = Some B2
    \<and> do_event text_env echo (EProc 0 []) B2 = Some B3 \<and> outbox B3 = [(''n1'', [2])]
    \<and> OnMessage text_env ''n2'' [2] A1 = (A2, None) \<and> Ask_receive n A2 = Some (Val ''hello'', None)"
proof -
  have h: "HandleAsk echo (Val ''hello'') (actor (procs serving ! 0)) = Ret (actor (procs serving ! 0) + 1) (Val ''hello'') None"
    by (simp add: echo_def)
  let ?t = "pid_of ''echo'' ''n2''"
  have nodes: "NodeID ?t = nodeID serving" "nodeID serving \<noteq> nodeID node1" "nodeID serving \<noteq> []" "nodeID node1 \<noteq> []"
    by (simp_all add: example_nodes pid_of_def)
  note enc = example_wire(5) [folded example_env]
  note ask = example_wire(1) [folded example_env, unfolded example_ask_def]
  have reply: "Marshal (wire text_env) (Some (case None of Some x \<Rightarrow> error_message x (Some (pid (procs serving ! 0))) example_ref
          | None \<Rightarrow> value_message ''pb.Text'' [1] (pid (procs serving ! 0)) example_ref)) = Inr [2]"
    using example_wire(2) by (simp add: example_nodes example_reply_def)
  note send = hands_over_sender [OF example_nodes(8) [of "[1]"], folded example_nodes(1)]
    hands_over_sender [OF example_nodes(7), folded example_nodes(2)]
  from remote_ask_roundtrip [OF sample_wire_ok serving_ready(4,2) nodes example_ref_next h refl enc enc ask reply send] show ?thesis
    unfolding example_nodes option.case append_Nil by blast
qed

theorem remote_ask_rejected_witness:
  "\<exists>A1 n B1 A2 e. Ask_send text_env (Some NoSender) (Some (pid_of ''gone'' ''n2'')) (Val ''hello'') 0 node1 = (A1, Inr n)
    \<and> OnMessage text_env ''n1'' [3] node2 = (B1, Some e) \<and> outbox B1 = outbox node2 @ [(''n1'', [4])]
    \<and> OnMessage text_env ''n2'' [4] A1 = (A2, None) \<and> Ask_receive n A2 = Some (NilV, Some (remote_error ErrNotFound))"
proof -
  let ?t = "pid_of ''gone'' ''n2''"
  have nodes: "NodeID ?t = nodeID node2" "nodeID node2 \<noteq> nodeID node1" "nodeID node2 \<noteq> []" "nodeID node1 \<noteq> []"
    by (simp_all add: example_nodes pid_of_def)
  have refused: "ErrNotFound = (case getProcess (Some ?t) node2 of Inl x \<Rightarrow> x
        | Inr i \<Rightarrow> if closing (procs node2 ! i) then ErrActorProcessStopped else ErrMailboxFull)"
      "\<And>i. getProcess (Some ?t) node2 = Inr i \<Longrightarrow> closing (procs node2 ! i) \<or> int (length (mailbox (procs node2 ! i))) \<ge> mb_capacity (procs node2 ! i)"
    by (simp_all add: example_nodes)
  note wire = example_wire(5,3,4) [folded example_env, unfolded example_lost_def example_reject_def]
  note send = hands_over_sender [OF example_nodes(8) [of "[3]"], folded example_nodes(3)]
    hands_over_sender [OF example_nodes(9) [of "[4]"], folded example_nodes(2)]
  from remote_ask_rejected [OF sample_wire_ok serving_ready(4) nodes example_ref_next refused wire send] show ?thesis
    unfolding example_nodes by blast
qed

end
