(* ===== verification/LogicalExamples.thy ===== *)
theory LogicalExamples
  imports LogicalMesh DirectoryExamples ActorExamples
begin

text \<open>
  Two nodes that share the small Redis of the directory's examples, and the properties of routing
  applied to them. The last two lemmas record what the code does at the edges of its assumptions.
\<close>

definition sample_discovery :: Discovery where
  "sample_discovery = \<lparr>Members = (\<lambda>_. [(''n1'', node_one)]), MemberById = (\<lambda>k. if k = ''n1'' then (node_one, True) else (no_node, False))\<rparr>"

definition first_node :: "nat \<Rightarrow> LActorID \<Rightarrow> nat \<times> LNodeInfo result" where
  "first_node n a = (n + 1, Inr node_one)"

lemma first_node_picks: "picks_from first_node {node_one, node_two}"
  by (simp add: picks_from_def first_node_def)

definition sample_route_env :: "nat \<Rightarrow> (((string \<times> string) list, (string \<times> Owner) list) directory, nat, string) route_env" where
  "sample_route_env i = \<lparr>re_pick = first_node, re_disc = sample_discovery, re_dir = redis_directory sample_dir_env i, re_act = text_env,
     mk_route = (\<lambda>_. ''hello''), as_route = (\<lambda>_. None), id_arg = ActorID_String\<rparr>"

definition sample_router :: "nat \<Rightarrow> (nat, nat, string, nat) Router" where
  "sample_router i = (Router_New (if i = 0 then node_one else node_two) True True True)
     \<lparr>placements := [(''p'', 0)], factories := [(''p'', \<lambda>_. (Some 7, \<lparr>Name = [], InitArgs = [], MailboxSize = 0\<rparr>))]\<rparr>"

definition sample_node :: "nat \<Rightarrow> (nat hosted, nat, string) System" where
  "sample_node i = fst (snd (the (startRouter (PlainActor 0) [1700000000001] (sample_router i)
     (NewSystemWithOptions (if i = 0 then ''n1'' else ''n2'') (Some (\<lambda>_ _. None)) sample_gen 41))))"

subsection \<open>Resolving\<close>

lemma nodes_differ: "inj_on NodeId {node_one, node_two}"
  by (simp add: node_one_def node_two_def)

theorem resolve_owner_alive_witness:
  "snd (snd (resolveOwner first_node sample_discovery (redis_directory sample_dir_env 1) player (sample_router 1) (sys_dir empty_sys))) = (node_one, None)
    \<and> isNodeAlive sample_discovery node_one"
proof -
  have r: "snd (snd (resolveOwner first_node sample_discovery (redis_directory sample_dir_env 1) player (sample_router 1) (sys_dir empty_sys))) = (node_one, None)"
    by code_simp
  then obtain router' d' where "resolveOwner first_node sample_discovery (redis_directory sample_dir_env 1) player (sample_router 1) (sys_dir empty_sys)
      = (router', d', node_one, None)"
    by (metis prod.collapse)
  moreover have "epoch_of (dir_tab sample_dir_env [] (sys_dir empty_sys)) player + 6 \<le> 2 ^ 53" by (simp add: empty_sys_tab)
  ultimately show ?thesis using r resolve_owner_alive [OF empty_dir_inv _ _ nodes_differ first_node_picks] by blast
qed

subsection \<open>A hop\<close>

text \<open>Node 0 owns the actor; a request for it reaches node 1.\<close>

definition sample_request :: RouteRequest where
  "sample_request = \<lparr>rr_ActorId = actorIDToProto player, rr_Owner = ownerToProto node_two, rr_Message = Some (projr (MessageToAny text_lib (Some ''hello''))), ForwardCount = 0\<rparr>"


subsection \<open>An activation\<close>

definition mesh0 :: "(((string \<times> string) list, (string \<times> Owner) list) directory, nat, nat, string) mesh" where
  "mesh0 = \<lparr>m_dir = sys_dir empty_sys, m_sys = sample_node, m_pc = (\<lambda>_. RIdle), m_owned = (\<lambda>_ _. None), m_alive = {0, 1}\<rparr>"

definition mesh1 :: "(((string \<times> string) list, (string \<times> Owner) list) directory, nat, nat, string) mesh" where
  "mesh1 = mesh0\<lparr>m_pc := (m_pc mesh0)(0 := RChecked player ''hello'')\<rparr>"

definition mesh2 :: "(((string \<times> string) list, (string \<times> Owner) list) directory, nat, nat, string) mesh" where
  "mesh2 = mesh1\<lparr>m_dir := fst (redis_AcquireOwner sample_dir_env 0 player node_one (sys_dir empty_sys)), m_pc := (m_pc mesh1)(0 := ROwns player ''hello'' node_one)\<rparr>"

definition activation :: "((((string \<times> string) list, (string \<times> Owner) list) directory) \<times> (nat hosted, nat, string) System \<times> err) option" where
  "activation = route_activate (sample_route_env 0) [1700000000001] (sample_router 0) 0 player ''hello'' node_one (m_dir mesh2) (sample_node 0)"

definition mesh3 :: "(((string \<times> string) list, (string \<times> Owner) list) directory, nat, nat, string) mesh" where
  "mesh3 = mesh2\<lparr>m_dir := fst (the activation), m_sys := (m_sys mesh2)(0 := fst (snd (the activation))), m_pc := (m_pc mesh2)(0 := RIdle),
     m_owned := (m_owned mesh2)(0 := (m_owned mesh2 0)(player := Some node_one))\<rparr>"

definition activated :: "((nat hosted, nat, string) System \<times> PID result) option" where
  "activated = activateActor (sample_route_env 0) [1700000000001] (sample_router 0) player node_one (sample_node 0)"

lemma activated_ok: "\<exists>s1 q. activated = Some (s1, Inr q) \<and> hosts s1 player"
proof -
  have ok: "\<not> Option.is_none activated" "\<not> isl (snd (the activated))" "hosts (fst (the activated)) player" by code_simp+
  from ok(1) obtain s1 y where a: "activated = Some (s1, y)" by (cases activated) auto
  from ok(2) show ?thesis using ok(3) by (cases y) (simp_all add: a)
qed

lemma activation_ok: "activation = Some (fst (the activation), fst (snd (the activation)), snd (snd (the activation)))" "hosts (fst (snd (the activation))) player"
proof -
  obtain s1 q where s1: "activated = Some (s1, Inr q)" "hosts s1 player" using activated_ok by blast
  obtain s2 e where f: "Process_forward text_env 0 (Some q) (Val ''hello'') s1 = (s2, e)" by fastforce
  obtain z where z: "activation = Some (m_dir mesh2, s2, z)"
    using s1(1) f unfolding activated_def activation_def route_activate_def by (simp add: sample_route_env_def)
  have "hosts s2 player" using hosts_cong [OF Process_forward_names(1) [of text_env 0 "Some q" "Val ''hello''" s1]] f s1(2) by simp
  then show "activation = Some (fst (the activation), fst (snd (the activation)), snd (snd (the activation)))" "hosts (fst (snd (the activation))) player"
    by (simp_all add: z)
qed

abbreviation sample_steps where
  "sample_steps \<equiv> mesh_step (dir_inv sample_dir_env map_of [] {player} {node_one, node_two}) (dir_tab sample_dir_env []) {player} sample_route_env sample_router"

lemma sample_check: "sample_steps mesh0 mesh1"
proof -
  have "\<not> hosts (m_sys mesh0 0) player" by code_simp
  then show ?thesis unfolding mesh1_def by (intro mesh_step.check) (simp_all add: mesh0_def)
qed

lemma sample_acquire: "sample_steps mesh1 mesh2"
proof -
  have "snd (redis_AcquireOwner sample_dir_env 0 player node_one (sys_dir empty_sys)) = Inr (node_one, True)" by code_simp
  then have y: "AcquireOwner (re_dir (sample_route_env 0)) player (local_node (sample_router 0)) (m_dir mesh1)
      = (m_dir mesh2, Inr (node_one, True))"
    by (simp add: prod_eq_iff mesh2_def mesh1_def mesh0_def sample_route_env_def sample_router_def Router_New_def redis_directory_def)
  have m: "mesh2 = mesh1\<lparr>m_dir := m_dir mesh2, m_pc := (m_pc mesh1)(0 := after_owner (sample_router 0) player ''hello'' (Inr (node_one, True)))\<rparr>"
    by (simp add: mesh2_def after_owner_def)
  show ?thesis
    by (subst m, rule mesh_step.acquire [where E = sample_route_env and R = sample_router and i = 0, OF _ _ _ y]) (simp_all add: mesh1_def mesh0_def empty_sys_tab)
qed

lemma mesh2_epoch: "epoch_of (dir_tab sample_dir_env [] (m_dir mesh2)) player = 1"
  by code_simp

lemma sample_activate: "sample_steps mesh2 mesh3"
proof -
  have m: "mesh3 = mesh2\<lparr>m_dir := fst (the activation), m_sys := (m_sys mesh2)(0 := fst (snd (the activation))), m_pc := (m_pc mesh2)(0 := RIdle),
      m_owned := (m_owned mesh2)(0 := (m_owned mesh2 0)(player := if hosts (fst (snd (the activation))) player then Some node_one else None))\<rparr>"
    using activation_ok(2) by (simp add: mesh3_def)
  have a: "route_activate (sample_route_env 0) [1700000000001] (sample_router 0) 0 player ''hello'' node_one (m_dir mesh2) (m_sys mesh2 0)
      = Some (fst (the activation), fst (snd (the activation)), snd (snd (the activation)))"
    using activation_ok(1) unfolding activation_def [symmetric] by (simp add: mesh2_def mesh1_def mesh0_def activation_def)
  show ?thesis
    by (subst m, rule mesh_step.activate [where E = sample_route_env and R = sample_router and i = 0 and s = mesh2, OF _ _ _ a]) (simp_all add: mesh2_epoch, simp_all add: mesh2_def mesh1_def mesh0_def)
qed


subsection \<open>At the edges\<close>

text \<open>The owner of one valid actor is stored under the key of another's epoch: \<^verbatim>\<open>Validate\<close> admits a key that
  ends in the suffix of the epoch keys.\<close>

lemma epoch_key_collision:
  "\<exists>a b. a \<noteq> b \<and> ActorID_Validate a = None \<and> ActorID_Validate b = None \<and> owner_key p a = epoch_key p b"
proof (intro exI conjI)
  let ?a = "\<lparr>la_Kind = ''p'', la_Key = ''1.epoch''\<rparr>"
  show "?a \<noteq> player" by (simp add: player_def)
  show "ActorID_Validate ?a = None" by code_simp
  show "ActorID_Validate player = None" by code_simp
  show "owner_key p ?a = epoch_key p player" by (simp add: owner_key_def epoch_key_def genRedisKey_def player_def ActorID_String_def)
qed

text \<open>
  Node 1 has cached an owner that is dead and whose lease has expired. \<^verbatim>\<open>DeleteOwner\<close> finds nothing to
  delete and leaves the cache as it is, so all three attempts of \<^verbatim>\<open>resolveOwner\<close> find the dead
  owner again, although the actor could be placed on a living node.
\<close>

definition stale_dir :: "((string \<times> string) list, (string \<times> Owner) list) directory" where
  "stale_dir = upd_dir 1 (trySetCached list_lru (ActorID_String player) \<lparr>Node = node_two, Epoch = 1\<rparr>) (sys_dir empty_sys)"

lemma stale_cache_blocks_resolution:
  "owner_of (dir_tab sample_dir_env [] stale_dir) player = None
   \<and> snd (snd (resolveOwner first_node sample_discovery (redis_directory sample_dir_env 1) player (sample_router 1) stale_dir))
      = (node_two, Some (Plain (''owner '' @ show_node node_two @ '' is dead'')))"
proof
  show "owner_of (dir_tab sample_dir_env [] stale_dir) player = None" by code_simp
  show "snd (snd (resolveOwner first_node sample_discovery (redis_directory sample_dir_env 1) player (sample_router 1) stale_dir))
      = (node_two, Some (Plain (''owner '' @ show_node node_two @ '' is dead'')))" by code_simp
qed

end
