(* ===== verification/Transport.thy ===== *)
theory Transport
  imports Connection "HOL-Library.AList"
begin

text \<open>
  \<^verbatim>\<open>cluster/transport/nettransport\<close>: the connections of a node to the other nodes, each with a peer that
  goes through the exchange of node identifiers.

  A \<^verbatim>\<open>*peer\<close> is an index into \<open>heap\<close>, a connection an index into \<open>conns\<close>; the connections are those of
  \<^verbatim>\<open>base_connection.go\<close>, their user data a peer or something else. \<open>delivered\<close> records the calls of
  the business handler, whose error is only logged.
\<close>

subsection \<open>peer.go\<close>

datatype PeerState = PeerStateIdle | PeerStateHandshaking | PeerStateConnected

record peer =
  remoteId :: string
  expected :: string
  peer_state :: PeerState
  peer_conn :: "nat option"

definition newPeer :: peer where
  "newPeer = \<lparr>remoteId = [], expected = [], peer_state = PeerStateIdle, peer_conn = None\<rparr>"

definition newPeerWithId :: "string \<Rightarrow> peer" where
  "newPeerWithId name = newPeer\<lparr>expected := name\<rparr>"

definition swapState :: "PeerState \<Rightarrow> PeerState \<Rightarrow> peer \<Rightarrow> peer \<times> bool" where
  "swapState old new p = (if peer_state p = old then (p\<lparr>peer_state := new\<rparr>, True) else (p, False))"

definition getRemoteId :: "peer \<Rightarrow> string" where
  "getRemoteId p = (if remoteId p = [] then expected p else remoteId p)"

definition bindRemoteId :: "string \<Rightarrow> peer \<Rightarrow> peer \<times> err" where
  "bindRemoteId name p =
     (if expected p \<noteq> [] \<and> name \<noteq> expected p then (p, Some (Plain ''remote peer id mismatch''))
      else (p\<lparr>remoteId := name\<rparr>, None))"

definition setConn :: "nat \<Rightarrow> peer \<Rightarrow> peer" where
  "setConn c p = p\<lparr>peer_conn := Some c\<rparr>"

subsection \<open>The transport\<close>

datatype user_data = PeerData nat | OtherData string

record Transport =
  localNodeID :: string
  listenAddr :: string
  has_handler :: bool
  tr_config :: TCPConfig
  heap :: "peer list"
  remoteToConn :: "(string \<times> nat) list"
  conns :: "user_data baseConn list"
  cancelled :: bool
  delivered :: "(nat \<times> string \<times> bytes) list"

definition ErrHandlerIsNil :: go_error where "ErrHandlerIsNil = Plain ''rpc business handler is nil''"
definition ErrPeerNotConnected :: go_error where "ErrPeerNotConnected = Plain ''rpc peer is not connected''"
definition ErrPeerState :: go_error where "ErrPeerState = Plain ''remote peer state error''"
definition ErrConnHelperNil :: go_error where "ErrConnHelperNil = Plain ''conn peer is nil''"
definition ErrConnHelperType :: go_error where "ErrConnHelperType = Plain ''conn peer type error''"

text \<open>The constants of the frames; \<^verbatim>\<open>iota\<close> is 1 at the action of the hello.\<close>

definition clusterMessageCommand :: byte where "clusterMessageCommand = 1"
definition clusterMessageActHello :: byte where "clusterMessageActHello = 1"
definition clusterMessageActData :: byte where "clusterMessageActData = 2"
definition clusterMessageActHeartbeat :: byte where "clusterMessageActHeartbeat = 3"

lemmas cluster_message_defs = clusterMessageCommand_def clusterMessageActHello_def clusterMessageActData_def clusterMessageActHeartbeat_def

definition NewTransportWithOptions :: "string \<Rightarrow> string \<Rightarrow> bool \<Rightarrow> TCPConfig option \<Rightarrow> Transport" where
  "NewTransportWithOptions node address handler config =
     \<lparr>localNodeID = node, listenAddr = address, has_handler = handler,
      tr_config = TCPConfig_Normalize (case config of None \<Rightarrow> DefaultTCPConfig [] | Some c \<Rightarrow> c),
      heap = [], remoteToConn = [], conns = [], cancelled = False, delivered = []\<rparr>"

definition newConfig :: "string \<Rightarrow> Transport \<Rightarrow> TCPConfig" where
  "newConfig address t = (tr_config t)\<lparr>Address := address\<rparr>"

definition heartbeatInterval :: "Transport \<Rightarrow> int" where
  "heartbeatInterval t = HeartbeatTimeout (tr_config t) div 2"

definition upd_peer :: "nat \<Rightarrow> (peer \<Rightarrow> peer) \<Rightarrow> Transport \<Rightarrow> Transport" where
  "upd_peer h f t = t\<lparr>heap := (heap t)[h := f (heap t ! h)]\<rparr>"

definition upd_conn :: "nat \<Rightarrow> (user_data baseConn \<Rightarrow> user_data baseConn) \<Rightarrow> Transport \<Rightarrow> Transport" where
  "upd_conn c f t = t\<lparr>conns := (conns t)[c := f (conns t ! c)]\<rparr>"

text \<open>\<^verbatim>\<open>conn.SendMessage\<close> on connection \<open>c\<close>\<close>

definition conn_send :: "nat \<Rightarrow> MessageFrame \<Rightarrow> Transport \<Rightarrow> Transport \<times> err" where
  "conn_send c frame t = (case SendMessage (conns t ! c) (Some frame) of (b, e) \<Rightarrow> (upd_conn c (\<lambda>_. b) t, e))"

definition peer_send :: "MessageFrame \<Rightarrow> nat \<Rightarrow> Transport \<Rightarrow> Transport \<times> err" where
  "peer_send frame h t =
     (case peer_conn (heap t ! h) of
        None \<Rightarrow> (t, Some (Plain ''peer conn nil ''))
      | Some c \<Rightarrow>
          if peer_state (heap t ! h) \<noteq> PeerStateConnected then (t, Some (Plain ''peer is not connected''))
          else conn_send c frame t)"

definition peer_close :: "nat \<Rightarrow> Transport \<Rightarrow> Transport" where
  "peer_close h t = (case peer_conn (heap t ! h) of None \<Rightarrow> t | Some c \<Rightarrow> upd_conn c (\<lambda>b. Close b None) t)"

subsection \<open>peer\_manager.go\<close>

definition peers_get :: "string \<Rightarrow> Transport \<Rightarrow> nat option" where
  "peers_get name t = map_of (remoteToConn t) name"

definition peers_set :: "string \<Rightarrow> nat \<Rightarrow> Transport \<Rightarrow> Transport" where
  "peers_set name h t = t\<lparr>remoteToConn := AList.update name h (remoteToConn t)\<rparr>"

definition peers_remove :: "string \<Rightarrow> nat \<Rightarrow> Transport \<Rightarrow> Transport" where
  "peers_remove name h t = (if peers_get name t \<noteq> Some h then t else t\<lparr>remoteToConn := AList.delete name (remoteToConn t)\<rparr>)"

text \<open>The order in which Go ranges over the copied map is an argument.\<close>

type_synonym peer_iter = "(string \<times> nat) list \<Rightarrow> (string \<times> nat) list"

definition snapshot :: "peer_iter \<Rightarrow> Transport \<Rightarrow> nat list" where
  "snapshot iter t = map snd (iter (remoteToConn t))"

subsection \<open>handler.go\<close>

definition string_bytes :: "string \<Rightarrow> bytes" where
  "string_bytes s = map (\<lambda>c. of_nat (of_char c)) s"

definition bytes_string :: "bytes \<Rightarrow> string" where
  "bytes_string bs = map (\<lambda>b. char_of (unat b)) bs"

definition show_peer_state :: "PeerState \<Rightarrow> string" where
  "show_peer_state s = (case s of PeerStateIdle \<Rightarrow> ''0'' | PeerStateHandshaking \<Rightarrow> ''1'' | PeerStateConnected \<Rightarrow> ''2'')"

text \<open>The type in the message is that of the variable \<^verbatim>\<open>p\<close>.\<close>

definition getPeer :: "nat \<Rightarrow> Transport \<Rightarrow> nat result" where
  "getPeer c t =
     (case UserData (conns t ! c) of
        None \<Rightarrow> Inl ErrConnHelperNil
      | Some (PeerData h) \<Rightarrow> Inr h
      | Some (OtherData _) \<Rightarrow> Inl (Wrap ''type:*nettransport.peer :'' ErrConnHelperType []))"

definition hello_frame :: "Transport \<Rightarrow> MessageFrame" where
  "hello_frame t = NewMessageFrame clusterMessageCommand clusterMessageActHello 0 (string_bytes (localNodeID t))"

definition attach_peer :: "nat \<Rightarrow> Transport \<Rightarrow> Transport" where
  "attach_peer c t =
     (if role (conns t ! c) = ConnectionRoleServer
      then upd_conn c (SetUserData (Some (PeerData (length (heap t))))) (t\<lparr>heap := heap t @ [newPeer]\<rparr>) else t)"

definition transport_OnConnected :: "nat \<Rightarrow> Transport \<Rightarrow> Transport \<times> err" where
  "transport_OnConnected c t0 =
     (let t = attach_peer c t0 in
      case getPeer c t of
        Inl e \<Rightarrow> (t, Some (Wrap ''rpc connected  '' e []))
      | Inr h \<Rightarrow>
          (let t = upd_peer h (setConn c) t in
           case swapState PeerStateIdle PeerStateHandshaking (heap t ! h) of
             (p, False) \<Rightarrow> (t, Some (Wrap (''rpc connected state:'' @ show_peer_state (peer_state p) @ '' '') ErrPeerState []))
           | (p, True) \<Rightarrow> conn_send c (hello_frame t) (upd_peer h (\<lambda>_. p) t)))"

text \<open>
  \<^verbatim>\<open>handleHello\<close> up to the lock of the peers, with the peer of the connection, and the rest. The
  heartbeat loop that it starts at the end is a goroutine of its own (\<open>heartbeat_tick\<close>).
\<close>

definition hello_bind :: "nat \<Rightarrow> MessageFrame \<Rightarrow> Transport \<Rightarrow> Transport \<times> nat result" where
  "hello_bind c message t =
     (let name = bytes_string (Body message) in
      if name = [] then (t, Inl (Plain ''remote id can not be empty''))
      else (case getPeer c t of
              Inl e \<Rightarrow> (t, Inl e)
            | Inr h \<Rightarrow>
                (case bindRemoteId name (heap t ! h) of
                   (p, Some e) \<Rightarrow> (t, Inl e)
                 | (p, None) \<Rightarrow> (upd_peer h (\<lambda>_. p) t, Inr h))))"

definition close_old :: "string \<Rightarrow> nat \<Rightarrow> Transport \<Rightarrow> Transport" where
  "close_old name h t = (case peers_get name t of None \<Rightarrow> t | Some old \<Rightarrow> if old \<noteq> h then peer_close old t else t)"

definition hello_register :: "string \<Rightarrow> nat \<Rightarrow> Transport \<Rightarrow> Transport \<times> err" where
  "hello_register name h t =
     (case swapState PeerStateHandshaking PeerStateConnected (heap t ! h) of
        (p, False) \<Rightarrow> (t, Some (Wrap (''state:'' @ show_peer_state (peer_state p) @ '' '') ErrPeerState []))
      | (p, True) \<Rightarrow> (peers_set name h (close_old name h (upd_peer h (\<lambda>_. p) t)), None))"

definition handleHello :: "nat \<Rightarrow> MessageFrame \<Rightarrow> Transport \<Rightarrow> Transport \<times> err" where
  "handleHello c message t =
     (case hello_bind c message t of
        (t, Inl e) \<Rightarrow> (t, Some e)
      | (t, Inr h) \<Rightarrow> hello_register (bytes_string (Body message)) h t)"

definition require_connected :: "nat \<Rightarrow> Transport \<Rightarrow> err" where
  "require_connected h t =
     (if peer_state (heap t ! h) \<noteq> PeerStateConnected
      then Some (Wrap (''state:'' @ show_peer_state (peer_state (heap t ! h)) @ '' '') ErrPeerState []) else None)"

definition handleData :: "nat \<Rightarrow> MessageFrame \<Rightarrow> Transport \<Rightarrow> Transport \<times> err" where
  "handleData c message t =
     (case getPeer c t of
        Inl e \<Rightarrow> (t, Some e)
      | Inr h \<Rightarrow>
          (case require_connected h t of
             Some e \<Rightarrow> (t, Some e)
           | None \<Rightarrow> (t\<lparr>delivered := delivered t @ [(c, getRemoteId (heap t ! h), Body message)]\<rparr>, None)))"

definition handleHeartbeat :: "nat \<Rightarrow> Transport \<Rightarrow> Transport \<times> err" where
  "handleHeartbeat c t = (case getPeer c t of Inl e \<Rightarrow> (t, Some e) | Inr h \<Rightarrow> (t, require_connected h t))"

definition transport_OnMessage :: "nat \<Rightarrow> MessageFrame \<Rightarrow> Transport \<Rightarrow> Transport \<times> err" where
  "transport_OnMessage c frame t =
     (let wrap = (\<lambda>text (t, e). (t, map_option (\<lambda>e. Wrap text e []) e)) in
      if MessageFrame_ID frame = CmdAct clusterMessageCommand clusterMessageActHello
      then wrap ''handle hello err:'' (handleHello c frame t)
      else if MessageFrame_ID frame = CmdAct clusterMessageCommand clusterMessageActData
      then wrap ''handle data err:'' (handleData c frame t)
      else if MessageFrame_ID frame = CmdAct clusterMessageCommand clusterMessageActHeartbeat
      then wrap ''handle heartbeat err:'' (handleHeartbeat c t)
      else (t, None))"

definition transport_OnClose :: "nat \<Rightarrow> Transport \<Rightarrow> Transport" where
  "transport_OnClose c t = (case getPeer c t of Inl e \<Rightarrow> t | Inr h \<Rightarrow> peers_remove (getRemoteId (heap t ! h)) h t)"

text \<open>A tick of \<^verbatim>\<open>runHeartbeatLoop\<close>, which does nothing without an interval; the error of the send is only logged.\<close>

definition heartbeat_tick :: "nat \<Rightarrow> Transport \<Rightarrow> Transport" where
  "heartbeat_tick c t =
     (if heartbeatInterval t \<le> 0 \<or> ctx_done (conns t ! c) then t
      else fst (conn_send c (NewMessageFrame clusterMessageCommand clusterMessageActHeartbeat 0 []) t))"

subsection \<open>transport.go\<close>

text \<open>\<^verbatim>\<open>listen\<close> starts a goroutine and cannot fail.\<close>

definition transport_Run :: "Transport \<Rightarrow> err" where
  "transport_Run t = (if \<not> has_handler t then Some ErrHandlerIsNil else None)"

definition ConnectionState_of :: "string \<Rightarrow> Transport \<Rightarrow> PeerState" where
  "ConnectionState_of name t = (case peers_get name t of None \<Rightarrow> PeerStateIdle | Some h \<Rightarrow> peer_state (heap t ! h))"

text \<open>
  \<^verbatim>\<open>Connect\<close> up to the call of \<^verbatim>\<open>DialTCP\<close>: \<open>Inr None\<close> when the peer is registered already, \<open>Inr (Some h)\<close>
  with the peer to dial. \<open>dialed\<close> is what follows on the result of \<^verbatim>\<open>DialTCP\<close>.
\<close>

definition Connect_register :: "string \<Rightarrow> Transport \<Rightarrow> Transport \<times> nat option result" where
  "Connect_register name t =
     (if localNodeID t = name then (t, Inl (Plain (''rpc connect connect local:'' @ name)))
      else if \<not> has_handler t then (t, Inl ErrHandlerIsNil)
      else (case peers_get name t of
              Some _ \<Rightarrow> (t, Inr None)
            | None \<Rightarrow> (peers_set name (length (heap t)) (t\<lparr>heap := heap t @ [newPeerWithId name]\<rparr>), Inr (Some (length (heap t))))))"

definition context_Canceled :: go_error where "context_Canceled = Plain ''context canceled''"

definition dialed :: "string \<Rightarrow> nat \<Rightarrow> nat result \<Rightarrow> Transport \<Rightarrow> Transport \<times> err" where
  "dialed name h r t =
     (case r of
        Inl e \<Rightarrow> (peers_remove name h t, Some e)
      | Inr c \<Rightarrow>
          if cancelled t then (peers_remove name h (upd_conn c (\<lambda>b. Close b (Some context_Canceled)) t), Some context_Canceled)
          else (t, None))"

text \<open>\<^verbatim>\<open>DialTCP\<close> makes the connection, with the peer as its user data, once the socket is open; the base
  connection of the \<^verbatim>\<open>TCPConnection\<close> is all that the transport works with.\<close>

definition dial_connection :: "string \<Rightarrow> nat \<Rightarrow> 64 word \<Rightarrow> int \<Rightarrow> bool list \<Rightarrow> Transport \<Rightarrow> Transport" where
  "dial_connection address h cid now ps t =
     t\<lparr>conns := conns t @ [SetUserData (Some (PeerData h)) (newBaseConnWithRole cid (CommonConfig.truncate (TCPConfig_Normalize (newConfig address t))) ConnectionRoleClient now ps)]\<rparr>"

text \<open>What \<^verbatim>\<open>TCPServer.Run\<close> does for an accepted socket, before it starts the connection.\<close>

definition accept_connection :: "64 word \<Rightarrow> int \<Rightarrow> bool list \<Rightarrow> Transport \<Rightarrow> Transport" where
  "accept_connection cid now ps t =
     t\<lparr>conns := conns t @ [newBaseConnWithRole cid (CommonConfig.truncate (TCPConfig_Normalize (newConfig (listenAddr t) t))) ConnectionRoleServer now ps]\<rparr>"

definition Disconnect :: "string \<Rightarrow> Transport \<Rightarrow> Transport \<times> err" where
  "Disconnect name t =
     (case peers_get name t of
        None \<Rightarrow> (t, Some (Plain (''rpc peer not exist:'' @ name)))
      | Some h \<Rightarrow> (peer_close h t, None))"

definition transport_send :: "bytes \<Rightarrow> nat \<Rightarrow> Transport \<Rightarrow> Transport \<times> err" where
  "transport_send data h t = peer_send (NewMessageFrame clusterMessageCommand clusterMessageActData 0 data) h t"

definition transport_Send :: "string \<Rightarrow> bytes \<Rightarrow> Transport \<Rightarrow> Transport \<times> err" where
  "transport_Send name data t =
     (case peers_get name t of
        None \<Rightarrow> (t, Some ErrPeerNotConnected)
      | Some h \<Rightarrow> if peer_state (heap t ! h) \<noteq> PeerStateConnected then (t, Some ErrPeerNotConnected) else transport_send data h t)"

definition transport_Broadcast :: "peer_iter \<Rightarrow> bytes \<Rightarrow> Transport \<Rightarrow> Transport \<times> err" where
  "transport_Broadcast iter data t = (fold (\<lambda>h t. fst (transport_send data h t)) (snapshot iter t) t, None)"

definition transport_Close :: "peer_iter \<Rightarrow> Transport \<Rightarrow> Transport" where
  "transport_Close iter t = fold peer_close (snapshot iter t) (t\<lparr>cancelled := True\<rparr>)"

end
