(* ===== verification/TransportInv.thy ===== *)
theory TransportInv
  imports Transport
begin

text \<open>
  The transport of a node while it runs: calls of \<^verbatim>\<open>Connect\<close>, accepted sockets and the callbacks of its
  connections interleave. The operations are cut where they leave a lock: \<open>dialing\<close> are the calls of
  \<^verbatim>\<open>Connect\<close> that wait in \<^verbatim>\<open>DialTCP\<close> (with the connection, once it exists), \<open>helloing\<close> the calls of
  \<^verbatim>\<open>handleHello\<close> between binding the identifier and the lock of the peers, \<open>closing\<close> the calls of
  \<^verbatim>\<open>OnClose\<close> that have read the identifier and not yet removed the peer.

  What happens inside a connection (\<open>conn_moves\<close>) neither changes its role nor its user data, and a
  closed connection stays closed. The node at the other end of connection \<open>c\<close> calls itself \<open>nm c\<close>.
\<close>

definition conn_moves :: "user_data baseConn \<Rightarrow> user_data baseConn \<Rightarrow> bool" where
  "conn_moves b b' \<longleftrightarrow> role b' = role b \<and> userData b' = userData b \<and> (events b' = [] \<longrightarrow> events b = [])
     \<and> (state b = ConnectionStateClosed \<longrightarrow> state b' = ConnectionStateClosed)"

record tsys =
  tr :: Transport
  dialing :: "(string \<times> nat \<times> nat option) set"
  helloing :: "(nat \<times> nat) set"
  closing :: "(nat \<times> string \<times> nat) set"

inductive tr_step :: "(nat \<Rightarrow> string) \<Rightarrow> tsys \<Rightarrow> tsys \<Rightarrow> bool" for nm where
  connect: "name \<noteq> [] \<Longrightarrow> Connect_register name (tr s) = (t, Inr (Some h)) \<Longrightarrow>
    tr_step nm s (s\<lparr>tr := t, dialing := insert (name, h, None) (dialing s)\<rparr>)"
| dial_open: "(name, h, None) \<in> dialing s \<Longrightarrow>
    tr_step nm s (s\<lparr>tr := dial_connection address h cid now ps (tr s),
      dialing := insert (name, h, Some (length (conns (tr s)))) (dialing s - {(name, h, None)})\<rparr>)"
| dial_refused: "(name, h, None) \<in> dialing s \<Longrightarrow> dialed name h (Inl e) (tr s) = (t, r) \<Longrightarrow>
    tr_step nm s (s\<lparr>tr := t, dialing := dialing s - {(name, h, None)}\<rparr>)"
| dial_failed: "(name, h, Some c) \<in> dialing s \<Longrightarrow> state (conns (tr s) ! c) = ConnectionStateClosed \<Longrightarrow> dialed name h (Inl e) (tr s) = (t, r) \<Longrightarrow>
    tr_step nm s (s\<lparr>tr := t, dialing := dialing s - {(name, h, Some c)}\<rparr>)"
| dial_done: "(name, h, Some c) \<in> dialing s \<Longrightarrow> dialed name h (Inr c) (tr s) = (t, r) \<Longrightarrow>
    tr_step nm s (s\<lparr>tr := t, dialing := dialing s - {(name, h, Some c)}\<rparr>)"
| accept: "tr_step nm s (s\<lparr>tr := accept_connection cid now ps (tr s)\<rparr>)"
| connected: "c < length (conns (tr s)) \<Longrightarrow> events (conns (tr s) ! c) = [] \<Longrightarrow>
    transport_OnConnected c (upd_conn c (log_event OnConnected) (tr s)) = (t, e) \<Longrightarrow>
    tr_step nm s (s\<lparr>tr := t\<rparr>)"
| hello: "c < length (conns (tr s)) \<Longrightarrow> OnConnected \<in> set (events (conns (tr s) ! c)) \<Longrightarrow> bytes_string (Body f) = nm c \<Longrightarrow>
    hello_bind c f (upd_conn c (log_event (OnMessage f)) (tr s)) = (t, r) \<Longrightarrow>
    tr_step nm s (s\<lparr>tr := t, helloing := (case r of Inl e \<Rightarrow> helloing s | Inr h \<Rightarrow> insert (c, h) (helloing s))\<rparr>)"
| register: "(c, h) \<in> helloing s \<Longrightarrow> hello_register (nm c) h (tr s) = (t, e) \<Longrightarrow>
    tr_step nm s (s\<lparr>tr := t, helloing := helloing s - {(c, h)}\<rparr>)"
| data: "c < length (conns (tr s)) \<Longrightarrow> OnConnected \<in> set (events (conns (tr s) ! c)) \<Longrightarrow>
    handleData c f (upd_conn c (log_event (OnMessage f)) (tr s)) = (t, e) \<Longrightarrow>
    tr_step nm s (s\<lparr>tr := t\<rparr>)"
| close_read: "c < length (conns (tr s)) \<Longrightarrow> state (conns (tr s) ! c) = ConnectionStateClosed \<Longrightarrow> getPeer c (tr s) = Inr h \<Longrightarrow>
    tr_step nm s (s\<lparr>tr := upd_conn c (log_event (OnClose z)) (tr s), closing := insert (c, getRemoteId (heap (tr s) ! h), h) (closing s)\<rparr>)"
| close_remove: "(c, name, h) \<in> closing s \<Longrightarrow>
    tr_step nm s (s\<lparr>tr := peers_remove name h (tr s), closing := closing s - {(c, name, h)}\<rparr>)"
| moves: "c < length (conns (tr s)) \<Longrightarrow> conn_moves (conns (tr s) ! c) b \<Longrightarrow> tr_step nm s (s\<lparr>tr := upd_conn c (\<lambda>_. b) (tr s)\<rparr>)"
| send: "transport_Send name bs (tr s) = (t, e) \<Longrightarrow> tr_step nm s (s\<lparr>tr := t\<rparr>)"
| broadcast: "transport_Broadcast iter bs (tr s) = (t, e) \<Longrightarrow> tr_step nm s (s\<lparr>tr := t\<rparr>)"
| heartbeat: "tr_step nm s (s\<lparr>tr := heartbeat_tick c (tr s)\<rparr>)"
| disconnect: "Disconnect name (tr s) = (t, e) \<Longrightarrow> tr_step nm s (s\<lparr>tr := t\<rparr>)"
| shutdown: "tr_step nm s (s\<lparr>tr := transport_Close iter (tr s)\<rparr>)"

inductive tr_reachable :: "(nat \<Rightarrow> string) \<Rightarrow> tsys \<Rightarrow> tsys \<Rightarrow> bool" for nm s0 where
  tr_start: "tr_reachable nm s0 s0"
| tr_next: "tr_reachable nm s0 s \<Longrightarrow> tr_step nm s s' \<Longrightarrow> tr_reachable nm s0 s'"

definition fresh_tsys :: "Transport \<Rightarrow> tsys" where
  "fresh_tsys t = \<lparr>tr = t, dialing = {}, helloing = {}, closing = {}\<rparr>"

subsection \<open>Moves of the connections\<close>

definition tr_moves :: "Transport \<Rightarrow> Transport \<Rightarrow> bool" where
  "tr_moves t t' \<longleftrightarrow> heap t' = heap t \<and> remoteToConn t' = remoteToConn t \<and> delivered t' = delivered t \<and> localNodeID t' = localNodeID t
     \<and> list_all2 conn_moves (conns t) (conns t')"

lemma conn_moves_refl [simp]: "conn_moves b b"
  by (simp add: conn_moves_def)

lemma conn_moves_trans: "conn_moves a b \<Longrightarrow> conn_moves b c \<Longrightarrow> conn_moves a c"
  by (simp add: conn_moves_def)

lemma tr_moves_refl [simp]: "tr_moves t t"
  by (simp add: tr_moves_def list.rel_refl)

lemma tr_moves_trans: "tr_moves s t \<Longrightarrow> tr_moves t u \<Longrightarrow> tr_moves s u"
  using list_all2_trans [of conn_moves conn_moves conn_moves] conn_moves_trans unfolding tr_moves_def by metis

lemma tr_moves_upd:
  assumes "conn_moves (conns t ! c) (f (conns t ! c))"
  shows "tr_moves t (upd_conn c f t)"
proof -
  have "conn_moves (conns t ! i) ((conns t)[c := f (conns t ! c)] ! i)" if "i < length (conns t)" for i
    using assms that by (cases "c = i") auto
  then show ?thesis by (simp add: tr_moves_def upd_conn_def list_all2_conv_all_nth)
qed

lemma SendMessage_keeps:
  "role (fst (SendMessage b f)) = role b" "userData (fst (SendMessage b f)) = userData b" "events (fst (SendMessage b f)) = events b"
  "state (fst (SendMessage b f)) = state b"
  by (auto simp: SendMessage_def sendFrame_def encrypt_def pushQueue_def enqueue_def split: option.splits sum.splits prod.splits if_splits list.splits bool.splits)

lemma SendMessage_conn_moves: "conn_moves b (fst (SendMessage b f))"
  by (simp add: conn_moves_def SendMessage_keeps)

lemma Close_conn_moves: "conn_moves b (Close b e)" "state (Close b e) = ConnectionStateClosed"
  by (auto simp: conn_moves_def Close_def stop_timer_def)

lemma log_event_conn_moves: "conn_moves b (log_event ev b)"
  by (simp add: conn_moves_def log_event_def)

lemma tr_moves_log: "tr_moves t (upd_conn c (log_event ev) t)"
  by (rule tr_moves_upd) (rule log_event_conn_moves)

lemma tr_moves_conn_send: "tr_moves t (fst (conn_send c f t))"
  using SendMessage_conn_moves [of "conns t ! c" "Some f"]
  by (cases "SendMessage (conns t ! c) (Some f)") (auto simp: conn_send_def intro!: tr_moves_upd)

lemma tr_moves_peer_close: "tr_moves t (peer_close h t)"
  by (auto simp: peer_close_def intro: tr_moves_upd Close_conn_moves split: option.splits)

lemma tr_moves_send: "tr_moves t (fst (transport_send bs h t))"
  by (auto simp: transport_send_def peer_send_def tr_moves_conn_send split: option.splits)

lemma tr_moves_fold: "(\<And>h t. tr_moves t (f h t)) \<Longrightarrow> tr_moves t (fold f hs t)"
  by (induction hs arbitrary: t) (auto intro: tr_moves_trans)

lemma tr_moves_ops:
  "tr_moves t (fst (transport_Send name bs t))" "tr_moves t (fst (transport_Broadcast iter bs t))" "tr_moves t (heartbeat_tick c t)"
  "tr_moves t (fst (Disconnect name t))" "tr_moves t (transport_Close iter t)"
proof -
  show "tr_moves t (fst (transport_Send name bs t))" by (auto simp: transport_Send_def tr_moves_send split: option.splits)
  show "tr_moves t (fst (transport_Broadcast iter bs t))" by (simp add: transport_Broadcast_def tr_moves_fold tr_moves_send)
  show "tr_moves t (heartbeat_tick c t)" by (simp add: heartbeat_tick_def tr_moves_conn_send)
  show "tr_moves t (fst (Disconnect name t))" by (auto simp: Disconnect_def tr_moves_peer_close split: option.splits)
  have "tr_moves t (t\<lparr>cancelled := True\<rparr>)" by (simp add: tr_moves_def list.rel_refl)
  then show "tr_moves t (transport_Close iter t)"
    unfolding transport_Close_def by (rule tr_moves_trans) (intro tr_moves_fold tr_moves_peer_close)
qed

subsection \<open>The invariant\<close>

text \<open>\<open>link t c h\<close>: connection \<open>c\<close> has peer \<open>h\<close>.\<close>

definition link :: "Transport \<Rightarrow> nat \<Rightarrow> nat \<Rightarrow> bool" where
  "link t c h \<longleftrightarrow> c < length (conns t) \<and> userData (conns t ! c) = Some (PeerData h)"

definition is_closed :: "Transport \<Rightarrow> nat \<Rightarrow> bool" where
  "is_closed t c \<longleftrightarrow> c < length (conns t) \<and> state (conns t ! c) = ConnectionStateClosed"

text \<open>A peer belongs to one connection, and a server connection has none before \<^verbatim>\<open>OnConnected\<close>.\<close>

definition links_ok :: "Transport \<Rightarrow> bool" where
  "links_ok t \<longleftrightarrow> (\<forall>c h. link t c h \<longrightarrow> h < length (heap t))
     \<and> (\<forall>c c' h. link t c h \<longrightarrow> link t c' h \<longrightarrow> c = c')
     \<and> (\<forall>c < length (conns t). role (conns t ! c) = ConnectionRoleServer \<longrightarrow> events (conns t ! c) = [] \<longrightarrow> userData (conns t ! c) = None)"

definition peer_ok :: "(nat \<Rightarrow> string) \<Rightarrow> Transport \<Rightarrow> nat \<Rightarrow> peer \<Rightarrow> bool" where
  "peer_ok nm t h p \<longleftrightarrow>
     (\<forall>c. peer_conn p = Some c \<longrightarrow> link t c h)
     \<and> (peer_state p \<noteq> PeerStateIdle \<longrightarrow> peer_conn p \<noteq> None)
     \<and> (remoteId p \<noteq> [] \<longrightarrow> (\<exists>c. link t c h \<and> remoteId p = nm c) \<and> expected p \<in> {[], remoteId p})
     \<and> (peer_state p = PeerStateConnected \<longrightarrow> remoteId p \<noteq> [])"

definition calls_ok :: "(nat \<Rightarrow> string) \<Rightarrow> tsys \<Rightarrow> bool" where
  "calls_ok nm s \<longleftrightarrow>
     (\<forall>name h. (name, h, None) \<in> dialing s \<longrightarrow> h < length (heap (tr s)) \<and> expected (heap (tr s) ! h) = name \<and> (\<forall>c. \<not> link (tr s) c h))
     \<and> (\<forall>name h c. (name, h, Some c) \<in> dialing s \<longrightarrow> link (tr s) c h)
     \<and> (\<forall>c h. (c, h) \<in> helloing s \<longrightarrow> link (tr s) c h \<and> remoteId (heap (tr s) ! h) = nm c \<and> nm c \<noteq> [])
     \<and> (\<forall>c name h. (c, name, h) \<in> closing s \<longrightarrow> link (tr s) c h \<and> is_closed (tr s) c)"

text \<open>A registered peer is registered under its identifier; a connected peer that is not has a closed connection.\<close>

definition table_ok :: "(nat \<Rightarrow> string) \<Rightarrow> Transport \<Rightarrow> bool" where
  "table_ok nm t \<longleftrightarrow>
     (\<forall>name h. peers_get name t = Some h \<longrightarrow> h < length (heap t) \<and> getRemoteId (heap t ! h) = name \<and> name \<noteq> [])
     \<and> (\<forall>h < length (heap t). \<forall>c. peer_state (heap t ! h) = PeerStateConnected \<longrightarrow> peer_conn (heap t ! h) = Some c \<longrightarrow>
          peers_get (nm c) t = Some h \<or> is_closed t c)"

definition tr_inv :: "(nat \<Rightarrow> string) \<Rightarrow> tsys \<Rightarrow> bool" where
  "tr_inv nm s \<longleftrightarrow> links_ok (tr s) \<and> (\<forall>h < length (heap (tr s)). peer_ok nm (tr s) h (heap (tr s) ! h)) \<and> calls_ok nm s \<and> table_ok nm (tr s)
     \<and> (\<forall>(c, name, bs) \<in> set (delivered (tr s)). name = nm c)"

lemma tr_movesD:
  assumes "tr_moves t t'"
  shows "heap t' = heap t" "delivered t' = delivered t" "peers_get name t' = peers_get name t" "link t' c h = link t c h"
    "is_closed t c \<Longrightarrow> is_closed t' c" "length (conns t') = length (conns t)"
    "c < length (conns t) \<Longrightarrow> role (conns t' ! c) = role (conns t ! c) \<and> (events (conns t' ! c) = [] \<longrightarrow> events (conns t ! c) = [])
        \<and> userData (conns t' ! c) = userData (conns t ! c)"
  using assms
  by (auto simp: tr_moves_def peers_get_def link_def is_closed_def conn_moves_def dest: list_all2_lengthD list_all2_nthD2 list_all2_nthD)

lemma links_ok_moves: "tr_moves t t' \<Longrightarrow> links_ok t \<Longrightarrow> links_ok t'"
  using tr_movesD(1,4,6,7) [of t t'] by (auto simp: links_ok_def)

lemma tr_inv_moves:
  assumes "tr_inv nm s" "tr_moves (tr s) t"
  shows "tr_inv nm (s\<lparr>tr := t\<rparr>)"
proof -
  note d = tr_movesD [OF assms(2)]
  have "links_ok t" using assms links_ok_moves by (auto simp: tr_inv_def)
  moreover have "peer_ok nm t h p = peer_ok nm (tr s) h p" for h p by (simp add: peer_ok_def d(4))
  moreover have "calls_ok nm (s\<lparr>tr := t\<rparr>)" using assms(1) d(1,4,5) by (auto simp: tr_inv_def calls_ok_def)
  moreover have "table_ok nm t" using assms(1) d(1,3,5) unfolding tr_inv_def table_ok_def by simp blast
  ultimately show ?thesis using assms(1) d(1,2) by (simp add: tr_inv_def)
qed

lemma tr_invD:
  assumes "tr_inv nm s"
  shows "links_ok (tr s)" "h < length (heap (tr s)) \<Longrightarrow> peer_ok nm (tr s) h (heap (tr s) ! h)" "calls_ok nm s" "table_ok nm (tr s)"
    "(c, name, bs) \<in> set (delivered (tr s)) \<Longrightarrow> name = nm c" "link (tr s) c h \<Longrightarrow> h < length (heap (tr s))"
    "link (tr s) c h \<Longrightarrow> link (tr s) c' h \<Longrightarrow> c = c'"
  using assms by (auto simp: tr_inv_def links_ok_def)

lemma tr_inv_calls:
  assumes "tr_inv nm s" "D \<subseteq> dialing s" "H \<subseteq> helloing s" "C \<subseteq> closing s"
  shows "tr_inv nm (s\<lparr>dialing := D, helloing := H, closing := C\<rparr>)"
  using assms unfolding tr_inv_def calls_ok_def by simp (meson subsetD)

lemma peers_get_simps [simp]:
  "peers_get name (t\<lparr>heap := P\<rparr>) = peers_get name t" "peers_get name (t\<lparr>conns := cs\<rparr>) = peers_get name t"
  "peers_get name (peers_set name' h t) = (if name = name' then Some h else peers_get name t)"
  "peers_get name (peers_remove name' h t) = (if name = name' \<and> peers_get name' t = Some h then None else peers_get name t)"
  "peers_get name (upd_peer h f t) = peers_get name t" "peers_get name (upd_conn c g t) = peers_get name t"
  by (auto simp: peers_get_def peers_set_def peers_remove_def upd_peer_def upd_conn_def update_conv' AList.delete_conv')

lemma table_ops_keep [simp]:
  "heap (peers_set name h t) = heap t" "conns (peers_set name h t) = conns t" "delivered (peers_set name h t) = delivered t"
  "heap (peers_remove name h t) = heap t" "conns (peers_remove name h t) = conns t" "delivered (peers_remove name h t) = delivered t"
  "conns (upd_peer h f t) = conns t" "delivered (upd_peer h f t) = delivered t" "heap (upd_conn c g t) = heap t" "delivered (upd_conn c g t) = delivered t"
  "heap (upd_peer h f t) = (heap t)[h := f (heap t ! h)]"
  by (auto simp: peers_set_def peers_remove_def upd_peer_def upd_conn_def)

lemma link_keep:
  assumes "conns t' = conns t"
  shows "link t' c h = link t c h" "is_closed t' c = is_closed t c"
  using assms by (simp_all add: link_def is_closed_def)

lemma peer_ok_cong: "(\<And>c. link t' c h = link t c h) \<Longrightarrow> peer_ok nm t' h p = peer_ok nm t h p"
  by (simp add: peer_ok_def)

lemma links_ok_cong:
  assumes "conns t' = conns t" "length (heap t) \<le> length (heap t')"
  shows "links_ok t \<Longrightarrow> links_ok t'"
  using assms(2) unfolding links_ok_def by (auto simp: assms(1) link_keep [OF assms(1)] dest: less_le_trans)

lemma newPeerWithId_simps [simp]:
  "getRemoteId (newPeerWithId name) = name" "peer_state (newPeerWithId name) = PeerStateIdle" "expected (newPeerWithId name) = name"
  "remoteId (newPeerWithId name) = []" "peer_conn (newPeerWithId name) = None"
  by (simp_all add: newPeerWithId_def newPeer_def getRemoteId_def)

lemma tr_inv_connect:
  assumes inv: "tr_inv nm s" and "name \<noteq> []" and c: "Connect_register name (tr s) = (t, Inr (Some h))"
  shows "tr_inv nm (s\<lparr>tr := t, dialing := insert (name, h, None) (dialing s)\<rparr>)"
proof -
  let ?P = "heap (tr s)"
  have t: "h = length ?P" "t = peers_set name h ((tr s)\<lparr>heap := ?P @ [newPeerWithId name]\<rparr>)" "peers_get name (tr s) = None"
    using c by (auto simp: Connect_register_def split: if_splits option.splits)
  have cs: "conns t = conns (tr s)" and hp: "heap t = ?P @ [newPeerWithId name]" by (simp_all add: t(2))
  have lk: "link t c g = link (tr s) c g" "is_closed t c = is_closed (tr s) c" for c g using link_keep [OF cs] by simp_all
  have "peer_ok nm t g (heap t ! g)" if "g < length (heap t)" for g
    using tr_invD(2) [OF inv, of g] that peer_ok_cong [of t g "tr s"] lk
    by (cases "g < length ?P") (auto simp: hp nth_append peer_ok_def)
  moreover have "calls_ok nm (s\<lparr>tr := t, dialing := insert (name, h, None) (dialing s)\<rparr>)"
    using tr_invD(3) [OF inv] tr_invD(6) [OF inv] unfolding calls_ok_def
    by (auto simp: lk hp nth_append t(1) less_Suc_eq) blast
  moreover have get: "peers_get n t = (if n = name then Some h else peers_get n (tr s))" for n by (simp add: t(2))
  have "table_ok nm t" using tr_invD(4) [OF inv] assms(2) t(3) unfolding table_ok_def
    by (auto simp: lk hp get nth_append t(1) less_Suc_eq)
  moreover have "links_ok t" using links_ok_cong [OF cs _ tr_invD(1) [OF inv]] hp by simp
  ultimately show ?thesis using inv by (simp add: tr_inv_def t(2))
qed

lemma link_append:
  "link (t\<lparr>conns := conns t @ [b]\<rparr>) c h \<longleftrightarrow> link t c h \<or> c = length (conns t) \<and> userData b = Some (PeerData h)"
  "is_closed t c \<Longrightarrow> is_closed (t\<lparr>conns := conns t @ [b]\<rparr>) c"
  by (auto simp: link_def is_closed_def nth_append less_Suc_eq)

text \<open>A new connection, with a peer that has none yet, or without a peer.\<close>

lemma tr_inv_new_conn:
  assumes inv: "tr_inv nm s" and b: "case userData b of None \<Rightarrow> True | Some (PeerData h) \<Rightarrow> role b = ConnectionRoleClient \<and> h < length (heap (tr s)) \<and> (\<forall>c. \<not> link (tr s) c h)
      | Some (OtherData _) \<Rightarrow> False"
    and D: "\<And>name h. (name, h, None) \<in> D \<Longrightarrow> (name, h, None) \<in> dialing s \<and> userData b \<noteq> Some (PeerData h)"
      "\<And>name h c. (name, h, Some c) \<in> D \<Longrightarrow> (name, h, Some c) \<in> dialing s \<or> c = length (conns (tr s)) \<and> userData b = Some (PeerData h)"
  shows "tr_inv nm (s\<lparr>tr := (tr s)\<lparr>conns := conns (tr s) @ [b]\<rparr>, dialing := D\<rparr>)"
proof -
  let ?t = "(tr s)\<lparr>conns := conns (tr s) @ [b]\<rparr>"
  note lk = link_append [where t = "tr s" and b = b]
  have "links_ok ?t" using tr_invD(1) [OF inv] b unfolding links_ok_def
    by (auto simp: lk(1) nth_append less_Suc_eq link_def split: option.splits user_data.splits)
  moreover have "peer_ok nm ?t h p" if "peer_ok nm (tr s) h p" for h p using that unfolding peer_ok_def by (auto simp: lk(1))
  moreover have "calls_ok nm (s\<lparr>tr := ?t, dialing := D\<rparr>)" using tr_invD(3) [OF inv] D lk(2) unfolding calls_ok_def
    by (auto simp: lk(1)) blast+
  moreover have "table_ok nm ?t" using tr_invD(4) [OF inv] lk(2) unfolding table_ok_def by simp blast
  ultimately show ?thesis using inv by (simp add: tr_inv_def)
qed

text \<open>Removing a peer whose connection is closed, or which is not connected.\<close>

lemma tr_inv_remove:
  assumes inv: "tr_inv nm s" and "\<And>c. peer_state (heap (tr s) ! h) = PeerStateConnected \<Longrightarrow> peer_conn (heap (tr s) ! h) = Some c \<Longrightarrow> is_closed (tr s) c"
  shows "tr_inv nm (s\<lparr>tr := peers_remove name h (tr s)\<rparr>)"
proof -
  let ?t = "peers_remove name h (tr s)"
  have lk: "link ?t c g = link (tr s) c g" "is_closed ?t c = is_closed (tr s) c" for c g using link_keep [of ?t "tr s"] by simp_all
  have "links_ok ?t" by (rule links_ok_cong [OF _ _ tr_invD(1) [OF inv]]) simp_all
  moreover have "calls_ok nm (s\<lparr>tr := ?t\<rparr>)" using tr_invD(3) [OF inv] by (simp add: calls_ok_def lk)
  moreover have "table_ok nm ?t" using tr_invD(4) [OF inv] assms(2) unfolding table_ok_def by (auto simp: lk) fastforce
  ultimately show ?thesis using inv by (simp add: tr_inv_def peer_ok_cong [OF lk(1)])
qed

text \<open>The connection of a peer, if it has one, is the one that is linked to it.\<close>

lemma peer_conn_link:
  assumes "tr_inv nm s" "link (tr s) c h" "peer_conn (heap (tr s) ! h) = Some c'"
  shows "c' = c"
  using tr_invD(2) [OF assms(1) tr_invD(6) [OF assms(1,2)]] tr_invD(7) [OF assms(1,2)] assms(3) by (auto simp: peer_ok_def)

lemma tr_inv_dialed:
  assumes inv: "tr_inv nm s" and d: "dialed name h r (tr s) = (t, e)"
    and r: "case r of Inl _ \<Rightarrow> (\<forall>c. link (tr s) c h \<longrightarrow> is_closed (tr s) c) \<and> h < length (heap (tr s)) | Inr c \<Rightarrow> link (tr s) c h"
  shows "tr_inv nm (s\<lparr>tr := t\<rparr>)"
proof (cases r)
  case (Inl z)
  then have "peer_ok nm (tr s) h (heap (tr s) ! h)" using tr_invD(2) [OF inv] r by simp
  then show ?thesis using Inl d r by (auto simp: dialed_def peer_ok_def intro!: tr_inv_remove [OF inv])
next
  case (Inr c)
  show ?thesis
  proof (cases "cancelled (tr s)")
    case True
    let ?s = "s\<lparr>tr := upd_conn c (\<lambda>b. Close b (Some context_Canceled)) (tr s)\<rparr>"
    have mv: "tr_moves (tr s) (tr ?s)" by (simp add: tr_moves_upd Close_conn_moves)
    have inv': "tr_inv nm ?s" using tr_inv_moves [OF inv mv] by simp
    have c: "link (tr ?s) c h" using r Inr tr_movesD(4) [OF mv] by simp
    then have "is_closed (tr ?s) c" by (simp add: is_closed_def link_def upd_conn_def Close_conn_moves(2))
    note c = c this
    have "tr_inv nm (?s\<lparr>tr := peers_remove name h (tr ?s)\<rparr>)"
      by (rule tr_inv_remove [OF inv']) (use peer_conn_link [OF inv' c(1)] c(2) in auto)
    then show ?thesis using True Inr d by (auto simp: dialed_def)
  qed (use Inr d inv in \<open>auto simp: dialed_def\<close>)
qed

text \<open>A change of one peer that keeps its identifier, if it has one.\<close>

lemma tr_inv_peer:
  assumes inv: "tr_inv nm s" and h: "h < length (heap (tr s))" and p: "peer_ok nm (tr s) h p"
    and keeps: "expected p = expected (heap (tr s) ! h)" "remoteId (heap (tr s) ! h) \<in> {[], remoteId p}"
    and conn: "peer_state p = PeerStateConnected \<longrightarrow> peer_state (heap (tr s) ! h) = PeerStateConnected \<and> peer_conn p = peer_conn (heap (tr s) ! h)"
  shows "tr_inv nm (s\<lparr>tr := upd_peer h (\<lambda>_. p) (tr s)\<rparr>)"
proof -
  let ?t = "upd_peer h (\<lambda>_. p) (tr s)"
  have lk: "link ?t c g = link (tr s) c g" "is_closed ?t c = is_closed (tr s) c" for c g using link_keep [of ?t "tr s"] by simp_all
  have nth: "heap ?t ! g = (if g = h then p else heap (tr s) ! g)" for g using h by (simp add: nth_list_update)
  have "links_ok ?t" by (rule links_ok_cong [OF _ _ tr_invD(1) [OF inv]]) simp_all
  moreover have pk: "peer_ok nm ?t g q = peer_ok nm (tr s) g q" for g q by (rule peer_ok_cong) (rule lk(1))
  have "peer_ok nm ?t g (heap ?t ! g)" if "g < length (heap ?t)" for g
    unfolding pk using tr_invD(2) [OF inv, of g] p that h by (cases "g = h") simp_all
  moreover have keep2: "remoteId p = n" if "remoteId (heap (tr s) ! h) = n" "n \<noteq> []" for n using keeps(2) that by auto
  have "calls_ok nm (s\<lparr>tr := ?t\<rparr>)" using tr_invD(3) [OF inv] unfolding calls_ok_def
    by (auto simp: lk nth keeps(1) keep2 simp del: table_ops_keep(11)) simp_all
  moreover have ident: "getRemoteId p = name" if "getRemoteId (heap (tr s) ! h) = name" "name \<noteq> []" for name
    using p that keeps by (auto simp: getRemoteId_def peer_ok_def)
  have "table_ok nm ?t" unfolding table_ok_def
  proof (intro conjI allI impI)
    fix name g assume "peers_get name ?t = Some g"
    then have "g < length (heap (tr s))" "getRemoteId (heap (tr s) ! g) = name" "name \<noteq> []"
      using tr_invD(4) [OF inv] unfolding table_ok_def by simp_all
    then show "g < length (heap ?t)" "getRemoteId (heap ?t ! g) = name" "name \<noteq> []" using ident h by (cases "g = h"; simp)+
  next
    fix g d assume "g < length (heap ?t)" "peer_state (heap ?t ! g) = PeerStateConnected" "peer_conn (heap ?t ! g) = Some d"
    then have "g < length (heap (tr s))" "peer_state (heap (tr s) ! g) = PeerStateConnected" "peer_conn (heap (tr s) ! g) = Some d"
      using conn h by (cases "g = h"; simp)+
    then show "peers_get (nm d) ?t = Some g \<or> is_closed ?t d" using tr_invD(4) [OF inv] unfolding table_ok_def lk by simp
  qed
  ultimately show ?thesis using inv by (simp add: tr_inv_def)
qed

lemma getPeer_link: "c < length (conns t) \<Longrightarrow> getPeer c t = Inr h \<longleftrightarrow> link t c h"
  by (auto simp: getPeer_def link_def UserData_def split: option.splits user_data.splits)

lemma upd_peer_const: "upd_peer h f t = upd_peer h (\<lambda>_. f (heap t ! h)) t"
  by (simp add: upd_peer_def)

text \<open>The peer that \<^verbatim>\<open>OnConnected\<close> gives to a server connection.\<close>

lemma tr_inv_attach:
  assumes inv: "tr_inv nm s" and c: "c < length (conns (tr s))" "events (conns (tr s) ! c) = []"
  shows "tr_inv nm (s\<lparr>tr := attach_peer c (upd_conn c (log_event OnConnected) (tr s))\<rparr>)"
proof (cases "role (conns (tr s) ! c) = ConnectionRoleServer")
  case False
  then show ?thesis using tr_inv_moves [OF inv tr_moves_log] c(1)
    by (simp add: attach_peer_def upd_conn_def log_event_def)
next
  case True
  define t where "t = attach_peer c (upd_conn c (log_event OnConnected) (tr s))"
  let ?P = "heap (tr s)"
  let ?b = "SetUserData (Some (PeerData (length ?P))) (log_event OnConnected (conns (tr s) ! c))"
  have none: "userData (conns (tr s) ! c) = None" using tr_invD(1) [OF inv] c True by (simp add: links_ok_def)
  have t: "conns t = (conns (tr s))[c := ?b]" "heap t = ?P @ [newPeer]" "delivered t = delivered (tr s)" "\<And>name. peers_get name t = peers_get name (tr s)"
    using c(1) True by (auto simp: t_def attach_peer_def upd_conn_def log_event_def peers_get_def)
  have lk: "link t d g \<longleftrightarrow> link (tr s) d g \<or> d = c \<and> g = length ?P" for d g
    using c(1) none by (auto simp: link_def t(1) nth_list_update SetUserData_def)
  have cl: "is_closed t d = is_closed (tr s) d" for d using c(1) by (auto simp: is_closed_def t(1) nth_list_update SetUserData_def log_event_def)
  have "links_ok t" using tr_invD(1) [OF inv] none c(1) unfolding links_ok_def
    by (auto simp: lk t(1,2) nth_list_update SetUserData_def log_event_def) (auto simp: link_def dest: less_SucI)
  moreover have "peer_ok nm t g (heap t ! g)" if "g < length (heap t)" for g
    using tr_invD(2) [OF inv, of g] that unfolding peer_ok_def by (auto simp: t(2) nth_append lk newPeer_def less_Suc_eq)
  moreover have "calls_ok nm (s\<lparr>tr := t\<rparr>)" using tr_invD(3) [OF inv] tr_invD(6) [OF inv] unfolding calls_ok_def
    by (auto simp: t(2) nth_append lk cl less_Suc_eq) blast+
  moreover have "table_ok nm t" using tr_invD(4) [OF inv] unfolding table_ok_def
    by (auto simp: t(2,4) nth_append cl less_Suc_eq newPeer_def)
  ultimately show ?thesis using inv by (simp add: tr_inv_def t(3) flip: t_def)
qed

lemma tr_inv_connected:
  assumes inv: "tr_inv nm s" and c: "c < length (conns (tr s))" "events (conns (tr s) ! c) = []"
    and on: "transport_OnConnected c (upd_conn c (log_event OnConnected) (tr s)) = (t, e)"
  shows "tr_inv nm (s\<lparr>tr := t\<rparr>)"
proof -
  define t1 where "t1 = attach_peer c (upd_conn c (log_event OnConnected) (tr s))"
  have inv1: "tr_inv nm (s\<lparr>tr := t1\<rparr>)" unfolding t1_def by (rule tr_inv_attach [OF inv c])
  have len: "c < length (conns t1)" using c(1) by (simp add: t1_def attach_peer_def upd_conn_def)
  show ?thesis
  proof (cases "getPeer c t1")
    case (Inl z)
    then show ?thesis using on inv1 by (auto simp: transport_OnConnected_def Let_def t1_def)
  next
    case (Inr h)
    then have lk: "link t1 c h" using getPeer_link [OF len] by simp
    then have h: "h < length (heap t1)" using tr_invD(6) [OF inv1] by simp
    let ?p = "setConn c (heap t1 ! h)"
    have ok: "peer_ok nm t1 h (heap t1 ! h)" using tr_invD(2) [OF inv1] h by simp
    have same: "peer_conn (heap t1 ! h) = Some c" if "peer_state (heap t1 ! h) \<noteq> PeerStateIdle"
      using ok that peer_conn_link [OF inv1] lk by (auto simp: peer_ok_def)
    have inv2: "tr_inv nm (s\<lparr>tr := upd_peer h (\<lambda>_. ?p) t1\<rparr>)"
      using tr_inv_peer [OF inv1, of h ?p] h ok same lk by (auto simp: setConn_def peer_ok_def)
    show ?thesis
    proof (cases "peer_state (heap t1 ! h) = PeerStateIdle")
      case False
      then show ?thesis using on Inr inv2 h
        by (auto simp: transport_OnConnected_def Let_def t1_def [symmetric] swapState_def setConn_def upd_peer_const [of h "setConn c"] split: if_splits)
    next
      case True
      let ?q = "?p\<lparr>peer_state := PeerStateHandshaking\<rparr>"
      let ?t2 = "upd_peer h (\<lambda>_. ?p) t1"
      have ok2: "peer_ok nm ?t2 h ?p" using tr_invD(2) [OF inv2, of h] h by simp
      have inv3: "tr_inv nm (s\<lparr>tr := upd_peer h (\<lambda>_. ?q) ?t2\<rparr>)"
        using tr_inv_peer [OF inv2, of h ?q] h ok2 by (auto simp: peer_ok_def setConn_def)
      have "t = fst (conn_send c (hello_frame ?t2) (upd_peer h (\<lambda>_. ?q) ?t2))"
        using on Inr True h
        by (auto simp: transport_OnConnected_def Let_def t1_def [symmetric] swapState_def setConn_def upd_peer_const [of h "setConn c"])
      then show ?thesis using tr_inv_moves [OF inv3] tr_moves_conn_send by simp
    qed
  qed
qed

lemma bindRemoteId_ok:
  assumes "bindRemoteId name p = (q, None)"
  shows "q = p\<lparr>remoteId := name\<rparr>" "expected p \<in> {[], name}"
  using assms by (auto simp: bindRemoteId_def split: if_splits)

lemma tr_inv_hello:
  assumes inv: "tr_inv nm s" and c: "c < length (conns (tr s))" and f: "bytes_string (Body f) = nm c"
    and b: "hello_bind c f (upd_conn c (log_event (OnMessage f)) (tr s)) = (t, r)"
  shows "tr_inv nm (s\<lparr>tr := t, helloing := (case r of Inl e \<Rightarrow> helloing s | Inr h \<Rightarrow> insert (c, h) (helloing s))\<rparr>)"
proof -
  let ?t = "upd_conn c (log_event (OnMessage f)) (tr s)"
  have inv1: "tr_inv nm (s\<lparr>tr := ?t\<rparr>)" by (rule tr_inv_moves [OF inv tr_moves_log])
  have len: "c < length (conns ?t)" using c by (simp add: upd_conn_def)
  show ?thesis
  proof (cases r)
    case (Inl e)
    then show ?thesis using b inv1 by (auto simp: hello_bind_def Let_def split: if_splits sum.splits prod.splits option.splits)
  next
    case (Inr h)
    then obtain p where p: "nm c \<noteq> []" "getPeer c ?t = Inr h" "bindRemoteId (nm c) (heap ?t ! h) = (p, None)" "t = upd_peer h (\<lambda>_. p) ?t"
      using b f by (auto simp: hello_bind_def Let_def split: if_splits sum.splits prod.splits option.splits)
    have lk: "link ?t c h" using p(2) getPeer_link [OF len] by simp
    then have h: "h < length (heap ?t)" using tr_invD(6) [OF inv1] by simp
    note q = bindRemoteId_ok [OF p(3)]
    have ok: "peer_ok nm ?t h (heap ?t ! h)" using tr_invD(2) [OF inv1] h by simp
    then have old: "remoteId (heap ?t ! h) \<in> {[], nm c}" using tr_invD(7) [OF inv1] lk by (auto simp: peer_ok_def)
    have "peer_ok nm ?t h p" using ok q lk p(1) by (auto simp: peer_ok_def)
    then have inv2: "tr_inv nm (s\<lparr>tr := t\<rparr>)" using tr_inv_peer [OF inv1, of h p] h q old p(4) by simp
    have "link t c h" "remoteId (heap t ! h) = nm c" using lk h q link_keep [of t ?t] p(4) by simp_all
    then show ?thesis using inv2 Inr p(1) by (simp add: tr_inv_def calls_ok_def)
  qed
qed

lemma close_old_moves: "tr_moves t (close_old name h t)"
  by (auto simp: close_old_def tr_moves_peer_close split: option.splits)

lemma close_old_closed:
  assumes "peers_get name t = Some g" "g \<noteq> h" "peer_conn (heap t ! g) = Some c" "c < length (conns t)"
  shows "is_closed (close_old name h t) c"
  using assms by (simp add: close_old_def peer_close_def is_closed_def upd_conn_def Close_conn_moves(2))

lemma tr_inv_register:
  assumes inv: "tr_inv nm s" and ch: "(c, h) \<in> helloing s" and r: "hello_register (nm c) h (tr s) = (t, e)"
  shows "tr_inv nm (s\<lparr>tr := t\<rparr>)"
proof (cases "peer_state (heap (tr s) ! h) = PeerStateHandshaking")
  case False
  then show ?thesis using r inv by (auto simp: hello_register_def swapState_def)
next
  case True
  let ?p = "(heap (tr s) ! h)\<lparr>peer_state := PeerStateConnected\<rparr>"
  let ?t1 = "upd_peer h (\<lambda>_. ?p) (tr s)"
  let ?t2 = "close_old (nm c) h ?t1"
  have t: "t = peers_set (nm c) h ?t2" using r True by (simp add: hello_register_def swapState_def)
  have lk: "link (tr s) c h" "remoteId (heap (tr s) ! h) = nm c" "nm c \<noteq> []" using tr_invD(3) [OF inv] ch by (auto simp: calls_ok_def)
  have h: "h < length (heap (tr s))" using tr_invD(6) [OF inv lk(1)] .
  note mv = close_old_moves [of ?t1 "nm c" h]
  have hp: "heap t = (heap (tr s))[h := ?p]" using tr_movesD(1) [OF mv] by (simp add: t)
  have lt: "link t d g = link (tr s) d g" for d g
    using link_keep(1) [of t ?t2] link_keep(1) [of ?t1 "tr s"] tr_movesD(4) [OF mv] by (simp add: t)
  have cl: "is_closed t d" if "is_closed (tr s) d" for d
    using that tr_movesD(5) [OF mv, of d] link_keep(2) [of ?t1 "tr s"] link_keep(2) [of t ?t2] by (simp add: t)
  have get: "peers_get n t = (if n = nm c then Some h else peers_get n (tr s))" for n using tr_movesD(3) [OF mv] by (simp add: t)
  have conn: "peer_conn (heap (tr s) ! h) = Some c" using tr_invD(2) [OF inv h] True peer_conn_link [OF inv lk(1)] by (auto simp: peer_ok_def)
  have "links_ok ?t1" by (rule links_ok_cong [OF _ _ tr_invD(1) [OF inv]]) simp_all
  then have "links_ok t" using links_ok_cong [OF _ _ links_ok_moves [OF mv], of t] by (simp add: t)
  moreover have "peer_ok nm t g (heap t ! g)" if "g < length (heap t)" for g
    using tr_invD(2) [OF inv, of g] that lk h conn unfolding peer_ok_def by (auto simp: lt hp nth_list_update)
  moreover have "calls_ok nm (s\<lparr>tr := t\<rparr>)" using tr_invD(3) [OF inv] cl h unfolding calls_ok_def
    by (auto simp: lt hp nth_list_update)
  moreover have "table_ok nm t" unfolding table_ok_def
  proof (intro conjI allI impI)
    fix name g assume g: "peers_get name t = Some g"
    then show "g < length (heap t)" "getRemoteId (heap t ! g) = name" "name \<noteq> []"
      using tr_invD(4) [OF inv] lk h unfolding table_ok_def by (auto simp: get hp nth_list_update getRemoteId_def split: if_splits)
  next
    fix g d assume g: "g < length (heap t)" "peer_state (heap t ! g) = PeerStateConnected" "peer_conn (heap t ! g) = Some d"
    show "peers_get (nm d) t = Some g \<or> is_closed t d"
    proof (cases "g = h")
      case True
      then show ?thesis using g(3) conn h by (simp add: hp get)
    next
      case False
      then have old: "peer_state (heap (tr s) ! g) = PeerStateConnected" "peer_conn (heap (tr s) ! g) = Some d" "g < length (heap (tr s))"
        using g by (simp_all add: hp)
      then consider "is_closed (tr s) d" | "peers_get (nm d) (tr s) = Some g" using tr_invD(4) [OF inv] unfolding table_ok_def by blast
      then show ?thesis
      proof cases
        case 2
        have "d < length (conns (tr s))" using tr_invD(2) [OF inv old(3)] old(2) by (auto simp: peer_ok_def link_def)
        then have "is_closed t d" if "nm d = nm c"
          using close_old_closed [of "nm c" ?t1 g h d] 2 that False old(2) link_keep(2) [of t ?t2 d] by (simp add: t)
        then show ?thesis using 2 by (auto simp: get)
      qed (simp add: cl)
    qed
  qed
  ultimately show ?thesis using inv tr_movesD(2) [OF mv] by (simp add: tr_inv_def t)
qed

lemma tr_inv_data:
  assumes inv: "tr_inv nm s" and c: "c < length (conns (tr s))"
    and d: "handleData c f (upd_conn c (log_event ev) (tr s)) = (t, e)"
  shows "tr_inv nm (s\<lparr>tr := t\<rparr>)"
proof -
  let ?t = "upd_conn c (log_event ev) (tr s)"
  have inv1: "tr_inv nm (s\<lparr>tr := ?t\<rparr>)" by (rule tr_inv_moves [OF inv tr_moves_log])
  have len: "c < length (conns ?t)" using c by (simp add: upd_conn_def)
  have same: "peer_ok nm (?t\<lparr>delivered := D\<rparr>) g q = peer_ok nm ?t g q" "link (?t\<lparr>delivered := D\<rparr>) i g = link ?t i g" "is_closed (?t\<lparr>delivered := D\<rparr>) i = is_closed ?t i"
    "peers_get n (?t\<lparr>delivered := D\<rparr>) = peers_get n ?t" for D g q i n
    by (simp_all add: peer_ok_def link_def is_closed_def peers_get_def)
  consider "t = ?t"
    | h where "getPeer c ?t = Inr h" "peer_state (heap ?t ! h) = PeerStateConnected" "t = ?t\<lparr>delivered := delivered ?t @ [(c, getRemoteId (heap ?t ! h), Body f)]\<rparr>"
    using d by (auto simp: handleData_def require_connected_def split: sum.splits option.splits if_splits)
  then show ?thesis
  proof cases
    case (2 h)
    have lk: "link ?t c h" using 2(1) getPeer_link [OF len] by simp
    then have "peer_ok nm ?t h (heap ?t ! h)" using tr_invD(2,6) [OF inv1] by simp
    then have "getRemoteId (heap ?t ! h) = nm c" using 2(2) lk tr_invD(7) [OF inv1] by (auto simp: peer_ok_def getRemoteId_def)
    then show ?thesis using inv1 2(3) by (simp add: tr_inv_def links_ok_def calls_ok_def table_ok_def same)
  qed (use inv1 in simp)
qed

lemma tr_inv_step:
  assumes "tr_step nm s s'" "tr_inv nm s"
  shows "tr_inv nm s'"
  using assms
proof (induction rule: tr_step.induct)
  case (connect name s t h)
  then show ?case by (intro tr_inv_connect)
next
  case (dial_open name h s address cid now ps)
  then have "h < length (heap (tr s))" "\<And>c. \<not> link (tr s) c h" "\<And>n x. (n, h, x) \<in> dialing s \<Longrightarrow> x = None \<and> n = name"
    using tr_invD(3) [OF dial_open(2)] by (auto simp: calls_ok_def dest: not_None_eq [THEN iffD1] intro: ccontr) (metis not_None_eq)+
  then show ?case unfolding dial_connection_def
    by (intro tr_inv_new_conn [OF dial_open(2)]) (auto simp: SetUserData_def newBaseConnWithRole_def touch_def)
next
  case (dial_refused name h s e t r)
  have "tr_inv nm (s\<lparr>tr := t\<rparr>)" using tr_invD(3) [OF dial_refused(3)] dial_refused(1)
    by (intro tr_inv_dialed [OF dial_refused(3,2)]) (auto simp: calls_ok_def)
  then show ?case using tr_inv_calls [of nm "s\<lparr>tr := t\<rparr>" "dialing s - {(name, h, None)}" "helloing s" "closing s"] by auto
next
  case (dial_failed name h c s e t r)
  have lk: "link (tr s) c h" using tr_invD(3) [OF dial_failed(4)] dial_failed(1) by (auto simp: calls_ok_def)
  then have "is_closed (tr s) c" using dial_failed(2) by (simp add: is_closed_def link_def)
  then have "tr_inv nm (s\<lparr>tr := t\<rparr>)" using tr_invD(6) [OF dial_failed(4) lk] tr_invD(7) [OF dial_failed(4) lk]
    by (intro tr_inv_dialed [OF dial_failed(4,3)]) auto
  then show ?case using tr_inv_calls [of nm "s\<lparr>tr := t\<rparr>" "dialing s - {(name, h, Some c)}" "helloing s" "closing s"] by auto
next
  case (dial_done name h c s t r)
  have "tr_inv nm (s\<lparr>tr := t\<rparr>)" using tr_invD(3) [OF dial_done(3)] dial_done(1)
    by (intro tr_inv_dialed [OF dial_done(3,2)]) (auto simp: calls_ok_def)
  then show ?case using tr_inv_calls [of nm "s\<lparr>tr := t\<rparr>" "dialing s - {(name, h, Some c)}" "helloing s" "closing s"] by auto
next
  case (accept s cid now ps)
  then show ?case using tr_inv_new_conn [OF accept, of _ "dialing s"] unfolding accept_connection_def
    by (simp add: newBaseConnWithRole_def touch_def)
next
  case (connected c s t e)
  then show ?case by (intro tr_inv_connected)
next
  case (hello c s f t r)
  then show ?case by (intro tr_inv_hello)
next
  case (register c h s t e)
  have "tr_inv nm (s\<lparr>tr := t\<rparr>)" using register by (intro tr_inv_register)
  then show ?case using tr_inv_calls [of nm "s\<lparr>tr := t\<rparr>" "dialing s" "helloing s - {(c, h)}" "closing s"] by auto
next
  case (data c s f t e)
  then show ?case by (intro tr_inv_data)
next
  case (close_read c s h z)
  let ?t = "upd_conn c (log_event (OnClose z)) (tr s)"
  have mv: "tr_moves (tr s) ?t" by (rule tr_moves_log)
  have "link ?t c h" "is_closed ?t c" using close_read getPeer_link [OF close_read(1)] tr_movesD(4,5) [OF mv] by (auto simp: is_closed_def)
  then show ?case using tr_inv_moves [OF close_read(4) mv] by (simp add: tr_inv_def calls_ok_def)
next
  case (close_remove c name h s)
  have c: "link (tr s) c h" "is_closed (tr s) c" using tr_invD(3) [OF close_remove(2)] close_remove(1) by (auto simp: calls_ok_def)
  have "tr_inv nm (s\<lparr>tr := peers_remove name h (tr s)\<rparr>)"
    by (rule tr_inv_remove [OF close_remove(2)]) (use peer_conn_link [OF close_remove(2) c(1)] c(2) in auto)
  then show ?case using tr_inv_calls [of nm "s\<lparr>tr := peers_remove name h (tr s)\<rparr>" "dialing s" "helloing s" "closing s - {(c, name, h)}"] by auto
next
  case (moves c s b)
  then show ?case by (intro tr_inv_moves tr_moves_upd)
next
  case (send name bs s t e)
  then show ?case using tr_inv_moves [OF send(2) tr_moves_ops(1) [of "tr s" name bs]] by simp
next
  case (broadcast iter bs s t e)
  then show ?case using tr_inv_moves [OF broadcast(2) tr_moves_ops(2) [of "tr s" iter bs]] by simp
next
  case (disconnect name s t e)
  then show ?case using tr_inv_moves [OF disconnect(2) tr_moves_ops(4) [of "tr s" name]] by simp
qed (auto intro: tr_inv_moves tr_moves_ops)

lemma tr_reachable_inv:
  assumes "tr_reachable nm (fresh_tsys (NewTransportWithOptions node address handler config)) s"
  shows "tr_inv nm s"
  using assms
proof induction
  case tr_start
  show ?case by (simp add: tr_inv_def fresh_tsys_def NewTransportWithOptions_def links_ok_def calls_ok_def table_ok_def link_def peers_get_def)
qed (rule tr_inv_step)

text \<open>Connection \<open>c\<close> is open and its peer \<open>h\<close> has finished the exchange of identifiers.\<close>

definition live :: "Transport \<Rightarrow> nat \<Rightarrow> nat \<Rightarrow> bool" where
  "live t c h \<longleftrightarrow> link t c h \<and> peer_state (heap t ! h) = PeerStateConnected \<and> \<not> is_closed t c"

text \<open>
  C4: However calls of \<^verbatim>\<open>Connect\<close>, accepted sockets and the callbacks of the connections interleave, a
  node has at most one live connection to another node, and this is the one that \<^verbatim>\<open>Send\<close> uses for that
  node; a peer that is registered as connected has a connection to the node it is registered for; and
  data is handed to the business handler under the name of the node that it came from.
\<close>

theorem transport_one_connection:
  assumes "tr_reachable nm (fresh_tsys (NewTransportWithOptions node address handler config)) s"
  shows "(live (tr s) c h \<and> live (tr s) d g \<and> nm c = nm d \<longrightarrow> c = d)
    \<and> (live (tr s) c h \<longrightarrow> peers_get (nm c) (tr s) = Some h \<and> peer_conn (heap (tr s) ! h) = Some c)
    \<and> (peers_get name (tr s) = Some h \<and> peer_state (heap (tr s) ! h) = PeerStateConnected \<longrightarrow>
         (\<exists>i. peer_conn (heap (tr s) ! h) = Some i \<and> nm i = name))
    \<and> (\<forall>(i, from, bs) \<in> set (delivered (tr s)). from = nm i)"
proof -
  note inv = tr_reachable_inv [OF assms]
  have reg: "peers_get (nm i) (tr s) = Some k \<and> peer_conn (heap (tr s) ! k) = Some i" if "live (tr s) i k" for i k
  proof -
    have i: "link (tr s) i k" "peer_state (heap (tr s) ! k) = PeerStateConnected" "\<not> is_closed (tr s) i" using that by (simp_all add: live_def)
    have k: "k < length (heap (tr s))" using tr_invD(6) [OF inv i(1)] .
    have "peer_conn (heap (tr s) ! k) = Some i" using tr_invD(2) [OF inv k] i(2) peer_conn_link [OF inv i(1)] by (auto simp: peer_ok_def)
    then show ?thesis using tr_invD(4) [OF inv] k i by (auto simp: table_ok_def)
  qed
  have "\<exists>i. peer_conn (heap (tr s) ! h) = Some i \<and> nm i = name"
    if "peers_get name (tr s) = Some h" "peer_state (heap (tr s) ! h) = PeerStateConnected"
  proof -
    have h: "h < length (heap (tr s))" "getRemoteId (heap (tr s) ! h) = name" using tr_invD(4) [OF inv] that(1) by (auto simp: table_ok_def)
    then show ?thesis using tr_invD(2) [OF inv h(1)] that(2) tr_invD(7) [OF inv] by (auto simp: peer_ok_def getRemoteId_def) metis+
  qed
  moreover have "c = d" if "live (tr s) c h" "live (tr s) d g" "nm c = nm d" using reg [OF that(1)] reg [OF that(2)] that(3) by auto
  ultimately show ?thesis using tr_invD(5) [OF inv] reg [of c h] by blast
qed

end
