(* ===== verification/TransportExamples.thy ===== *)
theory TransportExamples
  imports TransportInv
begin

text \<open>
  Runs of the transport of node \<^verbatim>\<open>n1\<close> with one accepted connection, on which node \<^verbatim>\<open>n2\<close> introduces itself.
\<close>

definition n2_hello :: MessageFrame where
  "n2_hello = NewMessageFrame clusterMessageCommand clusterMessageActHello 0 (string_bytes ''n2'')"

definition n2_data :: MessageFrame where
  "n2_data = NewMessageFrame clusterMessageCommand clusterMessageActData 0 [7]"

definition n1_start :: Transport where
  "n1_start = NewTransportWithOptions ''n1'' ''10.0.0.1:9000'' True None"

definition set_state :: "ConnectionState \<Rightarrow> Transport \<Rightarrow> Transport" where
  "set_state st t = upd_conn 0 (\<lambda>_. (conns t ! 0)\<lparr>state := st\<rparr>) t"

definition n1_ready :: Transport where
  "n1_ready = set_state ConnectionStateReady (accept_connection 1 0 [] n1_start)"

definition n1_connected :: Transport where
  "n1_connected = fst (transport_OnConnected 0 (upd_conn 0 (log_event OnConnected) n1_ready))"

definition n1_bound :: Transport where
  "n1_bound = fst (hello_bind 0 n2_hello (upd_conn 0 (log_event (OnMessage n2_hello)) n1_connected))"

definition n1_hello :: Transport where
  "n1_hello = fst (hello_register ''n2'' 0 n1_bound)"

definition n1_data :: Transport where
  "n1_data = fst (handleData 0 n2_data (upd_conn 0 (log_event (OnMessage n2_data)) n1_hello))"

abbreviation n1_run :: "tsys \<Rightarrow> bool" where
  "n1_run \<equiv> tr_reachable (\<lambda>_. ''n2'') (fresh_tsys (NewTransportWithOptions ''n1'' ''10.0.0.1:9000'' True None))"

text \<open>The states of the run, with what is known of the connection.\<close>

definition n1_conn :: "user_data baseConn" where
  "n1_conn = conns n1_connected ! 0"

lemmas n1_fields = n1_start_def NewTransportWithOptions_def accept_connection_def newBaseConnWithRole_def touch_def upd_conn_def upd_peer_def set_state_def log_event_def

lemma n1_ready_state: "n1_ready = n1_start\<lparr>conns := [conns n1_ready ! 0]\<rparr>" "events (conns n1_ready ! 0) = []" "role (conns n1_ready ! 0) = ConnectionRoleServer"
  "state (conns n1_ready ! 0) = ConnectionStateReady" "heap n1_start = []"
  by (simp_all add: n1_ready_def n1_fields)

lemma n1_connected_state: "n1_connected = n1_start\<lparr>heap := [\<lparr>remoteId = [], expected = [], peer_state = PeerStateHandshaking, peer_conn = Some 0\<rparr>], conns := [n1_conn]\<rparr>"
  and n1_conn_state: "userData n1_conn = Some (PeerData 0)" "events n1_conn = [OnConnected]" "state n1_conn = ConnectionStateReady"
proof -
  obtain b where r: "n1_ready = n1_start\<lparr>conns := [b]\<rparr>" "events b = []" "role b = ConnectionRoleServer" "state b = ConnectionStateReady" "heap n1_start = []"
    using n1_ready_state by blast
  define f where "f = hello_frame n1_start"
  define b1 where "b1 = b\<lparr>events := [OnConnected], userData := Some (PeerData 0)\<rparr>"
  have c: "n1_connected = n1_start\<lparr>heap := [\<lparr>remoteId = [], expected = [], peer_state = PeerStateHandshaking, peer_conn = Some 0\<rparr>], conns := [fst (SendMessage b1 (Some f))]\<rparr>"
    by (simp add: r n1_connected_def transport_OnConnected_def attach_peer_def upd_conn_def upd_peer_def log_event_def getPeer_def UserData_def SetUserData_def
        setConn_def swapState_def newPeer_def conn_send_def hello_frame_def f_def Let_def b1_def case_prod_unfold)
  have n: "n1_conn = fst (SendMessage b1 (Some f))" by (simp add: n1_conn_def c)
  show "n1_connected = n1_start\<lparr>heap := [\<lparr>remoteId = [], expected = [], peer_state = PeerStateHandshaking, peer_conn = Some 0\<rparr>], conns := [n1_conn]\<rparr>"
    "userData n1_conn = Some (PeerData 0)" "events n1_conn = [OnConnected]" "state n1_conn = ConnectionStateReady"
    by (simp add: c n) (simp_all add: n SendMessage_keeps b1_def r)
qed

lemma n2_frames: "bytes_string (Body n2_hello) = ''n2''" "Body n2_data = [7]"
  by code_simp+

lemma n1_bound_state:
  "hello_bind 0 n2_hello (upd_conn 0 (log_event (OnMessage n2_hello)) n1_connected) = (n1_bound, Inr 0)"
  "n1_bound = n1_start\<lparr>heap := [\<lparr>remoteId = ''n2'', expected = [], peer_state = PeerStateHandshaking, peer_conn = Some 0\<rparr>], conns := [log_event (OnMessage n2_hello) n1_conn]\<rparr>"
  by (simp_all add: n1_bound_def n1_connected_state hello_bind_def n2_frames getPeer_def UserData_def upd_conn_def upd_peer_def log_event_def n1_conn_state bindRemoteId_def)

lemma n1_hello_state:
  "n1_hello = n1_start\<lparr>heap := [\<lparr>remoteId = ''n2'', expected = [], peer_state = PeerStateConnected, peer_conn = Some 0\<rparr>],
     conns := [log_event (OnMessage n2_hello) n1_conn], remoteToConn := [(''n2'', 0)]\<rparr>"
  by (simp add: n1_hello_def n1_bound_state(2) hello_register_def swapState_def upd_peer_def close_old_def peers_get_def peers_set_def n1_start_def NewTransportWithOptions_def)

lemma n1_data_state:
  "n1_data = n1_hello\<lparr>conns := [log_event (OnMessage n2_data) (log_event (OnMessage n2_hello) n1_conn)], delivered := [(0, ''n2'', [7])]\<rparr>"
  by (simp add: n1_data_def n1_hello_state handleData_def require_connected_def getPeer_def UserData_def upd_conn_def log_event_def n1_conn_state getRemoteId_def n2_frames
      n1_start_def NewTransportWithOptions_def)

lemma n1_reaches_ready: "n1_run (fresh_tsys n1_ready)"
proof -
  let ?s = "fresh_tsys (accept_connection 1 0 [] n1_start)"
  have "n1_run ?s" using tr_next [OF tr_start tr_step.accept [of "\<lambda>_. ''n2''" "fresh_tsys n1_start" 1 0 "[]"]]
    by (simp add: n1_start_def fresh_tsys_def)
  moreover have "tr_step (\<lambda>_. ''n2'') ?s (?s\<lparr>tr := upd_conn 0 (\<lambda>_. (conns (tr ?s) ! 0)\<lparr>state := ConnectionStateReady\<rparr>) (tr ?s)\<rparr>)"
    by (rule tr_step.moves)
      (simp_all add: conn_moves_def fresh_tsys_def accept_connection_def n1_start_def NewTransportWithOptions_def newBaseConnWithRole_def touch_def)
  ultimately show ?thesis using tr_next by (fastforce simp: n1_ready_def set_state_def fresh_tsys_def)
qed

lemma n1_lengths [simp]:
  "length (conns n1_ready) = 1" "length (conns n1_connected) = 1" "length (conns n1_bound) = 1" "length (conns n1_hello) = 1"
  by (subst n1_ready_state, simp) (simp_all add: n1_connected_state n1_bound_state n1_hello_state)

lemma n1_reaches_connected: "n1_run (fresh_tsys n1_connected)"
proof -
  have "tr_step (\<lambda>_. ''n2'') (fresh_tsys n1_ready) ((fresh_tsys n1_ready)\<lparr>tr := n1_connected\<rparr>)"
    by (rule tr_step.connected [where c = 0 and e = "snd (transport_OnConnected 0 (upd_conn 0 (log_event OnConnected) n1_ready))"])
      (simp_all add: fresh_tsys_def n1_connected_def n1_ready_state(2))
  from tr_next [OF n1_reaches_ready this] show ?thesis by (simp add: fresh_tsys_def)
qed

lemma n1_reaches_bound: "n1_run ((fresh_tsys n1_bound)\<lparr>helloing := {(0, 0)}\<rparr>)"
proof -
  have "tr_step (\<lambda>_. ''n2'') (fresh_tsys n1_connected)
      ((fresh_tsys n1_connected)\<lparr>tr := n1_bound, helloing := (case Inr 0 :: nat result of Inl e \<Rightarrow> helloing (fresh_tsys n1_connected) | Inr h \<Rightarrow> insert (0, h) (helloing (fresh_tsys n1_connected)))\<rparr>)"
    by (rule tr_step.hello [where c = 0 and f = n2_hello])
      (simp_all add: fresh_tsys_def n2_frames n1_bound_state(1), simp add: n1_connected_state n1_conn_state)
  from tr_next [OF n1_reaches_connected this] show ?thesis by (simp add: fresh_tsys_def)
qed

lemma n1_reaches_hello: "n1_run (fresh_tsys n1_hello)"
proof -
  let ?s = "(fresh_tsys n1_bound)\<lparr>helloing := {(0, 0)}\<rparr>"
  have "tr_step (\<lambda>_. ''n2'') ?s (?s\<lparr>tr := n1_hello, helloing := helloing ?s - {(0, 0)}\<rparr>)"
    by (rule tr_step.register [where e = "snd (hello_register ''n2'' 0 n1_bound)"]) (simp_all add: fresh_tsys_def n1_hello_def)
  from tr_next [OF n1_reaches_bound this] show ?thesis by (simp add: fresh_tsys_def)
qed

lemma n1_reaches_data: "n1_run (fresh_tsys n1_data)"
proof -
  have "tr_step (\<lambda>_. ''n2'') (fresh_tsys n1_hello) ((fresh_tsys n1_hello)\<lparr>tr := n1_data\<rparr>)"
    by (rule tr_step.data [where c = 0 and f = n2_data and e = "snd (handleData 0 n2_data (upd_conn 0 (log_event (OnMessage n2_data)) n1_hello))"])
      (simp_all add: fresh_tsys_def n1_data_def, simp add: n1_hello_state n1_conn_state log_event_def)
  from tr_next [OF n1_reaches_hello this] show ?thesis by (simp add: fresh_tsys_def)
qed

theorem transport_one_connection_witness:
  "n1_run (fresh_tsys n1_data) \<and> live n1_data 0 0 \<and> peers_get ''n2'' n1_data = Some 0 \<and> delivered n1_data = [(0, ''n2'', [7])]"
proof -
  have "live n1_data 0 0" by (simp add: live_def link_def is_closed_def n1_data_state n1_hello_state log_event_def n1_conn_state)
  moreover from transport_one_connection [OF n1_reaches_data, of 0 0] this have "peers_get ''n2'' n1_data = Some 0" by (simp add: fresh_tsys_def)
  moreover have "delivered n1_data = [(0, ''n2'', [7])]" by (simp add: n1_data_state)
  ultimately show ?thesis using n1_reaches_data by simp
qed

subsection \<open>A connection that closes during the exchange\<close>

text \<open>
  When the connection closes between binding the identifier and registering the peer, and its \<^verbatim>\<open>OnClose\<close>
  runs before the registration, the dead peer is registered afterwards and nothing removes it:
  \<^verbatim>\<open>Connect\<close> sees a registered peer and does not dial, and sending to the node fails.
\<close>

definition n1_closed :: Transport where
  "n1_closed = upd_conn 0 (log_event (OnClose None)) (set_state ConnectionStateClosed n1_bound)"

definition n1_stale :: Transport where
  "n1_stale = fst (hello_register ''n2'' 0 (peers_remove ''n2'' 0 n1_closed))"

lemma n1_reaches_stale: "n1_run (fresh_tsys n1_stale)"
proof -
  let ?s = "(fresh_tsys n1_bound)\<lparr>helloing := {(0, 0)}\<rparr>"
  let ?c = "set_state ConnectionStateClosed n1_bound"
  have f: "length (conns n1_bound) = 1" "getPeer 0 ?c = Inr 0" "getRemoteId (heap ?c ! 0) = ''n2''" "length (conns ?c) = 1"
    "state (conns ?c ! 0) = ConnectionStateClosed"
    by (simp_all add: set_state_def upd_conn_def n1_bound_state getPeer_def UserData_def log_event_def n1_conn_state getRemoteId_def)
  have "tr_step (\<lambda>_. ''n2'') ?s (?s\<lparr>tr := ?c\<rparr>)"
    using tr_step.moves [of 0 ?s "(conns n1_bound ! 0)\<lparr>state := ConnectionStateClosed\<rparr>"] f(1)
    by (simp add: fresh_tsys_def set_state_def conn_moves_def)
  from tr_next [OF n1_reaches_bound this] have 1: "n1_run (?s\<lparr>tr := ?c\<rparr>)" .
  have "tr_step (\<lambda>_. ''n2'') (?s\<lparr>tr := ?c\<rparr>) (?s\<lparr>tr := n1_closed, closing := {(0, ''n2'', 0)}\<rparr>)"
    using tr_step.close_read [of 0 "?s\<lparr>tr := ?c\<rparr>" 0 "\<lambda>_. ''n2''" None] f by (simp add: fresh_tsys_def n1_closed_def)
  from tr_next [OF 1 this] have 2: "n1_run (?s\<lparr>tr := n1_closed, closing := {(0, ''n2'', 0)}\<rparr>)" .
  let ?r = "?s\<lparr>tr := peers_remove ''n2'' 0 n1_closed\<rparr>"
  have "tr_step (\<lambda>_. ''n2'') (?s\<lparr>tr := n1_closed, closing := {(0, ''n2'', 0)}\<rparr>) ?r"
    using tr_step.close_remove [of 0 "''n2''" 0 "?s\<lparr>tr := n1_closed, closing := {(0, ''n2'', 0)}\<rparr>"] by (simp add: fresh_tsys_def)
  from tr_next [OF 2 this] have 3: "n1_run ?r" .
  have "tr_step (\<lambda>_. ''n2'') ?r (?r\<lparr>tr := n1_stale, helloing := helloing ?r - {(0, 0)}\<rparr>)"
    by (rule tr_step.register [where e = "snd (hello_register ''n2'' 0 (peers_remove ''n2'' 0 n1_closed))"]) (simp_all add: fresh_tsys_def n1_stale_def)
  from tr_next [OF 3 this] show ?thesis by (simp add: fresh_tsys_def)
qed

lemma stale_peer_reachable:
  "\<exists>s. n1_run s \<and> dialing s = {} \<and> helloing s = {} \<and> closing s = {}
    \<and> ConnectionState_of ''n2'' (tr s) = PeerStateConnected \<and> Connect_register ''n2'' (tr s) = (tr s, Inr None)
    \<and> snd (transport_Send ''n2'' bs (tr s)) = Some ErrConnectionClosed"
proof -
  have f: "peers_get ''n2'' n1_stale = Some 0" "peer_state (heap n1_stale ! 0) = PeerStateConnected" "peer_conn (heap n1_stale ! 0) = Some 0"
    "state (conns n1_stale ! 0) = ConnectionStateClosed" "localNodeID n1_stale = ''n1''" "has_handler n1_stale"
    by (simp_all add: n1_stale_def n1_closed_def n1_bound_state set_state_def upd_conn_def log_event_def n1_conn_state peers_remove_def hello_register_def swapState_def
        upd_peer_def close_old_def peers_get_def peers_set_def n1_start_def NewTransportWithOptions_def)
  have "snd (transport_Send ''n2'' bs n1_stale) = Some ErrConnectionClosed"
    by (simp add: transport_Send_def f transport_send_def peer_send_def conn_send_def SendMessage_def)
  then show ?thesis using n1_reaches_stale f
    by (intro exI [of _ "fresh_tsys n1_stale"]) (simp add: fresh_tsys_def ConnectionState_of_def Connect_register_def)
qed

text \<open>
  A second hello with another name binds the peer to that name before its state is looked at. The hello is refused and
  the connection closed, but its \<^verbatim>\<open>OnClose\<close> then looks under the new name: the old registration stays, so that
  \<^verbatim>\<open>Connect\<close> to the node does nothing.
\<close>

lemma second_hello_keeps_registration:
  assumes "peers_get name t = Some h" "getPeer c t = Inr h" "h < length (heap t)" "peer_state (heap t ! h) = PeerStateConnected" "expected (heap t ! h) = []"
    and "bytes_string (Body message) = other" "other \<noteq> []" "other \<noteq> name" "localNodeID t \<noteq> name" "has_handler t"
    and "handleHello c message t = (t', e)"
  shows "e \<noteq> None \<and> peers_get name (transport_OnClose c t') = Some h
    \<and> Connect_register name (transport_OnClose c t') = (transport_OnClose c t', Inr None)"
proof -
  have t': "t' = upd_peer h (\<lambda>p. p\<lparr>remoteId := other\<rparr>) t" "e \<noteq> None"
    using assms by (auto simp: handleHello_def hello_bind_def Let_def bindRemoteId_def hello_register_def swapState_def upd_peer_def)
  have "getPeer c t' = Inr h" "getRemoteId (heap t' ! h) = other" "peers_get x t' = peers_get x t" for x
    using assms by (simp_all add: t' getPeer_def upd_peer_def getRemoteId_def peers_get_def)
  then have "transport_OnClose c t' = peers_remove other h t'" by (simp add: transport_OnClose_def)
  then have "peers_get name (transport_OnClose c t') = Some h"
    using assms(1,8) by (auto simp: peers_remove_def peers_get_def t' upd_peer_def AList.delete_conv')
  then show ?thesis using assms(9,10) t'(2) \<open>transport_OnClose c t' = peers_remove other h t'\<close>
    by (auto simp: Connect_register_def peers_remove_def t' upd_peer_def)
qed

end
