(* ===== verification/Gateway.thy ===== *)
theory Gateway
  imports Connection ProtoCodec "HOL-Library.AList"
begin

text \<open>
  \<^verbatim>\<open>gateway/route\<close>, \<^verbatim>\<open>gateway/error.go\<close> and \<^verbatim>\<open>gateway/agent.go\<close>: the tables from client commands to handlers and
  from message types to commands, and the agent that stands for a client in the actor system.

  An agent works on its current request, its connection and the rest of the program \<open>'w\<close>; a route
  handler is a function on all of these, since it holds the agent. \<^verbatim>\<open>ctx.AskAsync\<close> is an argument.
\<close>

subsection \<open>error.go\<close>

definition ErrAgentRequestNil :: go_error where "ErrAgentRequestNil = Plain ''gateway agent has no active client request''"
definition ErrClientPushMessageNil :: go_error where "ErrClientPushMessageNil = Plain ''gateway client push message is nil''"
definition ErrRouteNotFound :: go_error where "ErrRouteNotFound = Plain ''gateway client route not found''"
definition ErrInboundRouteNotFound :: go_error where "ErrInboundRouteNotFound = ErrRouteNotFound"
definition ErrOutboundRouteNotFound :: go_error where "ErrOutboundRouteNotFound = Plain ''gateway outbound route not found''"
definition ClientErrorInternal :: "16 word" where "ClientErrorInternal = 1"

definition mapToClientCode :: "err \<Rightarrow> 16 word" where
  "mapToClientCode e =
     (case CodeOf e of
        (code, ok) \<Rightarrow> if \<not> ok \<or> code = ErrorCodeUnknown \<or> unat code > unat (- 1 :: 16 word) then ClientErrorInternal else ucast code)"

subsection \<open>The state of an agent\<close>

record ('u, 'w) agent_world =
  currentRequest :: "MessageFrame option"
  ag_conn :: "'u baseConn"
  ag_rest :: 'w

type_synonym ('m, 'u, 'w) Handler = "'m \<Rightarrow> ('u, 'w) agent_world \<Rightarrow> ('u, 'w) agent_world \<times> err"

subsection \<open>inbound\_route.go\<close>

text \<open>\<open>ie_type\<close> are the name of the registered message type and the text of \<^verbatim>\<open>%T\<close> for it.\<close>

record ('m, 'u, 'w) inboundEntry =
  ie_handler :: "('m, 'u, 'w) Handler"
  ie_type :: "string \<times> string"

type_synonym ('m, 'u, 'w) InboundRoute = "(16 word \<times> ('m, 'u, 'w) inboundEntry) list"

definition Inbound_Register :: "'m proto_lib \<Rightarrow> byte \<Rightarrow> byte \<Rightarrow> ('m, 'u, 'w) Handler option \<Rightarrow> 'm option \<Rightarrow> ('m, 'u, 'w) InboundRoute \<Rightarrow> ('m, 'u, 'w) InboundRoute" where
  "Inbound_Register lib cmd act handler request r =
     (case (handler, request) of
        (Some h, Some m) \<Rightarrow>
          if map_of r (CmdAct cmd act) \<noteq> None then r
          else r @ [(CmdAct cmd act, \<lparr>ie_handler = h, ie_type = (full_name lib m, type_text lib m)\<rparr>)]
      | _ \<Rightarrow> r)"

definition Registered :: "('m, 'u, 'w) InboundRoute \<Rightarrow> MessageFrame option \<Rightarrow> bool" where
  "Registered r message = (case message of None \<Rightarrow> False | Some f \<Rightarrow> map_of r (MessageFrame_ID f) \<noteq> None)"

definition Dispatch :: "'m proto_lib \<Rightarrow> ('m, 'u, 'w) InboundRoute \<Rightarrow> MessageFrame option \<Rightarrow> ('u, 'w) agent_world \<Rightarrow> ('u, 'w) agent_world \<times> err" where
  "Dispatch lib r message w =
     (case message of
        None \<Rightarrow> (w, Some ErrInboundRouteNotFound)
      | Some f \<Rightarrow>
          (case map_of r (MessageFrame_ID f) of
             None \<Rightarrow> (w, Some ErrInboundRouteNotFound)
           | Some entry \<Rightarrow>
               (case Unmarshal lib (fst (ie_type entry)) (snd (ie_type entry)) (Body f) of
                  Inl e \<Rightarrow> (w, Some (Wrap ''agent route unmarshal body err:'' e []))
                | Inr request \<Rightarrow>
                    (case ie_handler entry request w of
                       (w, Some e) \<Rightarrow> (w, Some (Wrap ''agent route handle err:'' e []))
                     | (w, None) \<Rightarrow> (w, None)))))"

subsection \<open>outbound\_route.go\<close>

type_synonym OutboundRoute = "(string \<times> 16 word) list"

definition Outbound_Register :: "'m proto_lib \<Rightarrow> byte \<Rightarrow> byte \<Rightarrow> 'm option \<Rightarrow> OutboundRoute \<Rightarrow> OutboundRoute" where
  "Outbound_Register lib cmd act message r =
     (case message of
        None \<Rightarrow> r
      | Some m \<Rightarrow> if map_of r (full_name lib m) \<noteq> None then r else r @ [(full_name lib m, CmdAct cmd act)])"

definition Outbound_Resolve :: "'m proto_lib \<Rightarrow> OutboundRoute \<Rightarrow> 'm option \<Rightarrow> byte \<times> byte \<times> bool" where
  "Outbound_Resolve lib r message =
     (case message of
        None \<Rightarrow> (0, 0, False)
      | Some m \<Rightarrow>
          (case map_of r (full_name lib m) of
             None \<Rightarrow> (0, 0, False)
           | Some i \<Rightarrow> (ucast (drop_bit 8 i), ucast i, True)))"

definition Outbound_Encode :: "'m proto_lib \<Rightarrow> OutboundRoute \<Rightarrow> 'm option \<Rightarrow> MessageFrame result" where
  "Outbound_Encode lib r message =
     (case Outbound_Resolve lib r message of
        (cmd, act, False) \<Rightarrow> Inl ErrOutboundRouteNotFound
      | (cmd, act, True) \<Rightarrow>
          (case Marshal lib message of
             Inl e \<Rightarrow> Inl (Wrap ''agent marshal s2c err:'' e [])
           | Inr body \<Rightarrow> Inr (NewMessageFrame cmd act 0 body)))"

subsection \<open>route.go\<close>

record ('m, 'u, 'w) Route =
  rt_in :: "('m, 'u, 'w) InboundRoute"
  rt_out :: OutboundRoute

definition NewRoute :: "('m, 'u, 'w) Route" where
  "NewRoute = \<lparr>rt_in = [], rt_out = []\<rparr>"

definition Route_Register :: "'m proto_lib \<Rightarrow> byte \<Rightarrow> byte \<Rightarrow> ('m, 'u, 'w) Handler option \<Rightarrow> 'm option \<Rightarrow> 'm option \<Rightarrow> ('m, 'u, 'w) Route \<Rightarrow> ('m, 'u, 'w) Route" where
  "Route_Register lib cmd act handler c2s s2c r =
     r\<lparr>rt_in := Inbound_Register lib cmd act handler c2s (rt_in r), rt_out := Outbound_Register lib cmd act s2c (rt_out r)\<rparr>"

subsection \<open>agent.go\<close>

definition agent_send :: "MessageFrame \<Rightarrow> ('u, 'w) agent_world \<Rightarrow> ('u, 'w) agent_world \<times> err" where
  "agent_send frame w = (case SendMessage (ag_conn w) (Some frame) of (c, e) \<Rightarrow> (w\<lparr>ag_conn := c\<rparr>, e))"

definition agent_reply :: "'m proto_lib \<Rightarrow> MessageFrame option \<Rightarrow> 'm option \<Rightarrow> err \<Rightarrow> ('u, 'w) agent_world \<Rightarrow> ('u, 'w) agent_world \<times> err" where
  "agent_reply lib request msg e w =
     (case request of
        None \<Rightarrow> (w, Some ErrAgentRequestNil)
      | Some f \<Rightarrow>
          (let response = (MessageFrame_Clone f)\<lparr>Flags := 0\<rparr>;
               response = (if e \<noteq> None then response\<lparr>Error := mapToClientCode e\<rparr> else response)
           in case msg of
                None \<Rightarrow> agent_send response w
              | Some m \<Rightarrow>
                  (case Marshal lib (Some m) of
                     Inl z \<Rightarrow> (w, Some (Wrap ''encode client reply: '' z []))
                   | Inr data \<Rightarrow> agent_send (response\<lparr>Body := data\<rparr>) w)))"

definition Agent_Reply :: "'m proto_lib \<Rightarrow> 'm option \<Rightarrow> ('u, 'w) agent_world \<Rightarrow> ('u, 'w) agent_world \<times> err" where
  "Agent_Reply lib message w =
     (case currentRequest w of None \<Rightarrow> (w, Some ErrAgentRequestNil) | Some f \<Rightarrow> agent_reply lib (Some f) message None w)"

definition Agent_ReplyError :: "'m proto_lib \<Rightarrow> err \<Rightarrow> ('u, 'w) agent_world \<Rightarrow> ('u, 'w) agent_world \<times> err" where
  "Agent_ReplyError lib cause w =
     (case currentRequest w of
        None \<Rightarrow> (w, Some ErrAgentRequestNil)
      | Some f \<Rightarrow> if cause = None then (w, Some ErrRespondErrorNil) else agent_reply lib (Some f) None cause w)"

text \<open>The completion that \<^verbatim>\<open>Forward\<close> passes to \<^verbatim>\<open>AskAsync\<close>; its error is logged.\<close>

definition forward_done :: "'m proto_lib \<Rightarrow> MessageFrame \<Rightarrow> 'm option \<Rightarrow> err \<Rightarrow> ('u, 'w) agent_world \<Rightarrow> ('u, 'w) agent_world" where
  "forward_done lib request value e w = fst (agent_reply lib (Some request) value e w)"

definition Agent_Forward :: "'m proto_lib \<Rightarrow> (('m option \<Rightarrow> err \<Rightarrow> ('u, 'w) agent_world \<Rightarrow> ('u, 'w) agent_world) \<Rightarrow> ('u, 'w) agent_world \<Rightarrow> ('u, 'w) agent_world \<times> err)
    \<Rightarrow> ('u, 'w) agent_world \<Rightarrow> ('u, 'w) agent_world \<times> err" where
  "Agent_Forward lib ask w =
     (case currentRequest w of
        None \<Rightarrow> (w, Some ErrAgentRequestNil)
      | Some request \<Rightarrow>
          (case ask (forward_done lib request) w of
             (w, Some e) \<Rightarrow> (w, Some (Wrap ''submit forwarded client request: '' e []))
           | (w, None) \<Rightarrow> (w, None)))"

definition handleInbound :: "'m proto_lib \<Rightarrow> ('m, 'u, 'w) Route \<Rightarrow> MessageFrame option \<Rightarrow> ('u, 'w) agent_world \<Rightarrow> ('u, 'w) agent_world \<times> err" where
  "handleInbound lib r message w =
     (case (case message of
              None \<Rightarrow> (w, Some ErrAgentRequestNil)
            | Some f \<Rightarrow>
                if \<not> Registered (rt_in r) (Some f) then (w, Some ErrInboundRouteNotFound)
                else Dispatch lib (rt_in r) (Some f) (w\<lparr>currentRequest := Some f\<rparr>)) of
        (w, e) \<Rightarrow> (w\<lparr>currentRequest := None\<rparr>, e))"

definition agent_push :: "'m proto_lib \<Rightarrow> ('m, 'u, 'w) Route \<Rightarrow> 'm option \<Rightarrow> ('u, 'w) agent_world \<Rightarrow> ('u, 'w) agent_world \<times> err" where
  "agent_push lib r message w =
     (case Outbound_Resolve lib (rt_out r) message of
        (_, _, False) \<Rightarrow>
          (w, Some (Wrap (''resolve client push '' @ (case message of None \<Rightarrow> ''<nil>'' | Some m \<Rightarrow> type_text lib m) @ '': '') ErrOutboundRouteNotFound []))
      | (_, _, True) \<Rightarrow>
          (case Outbound_Encode lib (rt_out r) message of
             Inl e \<Rightarrow> (w, Some (Wrap ''encode client push: '' e []))
           | Inr frame \<Rightarrow>
               (case agent_send frame w of
                  (w, Some e) \<Rightarrow>
                    (w, Some (Wrap (''send client push cmd='' @ show_nat (unat (Cmd frame)) @ '' act='' @ show_nat (unat (Act frame)) @ '': '') e []))
                | (w, None) \<Rightarrow> (w, None))))"

definition handlePushToClient :: "'m proto_lib \<Rightarrow> ('m, 'u, 'w) Route \<Rightarrow> Any option option \<Rightarrow> ('u, 'w) agent_world \<Rightarrow> ('u, 'w) agent_world \<times> err" where
  "handlePushToClient lib r command w =
     (case command of
        Some (Some a) \<Rightarrow>
          (case UnmarshalNew lib a of
             Inl e \<Rightarrow> (w, Some (Wrap ''decode client push message: '' e []))
           | Inr m \<Rightarrow> agent_push lib r (Some m) w)
      | _ \<Rightarrow> (w, Some ErrClientPushMessageNil))"

text \<open>The type switch of \<^verbatim>\<open>HandleTell\<close>: a frame, a push command, or a message for the business actor. The log entry for
  the error of a nil frame reads \<^verbatim>\<open>value.Cmd\<close>, a nil dereference: \<^term>\<open>None\<close>.\<close>

datatype 'm agent_message = FrameMsg "MessageFrame option" | PushMsg "Any option option" | BusinessMsg 'm

definition Agent_HandleTell :: "'m proto_lib \<Rightarrow> ('m, 'u, 'w) Route \<Rightarrow> ('m \<Rightarrow> ('u, 'w) agent_world \<Rightarrow> ('u, 'w) agent_world) \<Rightarrow> 'm agent_message
    \<Rightarrow> ('u, 'w) agent_world \<Rightarrow> ('u, 'w) agent_world option" where
  "Agent_HandleTell lib r business message w =
     (case message of
        FrameMsg f \<Rightarrow>
          (case handleInbound lib r f w of
             (w, None) \<Rightarrow> Some w
           | (w, Some e) \<Rightarrow> if f = None then None else Some w)
      | PushMsg p \<Rightarrow> Some (fst (handlePushToClient lib r p w))
      | BusinessMsg m \<Rightarrow> Some (business m w))"

definition Agent_Destroy :: "(('u, 'w) agent_world \<Rightarrow> ('u, 'w) agent_world) \<Rightarrow> ('u, 'w) agent_world \<Rightarrow> ('u, 'w) agent_world" where
  "Agent_Destroy business w = (let w = business w in w\<lparr>ag_conn := Close (ag_conn w) None\<rparr>)"

text \<open>\<^verbatim>\<open>PushTo\<close> tells the agent to push; \<open>anypb_New\<close> is the constructor of the protobuf library and \<open>tell\<close> is
  \<^verbatim>\<open>ctx.Tell\<close> to the agent with the push command.\<close>

definition PushTo :: "('m option \<Rightarrow> Any result) \<Rightarrow> (Any \<Rightarrow> 's \<Rightarrow> 's \<times> err) \<Rightarrow> 'm option \<Rightarrow> 's \<Rightarrow> 's \<times> err" where
  "PushTo anypb_New tell message s = (case anypb_New message of Inl e \<Rightarrow> (s, Some e) | Inr payload \<Rightarrow> tell payload s)"

subsection \<open>The tables\<close>

text \<open>A table into which the first entry for a key is put and the later ones are ignored.\<close>

definition add_first :: "'a \<Rightarrow> 'b \<Rightarrow> ('a \<times> 'b) list \<Rightarrow> ('a \<times> 'b) list" where
  "add_first k v r = (if map_of r k \<noteq> None then r else r @ [(k, v)])"

lemma map_of_add_first: "map_of (add_first k v r) i = (case map_of r i of None \<Rightarrow> if i = k then Some v else None | Some x \<Rightarrow> Some x)"
  by (auto simp: add_first_def map_add_def split: option.splits)

lemma fold_add_first: "map_of (fold (\<lambda>(k, v). add_first k v) kvs r) i = (case map_of r i of None \<Rightarrow> map_of kvs i | Some x \<Rightarrow> Some x)"
  by (induction kvs arbitrary: r) (auto simp: map_of_add_first split: option.splits)

record ('m, 'u, 'w) registration =
  reg_cmd :: byte
  reg_act :: byte
  reg_handler :: "('m, 'u, 'w) Handler option"
  reg_c2s :: "'m option"
  reg_s2c :: "'m option"

definition register_all :: "'m proto_lib \<Rightarrow> ('m, 'u, 'w) registration list \<Rightarrow> ('m, 'u, 'w) Route" where
  "register_all lib rs = fold (\<lambda>g. Route_Register lib (reg_cmd g) (reg_act g) (reg_handler g) (reg_c2s g) (reg_s2c g)) rs NewRoute"

text \<open>What a sequence of registrations means: for each command, and for each message type, the first that names it.\<close>

definition inbound_spec :: "'m proto_lib \<Rightarrow> ('m, 'u, 'w) registration list \<Rightarrow> byte \<Rightarrow> byte \<Rightarrow> (('m, 'u, 'w) Handler \<times> 'm) option" where
  "inbound_spec lib rs cmd act =
     (case List.find (\<lambda>g. reg_cmd g = cmd \<and> reg_act g = act \<and> reg_handler g \<noteq> None \<and> reg_c2s g \<noteq> None) rs of
        None \<Rightarrow> None | Some g \<Rightarrow> Some (the (reg_handler g), the (reg_c2s g)))"

definition outbound_spec :: "'m proto_lib \<Rightarrow> ('m, 'u, 'w) registration list \<Rightarrow> string \<Rightarrow> (byte \<times> byte) option" where
  "outbound_spec lib rs name =
     (case List.find (\<lambda>g. \<exists>m. reg_s2c g = Some m \<and> full_name lib m = name) rs of None \<Rightarrow> None | Some g \<Rightarrow> Some (reg_cmd g, reg_act g))"

lemma Inbound_Register_add:
  "Inbound_Register lib cmd act handler request r =
     (case (handler, request) of (Some h, Some m) \<Rightarrow> add_first (CmdAct cmd act) \<lparr>ie_handler = h, ie_type = (full_name lib m, type_text lib m)\<rparr> r | _ \<Rightarrow> r)"
  by (simp add: Inbound_Register_def add_first_def split: option.splits)

lemma Outbound_Register_add:
  "Outbound_Register lib cmd act message r = (case message of None \<Rightarrow> r | Some m \<Rightarrow> add_first (full_name lib m) (CmdAct cmd act) r)"
  by (simp add: Outbound_Register_def add_first_def split: option.splits)

lemma register_all_in:
  "map_of (rt_in (fold (\<lambda>g. Route_Register lib (reg_cmd g) (reg_act g) (reg_handler g) (reg_c2s g) (reg_s2c g)) rs r)) (CmdAct cmd act) =
     (case map_of (rt_in r) (CmdAct cmd act) of
        Some x \<Rightarrow> Some x
      | None \<Rightarrow> map_option (\<lambda>(h, m). \<lparr>ie_handler = h, ie_type = (full_name lib m, type_text lib m)\<rparr>) (inbound_spec lib rs cmd act))"
  by (induction rs arbitrary: r)
    (auto simp: inbound_spec_def Route_Register_def Inbound_Register_add map_of_add_first CmdAct_inj split: option.splits)

lemma register_all_out:
  "map_of (rt_out (fold (\<lambda>g. Route_Register lib (reg_cmd g) (reg_act g) (reg_handler g) (reg_c2s g) (reg_s2c g)) rs r)) name =
     (case map_of (rt_out r) name of Some x \<Rightarrow> Some x | None \<Rightarrow> map_option (\<lambda>(cmd, act). CmdAct cmd act) (outbound_spec lib rs name))"
  by (induction rs arbitrary: r) (auto simp: outbound_spec_def Route_Register_def Outbound_Register_add map_of_add_first split: option.splits)

text \<open>
  C38: The two route tables mean what was registered: a frame is dispatched to the handler of the first
  complete registration of its command and action, with the body decoded as the type registered
  there, and a message is encoded with the command and action of the first registration of its type;
  without such a registration both report that there is no route.
\<close>

theorem gateway_routes:
  "(case inbound_spec lib rs (Cmd f) (Act f) of
      None \<Rightarrow> \<not> Registered (rt_in (register_all lib rs)) (Some f) \<and> Dispatch lib (rt_in (register_all lib rs)) (Some f) w = (w, Some ErrInboundRouteNotFound)
    | Some (h, m) \<Rightarrow> Registered (rt_in (register_all lib rs)) (Some f)
        \<and> (case Unmarshal lib (full_name lib m) (type_text lib m) (Body f) of
             Inl e \<Rightarrow> Dispatch lib (rt_in (register_all lib rs)) (Some f) w = (w, Some (Wrap ''agent route unmarshal body err:'' e []))
           | Inr request \<Rightarrow> fst (Dispatch lib (rt_in (register_all lib rs)) (Some f) w) = fst (h request w)))
   \<and> (case outbound_spec lib rs (full_name lib x) of
        None \<Rightarrow> Outbound_Encode lib (rt_out (register_all lib rs)) (Some x) = Inl ErrOutboundRouteNotFound
      | Some (cmd, act) \<Rightarrow> Outbound_Encode lib (rt_out (register_all lib rs)) (Some x) =
          (case Marshal lib (Some x) of Inl e \<Rightarrow> Inl (Wrap ''agent marshal s2c err:'' e []) | Inr body \<Rightarrow> Inr (NewMessageFrame cmd act 0 body)))"
  using register_all_in [of lib rs NewRoute "Cmd f" "Act f"] register_all_out [of lib rs NewRoute "full_name lib x"]
  by (auto simp: register_all_def NewRoute_def Registered_def Dispatch_def MessageFrame_ID_def Outbound_Encode_def Outbound_Resolve_def CmdAct_split
      split: option.splits sum.splits prod.splits)

subsection \<open>Requests and replies\<close>

text \<open>
  C13: A client request whose handler replies is answered on its connection by one frame with the
  command, action and index of the request, without flags, whose body is the encoded reply; a handler
  that replies with an error sends the code of the error, or the internal code when there is none in the
  range of the protocol. Afterwards the agent has no current request, so a late reply is refused.
\<close>

theorem gateway_request_answered:
  assumes "map_of (rt_in r) (CmdAct (Cmd f) (Act f)) = Some entry" and "Unmarshal lib (fst (ie_type entry)) (snd (ie_type entry)) (Body f) = Inr request"
    and "(\<exists>m bs. ie_handler entry request = Agent_Reply lib (Some m) \<and> Marshal lib (Some m) = Inr bs \<and> response = f\<lparr>Flags := 0, Body := bs\<rparr>)
      \<or> (\<exists>z. ie_handler entry request = Agent_ReplyError lib (Some z) \<and> response = f\<lparr>Flags := 0, Error := mapToClientCode (Some z)\<rparr>)"
    and "SendMessage (ag_conn w) (Some response) = (c, None)"
  shows "handleInbound lib r (Some f) w = (w\<lparr>ag_conn := c, currentRequest := None\<rparr>, None)
    \<and> Cmd response = Cmd f \<and> Act response = Act f \<and> Index response = Index f \<and> Flags response = 0
    \<and> Agent_Reply lib late (w\<lparr>ag_conn := c, currentRequest := None\<rparr>) = (w\<lparr>ag_conn := c, currentRequest := None\<rparr>, Some ErrAgentRequestNil)"
  using assms
  by (auto simp: handleInbound_def Registered_def MessageFrame_ID_def Dispatch_def Agent_Reply_def Agent_ReplyError_def agent_reply_def agent_send_def
      MessageFrame_Clone_def Let_def)

lemma mapToClientCode_range:
  "mapToClientCode (Some (Coded c s)) = (if c = 0 \<or> unat c \<ge> 65536 then ClientErrorInternal else ucast c)"
  by (auto simp: mapToClientCode_def CodeOf_Coded ErrorCodeUnknown_def unsigned_minus_1_eq_mask mask_eq_exp_minus_1 split: prod.splits)

end
