(* ===== verification/GatewayBridge.thy ===== *)
theory GatewayBridge
  imports Connection ActorSystem
begin

text \<open>
  \<^verbatim>\<open>gateway/bridge.go\<close> and \<^verbatim>\<open>gateway/gateway.go\<close>: the callbacks of the client connections, which spawn and stop
  an agent for each, and the component around them.

  The user data of a connection is the PID of its agent. \<open>br_group\<close> is the counter of the wait group,
  \<open>br_pids\<close> the concurrent map from connection identifiers to agents; \<^verbatim>\<open>spawner\<close> gives the actor and
  the options of the agent for a connection.
\<close>

definition ErrClientAgentNotFound :: go_error where "ErrClientAgentNotFound = Plain ''gateway client agent not found''"
definition ErrGatewayClosing :: go_error where "ErrGatewayClosing = Plain ''gateway is closing''"
definition ErrRouteNil :: go_error where "ErrRouteNil = Plain ''gateway route nil''"
definition ErrSystemNil :: go_error where "ErrSystemNil = Plain ''gateway actor system is nil''"
definition ErrAgentSpawnerNil :: go_error where "ErrAgentSpawnerNil = Plain ''gateway agent spawner is nil''"

record Bridge =
  br_system :: bool
  br_spawner :: bool
  br_route :: bool
  br_pids :: "(64 word \<times> PID) list"
  br_group :: int
  br_closing :: bool

definition NewGatewayBridge :: "bool \<Rightarrow> bool \<Rightarrow> bool \<Rightarrow> Bridge" where
  "NewGatewayBridge system spawner route =
     \<lparr>br_system = system, br_spawner = spawner, br_route = route, br_pids = [], br_group = 0, br_closing = False\<rparr>"

definition Bridge_Validate :: "Bridge \<Rightarrow> err" where
  "Bridge_Validate b =
     (if \<not> br_system b then Some ErrSystemNil
      else if \<not> br_spawner b then Some ErrAgentSpawnerNil
      else if \<not> br_route b then Some ErrRouteNil
      else None)"

record ('a, 'k, 'm) gateway =
  gw_bridge :: Bridge
  gw_conns :: "PID baseConn list"
  gw_sys :: "('a, 'k, 'm) System"

definition upd_bridge :: "(Bridge \<Rightarrow> Bridge) \<Rightarrow> ('a, 'k, 'm) gateway \<Rightarrow> ('a, 'k, 'm) gateway" where
  "upd_bridge f w = w\<lparr>gw_bridge := f (gw_bridge w)\<rparr>"

text \<open>\<^verbatim>\<open>OnConnected\<close> up to \<^verbatim>\<open>SetUserData\<close>, and what follows.\<close>

definition bridge_spawn :: "(nat \<Rightarrow> 'a \<times> ('k, 'm) SpawnOptions) \<Rightarrow> int list \<Rightarrow> nat \<Rightarrow> ('a, 'k, 'm) gateway \<Rightarrow> (('a, 'k, 'm) gateway \<times> PID result) option" where
  "bridge_spawn spawner clock c w =
     (if br_closing (gw_bridge w) then Some (w, Inl ErrGatewayClosing)
      else (case SpawnActor (Some (fst (spawner c))) (snd (spawner c)) clock (gw_sys w) of
              None \<Rightarrow> None
            | Some (s, p, Some e) \<Rightarrow> Some (w\<lparr>gw_sys := s\<rparr>, Inl (Wrap ''agent handle connected spawn err:'' e []))
            | Some (s, p, None) \<Rightarrow>
                Some (w\<lparr>gw_sys := s, gw_conns := (gw_conns w)[c := SetUserData p (gw_conns w ! c)]\<rparr>, Inr (the p))))"

definition bridge_add :: "('a, 'k, 'm) gateway \<Rightarrow> ('a, 'k, 'm) gateway" where
  "bridge_add w = upd_bridge (\<lambda>b. b\<lparr>br_group := br_group b + 1\<rparr>) w"

definition bridge_set :: "nat \<Rightarrow> PID \<Rightarrow> ('a, 'k, 'm) gateway \<Rightarrow> ('a, 'k, 'm) gateway" where
  "bridge_set c p w = upd_bridge (\<lambda>b. b\<lparr>br_pids := AList.update (conn_id (gw_conns w ! c)) p (br_pids b)\<rparr>) w"

definition Bridge_OnConnected :: "(nat \<Rightarrow> 'a \<times> ('k, 'm) SpawnOptions) \<Rightarrow> int list \<Rightarrow> nat \<Rightarrow> ('a, 'k, 'm) gateway \<Rightarrow> (('a, 'k, 'm) gateway \<times> err) option" where
  "Bridge_OnConnected spawner clock c w =
     map_option (\<lambda>(w, r). case r of Inl e \<Rightarrow> (w, Some e) | Inr p \<Rightarrow> (bridge_set c p (bridge_add w), None)) (bridge_spawn spawner clock c w)"

definition Bridge_OnMessage :: "'m act_env \<Rightarrow> (MessageFrame \<Rightarrow> 'm) \<Rightarrow> nat \<Rightarrow> MessageFrame \<Rightarrow> ('a, 'k, 'm) gateway \<Rightarrow> ('a, 'k, 'm) gateway \<times> err" where
  "Bridge_OnMessage env mk_frame c packet w =
     (if br_closing (gw_bridge w) then (w, None)
      else (case UserData (gw_conns w ! c) of
              None \<Rightarrow> (w, Some (Wrap ''agent handle message err:'' ErrClientAgentNotFound []))
            | Some p \<Rightarrow>
                (case SendEnvelope env (Some p) \<lparr>Payload = User (Val (mk_frame packet)), Sender = Some p, Meta = no_meta\<rparr> (gw_sys w) of
                   (s, e) \<Rightarrow> (w\<lparr>gw_sys := s\<rparr>, e))))"

text \<open>\<^verbatim>\<open>OnClose\<close>: taking the entry out of the map, stopping the agent, \<^verbatim>\<open>group.Done\<close>.\<close>

definition bridge_untrack :: "nat \<Rightarrow> ('a, 'k, 'm) gateway \<Rightarrow> ('a, 'k, 'm) gateway \<times> PID option" where
  "bridge_untrack c w =
     (case UserData (gw_conns w ! c) of
        None \<Rightarrow> (w, None)
      | Some p \<Rightarrow>
          if map_of (br_pids (gw_bridge w)) (conn_id (gw_conns w ! c)) = None then (w, None)
          else (upd_bridge (\<lambda>b. b\<lparr>br_pids := AList.delete (conn_id (gw_conns w ! c)) (br_pids b)\<rparr>) w, Some p))"

definition bridge_stop :: "PID \<Rightarrow> ('a, 'k, 'm) gateway \<Rightarrow> ('a, 'k, 'm) gateway" where
  "bridge_stop p w = w\<lparr>gw_sys := StopProcess (Some NoSender) (Some p) (gw_sys w)\<rparr>"

definition bridge_done :: "('a, 'k, 'm) gateway \<Rightarrow> ('a, 'k, 'm) gateway" where
  "bridge_done w = upd_bridge (\<lambda>b. b\<lparr>br_group := br_group b - 1\<rparr>) w"

definition Bridge_OnClose :: "nat \<Rightarrow> ('a, 'k, 'm) gateway \<Rightarrow> ('a, 'k, 'm) gateway" where
  "Bridge_OnClose c w = (case bridge_untrack c w of (w, None) \<Rightarrow> w | (w, Some p) \<Rightarrow> bridge_done (bridge_stop p w))"

definition rejectNewConnections :: "('a, 'k, 'm) gateway \<Rightarrow> ('a, 'k, 'm) gateway" where
  "rejectNewConnections w = upd_bridge (\<lambda>b. b\<lparr>br_closing := True\<rparr>) w"

text \<open>\<^verbatim>\<open>stopAgents\<close>: ranging over the map in the order \<open>iter\<close>, and the result of the wait in the state in which
  it ends (\<^verbatim>\<open>grs.WaitWithTimeout\<close>).\<close>

definition stop_agents :: "((64 word \<times> PID) list \<Rightarrow> (64 word \<times> PID) list) \<Rightarrow> ('a, 'k, 'm) gateway \<Rightarrow> ('a, 'k, 'm) gateway" where
  "stop_agents iter w = fold (\<lambda>(_, p). bridge_stop p) (iter (br_pids (gw_bridge w))) w"

definition WaitWithTimeout :: "int \<Rightarrow> err" where
  "WaitWithTimeout counter = (if counter = 0 then None else Some (Plain ''wait group timeout''))"

subsection \<open>gateway.go\<close>

definition Gateway_init_hook :: "Bridge \<Rightarrow> err" where
  "Gateway_init_hook b = Bridge_Validate b"

text \<open>\<^verbatim>\<open>Stop\<close> up to its wait; \<open>cancel\<close> is the effect of cancelling the context of the server.\<close>

definition Gateway_stop_hook :: "(('a, 'k, 'm) gateway \<Rightarrow> ('a, 'k, 'm) gateway) \<Rightarrow> ((64 word \<times> PID) list \<Rightarrow> (64 word \<times> PID) list) \<Rightarrow> ('a, 'k, 'm) gateway \<Rightarrow> ('a, 'k, 'm) gateway" where
  "Gateway_stop_hook cancel iter w = stop_agents iter (cancel (rejectNewConnections w))"

subsection \<open>Interleaving\<close>

text \<open>
  The callbacks of different connections run concurrently, and so may \<^verbatim>\<open>OnConnected\<close> and \<^verbatim>\<open>OnClose\<close> of one
  connection; each is called at most once for a connection. \<^verbatim>\<open>OnConnected\<close> holds the read lock all the
  time, so \<^verbatim>\<open>rejectNewConnections\<close> waits for it.
\<close>

datatype up_pc = UpIdle | UpAdd PID | UpSet PID | UpDone
datatype down_pc = DownIdle | DownStop PID | DownDone | DownEnd

record ('a, 'k, 'm) gate_sys =
  gate :: "('a, 'k, 'm) gateway"
  up :: "nat \<Rightarrow> up_pc"
  down :: "nat \<Rightarrow> down_pc"

definition connecting :: "('a, 'k, 'm) gate_sys \<Rightarrow> bool" where
  "connecting s \<longleftrightarrow> (\<exists>c < length (gw_conns (gate s)). up s c \<notin> {UpIdle, UpDone})"

inductive gate_step :: "(nat \<Rightarrow> 'a \<times> ('k, 'm) SpawnOptions) \<Rightarrow> ('a, 'k, 'm) gate_sys \<Rightarrow> ('a, 'k, 'm) gate_sys \<Rightarrow> bool" for spawner where
  spawn_ok: "c < length (gw_conns (gate s)) \<Longrightarrow> up s c = UpIdle \<Longrightarrow> bridge_spawn spawner clock c (gate s) = Some (w, Inr p) \<Longrightarrow>
    gate_step spawner s (s\<lparr>gate := w, up := (up s)(c := UpAdd p)\<rparr>)"
| spawn_fails: "c < length (gw_conns (gate s)) \<Longrightarrow> up s c = UpIdle \<Longrightarrow> bridge_spawn spawner clock c (gate s) = Some (w, Inl e) \<Longrightarrow>
    gate_step spawner s (s\<lparr>gate := w, up := (up s)(c := UpDone)\<rparr>)"
| adds: "c < length (gw_conns (gate s)) \<Longrightarrow> up s c = UpAdd p \<Longrightarrow>
    gate_step spawner s (s\<lparr>gate := bridge_add (gate s), up := (up s)(c := UpSet p)\<rparr>)"
| sets: "c < length (gw_conns (gate s)) \<Longrightarrow> up s c = UpSet p \<Longrightarrow>
    gate_step spawner s (s\<lparr>gate := bridge_set c p (gate s), up := (up s)(c := UpDone)\<rparr>)"
| untracks: "c < length (gw_conns (gate s)) \<Longrightarrow> down s c = DownIdle \<Longrightarrow> bridge_untrack c (gate s) = (w, r) \<Longrightarrow>
    gate_step spawner s (s\<lparr>gate := w, down := (down s)(c := (case r of None \<Rightarrow> DownEnd | Some p \<Rightarrow> DownStop p))\<rparr>)"
| stops: "c < length (gw_conns (gate s)) \<Longrightarrow> down s c = DownStop p \<Longrightarrow>
    gate_step spawner s (s\<lparr>gate := bridge_stop p (gate s), down := (down s)(c := DownDone)\<rparr>)"
| dones: "c < length (gw_conns (gate s)) \<Longrightarrow> down s c = DownDone \<Longrightarrow>
    gate_step spawner s (s\<lparr>gate := bridge_done (gate s), down := (down s)(c := DownEnd)\<rparr>)"
| message: "Bridge_OnMessage env mk_frame c packet (gate s) = (w, e) \<Longrightarrow> gate_step spawner s (s\<lparr>gate := w\<rparr>)"
| rejects: "\<not> connecting s \<Longrightarrow> gate_step spawner s (s\<lparr>gate := rejectNewConnections (gate s)\<rparr>)"
| agents: "gate_step spawner s (s\<lparr>gate := stop_agents iter (gate s)\<rparr>)"
| system: "gate_step spawner s (s\<lparr>gate := (gate s)\<lparr>gw_sys := sys\<rparr>\<rparr>)"
| connection: "c < length (gw_conns (gate s)) \<Longrightarrow> userData b = userData (gw_conns (gate s) ! c) \<Longrightarrow> conn_id b = conn_id (gw_conns (gate s) ! c) \<Longrightarrow>
    gate_step spawner s (s\<lparr>gate := (gate s)\<lparr>gw_conns := (gw_conns (gate s))[c := b]\<rparr>\<rparr>)"

inductive gate_reachable :: "(nat \<Rightarrow> 'a \<times> ('k, 'm) SpawnOptions) \<Rightarrow> ('a, 'k, 'm) gate_sys \<Rightarrow> ('a, 'k, 'm) gate_sys \<Rightarrow> bool" for spawner s0 where
  gate_start: "gate_reachable spawner s0 s0"
| gate_next: "gate_reachable spawner s0 s \<Longrightarrow> gate_step spawner s s' \<Longrightarrow> gate_reachable spawner s0 s'"

definition gate_init :: "('a, 'k, 'm) gate_sys \<Rightarrow> bool" where
  "gate_init s \<longleftrightarrow> distinct (map conn_id (gw_conns (gate s))) \<and> br_pids (gw_bridge (gate s)) = [] \<and> br_group (gw_bridge (gate s)) = 0
     \<and> \<not> br_closing (gw_bridge (gate s)) \<and> (\<forall>c. up s c = UpIdle \<and> down s c = DownIdle)"

subsection \<open>The counter of the wait group\<close>

definition tracked :: "('a, 'k, 'm) gateway \<Rightarrow> nat \<Rightarrow> bool" where
  "tracked w c \<longleftrightarrow> map_of (br_pids (gw_bridge w)) (conn_id (gw_conns w ! c)) \<noteq> None"

text \<open>What connection \<open>c\<close> has contributed to the counter and not taken back.\<close>

definition share :: "('a, 'k, 'm) gate_sys \<Rightarrow> nat \<Rightarrow> int" where
  "share s c = (if tracked (gate s) c then 1 else 0) + (case up s c of UpSet _ \<Rightarrow> 1 | _ \<Rightarrow> 0)
     + (case down s c of DownStop _ \<Rightarrow> 1 | DownDone \<Rightarrow> 1 | _ \<Rightarrow> 0)"

definition gate_inv :: "('a, 'k, 'm) gate_sys \<Rightarrow> bool" where
  "gate_inv s \<longleftrightarrow> distinct (map conn_id (gw_conns (gate s)))
     \<and> (\<forall>c < length (gw_conns (gate s)). tracked (gate s) c \<longrightarrow> up s c = UpDone)
     \<and> (br_closing (gw_bridge (gate s)) \<longrightarrow> \<not> connecting s)
     \<and> br_group (gw_bridge (gate s)) = (\<Sum>c < length (gw_conns (gate s)). share s c)"

lemma sum_change:
  fixes f g :: "nat \<Rightarrow> int"
  assumes "i < n" "\<And>c. c < n \<Longrightarrow> c \<noteq> i \<Longrightarrow> g c = f c"
  shows "(\<Sum>c < n. g c) = (\<Sum>c < n. f c) + (g i - f i)"
proof -
  have "(\<Sum>c \<in> {..<n} - {i}. g c) = (\<Sum>c \<in> {..<n} - {i}. f c)" using assms(2) by (intro sum.cong) auto
  then show ?thesis using assms(1) by (simp add: sum.remove [of "{..<n}" i])
qed

text \<open>A step that only concerns connection \<open>c\<close>.\<close>

lemma gate_inv_step1:
  assumes inv: "gate_inv s" and c: "c < length (gw_conns (gate s))"
    and conns: "map conn_id (gw_conns (gate s')) = map conn_id (gw_conns (gate s))"
    and others: "\<And>i. i < length (gw_conns (gate s)) \<Longrightarrow> i \<noteq> c \<Longrightarrow> tracked (gate s') i = tracked (gate s) i \<and> up s' i = up s i \<and> down s' i = down s i"
    and own: "tracked (gate s') c \<longrightarrow> up s' c = UpDone"
    and closing: "br_closing (gw_bridge (gate s')) = br_closing (gw_bridge (gate s))" "br_closing (gw_bridge (gate s)) \<longrightarrow> up s' c \<in> {UpIdle, UpDone}"
    and count: "br_group (gw_bridge (gate s')) = br_group (gw_bridge (gate s)) + (share s' c - share s c)"
  shows "gate_inv s'"
proof -
  have len: "length (gw_conns (gate s')) = length (gw_conns (gate s))" using arg_cong [OF conns, of length] by simp
  have "(\<Sum>i < length (gw_conns (gate s)). share s' i) = (\<Sum>i < length (gw_conns (gate s)). share s i) + (share s' c - share s c)"
    by (rule sum_change [OF c]) (simp add: share_def others)
  moreover have "up s' i = UpDone" if "i < length (gw_conns (gate s))" "tracked (gate s') i" for i
    using that inv own others [OF that(1)] by (cases "i = c") (auto simp: gate_inv_def)
  moreover have "\<not> connecting s'" if "br_closing (gw_bridge (gate s))"
  proof -
    have "up s' i \<in> {UpIdle, UpDone}" if i: "i < length (gw_conns (gate s))" for i
      using i \<open>br_closing (gw_bridge (gate s))\<close> inv closing(2) others [OF i] by (cases "i = c") (auto simp: gate_inv_def connecting_def)
    then show ?thesis by (auto simp: connecting_def len)
  qed
  ultimately show ?thesis using inv closing(1) count unfolding gate_inv_def len conns by simp
qed

text \<open>A step that changes neither the map nor the counter nor the callbacks under way.\<close>

lemma gate_inv_same:
  assumes "gate_inv s" "map conn_id (gw_conns w) = map conn_id (gw_conns (gate s))" "gw_bridge w = gw_bridge (gate s)"
  shows "gate_inv (s\<lparr>gate := w\<rparr>)"
proof -
  have len: "length (gw_conns w) = length (gw_conns (gate s))" using arg_cong [OF assms(2), of length] by simp
  have "conn_id (gw_conns w ! c) = conn_id (gw_conns (gate s) ! c)" if "c < length (gw_conns (gate s))" for c
    using arg_cong [OF assms(2), of "\<lambda>xs. xs ! c"] that len by simp
  then have tr: "tracked w c = tracked (gate s) c" if "c < length (gw_conns (gate s))" for c
    using that by (simp add: tracked_def assms(3))
  then have "(\<Sum>c < length (gw_conns (gate s)). share (s\<lparr>gate := w\<rparr>) c) = (\<Sum>c < length (gw_conns (gate s)). share s c)"
    by (intro sum.cong) (simp_all add: share_def)
  then show ?thesis using assms(1) tr by (simp add: gate_inv_def connecting_def len assms(2,3))
qed

lemma bridge_spawn_keeps:
  assumes "bridge_spawn spawner clock c w = Some (w', r)"
  shows "gw_bridge w' = gw_bridge w" "map conn_id (gw_conns w') = map conn_id (gw_conns w)" "r = Inr p \<Longrightarrow> \<not> br_closing (gw_bridge w)"
proof -
  have "map conn_id ((gw_conns w)[c := SetUserData q (gw_conns w ! c)]) = map conn_id (gw_conns w)" for q
    by (cases "c < length (gw_conns w)") (auto simp: map_update SetUserData_def list_update_same_conv list_update_beyond split: option.splits)
  then show "gw_bridge w' = gw_bridge w" "map conn_id (gw_conns w') = map conn_id (gw_conns w)" "r = Inr p \<Longrightarrow> \<not> br_closing (gw_bridge w)"
    using assms by (auto simp: bridge_spawn_def split: if_splits option.splits)
qed

lemma distinct_ids: "gate_inv s \<Longrightarrow> i < length (gw_conns (gate s)) \<Longrightarrow> c < length (gw_conns (gate s)) \<Longrightarrow>
  conn_id (gw_conns (gate s) ! i) = conn_id (gw_conns (gate s) ! c) \<Longrightarrow> i = c"
  by (auto simp: gate_inv_def distinct_conv_nth)

lemma tracked_ops:
  assumes "gate_inv s" "c < length (gw_conns (gate s))" "i < length (gw_conns (gate s))"
  shows "tracked (bridge_set c p (gate s)) i \<longleftrightarrow> i = c \<or> tracked (gate s) i"
    and "bridge_untrack c (gate s) = (w, Some q) \<Longrightarrow> tracked w i \<longleftrightarrow> i \<noteq> c \<and> tracked (gate s) i"
    and "bridge_untrack c (gate s) = (w, Some q) \<Longrightarrow> tracked (gate s) c"
  using assms distinct_ids [OF assms(1,3,2)]
  by (auto simp: tracked_def bridge_set_def bridge_untrack_def upd_bridge_def update_conv' AList.delete_conv' split: option.splits if_splits)

lemma bridge_keeps [simp]:
  "gw_conns (bridge_add w) = gw_conns w" "gw_conns (bridge_set c p w) = gw_conns w" "gw_conns (bridge_stop p w) = gw_conns w" "gw_conns (bridge_done w) = gw_conns w"
  "gw_bridge (bridge_stop p w) = gw_bridge w" "tracked (bridge_add w) i = tracked w i" "tracked (bridge_done w) i = tracked w i" "tracked (bridge_stop p w) i = tracked w i"
  "br_closing (gw_bridge (bridge_add w)) = br_closing (gw_bridge w)" "br_closing (gw_bridge (bridge_set c p w)) = br_closing (gw_bridge w)"
  "br_closing (gw_bridge (bridge_done w)) = br_closing (gw_bridge w)" "br_group (gw_bridge (bridge_set c p w)) = br_group (gw_bridge w)"
  "br_group (gw_bridge (bridge_add w)) = br_group (gw_bridge w) + 1" "br_group (gw_bridge (bridge_done w)) = br_group (gw_bridge w) - 1"
  by (simp_all add: bridge_add_def bridge_set_def bridge_stop_def bridge_done_def upd_bridge_def tracked_def)

lemma bridge_untrack_keeps:
  assumes "bridge_untrack c w = (w', r)"
  shows "gw_conns w' = gw_conns w" "br_closing (gw_bridge w') = br_closing (gw_bridge w)" "br_group (gw_bridge w') = br_group (gw_bridge w)" "r = None \<Longrightarrow> w' = w"
  using assms by (auto simp: bridge_untrack_def upd_bridge_def split: option.splits if_splits)

lemma stop_agents_keeps [simp]: "gw_conns (stop_agents iter w) = gw_conns w" "gw_bridge (stop_agents iter w) = gw_bridge w"
proof -
  have "gw_conns (fold (\<lambda>(_, p). bridge_stop p) ps w) = gw_conns w \<and> gw_bridge (fold (\<lambda>(_, p). bridge_stop p) ps w) = gw_bridge w" for ps
    by (induction ps arbitrary: w) auto
  from this [of "iter (br_pids (gw_bridge w))"]
  show "gw_conns (stop_agents iter w) = gw_conns w" "gw_bridge (stop_agents iter w) = gw_bridge w" unfolding stop_agents_def by blast+
qed

lemma not_closing: "gate_inv s \<Longrightarrow> c < length (gw_conns (gate s)) \<Longrightarrow> up s c \<notin> {UpIdle, UpDone} \<Longrightarrow> \<not> br_closing (gw_bridge (gate s))"
  by (auto simp: gate_inv_def connecting_def)

lemma gate_inv_step:
  assumes "gate_step spawner s s'" "gate_inv s"
  shows "gate_inv s'"
  using assms
proof (induction rule: gate_step.induct)
  case (spawn_ok c s clock w p)
  note k = bridge_spawn_keeps [OF spawn_ok(3)]
  have len: "length (gw_conns w) = length (gw_conns (gate s))" using map_eq_imp_length_eq [OF k(2)] .
  have same: "gate_inv (s\<lparr>gate := w\<rparr>)" using gate_inv_same [OF spawn_ok(4)] k by simp
  have "\<not> tracked (gate s) c" using spawn_ok(1,2,4) by (auto simp: gate_inv_def)
  then have nt: "\<not> tracked w c" using same spawn_ok(2) spawn_ok(1) arg_cong [OF k(2), of length] by (auto simp: gate_inv_def)
  show ?case
    by (rule gate_inv_step1 [OF same, of c]) (use spawn_ok(1,2) k nt in \<open>auto simp: share_def len\<close>)
next
  case (spawn_fails c s clock w e)
  note k = bridge_spawn_keeps [OF spawn_fails(3)]
  have same: "gate_inv (s\<lparr>gate := w\<rparr>)" using gate_inv_same [OF spawn_fails(4)] k by simp
  show ?case
    by (rule gate_inv_step1 [OF same, of c]) (use spawn_fails(1,2) map_eq_imp_length_eq [OF k(2)] in \<open>auto simp: share_def\<close>)
next
  case (adds c s p)
  have "\<not> tracked (gate s) c" using adds by (auto simp: gate_inv_def)
  then show ?case using not_closing [OF adds(3,1)] adds(2) by (intro gate_inv_step1 [OF adds(3,1)]) (auto simp: share_def)
next
  case (sets c s p)
  have "\<not> tracked (gate s) c" using sets by (auto simp: gate_inv_def)
  then show ?case using sets(2) tracked_ops(1) [OF sets(3,1)]
    by (intro gate_inv_step1 [OF sets(3,1)]) (auto simp: share_def sets(1) split: down_pc.splits)
next
  case (untracks c s w r)
  note k = bridge_untrack_keeps [OF untracks(3)]
  show ?case
  proof (cases r)
    case None
    then show ?thesis using k untracks(1,2,4) by (intro gate_inv_step1 [OF untracks(4,1)]) (auto simp: share_def gate_inv_def connecting_def)
  next
    case (Some q)
    note tr = tracked_ops(2,3) [OF untracks(4,1) _ untracks(3) [unfolded Some]]
    show ?thesis using k tr untracks(1,2,4) Some
      by (intro gate_inv_step1 [OF untracks(4,1)]) (auto simp: share_def gate_inv_def connecting_def)
  qed
next
  case (stops c s p)
  then show ?case by (intro gate_inv_step1 [OF stops(3,1)]) (auto simp: share_def gate_inv_def connecting_def)
next
  case (dones c s)
  then show ?case by (intro gate_inv_step1 [OF dones(3,1)]) (auto simp: share_def gate_inv_def connecting_def)
next
  case (message env mk_frame c packet s w e)
  then show ?case by (intro gate_inv_same) (auto simp: Bridge_OnMessage_def split: if_splits option.splits prod.splits)
next
  case (rejects s)
  have "share (s\<lparr>gate := rejectNewConnections (gate s)\<rparr>) = share s" by (simp add: fun_eq_iff share_def tracked_def rejectNewConnections_def upd_bridge_def)
  then show ?case using rejects by (simp add: gate_inv_def connecting_def rejectNewConnections_def upd_bridge_def tracked_def)
next
  case (agents s iter)
  then show ?case by (intro gate_inv_same) simp_all
next
  case (system s sys)
  then show ?case by (intro gate_inv_same) simp_all
next
  case (connection c s b)
  then show ?case by (intro gate_inv_same) (auto intro!: nth_equalityI simp: nth_list_update)
qed

text \<open>
  C39: In every interleaving of the callbacks of all connections with each other and with \<^verbatim>\<open>Stop\<close>, the wait
  group of the gateway never panics: its counter is never negative and is positive whenever \<^verbatim>\<open>Done\<close> is
  called; it is the number of tracked connections when no callback is under way, so that the wait of
  \<^verbatim>\<open>Stop\<close> succeeds once they are all untracked; and once the gateway rejects connections no further agent is spawned.
\<close>

theorem bridge_wait_group:
  assumes "gate_reachable spawner s0 s" and "gate_init s0"
  shows "br_group (gw_bridge (gate s)) \<ge> 0
    \<and> (\<forall>c < length (gw_conns (gate s)). down s c = DownDone \<longrightarrow> br_group (gw_bridge (gate s)) > 0)
    \<and> ((\<forall>c < length (gw_conns (gate s)). up s c \<in> {UpIdle, UpDone} \<and> down s c \<in> {DownIdle, DownEnd}) \<longrightarrow>
        br_group (gw_bridge (gate s)) = int (card {c. c < length (gw_conns (gate s)) \<and> tracked (gate s) c}))
    \<and> (br_closing (gw_bridge (gate s)) \<longrightarrow> \<not> connecting s \<and> (\<forall>clock c w p. bridge_spawn spawner clock c (gate s) \<noteq> Some (w, Inr p)))"
proof -
  let ?n = "length (gw_conns (gate s))"
  have "gate_inv s0" using assms(2) by (simp add: gate_init_def gate_inv_def share_def tracked_def)
  with assms(1) have inv: "gate_inv s" by (induction rule: gate_reachable.induct) (auto intro: gate_inv_step)
  have nonneg: "share s c \<ge> 0" for c by (auto simp: share_def split: up_pc.splits down_pc.splits)
  have g: "br_group (gw_bridge (gate s)) = (\<Sum>c < ?n. share s c)" using inv by (simp add: gate_inv_def)
  have "br_group (gw_bridge (gate s)) > 0" if "c < ?n" "down s c = DownDone" for c
  proof -
    have "share s c > 0" using that(2) by (auto simp: share_def split: up_pc.splits)
    moreover have "share s c \<le> (\<Sum>c < ?n. share s c)" using that(1) nonneg by (intro member_le_sum) auto
    ultimately show ?thesis using g by simp
  qed
  moreover have "br_group (gw_bridge (gate s)) = int (card {c. c < ?n \<and> tracked (gate s) c})"
    if q: "\<forall>c < ?n. up s c \<in> {UpIdle, UpDone} \<and> down s c \<in> {DownIdle, DownEnd}"
  proof -
    have "(\<Sum>c < ?n. share s c) = (\<Sum>c < ?n. if tracked (gate s) c then 1 else 0)"
      using q by (intro sum.cong) (auto simp: share_def)
    also have "\<dots> = int (card {c. c < ?n \<and> tracked (gate s) c})" by (simp add: sum.If_cases Int_def)
    finally show ?thesis using g by simp
  qed
  moreover have "0 \<le> br_group (gw_bridge (gate s))" using g nonneg by (simp add: sum_nonneg)
  moreover have "bridge_spawn spawner clock c (gate s) \<noteq> Some (w, Inr p)" if "br_closing (gw_bridge (gate s))" for clock c w p
    using that bridge_spawn_keeps(3) [of spawner clock c "gate s" w "Inr p" p] by auto
  ultimately show ?thesis using inv by (simp add: gate_inv_def)
qed

end
