(* ===== verification/ClusterNode.thy ===== *)
theory ClusterNode
  imports ConnDelivery Transport Member Component "HOL-Library.Char_ord" "HOL-Library.List_Lexorder"
begin

text \<open>
  \<^verbatim>\<open>cluster/cluster.go\<close>: the component that joins a node to its cluster, keeps it connected to the other
  members and sends to them, on top of a registry (an interface, with its state \<open>'r\<close>) and the transport of
  \<^verbatim>\<open>nettransport\<close>. The functions that \<^verbatim>\<open>GuardInit\<close>, \<^verbatim>\<open>GuardStart\<close> and \<^verbatim>\<open>GuardStop\<close> run are modelled as such;
  dependencies that may be nil are booleans.
\<close>

record 'r RegistryAPI =
  reg_Run :: "'r \<Rightarrow> 'r \<times> err"
  reg_Join :: "NodeInfo \<Rightarrow> 'r \<Rightarrow> 'r \<times> err"
  reg_Leave :: "string \<Rightarrow> 'r \<Rightarrow> 'r \<times> err"
  reg_AllMembers :: "'r \<Rightarrow> NodeInfo list"
  reg_Members :: "string \<Rightarrow> 'r \<Rightarrow> (string \<times> NodeInfo) list"
  reg_MemberById :: "string \<Rightarrow> 'r \<Rightarrow> NodeInfo \<times> bool"

record Cluster =
  cl_node :: NodeInfo
  cl_registry :: bool
  cl_transport :: bool
  cl_handler :: bool
  cl_cancelled :: bool
  cl_connector :: bool

definition Cluster_NewWithOptions :: "NodeInfo \<Rightarrow> bool \<Rightarrow> bool \<Rightarrow> bool \<Rightarrow> Cluster" where
  "Cluster_NewWithOptions node registry tport handler =
     \<lparr>cl_node = node, cl_registry = registry, cl_transport = tport, cl_handler = handler, cl_cancelled = False, cl_connector = False\<rparr>"

text \<open>\<^verbatim>\<open>bootstrap.NewDefaultCluster\<close> with the transport it makes; the registry is there in any case.\<close>

definition NewDefaultTransportAPI :: "string \<Rightarrow> string \<Rightarrow> bool \<Rightarrow> Transport" where
  "NewDefaultTransportAPI node address handler = NewTransportWithOptions node address handler None"

definition NewDefaultCluster :: "NodeInfo \<Rightarrow> bool \<Rightarrow> Transport option \<Rightarrow> Cluster \<times> Transport" where
  "NewDefaultCluster node handler tport =
     (Cluster_NewWithOptions node True True handler,
      case tport of None \<Rightarrow> NewDefaultTransportAPI (node_ID node) (Address node) handler | Some t \<Rightarrow> t)"

definition Cluster_init_hook :: "Cluster \<Rightarrow> err" where
  "Cluster_init_hook c =
     (case NodeInfo_Validate (cl_node c) of
        Some e \<Rightarrow> Some e
      | None \<Rightarrow>
          if \<not> cl_registry c then Some (Plain ''cluster registry is nil'')
          else if \<not> cl_transport c then Some (Plain ''cluster transport is nil'')
          else if \<not> cl_handler c then Some (Plain ''cluster handler is nil'')
          else None)"

definition Cluster_Join :: "'r RegistryAPI \<Rightarrow> Cluster \<Rightarrow> 'r \<Rightarrow> 'r \<times> err" where
  "Cluster_Join R c r = reg_Join R (cl_node c) r"

definition Cluster_Leave :: "'r RegistryAPI \<Rightarrow> Cluster \<Rightarrow> 'r \<Rightarrow> 'r \<times> err" where
  "Cluster_Leave R c r = reg_Leave R (node_ID (cl_node c)) r"

definition Cluster_start_hook :: "'r RegistryAPI \<Rightarrow> Transport \<Rightarrow> Cluster \<Rightarrow> 'r \<Rightarrow> Cluster \<times> 'r \<times> err" where
  "Cluster_start_hook R t c r =
     (case transport_Run t of
        Some e \<Rightarrow> (c, r, Some e)
      | None \<Rightarrow>
          (case reg_Run R r of
             (r, Some e) \<Rightarrow> (c, r, Some e)
           | (r, None) \<Rightarrow> (case Cluster_Join R c r of (r, e) \<Rightarrow> (c\<lparr>cl_connector := True\<rparr>, r, e))))"

definition Cluster_stop_hook :: "peer_iter \<Rightarrow> Cluster \<Rightarrow> Transport \<Rightarrow> Cluster \<times> Transport" where
  "Cluster_stop_hook iter c t = (c\<lparr>cl_cancelled := True\<rparr>, if cl_transport c then transport_Close iter t else t)"

text \<open>The call of \<^verbatim>\<open>transport.Connect\<close> that \<^verbatim>\<open>connectMember\<close> starts in a goroutine, if any.\<close>

definition connectMember :: "Cluster \<Rightarrow> Transport \<Rightarrow> NodeInfo \<Rightarrow> (string \<times> string) option" where
  "connectMember c t node =
     (if node_ID (cl_node c) \<ge> node_ID node then None
      else if ConnectionState_of (node_ID node) t \<in> {PeerStateConnected, PeerStateHandshaking} then None
      else Some (node_ID node, Address node))"

text \<open>A tick of \<^verbatim>\<open>runConnector\<close>.\<close>

definition connector_tick :: "'r RegistryAPI \<Rightarrow> Cluster \<Rightarrow> Transport \<Rightarrow> 'r \<Rightarrow> (string \<times> string) list" where
  "connector_tick R c t r = (if cl_cancelled c then [] else List.map_filter (connectMember c t) (reg_AllMembers R r))"

definition SendToNode :: "string \<Rightarrow> bytes \<Rightarrow> Transport \<Rightarrow> Transport \<times> err" where
  "SendToNode node data t = transport_Send node data t"

definition Cluster_Broadcast :: "peer_iter \<Rightarrow> bytes \<Rightarrow> Transport \<Rightarrow> Transport \<times> err" where
  "Cluster_Broadcast iter data t = transport_Broadcast iter data t"

definition Cluster_Members :: "'r RegistryAPI \<Rightarrow> string \<Rightarrow> 'r \<Rightarrow> (string \<times> NodeInfo) list" where
  "Cluster_Members R name r = reg_Members R name r"

definition Cluster_MemberById :: "'r RegistryAPI \<Rightarrow> string \<Rightarrow> 'r \<Rightarrow> NodeInfo \<times> bool" where
  "Cluster_MemberById R name r = reg_MemberById R name r"

definition Cluster_AllMembers :: "'r RegistryAPI \<Rightarrow> 'r \<Rightarrow> NodeInfo list" where
  "Cluster_AllMembers R r = reg_AllMembers R r"

subsection \<open>Who dials\<close>

text \<open>Of two members that see each other and are not connected, exactly one dials the other.\<close>

lemma one_member_dials:
  assumes "cl_node c \<in> set (reg_AllMembers S s)" "cl_node d \<in> set (reg_AllMembers R r)" "node_ID (cl_node c) \<noteq> node_ID (cl_node d)"
    and "\<not> cl_cancelled c" "\<not> cl_cancelled d"
    and "ConnectionState_of (node_ID (cl_node d)) t = PeerStateIdle" "ConnectionState_of (node_ID (cl_node c)) u = PeerStateIdle"
  shows "node_ID (cl_node d) \<in> fst ` set (connector_tick R c t r) \<longleftrightarrow> node_ID (cl_node c) \<notin> fst ` set (connector_tick S d u s)"
proof -
  have "node_ID (cl_node d) \<in> fst ` set (connector_tick R c t r) \<longleftrightarrow> node_ID (cl_node c) < node_ID (cl_node d)"
    using assms(2,4,6) by (force simp: connector_tick_def in_map_filter connectMember_def image_iff split: if_splits)
  moreover have "node_ID (cl_node c) \<in> fst ` set (connector_tick S d u s) \<longleftrightarrow> node_ID (cl_node d) < node_ID (cl_node c)"
    using assms(1,5,7) by (force simp: connector_tick_def in_map_filter connectMember_def image_iff split: if_splits)
  ultimately show ?thesis using assms(3) by auto
qed

subsection \<open>From \<^verbatim>\<open>SendToNode\<close> to the handler of the other node\<close>

text \<open>What a connection that only reports its callbacks does with the bytes of a frame.\<close>

definition reporting :: "'u conn_env \<Rightarrow> bool" where
  "reporting env \<longleftrightarrow> env_handler env = DefaultTransportHandler"


text \<open>Two nodes with a ready connection between them, without encryption.\<close>

definition plain_options :: CommonConfig where
  "plain_options = CommonConfig.truncate (TCPConfig_Normalize (DefaultTCPConfig []))"

definition linked_end :: "user_data baseConn" where
  "linked_end = (newBaseConnWithRole 1 plain_options ConnectionRoleServer 0 [])\<lparr>baseConn.state := ConnectionStateReady, userData := Some (PeerData 0)\<rparr>"

definition linked_node :: "string \<Rightarrow> string \<Rightarrow> Transport" where
  "linked_node me other = (NewTransportWithOptions me [] True None)
     \<lparr>heap := [\<lparr>remoteId = other, expected = [], peer_state = PeerStateConnected, peer_conn = Some 0\<rparr>], remoteToConn := [(other, 0)], conns := [linked_end]\<rparr>"

definition plain_env :: "user_data conn_env" where
  "plain_env = \<lparr>env_handler = DefaultTransportHandler, env_crypto = undefined, env_key = undefined\<rparr>"

lemma linked_end_fields:
  "baseConn.state linked_end = ConnectionStateReady" "ctx_done linked_end = False" "sendChannel linked_end = []" "options linked_end = plain_options"
  "EncryptEnable plain_options = False" "cfg_Codec plain_options = None" "MaxOutboundSize plain_options = 32768" "MaxInboundSize plain_options = 32768"
  "SendChanSize plain_options = 1024" "UserData linked_end = Some (PeerData 0)"
  by (simp_all add: linked_end_def newBaseConnWithRole_def touch_def plain_options_def TCPConfig_Normalize_def CommonConfig_Normalize_def DefaultTCPConfig_def
      zero_CommonConfig_def CommonConfig.defs UserData_def tcpReadChunkSize_def positive_or_def KB_def Let_def)

lemma linked_sends: "\<exists>t. SendToNode ''n2'' [42] (linked_node ''n1'' ''n2'') = (t, None)"
proof -
  have "\<exists>a. SendMessage linked_end (Some (NewMessageFrame clusterMessageCommand clusterMessageActData 0 [42])) = (a, None)"
    by (simp add: SendMessage_def sendFrame_def linked_end_fields codec_encode_def encrypt_def pushQueue_def has_room_def enqueue_def
        EncodeMessageFrameWithLimit_def validate_command_def ValidateBusinessCommand_def frame_len_defs Let_def
        IsInternalCommand_def internal_defs NewMessageFrame_def cluster_message_defs)
  then show ?thesis
    by (auto simp: SendToNode_def transport_Send_def linked_node_def peers_get_def transport_send_def peer_send_def conn_send_def)
qed


end
