(* ===== verification/GatewayExamples.thy ===== *)
theory GatewayExamples
  imports Gateway GatewayBridge ClusterNode ActorExamples
begin

text \<open>
  A request of a client whose handler replies, and a run of the callbacks of the bridge for one client connection.
\<close>

subsection \<open>A request and its reply\<close>

definition greet_route :: "(string, user_data, unit) Route" where
  "greet_route = Route_Register text_lib 3 7 (Some (\<lambda>m. Agent_Reply text_lib (Some m))) (Some ''hello'') (Some ''hello'') NewRoute"

definition greet_request :: MessageFrame where
  "greet_request = (NewMessageFrame 3 7 0 [1])\<lparr>Index := 99\<rparr>"

definition greet_agent :: "(user_data, unit) agent_world" where
  "greet_agent = \<lparr>currentRequest = None, ag_conn = linked_end, ag_rest = ()\<rparr>"

lemma greet_sends: "\<exists>c. SendMessage linked_end (Some greet_request) = (c, None)"
  by (simp add: SendMessage_def sendFrame_def linked_end_fields codec_encode_def encrypt_def pushQueue_def has_room_def enqueue_def
      EncodeMessageFrameWithLimit_def validate_command_def ValidateBusinessCommand_def frame_len_defs Let_def
      IsInternalCommand_def internal_defs NewMessageFrame_def greet_request_def)

theorem gateway_request_answered_witness:
  "\<exists>c. SendMessage linked_end (Some greet_request) = (c, None)
    \<and> handleInbound text_lib greet_route (Some greet_request) greet_agent = (greet_agent\<lparr>ag_conn := c, currentRequest := None\<rparr>, None)"
proof -
  obtain c where c: "SendMessage linked_end (Some greet_request) = (c, None)" using greet_sends by blast
  let ?e = "\<lparr>ie_handler = (\<lambda>m. Agent_Reply text_lib (Some m)), ie_type = (''pb.Text'', ''*pb.Text'')\<rparr> :: (string, user_data, unit) inboundEntry"
  have e: "map_of (rt_in greet_route) (CmdAct (Cmd greet_request) (Act greet_request)) = Some ?e"
    by (simp add: greet_route_def Route_Register_def Inbound_Register_def NewRoute_def greet_request_def NewMessageFrame_def text_lib_def)
  have u: "Unmarshal text_lib (fst (ie_type ?e)) (snd (ie_type ?e)) (MessageFrame.Body greet_request) = Inr ''hello''"
    by (simp add: Unmarshal_def text_lib_def greet_request_def NewMessageFrame_def)
  have m: "Marshal text_lib (Some ''hello'') = Inr [1]" by (simp add: Marshal_def text_lib_def)
  have f: "greet_request = greet_request\<lparr>Flags := 0, MessageFrame.Body := [1]\<rparr>" by (simp add: greet_request_def NewMessageFrame_def)
  have h: "ie_handler ?e ''hello'' = Agent_Reply text_lib (Some ''hello'')" by simp
  have s: "SendMessage (ag_conn greet_agent) (Some greet_request) = (c, None)" using c by (simp add: greet_agent_def)
  from gateway_request_answered [OF e u _ s, of None] h m f c
  show ?thesis by blast
qed

subsection \<open>The callbacks of one connection\<close>

definition agent_spawner :: "nat \<Rightarrow> nat \<times> (nat, string) SpawnOptions" where
  "agent_spawner c = (0, \<lparr>Name = [], InitArgs = [], MailboxSize = 0\<rparr>)"

definition gate_conn :: "PID baseConn" where
  "gate_conn = newBaseConnWithRole 1 plain_options ConnectionRoleServer 0 []"

definition gate0 :: "(nat, nat, string) gate_sys" where
  "gate0 = \<lparr>gate = \<lparr>gw_bridge = NewGatewayBridge True True True, gw_conns = [gate_conn],
      gw_sys = the (do_event text_env echo ELifecycleInit node1)\<rparr>, up = (\<lambda>_. UpIdle), down = (\<lambda>_. DownIdle)\<rparr>"

lemma gate0_fields [simp]: "up gate0 = (\<lambda>_. UpIdle)" "down gate0 = (\<lambda>_. DownIdle)" "gw_conns (gate gate0) = [gate_conn]" "gw_bridge (gate gate0) = NewGatewayBridge True True True"
  by (simp_all add: gate0_def)

lemma gate0_init: "gate_init gate0"
  by (simp add: gate_init_def NewGatewayBridge_def)

lemma gate_spawns: "\<exists>w p. bridge_spawn agent_spawner [1700000000001] 0 (gate gate0) = Some (w, Inr p) \<and> userData (gw_conns w ! 0) = Some p"
proof -
  have "case SpawnActor (Some (fst (agent_spawner 0))) (snd (agent_spawner 0)) [1700000000001] (gw_sys (gate gate0)) of
      Some (s, p, e) \<Rightarrow> p \<noteq> None \<and> e = None | None \<Rightarrow> False"
    by code_simp
  then show ?thesis
    by (auto simp: bridge_spawn_def gate0_def NewGatewayBridge_def SetUserData_def split: option.splits)
qed

text \<open>The connection after its agent was spawned, with the PID of the agent as user data.\<close>

definition gate_spawned :: "(nat, nat, string) gateway \<Rightarrow> PID \<Rightarrow> bool" where
  "gate_spawned w p \<longleftrightarrow> bridge_spawn agent_spawner [1700000000001] 0 (gate gate0) = Some (w, Inr p) \<and> UserData (gw_conns w ! 0) = Some p
     \<and> length (gw_conns w) = 1 \<and> gw_conns w \<noteq> [] \<and> gw_bridge w = NewGatewayBridge True True True"

lemma gate_spawned_ex: "\<exists>w p. gate_spawned w p"
proof -
  obtain w p where w: "bridge_spawn agent_spawner [1700000000001] 0 (gate gate0) = Some (w, Inr p)" "userData (gw_conns w ! 0) = Some p"
    using gate_spawns by blast
  note k = bridge_spawn_keeps [OF w(1)]
  have "length (gw_conns w) = 1" using map_eq_imp_length_eq [OF k(2)] by simp
  then have "gate_spawned w p" using w k(1) by (auto simp: gate_spawned_def UserData_def)
  then show ?thesis by blast
qed

abbreviation gate_run :: "(nat, nat, string) gate_sys \<Rightarrow> bool" where
  "gate_run \<equiv> gate_reachable agent_spawner gate0"

lemma gate_adds:
  assumes "gate_spawned w p"
  shows "gate_run (gate0\<lparr>gate := bridge_add w, up := (\<lambda>_. UpIdle)(0 := UpSet p)\<rparr>)"
proof -
  have "gate_step agent_spawner gate0 (gate0\<lparr>gate := w, up := (up gate0)(0 := UpAdd p)\<rparr>)"
    using assms by (intro gate_step.spawn_ok [where clock = "[1700000000001]"]) (auto simp: gate_spawned_def)
  then have "gate_run (gate0\<lparr>gate := w, up := (up gate0)(0 := UpAdd p)\<rparr>)" by (rule gate_next [OF gate_start])
  from gate_next [OF this gate_step.adds [where c = 0 and p = p]] show ?thesis using assms by (simp add: gate_spawned_def)
qed

theorem bridge_wait_group_witness:
  "\<exists>s. gate_run s \<and> length (gw_conns (gate s)) = 1 \<and> down s 0 = DownDone \<and> br_group (gw_bridge (gate s)) > 0"
proof -
  obtain w p where w: "gate_spawned w p" using gate_spawned_ex by blast
  define v where "v = bridge_set 0 p (bridge_add w)"
  have v: "UserData (gw_conns v ! 0) = Some p" "length (gw_conns v) = 1" "tracked v 0" "gw_conns v \<noteq> []"
    using w by (simp_all add: v_def gate_spawned_def tracked_def bridge_set_def upd_bridge_def update_conv')
  obtain x where x: "bridge_untrack 0 v = (x, Some p)" "gw_conns x = gw_conns v"
    using v by (auto simp: bridge_untrack_def tracked_def upd_bridge_def)
  have "gate_run (gate0\<lparr>gate := v, up := (\<lambda>_. UpIdle)(0 := UpDone)\<rparr>)"
    using gate_next [OF gate_adds [OF w] gate_step.sets [where c = 0 and p = p]] w by (simp add: v_def gate_spawned_def)
  from gate_next [OF this gate_step.untracks [where c = 0 and w = x and r = "Some p"]] have "gate_run (gate0\<lparr>up := (\<lambda>_. UpIdle)(0 := UpDone), gate := x, down := (\<lambda>_. DownIdle)(0 := DownStop p)\<rparr>)"
    using v x by simp
  from gate_next [OF this gate_step.stops [where c = 0 and p = p]]
  have r: "gate_run (gate0\<lparr>up := (\<lambda>_. UpIdle)(0 := UpDone), gate := bridge_stop p x, down := (\<lambda>_. DownIdle)(0 := DownDone)\<rparr>)"
    using v x by simp
  from bridge_wait_group [OF r gate0_init] have "br_group (gw_bridge (bridge_stop p x)) > 0" using v x by simp
  then show ?thesis using r v x by (intro exI conjI) (assumption, simp_all)
qed

text \<open>
  \<^verbatim>\<open>OnClose\<close> may run between \<^verbatim>\<open>SetUserData\<close> and \<^verbatim>\<open>pids.Set\<close> of \<^verbatim>\<open>OnConnected\<close>: it finds nothing tracked, and the
  agent is then tracked for a connection whose callbacks are all over. Nothing stops that agent, and the
  counter stays at one, so that the wait of \<^verbatim>\<open>Stop\<close> runs into its timeout.
\<close>

lemma bridge_leaks_agent:
  "\<exists>s. gate_run s \<and> up s 0 = UpDone \<and> down s 0 = DownEnd \<and> tracked (gate s) 0 \<and> WaitWithTimeout (br_group (gw_bridge (gate s))) \<noteq> None"
proof -
  obtain w p where w: "gate_spawned w p" using gate_spawned_ex by blast
  have u: "bridge_untrack 0 (bridge_add w) = (bridge_add w, None)"
    using w by (simp add: gate_spawned_def bridge_untrack_def bridge_add_def upd_bridge_def NewGatewayBridge_def)
  from gate_next [OF gate_adds [OF w] gate_step.untracks [where c = 0 and w = "bridge_add w" and r = None]]
  have "gate_run (gate0\<lparr>up := (\<lambda>_. UpIdle)(0 := UpSet p), gate := bridge_add w, down := (\<lambda>_. DownIdle)(0 := DownEnd)\<rparr>)"
    using u w by (simp add: gate_spawned_def)
  from gate_next [OF this gate_step.sets [where c = 0 and p = p]]
  have "gate_run (gate0\<lparr>down := (\<lambda>_. DownIdle)(0 := DownEnd), gate := bridge_set 0 p (bridge_add w), up := (\<lambda>_. UpIdle)(0 := UpDone)\<rparr>)"
    using w by (simp add: gate_spawned_def)
  then show ?thesis using w
    by (intro exI conjI) (assumption, simp_all add: gate_spawned_def tracked_def bridge_set_def upd_bridge_def update_conv' WaitWithTimeout_def bridge_add_def NewGatewayBridge_def)
qed

end
