(* ===== verification/HostPort.thy ===== *)
theory HostPort
  imports GoErrors
begin

text \<open>
  Endpoints as text: \<^verbatim>\<open>net.SplitHostPort\<close>, \<^verbatim>\<open>net.JoinHostPort\<close> and \<^verbatim>\<open>strconv.Atoi\<close> of the standard library,
  the functions of \<^verbatim>\<open>pkg/netutil/net.go\<close> over them, and \<^verbatim>\<open>splitAddress\<close> of the Consul registry.
\<close>

subsection \<open>The standard library\<close>

fun index_of :: "'a \<Rightarrow> 'a list \<Rightarrow> nat option" where
  "index_of c [] = None"
| "index_of c (x # xs) = (if x = c then Some 0 else map_option Suc (index_of c xs))"

definition last_index_of :: "'a \<Rightarrow> 'a list \<Rightarrow> nat option" where
  "last_index_of c xs = map_option (\<lambda>i. length xs - 1 - i) (index_of c (rev xs))"

definition addr_error :: "string \<Rightarrow> string \<Rightarrow> go_error" where
  "addr_error addr why = Plain (if addr = [] then why else ''address '' @ addr @ '': '' @ why)"

abbreviation missing_port :: string where "missing_port \<equiv> ''missing port in address''"
abbreviation too_many_colons :: string where "too_many_colons \<equiv> ''too many colons in address''"

definition in_address :: "string \<Rightarrow> char \<Rightarrow> string" where
  "in_address what c = what @ [CHR 0x20, CHR 0x27, c, CHR 0x27] @ '' in address''"

text \<open>The host, and what of the text may contain neither an opening nor, from the second position on, a closing bracket.\<close>

definition split_host :: "string \<Rightarrow> nat \<Rightarrow> (string \<times> nat \<times> nat) result" where
  "split_host hostport i =
     (if hostport ! 0 = CHR ''[''
      then (case index_of (CHR '']'') hostport of
              None \<Rightarrow> Inl (addr_error hostport (in_address ''missing'' (CHR '']'')))
            | Some e \<Rightarrow>
                if e + 1 = length hostport then Inl (addr_error hostport missing_port)
                else if e + 1 = i then Inr (drop 1 (take e hostport), 1, e + 1)
                else if hostport ! (e + 1) = CHR '':'' then Inl (addr_error hostport too_many_colons)
                else Inl (addr_error hostport missing_port))
      else if CHR '':'' \<in> set (take i hostport) then Inl (addr_error hostport too_many_colons)
      else Inr (take i hostport, 0, 0))"

definition net_SplitHostPort :: "string \<Rightarrow> (string \<times> string) result" where
  "net_SplitHostPort hostport =
     (case last_index_of (CHR '':'') hostport of
        None \<Rightarrow> Inl (addr_error hostport missing_port)
      | Some i \<Rightarrow>
          (case split_host hostport i of
             Inl e \<Rightarrow> Inl e
           | Inr (host, j, k) \<Rightarrow>
               if CHR ''['' \<in> set (drop j hostport) then Inl (addr_error hostport (in_address ''unexpected'' (CHR ''['')))
               else if CHR '']'' \<in> set (drop k hostport) then Inl (addr_error hostport (in_address ''unexpected'' (CHR '']'')))
               else Inr (host, drop (i + 1) hostport)))"

definition net_JoinHostPort :: "string \<Rightarrow> string \<Rightarrow> string" where
  "net_JoinHostPort host port =
     (if CHR '':'' \<in> set host then CHR ''['' # host @ '']:'' @ port else host @ CHR '':'' # port)"

text \<open>\<^verbatim>\<open>strconv.Atoi\<close> for 64 bit integers; \<^term>\<open>None\<close> is an error, of which the callers only use that it is one.\<close>

definition is_digit :: "char \<Rightarrow> bool" where
  "is_digit c \<longleftrightarrow> 48 \<le> (of_char c :: nat) \<and> (of_char c :: nat) < 58"

definition atoi_digits :: "string \<Rightarrow> nat option" where
  "atoi_digits s = (if s = [] \<or> \<not> list_all is_digit s then None else Some (read_nat s))"

definition Atoi :: "string \<Rightarrow> int option" where
  "Atoi s =
     (case s of
        [] \<Rightarrow> None
      | c # cs \<Rightarrow>
          (case atoi_digits (if c = CHR ''-'' \<or> c = CHR ''+'' then cs else s) of
             None \<Rightarrow> None
           | Some n \<Rightarrow>
               if c = CHR ''-'' then (if int n \<le> 2 ^ 63 then Some (- int n) else None)
               else (if int n < 2 ^ 63 then Some (int n) else None)))"

subsection \<open>netutil\<close>

definition EndpointAddress :: "string \<Rightarrow> int \<Rightarrow> string" where
  "EndpointAddress host port = (if port \<le> 0 then TrimSpace host else net_JoinHostPort (TrimSpace host) (show_int port))"

definition netutil_SplitHostPort :: "string \<Rightarrow> (string \<times> int) result" where
  "netutil_SplitHostPort address =
     (case net_SplitHostPort address of
        Inl e \<Rightarrow> Inl (Wrap (''invalid rpc address '' @ quoted address @ '': '') e [])
      | Inr (host, rawPort) \<Rightarrow>
          (case Atoi rawPort of
             None \<Rightarrow> Inl (Plain (''invalid rpc address port '' @ quoted rawPort))
           | Some port \<Rightarrow> if port \<le> 0 then Inl (Plain (''invalid rpc address port '' @ quoted rawPort)) else Inr (host, port)))"

subsection \<open>splitAddress\<close>

definition splitAddress :: "string \<Rightarrow> (string \<times> int) result" where
  "splitAddress address0 =
     (let address = TrimSpace address0 in
      if address = [] then Inr ([], 0)
      else (case net_SplitHostPort address of
              Inl e \<Rightarrow> Inl (Wrap (''invalid node address '' @ quoted address @ '': '') e [])
            | Inr (host, port) \<Rightarrow>
                (case Atoi port of
                   None \<Rightarrow> Inl (Plain (''invalid node port '' @ quoted port))
                 | Some portNumber \<Rightarrow>
                     if portNumber < 0 \<or> portNumber > 65535 then Inl (Plain (''invalid node port '' @ quoted port))
                     else Inr (host, portNumber))))"

subsection \<open>Round trips\<close>

lemma index_of_None [simp]: "index_of c xs = None \<longleftrightarrow> c \<notin> set xs"
  by (induction xs) auto

lemma index_of_append: "c \<notin> set xs \<Longrightarrow> index_of c (xs @ c # ys) = Some (length xs)"
  by (induction xs) auto

lemma last_index_of_append: "c \<notin> set ys \<Longrightarrow> last_index_of c (xs @ c # ys) = Some (length xs)"
  using index_of_append [of c "rev ys" "rev xs"] by (simp add: last_index_of_def)

lemma split_join:
  assumes "CHR ''['' \<notin> set host" "CHR '']'' \<notin> set host" and port: "set port \<inter> {CHR '':'', CHR ''['', CHR '']''} = {}"
  shows "net_SplitHostPort (net_JoinHostPort host port) = Inr (host, port)"
proof (cases "CHR '':'' \<in> set host")
  case True
  let ?s = "CHR ''['' # host @ '']:'' @ port"
  have i: "last_index_of (CHR '':'') ?s = Some (length host + 2)"
    using last_index_of_append [of "CHR '':''" port "CHR ''['' # host @ '']''"] port by simp
  have e: "index_of (CHR '']'') ?s = Some (length host + 1)"
    using index_of_append [of "CHR '']''" "CHR ''['' # host" "CHR '':'' # port"] assms(2) by simp
  show ?thesis using True assms(1,2) port i e by (auto simp: net_SplitHostPort_def net_JoinHostPort_def split_host_def)
next
  case False
  have i: "last_index_of (CHR '':'') (host @ CHR '':'' # port) = Some (length host)"
    using last_index_of_append [of "CHR '':''" port host] port by simp
  have "(host @ CHR '':'' # port) ! 0 \<noteq> CHR ''[''" using assms(1) by (cases host) auto
  then show ?thesis using False assms(1,2) port i by (auto simp: net_SplitHostPort_def net_JoinHostPort_def split_host_def)
qed

lemma show_nat_is_digits: "list_all is_digit (show_nat n)"
  using show_nat_digits by (auto simp: list_all_iff is_digit_def)

lemma digit_not: "is_digit c \<Longrightarrow> c \<noteq> CHR '':'' \<and> c \<noteq> CHR ''['' \<and> c \<noteq> CHR '']'' \<and> c \<noteq> CHR ''-'' \<and> c \<noteq> CHR ''+''"
  by (auto simp: is_digit_def)

lemma show_nat_port: "set (show_nat n) \<inter> {CHR '':'', CHR ''['', CHR '']''} = {}"
  using show_nat_is_digits [of n] digit_not by (auto simp: list_all_iff)

lemma Atoi_show_nat: "int n < 2 ^ 63 \<Longrightarrow> Atoi (show_nat n) = Some (int n)"
  using show_nat_is_digits [of n] show_nat_nonempty [of n] digit_not
  by (cases "show_nat n") (auto simp: Atoi_def atoi_digits_def list_all_iff simp del: show_nat_nonempty, (metis read_show_nat)+)

text \<open>
  What \<^verbatim>\<open>EndpointAddress\<close> makes of a host without brackets (a name, an IPv4 or an IPv6 address) and a port
  is split into the same host and port again.
\<close>

lemma endpoint_roundtrip:
  assumes "CHR ''['' \<notin> set (TrimSpace host)" "CHR '']'' \<notin> set (TrimSpace host)" "0 < port" "port < 2 ^ 63"
  shows "netutil_SplitHostPort (EndpointAddress host port) = Inr (TrimSpace host, port)"
proof -
  have "Atoi (show_int port) = Some port" "set (show_int port) \<inter> {CHR '':'', CHR ''['', CHR '']''} = {}"
    using assms(3,4) Atoi_show_nat [of "nat port"] show_nat_port by (simp_all add: show_int_def)
  then show ?thesis
    using assms(3) split_join [OF assms(1,2)] by (simp add: netutil_SplitHostPort_def EndpointAddress_def)
qed

lemma splitAddress_join:
  assumes "CHR ''['' \<notin> set host" "CHR '']'' \<notin> set host" "port \<le> 65535"
    and "TrimSpace (net_JoinHostPort host (show_nat port)) = net_JoinHostPort host (show_nat port)"
  shows "splitAddress (net_JoinHostPort host (show_nat port)) = Inr (host, int port)"
proof -
  have "net_JoinHostPort host (show_nat port) \<noteq> []" by (simp add: net_JoinHostPort_def)
  then show ?thesis using assms(3,4) split_join [OF assms(1,2) show_nat_port] Atoi_show_nat [of port]
    by (simp add: splitAddress_def Let_def)
qed

end
