(* ===== verification/Consul.thy ===== *)
theory Consul
  imports Member HostPort "HOL-Library.AList"
begin

text \<open>
  \<^verbatim>\<open>cluster/member/consul\<close>: options, the translation between a node and its registration in Consul, the
  keepers that renew the registrations, and the subscriptions.

  The Consul agent is reached through its client: its calls are the fields of \<open>consul_api\<close> on a state \<open>'c\<close>.
  \<open>json_lib\<close> holds \<^verbatim>\<open>json.Marshal\<close> and \<^verbatim>\<open>json.Unmarshal\<close> for \<^verbatim>\<open>NodeInfo\<close> and \<^verbatim>\<open>Duration.String\<close>, whose text only goes
  to Consul. A Go map whose keys are ranged over is an association list.
\<close>

subsection \<open>options.go\<close>

record consul_options =
  opt_Address :: string
  opt_Scheme :: string
  opt_Token :: string
  opt_Datacenter :: string
  TTL :: int
  DeregisterAfter :: int

text \<open>Durations are nanoseconds.\<close>

definition seconds :: "int \<Rightarrow> int" where "seconds n = n * 1000000000"

definition defaultAddress :: string where "defaultAddress = ''127.0.0.1:8500''"
definition defaultTTL :: int where "defaultTTL = seconds 5"
definition defaultDeregisterAfter :: int where "defaultDeregisterAfter = seconds 30"
definition defaultWatchWaitTime :: int where "defaultWatchWaitTime = seconds 10"
definition defaultWatchRetryDelay :: int where "defaultWatchRetryDelay = seconds 2"

definition normalizeOptions :: "consul_options \<Rightarrow> consul_options" where
  "normalizeOptions options =
     (let options = (if opt_Address options = [] then options\<lparr>opt_Address := defaultAddress\<rparr> else options);
          options = (if TTL options \<le> 2 then options\<lparr>TTL := defaultTTL\<rparr> else options)
      in if DeregisterAfter options \<le> 0 then options\<lparr>DeregisterAfter := defaultDeregisterAfter\<rparr> else options)"

definition DefaultOptions :: consul_options where
  "DefaultOptions = normalizeOptions \<lparr>opt_Address = [], opt_Scheme = [], opt_Token = [], opt_Datacenter = [], TTL = 0, DeregisterAfter = 0\<rparr>"

text \<open>The fields of the configuration of the client that are set, on its default configuration.\<close>

record consul_config =
  cfg_Address :: string
  cfg_Scheme :: string
  cfg_Token :: string
  cfg_Datacenter :: string

definition toConsulConfig :: "consul_config \<Rightarrow> consul_options \<Rightarrow> consul_config" where
  "toConsulConfig base options =
     (let c = base;
          c = (if opt_Address options \<noteq> [] then c\<lparr>cfg_Address := opt_Address options\<rparr> else c);
          c = (if opt_Scheme options \<noteq> [] then c\<lparr>cfg_Scheme := opt_Scheme options\<rparr> else c);
          c = (if opt_Token options \<noteq> [] then c\<lparr>cfg_Token := opt_Token options\<rparr> else c)
      in if opt_Datacenter options \<noteq> [] then c\<lparr>cfg_Datacenter := opt_Datacenter options\<rparr> else c)"

subsection \<open>jsoncodec\<close>

record json_lib =
  json_Marshal :: "NodeInfo \<Rightarrow> string result"
  json_Unmarshal :: "string \<Rightarrow> NodeInfo result"
  duration_String :: "int \<Rightarrow> string"

definition jsoncodec_Marshal :: "('a \<Rightarrow> string result) \<Rightarrow> 'a option \<Rightarrow> string result" where
  "jsoncodec_Marshal marshal v = (case v of None \<Rightarrow> Inl (Plain ''json marshal nil message'') | Some x \<Rightarrow> marshal x)"

text \<open>\<^verbatim>\<open>Unmarshal\<close> with a nil or a non-nil target.\<close>

definition jsoncodec_Unmarshal :: "(string \<Rightarrow> 'a result) \<Rightarrow> string \<Rightarrow> bool \<Rightarrow> 'a result" where
  "jsoncodec_Unmarshal unmarshal data target = (if \<not> target then Inl (Plain ''json unmarshal nil message'') else unmarshal data)"

subsection \<open>common.go\<close>

definition nodeInfoMetaKey :: string where "nodeInfoMetaKey = ''node_info''"
definition HealthPassing :: string where "HealthPassing = ''passing''"
definition HealthWarning :: string where "HealthWarning = ''warning''"
definition HealthCritical :: string where "HealthCritical = ''critical''"

text \<open>The types of the client; a nil pointer is \<^term>\<open>None\<close>.\<close>

record AgentService =
  svc_ID :: string
  svc_Service :: string
  svc_Address :: string
  svc_Port :: int
  svc_Meta :: "(string \<rightharpoonup> string) option"

record ServiceEntry =
  entry_Service :: "AgentService option"
  entry_Checks :: "string option list"

record AgentServiceCheck =
  CheckID :: string
  check_TTL :: string
  DeregisterCriticalServiceAfter :: string

record AgentServiceRegistration =
  sr_ID :: string
  sr_Name :: string
  sr_Address :: string
  sr_Port :: int
  sr_Meta :: "string \<rightharpoonup> string"
  sr_Check :: AgentServiceCheck

definition serviceCheckID :: "string \<Rightarrow> string" where
  "serviceCheckID serviceID = ''service:'' @ serviceID"

definition cloneMeta :: "(string \<rightharpoonup> string) option \<Rightarrow> (string \<rightharpoonup> string) option" where
  "cloneMeta meta = (case meta of None \<Rightarrow> None | Some m \<Rightarrow> Some (\<lambda>key. m key))"

text \<open>Reading a map, where nil has no entries and a missing one is the empty string, and deleting a key.\<close>

definition meta_get :: "(string \<rightharpoonup> string) option \<Rightarrow> string \<Rightarrow> string" where
  "meta_get meta key = (case meta of None \<Rightarrow> [] | Some m \<Rightarrow> (case m key of None \<Rightarrow> [] | Some v \<Rightarrow> v))"

definition meta_delete :: "string \<Rightarrow> (string \<rightharpoonup> string) option \<Rightarrow> (string \<rightharpoonup> string) option" where
  "meta_delete key meta = map_option (\<lambda>m. m(key := None)) meta"

fun service_status :: "string \<Rightarrow> string option list \<Rightarrow> string" where
  "service_status status [] = status"
| "service_status status (None # cs) = service_status status cs"
| "service_status status (Some c # cs) =
     (if c = HealthCritical then HealthCritical
      else if c = HealthWarning then service_status HealthWarning cs
      else if c = HealthPassing then service_status (if status = [] then HealthPassing else status) cs
      else service_status status cs)"

definition serviceStatus :: "ServiceEntry \<Rightarrow> string" where
  "serviceStatus entry = service_status [] (entry_Checks entry)"

text \<open>The body of the loop of \<^verbatim>\<open>entriesToInstances\<close> for an entry with a service.\<close>

definition entry_address :: "AgentService \<Rightarrow> string" where
  "entry_address svc = (if svc_Port svc > 0 then net_JoinHostPort (svc_Address svc) (show_int (svc_Port svc)) else svc_Address svc)"

definition entry_node :: "json_lib \<Rightarrow> AgentService \<Rightarrow> NodeInfo" where
  "entry_node J svc =
     (let address = entry_address svc;
          node = \<lparr>node_ID = svc_ID svc, node_Name = svc_Service svc, Address = address, node_Status = [], StartedAt = 0, Version = [],
                  Meta = cloneMeta (svc_Meta svc)\<rparr>;
          encoded = meta_get (svc_Meta svc) nodeInfoMetaKey
      in if encoded = [] then node
         else (let node = (case jsoncodec_Unmarshal (json_Unmarshal J) encoded True of
                             Inl _ \<Rightarrow> node
                           | Inr stored \<Rightarrow> if Address stored = [] then stored\<lparr>Address := address\<rparr> else stored)
               in node\<lparr>Meta := meta_delete nodeInfoMetaKey (Meta node)\<rparr>))"

definition entry_instance :: "json_lib \<Rightarrow> ServiceEntry \<Rightarrow> AgentService \<Rightarrow> NodeInfo" where
  "entry_instance J entry svc =
     (let status = serviceStatus entry; node = entry_node J svc in if status \<noteq> [] then node\<lparr>node_Status := status\<rparr> else node)"

definition entriesToInstances :: "json_lib \<Rightarrow> ServiceEntry option list \<Rightarrow> (string \<times> NodeInfo) list" where
  "entriesToInstances J entries =
     fold (\<lambda>entry instances.
       case entry of
         None \<Rightarrow> instances
       | Some e \<Rightarrow>
           (case entry_Service e of
              None \<Rightarrow> instances
            | Some svc \<Rightarrow> AList.update (svc_ID svc) (entry_instance J e svc) instances)) entries []"

definition instanceToRegistration :: "json_lib \<Rightarrow> NodeInfo \<Rightarrow> consul_options \<Rightarrow> AgentServiceRegistration result" where
  "instanceToRegistration J service options =
     (case splitAddress (Address service) of
        Inl e \<Rightarrow> Inl e
      | Inr (address, port) \<Rightarrow>
          (let meta = meta_delete nodeInfoMetaKey (cloneMeta (Meta service));
               stored = (NodeInfo_Clone service)\<lparr>Meta := cloneMeta meta\<rparr>
           in case jsoncodec_Marshal (json_Marshal J) (Some stored) of
                Inl e \<Rightarrow> Inl (Wrap ''marshal node info: '' e [])
              | Inr payload \<Rightarrow>
                  Inr \<lparr>sr_ID = node_ID service, sr_Name = node_Name service, sr_Address = address, sr_Port = port,
                       sr_Meta = (case meta of None \<Rightarrow> Map.empty | Some m \<Rightarrow> m)(nodeInfoMetaKey \<mapsto> payload),
                       sr_Check = \<lparr>CheckID = serviceCheckID (node_ID service), check_TTL = duration_String J (TTL options),
                                   DeregisterCriticalServiceAfter = duration_String J (DeregisterAfter options)\<rparr>\<rparr>))"

subsection \<open>From a node to Consul and back\<close>

text \<open>\<^verbatim>\<open>omitempty\<close>: an empty map is not written, and read as nil.\<close>

definition json_normal :: "NodeInfo \<Rightarrow> NodeInfo" where
  "json_normal n = (if Meta n = Some Map.empty then n\<lparr>Meta := None\<rparr> else n)"

text \<open>What the program relies on: the text of a node is an object, and decodes to that node.\<close>

definition json_roundtrip :: "json_lib \<Rightarrow> bool" where
  "json_roundtrip J \<longleftrightarrow> (\<forall>n text. json_Marshal J n = Inr text \<longrightarrow> text \<noteq> [] \<and> json_Unmarshal J text = Inr (json_normal n))"

text \<open>The entry that Consul reports for a registration, with the results of its checks.\<close>

definition registered_entry :: "AgentServiceRegistration \<Rightarrow> string option list \<Rightarrow> ServiceEntry" where
  "registered_entry r checks =
     \<lparr>entry_Service = Some \<lparr>svc_ID = sr_ID r, svc_Service = sr_Name r, svc_Address = sr_Address r, svc_Port = sr_Port r, svc_Meta = Some (sr_Meta r)\<rparr>,
      entry_Checks = checks\<rparr>"

definition public_meta :: "NodeInfo \<Rightarrow> (string \<rightharpoonup> string) option" where
  "public_meta n =
     (case Meta n of None \<Rightarrow> None | Some m \<Rightarrow> if m(nodeInfoMetaKey := None) = Map.empty then None else Some (m(nodeInfoMetaKey := None)))"

lemma cloneMeta_same [simp]: "cloneMeta m = m"
  by (simp add: cloneMeta_def split: option.splits)

lemma splitAddress_Nil: "splitAddress [] = Inr ([], 0)"
  by (simp add: splitAddress_def)

lemma registration_entry:
  assumes J: "json_roundtrip J" and reg: "instanceToRegistration J service options = Inr r"
    and svc: "entry_Service (registered_entry r checks) = Some svc"
  shows "svc_ID svc = node_ID service" "entry_node J svc = service\<lparr>Meta := public_meta service\<rparr>"
proof -
  obtain address port where split: "splitAddress (Address service) = Inr (address, port)"
    using reg by (auto simp: instanceToRegistration_def split: sum.splits prod.splits)
  define meta where "meta = meta_delete nodeInfoMetaKey (Meta service)"
  obtain payload where p: "json_Marshal J (service\<lparr>Meta := meta\<rparr>) = Inr payload"
    and r: "sr_ID r = node_ID service" "sr_Address r = address" "sr_Port r = port" "sr_Meta r = (case meta of None \<Rightarrow> Map.empty | Some m \<Rightarrow> m)(nodeInfoMetaKey \<mapsto> payload)"
    using reg split by (auto simp: instanceToRegistration_def Let_def jsoncodec_Marshal_def meta_def split: sum.splits)
  have J': "payload \<noteq> []" "json_Unmarshal J payload = Inr (json_normal (service\<lparr>Meta := meta\<rparr>))"
    using J p by (auto simp: json_roundtrip_def)
  have s: "svc_ID svc = sr_ID r" "svc_Address svc = address" "svc_Port svc = port" "meta_get (svc_Meta svc) nodeInfoMetaKey = payload"
    using svc r by (auto simp: registered_entry_def meta_get_def)
  have empty: "entry_address svc = []" if "Address service = []"
    using split that s by (simp add: splitAddress_Nil entry_address_def)
  have m: "meta_delete nodeInfoMetaKey (Meta (json_normal (service\<lparr>Meta := meta\<rparr>))) = public_meta service"
    by (cases "Meta service") (auto simp: json_normal_def meta_def meta_delete_def public_meta_def)
  have n: "Address (json_normal (service\<lparr>Meta := meta\<rparr>)) = Address service" "(json_normal (service\<lparr>Meta := meta\<rparr>))\<lparr>Meta := x\<rparr> = service\<lparr>Meta := x\<rparr>" for x
    by (simp_all add: json_normal_def)
  have a: "(json_normal (service\<lparr>Meta := meta\<rparr>))\<lparr>Address := [], Meta := x\<rparr> = service\<lparr>Meta := x\<rparr>" if "Address service = []" for x
    using that by (cases service) (simp add: json_normal_def)
  show "svc_ID svc = node_ID service" using s r by simp
  show "entry_node J svc = service\<lparr>Meta := public_meta service\<rparr>"
    using J' s m n a empty by (auto simp: entry_node_def Let_def jsoncodec_Unmarshal_def)
qed

text \<open>Serious before harmless: the worst check decides.\<close>

lemma service_status_worst:
  "service_status status cs =
     (if Some HealthCritical \<in> set cs then HealthCritical
      else if Some HealthWarning \<in> set cs then HealthWarning
      else if status \<noteq> [] then status
      else if Some HealthPassing \<in> set cs then HealthPassing else [])"
  by (induction status cs rule: service_status.induct) (auto simp: HealthCritical_def HealthWarning_def HealthPassing_def)

text \<open>
  C40: A node that is registered in Consul comes back as it was: from the entry that Consul reports for
  the registration the registry makes the same node, address, version and metadata included, except
  that its status is the worst of its health checks, if there are any, and that the internal key and
  empty metadata are left out.
\<close>

theorem consul_registration_roundtrip:
  assumes "json_roundtrip J" and "instanceToRegistration J service options = Inr r"
  shows "entriesToInstances J [Some (registered_entry r checks)] =
    [(node_ID service, service\<lparr>Meta := public_meta service,
       node_Status := (if Some HealthCritical \<in> set checks then HealthCritical
                       else if Some HealthWarning \<in> set checks then HealthWarning
                       else if Some HealthPassing \<in> set checks then HealthPassing else node_Status service)\<rparr>)]"
proof -
  obtain svc where svc: "entry_Service (registered_entry r checks) = Some svc" by (simp add: registered_entry_def)
  note e = registration_entry [OF assms svc]
  have c: "entry_Checks (registered_entry r checks) = checks" by (simp add: registered_entry_def)
  have ne: "HealthCritical \<noteq> []" "HealthWarning \<noteq> []" "HealthPassing \<noteq> []" by (simp_all add: HealthCritical_def HealthWarning_def HealthPassing_def)
  show ?thesis by (simp add: entriesToInstances_def svc e entry_instance_def serviceStatus_def service_status_worst c ne Let_def)
qed

subsection \<open>registration.go\<close>

record 'c consul_api =
  api_ServiceRegister :: "AgentServiceRegistration \<Rightarrow> 'c \<Rightarrow> 'c \<times> err"
  api_ServiceDeregister :: "string \<Rightarrow> 'c \<Rightarrow> 'c \<times> err"
  api_UpdateTTL :: "string \<Rightarrow> string \<Rightarrow> 'c \<Rightarrow> 'c \<times> err"

text \<open>
  A keeper is a goroutine with its context; \<open>keepers\<close> maps a service to the keeper whose \<^verbatim>\<open>cancel\<close> the code
  stores. \<open>reg_cancelled\<close> tells whether the context of the registry is cancelled.
\<close>

record keeper =
  k_service :: string
  k_cancelled :: bool

record 'c registration =
  reg_options :: consul_options
  reg_client :: bool
  reg_cancelled :: bool
  keepers :: "(string \<times> nat) list"
  keeper_pool :: "keeper list"
  agent :: 'c

definition newRegistration :: "consul_options \<Rightarrow> bool \<Rightarrow> 'c \<Rightarrow> 'c registration" where
  "newRegistration options client c =
     \<lparr>reg_options = options, reg_client = client, reg_cancelled = False, keepers = [], keeper_pool = [], agent = c\<rparr>"

text \<open>\<^verbatim>\<open>join\<close> up to the lock, and the section under the lock with the start of the keeper.\<close>

definition join_register :: "json_lib \<Rightarrow> 'c consul_api \<Rightarrow> NodeInfo \<Rightarrow> 'c registration \<Rightarrow> 'c registration \<times> err" where
  "join_register J api node r =
     (case NodeInfo_Validate node of
        Some e \<Rightarrow> (r, Some (Wrap ''consul service join err:'' e []))
      | None \<Rightarrow>
          (case instanceToRegistration J (NodeInfo_Clone node) (reg_options r) of
             Inl e \<Rightarrow> (r, Some (Wrap ''consul service join err:'' e []))
           | Inr serviceReg \<Rightarrow>
               (case api_ServiceRegister api serviceReg (agent r) of
                  (c, Some e) \<Rightarrow> (r\<lparr>agent := c\<rparr>, Some (Wrap ''consul service join err:'' e []))
                | (c, None) \<Rightarrow> (r\<lparr>agent := c\<rparr>, None))))"

definition join_keep :: "string \<Rightarrow> 'c registration \<Rightarrow> 'c registration" where
  "join_keep serviceId r =
     (if map_of (keepers r) serviceId \<noteq> None then r
      else r\<lparr>keepers := AList.update serviceId (length (keeper_pool r)) (keepers r),
             keeper_pool := keeper_pool r @ [\<lparr>k_service = serviceId, k_cancelled = False\<rparr>]\<rparr>)"

definition consul_join :: "json_lib \<Rightarrow> 'c consul_api \<Rightarrow> NodeInfo \<Rightarrow> 'c registration \<Rightarrow> 'c registration \<times> err" where
  "consul_join J api node r =
     (case join_register J api node r of (r, Some e) \<Rightarrow> (r, Some e) | (r, None) \<Rightarrow> (join_keep (node_ID node) r, None))"

text \<open>What keeper \<open>i\<close> does at its start and at each tick of its ticker.\<close>

definition keepAlive :: "'c consul_api \<Rightarrow> nat \<Rightarrow> 'c registration \<Rightarrow> 'c registration" where
  "keepAlive api i r =
     (let k = keeper_pool r ! i in
      if k_service k = [] then r
      else if k_cancelled k \<or> reg_cancelled r then r
      else r\<lparr>agent := fst (api_UpdateTTL api (serviceCheckID (k_service k)) HealthPassing (agent r))\<rparr>)"

text \<open>\<^verbatim>\<open>leave\<close> on a registration that may be nil: the section under the lock, then the call of Consul.\<close>

definition leave_cancel :: "string \<Rightarrow> 'c registration \<Rightarrow> 'c registration \<times> bool" where
  "leave_cancel serviceId r =
     (case map_of (keepers r) serviceId of
        None \<Rightarrow> (r, False)
      | Some i \<Rightarrow> (r\<lparr>keeper_pool := (keeper_pool r)[i := (keeper_pool r ! i)\<lparr>k_cancelled := True\<rparr>], keepers := AList.delete serviceId (keepers r)\<rparr>, True))"

definition consul_leave :: "'c consul_api \<Rightarrow> string \<Rightarrow> 'c registration option \<Rightarrow> 'c registration option \<times> err" where
  "consul_leave api serviceId reg =
     (case reg of
        None \<Rightarrow> (reg, None)
      | Some r \<Rightarrow>
          if \<not> reg_client r then (reg, None)
          else (case leave_cancel serviceId r of
                  (r, False) \<Rightarrow> (Some r, None)
                | (r, True) \<Rightarrow> (case api_ServiceDeregister api serviceId (agent r) of (c, e) \<Rightarrow> (Some (r\<lparr>agent := c\<rparr>), e))))"

subsection \<open>One keeper for each service\<close>

text \<open>The sections under the lock in any order, interleaved with the calls of Consul, which change only the agent.\<close>

inductive keeper_step :: "'c registration \<Rightarrow> 'c registration \<Rightarrow> bool" where
  keeps: "keeper_step r (join_keep serviceId r)"
| leaves: "keeper_step r (fst (leave_cancel serviceId r))"
| calls: "keeper_step r (r\<lparr>agent := c\<rparr>)"
| cancels: "keeper_step r (r\<lparr>reg_cancelled := True\<rparr>)"

definition keepers_inv :: "'c registration \<Rightarrow> bool" where
  "keepers_inv r \<longleftrightarrow> (\<forall>s i. map_of (keepers r) s = Some i \<longrightarrow> i < length (keeper_pool r))
     \<and> (\<forall>s i. i < length (keeper_pool r) \<longrightarrow>
          (k_service (keeper_pool r ! i) = s \<and> \<not> k_cancelled (keeper_pool r ! i) \<longleftrightarrow> map_of (keepers r) s = Some i))"

lemma keepers_inv_step: "keeper_step r r' \<Longrightarrow> keepers_inv r \<Longrightarrow> keepers_inv r'"
proof (induction rule: keeper_step.induct)
  case (keeps r serviceId)
  then show ?case by (auto simp: keepers_inv_def join_keep_def update_conv' nth_append less_Suc_eq)
next
  case (leaves r serviceId)
  show ?case
  proof (cases "map_of (keepers r) serviceId")
    case None
    then show ?thesis using leaves by (simp add: leave_cancel_def)
  next
    case (Some i)
    then show ?thesis using leaves
      by (auto simp: keepers_inv_def leave_cancel_def AList.delete_conv' nth_list_update; metis option.inject)
  qed
qed (simp_all add: keepers_inv_def)

text \<open>\<^verbatim>\<open>leave\<close> forgets the service before Consul has answered: when the call fails, a second \<^verbatim>\<open>leave\<close> reports success without a call.\<close>

lemma leave_not_retried:
  assumes "keepers_inv r" "consul_leave api serviceId (Some r) = (Some r', Some e)"
  shows "consul_leave api serviceId (Some r') = (Some r', None)"
  using assms by (auto simp: consul_leave_def leave_cancel_def AList.delete_conv' split: if_splits prod.splits option.splits)

subsection \<open>subscription\_center.go\<close>

definition ErrSubscriptionCenterClosed :: go_error where "ErrSubscriptionCenterClosed = Plain ''consul subscription center is closed''"
definition ErrSubscriberNil :: go_error where "ErrSubscriberNil = Plain ''consul subscriber is nil''"

record 'f SubscriptionCenter =
  nextID :: "64 word"
  sub_closed :: bool
  subscribers :: "(64 word \<times> string \<times> 'f) list"

definition NewSubscriptionCenter :: "'f SubscriptionCenter" where
  "NewSubscriptionCenter = \<lparr>nextID = 0, sub_closed = False, subscribers = []\<rparr>"

definition Subscribe :: "string \<Rightarrow> 'f option \<Rightarrow> 'f SubscriptionCenter \<Rightarrow> 'f SubscriptionCenter \<times> 64 word result" where
  "Subscribe service subscriber c =
     (case subscriber of
        None \<Rightarrow> (c, Inl ErrSubscriberNil)
      | Some f \<Rightarrow>
          if sub_closed c then (c, Inl ErrSubscriptionCenterClosed)
          else (let i = nextID c + 1 in (c\<lparr>nextID := i, subscribers := AList.update i (service, f) (subscribers c)\<rparr>, Inr i)))"

definition Unsubscribe :: "64 word \<Rightarrow> 'f SubscriptionCenter \<Rightarrow> 'f SubscriptionCenter \<times> bool" where
  "Unsubscribe i c = (if map_of (subscribers c) i = None then (c, False) else (c\<lparr>subscribers := AList.delete i (subscribers c)\<rparr>, True))"

text \<open>The calls that \<^verbatim>\<open>Notify\<close> makes, in the order \<open>iter\<close> of the map.\<close>

definition Notify :: "((64 word \<times> string \<times> 'f) list \<Rightarrow> (64 word \<times> string \<times> 'f) list) \<Rightarrow> ('f \<Rightarrow> NodeInfo list \<Rightarrow> 's \<Rightarrow> 's) \<Rightarrow> NodeInfo list \<Rightarrow> 'f SubscriptionCenter \<Rightarrow> 's \<Rightarrow> 's" where
  "Notify iter on_change members c = fold (\<lambda>(_, _, f). on_change f members) (iter (subscribers c))"

definition SubscriberCount :: "'f SubscriptionCenter \<Rightarrow> nat" where
  "SubscriberCount c = length (subscribers c)"

definition SubscriptionCenter_Close :: "'f SubscriptionCenter \<Rightarrow> 'f SubscriptionCenter" where
  "SubscriptionCenter_Close c = c\<lparr>sub_closed := True, subscribers := []\<rparr>"

text \<open>As long as the counter has not wrapped around, an identifier is never given twice, so that a subscription replaces no other.\<close>

definition sub_inv :: "'f SubscriptionCenter \<Rightarrow> bool" where
  "sub_inv c \<longleftrightarrow> distinct (map fst (subscribers c)) \<and> (\<forall>i \<in> fst ` set (subscribers c). i \<le> nextID c)"

lemma subscribe_fresh:
  assumes "sub_inv c" "nextID c < - 1" "Subscribe service (Some f) c = (c', Inr i)"
  shows "map_of (subscribers c) i = None \<and> SubscriberCount c' = SubscriberCount c + 1 \<and> sub_inv c'"
proof -
  have "nextID c \<noteq> - 1" using assms(2) by auto
  then have "nextID c + 1 \<noteq> 0" by (simp add: add_eq_0_iff2)
  then have lt: "nextID c < nextID c + 1" using unatSuc [of "nextID c"] by (simp add: word_less_nat_alt add.commute)
  have new: "nextID c + 1 \<notin> set (map fst (subscribers c))" using assms(1) lt by (auto simp: sub_inv_def)
  have c': "c' = c\<lparr>nextID := nextID c + 1, subscribers := subscribers c @ [(nextID c + 1, service, f)]\<rparr>" "i = nextID c + 1"
    using assms(3) by (auto simp: Subscribe_def Let_def update_new [OF new] split: if_splits)
  have "\<forall>i \<in> fst ` set (subscribers c). i \<le> nextID c + 1" 
  proof
    fix i assume "i \<in> fst ` set (subscribers c)"
    then have "i \<le> nextID c" using assms(1) by (auto simp: sub_inv_def)
    also have "\<dots> \<le> nextID c + 1" using lt by simp
    finally show "i \<le> nextID c + 1" .
  qed
  then have "sub_inv c'" using assms(1) new by (simp add: sub_inv_def c' ball_Un)
  then show ?thesis using new by (simp add: c' SubscriberCount_def map_of_eq_None_iff)
qed

end
