(* ===== verification/ConsulWatch.thy ===== *)
theory ConsulWatch
  imports Consul "HOL-Library.Char_ord" "HOL-Library.List_Lexorder"
begin

text \<open>
  \<^verbatim>\<open>cluster/member/consul/watcher.go\<close> and \<^verbatim>\<open>registry.go\<close>: a goroutine follows the list of services, one goroutine for
  each service follows its instances and keeps them in a cache, and the registry answers from the cache.

  A worker is a goroutine of \<^verbatim>\<open>watchService\<close> with its own context; \<open>works\<close> is the map of the code from services
  to the \<^verbatim>\<open>cancel\<close> of their workers. The answers of Consul are arguments of the steps. \<open>listed\<close> and \<open>fetched\<close>
  record the last list of services and all answers stored for a service.
\<close>

subsection \<open>watcher.go\<close>

type_synonym instances = "(string \<times> NodeInfo) list"

datatype worker_pc = WHead | WQuery | WStore instances | WSleep | WExit | WDone

record worker =
  w_service :: string
  w_cancelled :: bool
  w_index :: "64 word"
  w_pc :: worker_pc

record watcher =
  caches :: "(string \<times> instances) list"
  catalog_index :: "64 word"
  works :: "(string \<times> nat) list"
  workers :: "worker list"
  group_cancelled :: bool
  listed :: "string list"
  fetched :: "(string \<times> instances) list"

definition newWatcher :: watcher where
  "newWatcher = \<lparr>caches = [], catalog_index = 0, works = [], workers = [], group_cancelled = False, listed = [], fetched = []\<rparr>"

text \<open>\<^verbatim>\<open>services\<close>: the keys of the answer of the catalog in some order, or its error. The query metadata may be nil.\<close>

definition watcher_services :: "(string list \<times> 64 word option) result \<Rightarrow> (string list \<times> 64 word option) result" where
  "watcher_services answer =
     (case answer of
        Inl e \<Rightarrow> Inl (Wrap ''catlog services err:'' e [])
      | Inr (names, meta) \<Rightarrow> Inr (sort (filter (\<lambda>service. service \<noteq> [] \<and> service \<noteq> ''consul'') names), meta))"

text \<open>The two loops of \<^verbatim>\<open>reconcileServices\<close>.\<close>

definition start_worker :: "string \<Rightarrow> watcher \<Rightarrow> watcher" where
  "start_worker service w =
     (if map_of (works w) service \<noteq> None then w
      else w\<lparr>works := AList.update service (length (workers w)) (works w),
             workers := workers w @ [\<lparr>w_service = service, w_cancelled = False, w_index = 0, w_pc = WHead\<rparr>]\<rparr>)"

definition stop_worker :: "string list \<Rightarrow> string \<times> nat \<Rightarrow> watcher \<Rightarrow> watcher" where
  "stop_worker services = (\<lambda>(service, i) w.
     if service \<in> set services then w
     else w\<lparr>workers := (workers w)[i := (workers w ! i)\<lparr>w_cancelled := True\<rparr>], works := AList.delete service (works w)\<rparr>)"

definition reconcileServices :: "((string \<times> nat) list \<Rightarrow> (string \<times> nat) list) \<Rightarrow> string list \<Rightarrow> watcher \<Rightarrow> watcher" where
  "reconcileServices iter services w =
     (let w = fold start_worker services w in fold (stop_worker services) (iter (works w)) (w\<lparr>listed := services\<rparr>))"

text \<open>An iteration of \<^verbatim>\<open>watchCatalog\<close> that has queried; an error is retried after a delay.\<close>

definition catalog_answer :: "((string \<times> nat) list \<Rightarrow> (string \<times> nat) list) \<Rightarrow> (string list \<times> 64 word option) result \<Rightarrow> watcher \<Rightarrow> watcher" where
  "catalog_answer iter answer w =
     (case watcher_services answer of
        Inl e \<Rightarrow> w
      | Inr (services, meta) \<Rightarrow>
          reconcileServices iter services (case meta of None \<Rightarrow> w | Some i \<Rightarrow> w\<lparr>catalog_index := i\<rparr>))"

definition upd_worker :: "nat \<Rightarrow> (worker \<Rightarrow> worker) \<Rightarrow> watcher \<Rightarrow> watcher" where
  "upd_worker i f w = w\<lparr>workers := (workers w)[i := f (workers w ! i)]\<rparr>"

definition set_pc :: "nat \<Rightarrow> worker_pc \<Rightarrow> watcher \<Rightarrow> watcher" where
  "set_pc i pc w = upd_worker i (\<lambda>k. k\<lparr>w_pc := pc\<rparr>) w"

definition worker_done :: "nat \<Rightarrow> watcher \<Rightarrow> bool" where
  "worker_done i w \<longleftrightarrow> w_cancelled (workers w ! i) \<or> group_cancelled w"

definition fetchService :: "json_lib \<Rightarrow> (ServiceEntry option list \<times> 64 word option) result \<Rightarrow> (instances \<times> 64 word option) result" where
  "fetchService J answer = (case answer of Inl e \<Rightarrow> Inl e | Inr (entries, meta) \<Rightarrow> Inr (entriesToInstances J entries, meta))"

text \<open>\<^verbatim>\<open>watchService\<close> in steps: the test of the context, the query, \<^verbatim>\<open>caches.Set\<close>, \<^verbatim>\<open>sleepContext\<close> after an error and the
  deferred \<^verbatim>\<open>caches.Delete\<close>.\<close>

definition worker_head :: "nat \<Rightarrow> watcher \<Rightarrow> watcher" where
  "worker_head i w = set_pc i (if worker_done i w then WExit else WQuery) w"

definition worker_answer :: "json_lib \<Rightarrow> (ServiceEntry option list \<times> 64 word option) result \<Rightarrow> nat \<Rightarrow> watcher \<Rightarrow> watcher" where
  "worker_answer J answer i w =
     (case fetchService J answer of
        Inl e \<Rightarrow> set_pc i WSleep w
      | Inr (found, meta) \<Rightarrow>
          upd_worker i (\<lambda>k. k\<lparr>w_pc := WStore found, w_index := (case meta of None \<Rightarrow> w_index k | Some x \<Rightarrow> x)\<rparr>) w)"

definition worker_store :: "nat \<Rightarrow> instances \<Rightarrow> watcher \<Rightarrow> watcher" where
  "worker_store i found w =
     (let service = w_service (workers w ! i) in
      set_pc i WHead (w\<lparr>caches := AList.update service found (caches w), fetched := fetched w @ [(service, found)]\<rparr>))"

text \<open>The timer and the context may both be ready.\<close>

definition worker_wake :: "bool \<Rightarrow> nat \<Rightarrow> watcher \<Rightarrow> watcher" where
  "worker_wake timer i w = set_pc i (if timer then WHead else WExit) w"

definition worker_exit :: "nat \<Rightarrow> watcher \<Rightarrow> watcher" where
  "worker_exit i w = set_pc i WDone (w\<lparr>caches := AList.delete (w_service (workers w ! i)) (caches w)\<rparr>)"

definition watcher_cancel :: "watcher \<Rightarrow> watcher" where
  "watcher_cancel w = w\<lparr>group_cancelled := True\<rparr>"

inductive watch_step :: "json_lib \<Rightarrow> watcher \<Rightarrow> watcher \<Rightarrow> bool" for J where
  catalog: "(\<And>xs. set (iter xs) = set xs) \<Longrightarrow> watch_step J w (catalog_answer iter answer w)"
| heads: "i < length (workers w) \<Longrightarrow> w_pc (workers w ! i) = WHead \<Longrightarrow> watch_step J w (worker_head i w)"
| answers: "i < length (workers w) \<Longrightarrow> w_pc (workers w ! i) = WQuery \<Longrightarrow> watch_step J w (worker_answer J answer i w)"
| stores: "i < length (workers w) \<Longrightarrow> w_pc (workers w ! i) = WStore found \<Longrightarrow> watch_step J w (worker_store i found w)"
| wakes: "i < length (workers w) \<Longrightarrow> w_pc (workers w ! i) = WSleep \<Longrightarrow> timer \<or> worker_done i w \<Longrightarrow> watch_step J w (worker_wake timer i w)"
| exits: "i < length (workers w) \<Longrightarrow> w_pc (workers w ! i) = WExit \<Longrightarrow> watch_step J w (worker_exit i w)"
| group_stop: "watch_step J w (watcher_cancel w)"

inductive watch_reachable :: "json_lib \<Rightarrow> watcher \<Rightarrow> bool" for J where
  watch_start: "watch_reachable J newWatcher"
| watch_next: "watch_reachable J w \<Longrightarrow> watch_step J w w' \<Longrightarrow> watch_reachable J w'"

subsection \<open>registry.go\<close>

definition zero_NodeInfo :: NodeInfo where
  "zero_NodeInfo = \<lparr>node_ID = [], node_Name = [], Address = [], node_Status = [], StartedAt = 0, Version = [], Meta = None\<rparr>"

text \<open>\<open>iter\<close> is the order of a range over a Go map.\<close>

definition Registry_Members :: "(instances \<Rightarrow> instances) \<Rightarrow> string \<Rightarrow> watcher \<Rightarrow> instances" where
  "Registry_Members iter service w =
     fold (\<lambda>(_, m) ret. AList.update (node_ID m) (NodeInfo_Clone m) ret)
       (case map_of (caches w) service of None \<Rightarrow> [] | Some members \<Rightarrow> iter members) []"

fun member_search :: "string \<Rightarrow> (string \<times> instances) list \<Rightarrow> NodeInfo \<times> bool \<Rightarrow> NodeInfo \<times> bool" where
  "member_search serviceId [] r = r"
| "member_search serviceId ((_, found) # cs) r =
     (case map_of found serviceId of Some n \<Rightarrow> (n, True) | None \<Rightarrow> member_search serviceId cs (zero_NodeInfo, False))"

definition Registry_MemberById :: "((string \<times> instances) list \<Rightarrow> (string \<times> instances) list) \<Rightarrow> string \<Rightarrow> watcher \<Rightarrow> NodeInfo \<times> bool" where
  "Registry_MemberById iter serviceId w =
     (case member_search serviceId (iter (caches w)) (zero_NodeInfo, False) of (n, ok) \<Rightarrow> (NodeInfo_Clone n, ok))"

definition Registry_AllMembers :: "((string \<times> instances) list \<Rightarrow> (string \<times> instances) list) \<Rightarrow> (instances \<Rightarrow> instances) \<Rightarrow> watcher \<Rightarrow> NodeInfo list" where
  "Registry_AllMembers iter iter2 w = concat (map (\<lambda>(_, dict). map snd (iter2 dict)) (iter (caches w)))"

text \<open>
  The registry: \<open>rg_reg\<close> and \<open>rg_watcher\<close> are nil before \<^verbatim>\<open>Run\<close>. \<open>new_client\<close> is the result of \<^verbatim>\<open>api.NewClient\<close> and \<open>self\<close>
  that of \<^verbatim>\<open>Agent().Self()\<close>. \<^verbatim>\<open>Join\<close> on the nil registration dereferences it: \<^term>\<open>None\<close>.
\<close>

record 'c consul_registry =
  rg_options :: consul_options
  rg_client :: "'c option"
  rg_reg :: "'c registration option"
  rg_watcher :: "watcher option"

definition Registry_NewWithOptions :: "consul_options \<Rightarrow> 'c consul_registry" where
  "Registry_NewWithOptions options = \<lparr>rg_options = normalizeOptions options, rg_client = None, rg_reg = None, rg_watcher = None\<rparr>"

definition initClient :: "(consul_config \<Rightarrow> 'c result) \<Rightarrow> ('c \<Rightarrow> err) \<Rightarrow> consul_config \<Rightarrow> 'c consul_registry \<Rightarrow> 'c consul_registry \<times> err" where
  "initClient new_client self base r =
     (case new_client (toConsulConfig base (rg_options r)) of
        Inl e \<Rightarrow> (r, Some (Wrap ''consul init client err: '' e []))
      | Inr c \<Rightarrow>
          (case self c of
             Some e \<Rightarrow> (r, Some (Wrap ''consul init client err: '' e []))
           | None \<Rightarrow> (r\<lparr>rg_client := Some c\<rparr>, None)))"

definition Registry_Run :: "(consul_config \<Rightarrow> 'c result) \<Rightarrow> ('c \<Rightarrow> err) \<Rightarrow> consul_config \<Rightarrow> 'c consul_registry \<Rightarrow> 'c consul_registry \<times> err" where
  "Registry_Run new_client self base r =
     (case initClient new_client self base r of
        (r, Some e) \<Rightarrow> (r, Some e)
      | (r, None) \<Rightarrow>
          (r\<lparr>rg_reg := map_option (newRegistration (rg_options r) True) (rg_client r), rg_watcher := Some newWatcher\<rparr>, None))"

definition Registry_Join :: "json_lib \<Rightarrow> 'c consul_api \<Rightarrow> NodeInfo \<Rightarrow> 'c consul_registry \<Rightarrow> ('c consul_registry \<times> err) option" where
  "Registry_Join J api node r =
     (case rg_reg r of
        None \<Rightarrow> None
      | Some g \<Rightarrow> (case consul_join J api node g of (g, e) \<Rightarrow> Some (r\<lparr>rg_reg := Some g\<rparr>, e)))"

definition Registry_Update :: "json_lib \<Rightarrow> 'c consul_api \<Rightarrow> NodeInfo \<Rightarrow> 'c consul_registry \<Rightarrow> ('c consul_registry \<times> err) option" where
  "Registry_Update J api node r = Registry_Join J api node r"

definition Registry_Leave :: "'c consul_api \<Rightarrow> string \<Rightarrow> 'c consul_registry \<Rightarrow> 'c consul_registry \<times> err" where
  "Registry_Leave api serviceId r = (case consul_leave api serviceId (rg_reg r) of (g, e) \<Rightarrow> (r\<lparr>rg_reg := g\<rparr>, e))"

subsection \<open>Lookups\<close>

lemma member_search_found: "snd (member_search x cs (n, False)) \<longleftrightarrow> (\<exists>c \<in> set cs. map_of (snd c) x \<noteq> None)"
  by (induction cs arbitrary: n) (force split: option.splits)+

lemma member_search_in: "member_search x cs (n, False) = (m, True) \<Longrightarrow> \<exists>c \<in> set cs. map_of (snd c) x = Some m"
  by (induction cs arbitrary: n) (auto split: option.splits)

text \<open>\<^verbatim>\<open>MemberById\<close> finds a node exactly if some service has it, whatever the order of the ranges, and then \<^verbatim>\<open>AllMembers\<close> has it too.\<close>

lemma member_by_id_spec:
  assumes "set (iter (caches w)) = set (caches w)" "\<And>xs. set (iter2 xs) = set xs" "Registry_MemberById iter x w = (n, ok)"
  shows "ok \<longleftrightarrow> (\<exists>c \<in> set (caches w). map_of (snd c) x \<noteq> None)" "ok \<Longrightarrow> n \<in> set (Registry_AllMembers iter iter2 w)"
proof -
  obtain m where m: "member_search x (iter (caches w)) (zero_NodeInfo, False) = (m, ok)" "n = m"
    using assms(3) by (auto simp: Registry_MemberById_def split: prod.splits)
  show "ok \<longleftrightarrow> (\<exists>c \<in> set (caches w). map_of (snd c) x \<noteq> None)"
    using member_search_found [of x "iter (caches w)" zero_NodeInfo] m assms(1) by simp
  assume ok
  then obtain c where "c \<in> set (caches w)" "map_of (snd c) x = Some n"
    using member_search_in [of x "iter (caches w)" zero_NodeInfo m] m assms(1) by auto
  then have "c \<in> set (iter (caches w))" "(x, n) \<in> set (iter2 (snd c))" using assms(1,2) by (auto dest: map_of_SomeD)
  then show "n \<in> set (Registry_AllMembers iter iter2 w)"
    by (auto simp: Registry_AllMembers_def case_prod_unfold image_iff intro!: bexI [of _ c] bexI [of _ "(x, n)"])
qed

subsection \<open>The invariant of the watcher\<close>

definition distinct_keys :: "('a \<times> 'b) list \<Rightarrow> bool" where
  "distinct_keys xs \<longleftrightarrow> distinct (map fst xs)"

lemma distinct_keys_keeps [simp]: "distinct_keys xs \<Longrightarrow> distinct_keys (AList.update k v xs)" "distinct_keys xs \<Longrightarrow> distinct_keys (AList.delete k xs)"
  by (simp_all add: distinct_keys_def distinct_update distinct_delete)

definition works_ok :: "watcher \<Rightarrow> bool" where
  "works_ok w \<longleftrightarrow> distinct_keys (works w) \<and> (\<forall>s i. map_of (works w) s = Some i \<longrightarrow> i < length (workers w))
     \<and> (\<forall>s i. i < length (workers w) \<longrightarrow> (w_service (workers w ! i) = s \<and> \<not> w_cancelled (workers w ! i) \<longleftrightarrow> map_of (works w) s = Some i))"

definition cache_ok :: "watcher \<Rightarrow> bool" where
  "cache_ok w \<longleftrightarrow> (\<forall>s found. map_of (caches w) s = Some found \<longrightarrow>
     (\<exists>i < length (workers w). w_service (workers w ! i) = s \<and> w_pc (workers w ! i) \<noteq> WDone) \<and> (s, found) \<in> set (fetched w))"

definition exit_ok :: "watcher \<Rightarrow> bool" where
  "exit_ok w \<longleftrightarrow> (\<forall>i < length (workers w). w_pc (workers w ! i) \<in> {WExit, WDone} \<longrightarrow> worker_done i w)"

definition watch_inv :: "watcher \<Rightarrow> bool" where
  "watch_inv w \<longleftrightarrow> works_ok w \<and> cache_ok w \<and> exit_ok w \<and> dom (map_of (works w)) = set (listed w)"

lemma cache_ok_cong:
  assumes "cache_ok w" "caches w' = caches w" "fetched w' = fetched w" "length (workers w') = length (workers w)"
    and "\<And>i. i < length (workers w) \<Longrightarrow> w_service (workers w' ! i) = w_service (workers w ! i) \<and> (w_pc (workers w' ! i) = WDone \<longrightarrow> w_pc (workers w ! i) = WDone)"
  shows "cache_ok w'"
  using assms unfolding cache_ok_def by metis

lemma start_worker_ok:
  assumes "works_ok w" "cache_ok w" "exit_ok w"
  shows "works_ok (start_worker s w)" "cache_ok (start_worker s w)" "exit_ok (start_worker s w)"
    "dom (map_of (works (start_worker s w))) = insert s (dom (map_of (works w)))"
proof -
  show "works_ok (start_worker s w)" "exit_ok (start_worker s w)"
    "dom (map_of (works (start_worker s w))) = insert s (dom (map_of (works w)))"
    using assms by (auto simp: works_ok_def exit_ok_def worker_done_def start_worker_def update_conv' nth_append less_Suc_eq)
  show "cache_ok (start_worker s w)"
    using assms(2) unfolding cache_ok_def start_worker_def by (auto simp: nth_append)
qed

lemma start_workers_ok:
  assumes "works_ok w" "cache_ok w" "exit_ok w"
  shows "works_ok (fold start_worker ss w) \<and> cache_ok (fold start_worker ss w) \<and> exit_ok (fold start_worker ss w)
    \<and> dom (map_of (works (fold start_worker ss w))) = set ss \<union> dom (map_of (works w))"
  using assms by (induction ss arbitrary: w) (auto simp: start_worker_ok)

text \<open>Cancelling a worker and forgetting it.\<close>

lemma stop_worker_ok:
  assumes "works_ok w" "cache_ok w" "exit_ok w" "map_of (works w) s = Some i \<or> map_of (works w) s = None \<and> i < length (workers w) \<and> w_cancelled (workers w ! i)"
  shows "works_ok (stop_worker ss (s, i) w)" "cache_ok (stop_worker ss (s, i) w)" "exit_ok (stop_worker ss (s, i) w)"
    "dom (map_of (works (stop_worker ss (s, i) w))) = dom (map_of (works w)) - ({s} - set ss)"
proof -
  have i: "i < length (workers w)" using assms(1,4) by (auto simp: works_ok_def)
  show "exit_ok (stop_worker ss (s, i) w)" "dom (map_of (works (stop_worker ss (s, i) w))) = dom (map_of (works w)) - ({s} - set ss)"
    using assms i by (auto simp: exit_ok_def worker_done_def stop_worker_def AList.delete_conv' nth_list_update split: if_splits)
  show "cache_ok (stop_worker ss (s, i) w)"
    by (rule cache_ok_cong [OF assms(2)]) (auto simp: stop_worker_def nth_list_update i)
  show "works_ok (stop_worker ss (s, i) w)"
  proof (cases "s \<in> set ss")
    case True
    then show ?thesis using assms(1) by (simp add: stop_worker_def)
  next
    case False
    have in_range: "\<And>t j. map_of (works w) t = Some j \<Longrightarrow> j < length (workers w)"
      and live: "\<And>t j. j < length (workers w) \<Longrightarrow> w_service (workers w ! j) = t \<and> \<not> w_cancelled (workers w ! j) \<longleftrightarrow> map_of (works w) t = Some j"
      using assms(1) by (auto simp: works_ok_def)
    have "t \<noteq> s \<Longrightarrow> map_of (works w) t \<noteq> Some i" for t using assms(4) live [OF i, of t] live [OF i, of s] by auto
    moreover have "j < length (workers w) \<Longrightarrow> j \<noteq> i \<Longrightarrow> w_service (workers w ! j) = s \<Longrightarrow> w_cancelled (workers w ! j)" for j
      using assms(4) live [of j s] by auto
    ultimately show ?thesis using False in_range live i assms(1)
      by (auto simp: works_ok_def stop_worker_def AList.delete_conv' nth_list_update)
  qed
qed

definition stoppable :: "watcher \<Rightarrow> string \<times> nat \<Rightarrow> bool" where
  "stoppable w = (\<lambda>(s, i). map_of (works w) s = Some i \<or> map_of (works w) s = None \<and> i < length (workers w) \<and> w_cancelled (workers w ! i))"

lemma stoppable_keeps:
  assumes "works_ok w" "stoppable w k" "stoppable w c"
  shows "stoppable (stop_worker ss k w) c"
proof -
  obtain s i t j where kc: "k = (s, i)" "c = (t, j)" by (cases k, cases c) auto
  have ij: "i < length (workers w)" "j < length (workers w)" using assms by (auto simp: works_ok_def stoppable_def kc)
  show ?thesis using assms(2,3) ij
    by (cases "t = s") (auto simp: stoppable_def kc stop_worker_def AList.delete_conv' nth_list_update)
qed

lemma stop_workers_ok:
  assumes "works_ok w" "cache_ok w" "exit_ok w" "\<And>k. k \<in> set ks \<Longrightarrow> stoppable w k"
  shows "works_ok (fold (stop_worker ss) ks w) \<and> cache_ok (fold (stop_worker ss) ks w) \<and> exit_ok (fold (stop_worker ss) ks w)
    \<and> dom (map_of (works (fold (stop_worker ss) ks w))) = dom (map_of (works w)) - (fst ` set ks - set ss)"
  using assms
proof (induction ks arbitrary: w)
  case (Cons k ks)
  obtain s i where k: "k = (s, i)" by (cases k)
  have c: "map_of (works w) s = Some i \<or> map_of (works w) s = None \<and> i < length (workers w) \<and> w_cancelled (workers w ! i)"
    using Cons.prems(4) [of k] by (simp add: stoppable_def k)
  note ok = stop_worker_ok [OF Cons.prems(1-3) c, of ss]
  have "stoppable (stop_worker ss (s, i) w) c" if "c \<in> set ks" for c
    using stoppable_keeps [OF Cons.prems(1) Cons.prems(4) [of k] Cons.prems(4) [of c]] that by (simp add: k)
  from Cons.IH [OF ok(1-3) this] show ?case using ok(4) by (auto simp: k)
qed auto

lemma watch_inv_cong:
  assumes "watch_inv w" "works w' = works w" "listed w' = listed w" "length (workers w') = length (workers w)"
    and "\<And>j. j < length (workers w) \<Longrightarrow> w_service (workers w' ! j) = w_service (workers w ! j) \<and> w_cancelled (workers w' ! j) = w_cancelled (workers w ! j)"
    and "cache_ok w'" "exit_ok w'"
  shows "watch_inv w'"
  using assms by (simp add: watch_inv_def works_ok_def)

lemma reconcile_ok:
  assumes "watch_inv w" "\<And>xs. set (iter xs) = set xs"
  shows "watch_inv (reconcileServices iter ss w)"
proof -
  define v where "v = fold start_worker ss w"
  have v: "works_ok v" "cache_ok v" "exit_ok v" "set ss \<subseteq> dom (map_of (works v))"
    using start_workers_ok [of w ss] assms(1) by (auto simp: v_def watch_inv_def)
  define u where "u = v\<lparr>listed := ss\<rparr>"
  have u: "works_ok u" "cache_ok u" "exit_ok u" "works u = works v" "listed u = ss"
    using v by (simp_all add: u_def works_ok_def cache_ok_def exit_ok_def worker_done_def)
  let ?x = "fold (stop_worker ss) (iter (works v)) u"
  have "stoppable u k" if "k \<in> set (iter (works v))" for k
  proof -
    obtain s i where k: "k = (s, i)" by (cases k)
    then have "map_of (works v) s = Some i" using that assms(2) v(1) by (simp add: works_ok_def distinct_keys_def)
    then show ?thesis by (simp add: stoppable_def k u(4))
  qed
  then have st: "works_ok ?x \<and> cache_ok ?x \<and> exit_ok ?x \<and> dom (map_of (works ?x)) = dom (map_of (works u)) - (fst ` set (iter (works v)) - set ss)"
    by (intro stop_workers_ok u) simp
  have "fst ` set (iter (works v)) = dom (map_of (works v))" by (simp add: assms(2) dom_map_of_conv_image_fst)
  moreover have "listed (fold (stop_worker ss) ks x) = listed x" for ks x
    by (induction ks arbitrary: x) (auto simp: stop_worker_def)
  ultimately have "watch_inv ?x" using st v(4) u(4,5) by (auto simp: watch_inv_def)
  then show ?thesis by (simp add: reconcileServices_def Let_def v_def u_def)
qed

lemma exit_ok_set_pc:
  assumes "exit_ok w" "i < length (workers w)" "pc \<in> {WExit, WDone} \<longrightarrow> worker_done i w"
  shows "exit_ok (set_pc i pc w)"
  using assms by (auto simp: exit_ok_def set_pc_def upd_worker_def worker_done_def nth_list_update)

lemma cache_ok_set_pc:
  assumes "cache_ok w" "i < length (workers w)" "pc \<noteq> WDone"
  shows "cache_ok (set_pc i pc w)"
  by (rule cache_ok_cong [OF assms(1)]) (use assms(2,3) in \<open>auto simp: set_pc_def upd_worker_def nth_list_update\<close>)

lemma set_pc_fields [simp]:
  "works (set_pc i pc w) = works w" "listed (set_pc i pc w) = listed w" "length (workers (set_pc i pc w)) = length (workers w)"
  "caches (set_pc i pc w) = caches w" "fetched (set_pc i pc w) = fetched w" "group_cancelled (set_pc i pc w) = group_cancelled w"
  by (simp_all add: set_pc_def upd_worker_def)

lemma set_pc_worker [simp]:
  "j < length (workers w) \<Longrightarrow> w_service (workers (set_pc i pc w) ! j) = w_service (workers w ! j)"
  "j < length (workers w) \<Longrightarrow> w_cancelled (workers (set_pc i pc w) ! j) = w_cancelled (workers w ! j)"
  by (cases "i = j"; simp add: set_pc_def upd_worker_def)+

lemma watch_inv_set_pc:
  assumes "watch_inv w" "i < length (workers w)" "pc \<noteq> WDone" "pc = WExit \<longrightarrow> worker_done i w"
  shows "watch_inv (set_pc i pc w)"
  by (rule watch_inv_cong [OF assms(1)]) (use assms in \<open>auto simp: watch_inv_def intro: exit_ok_set_pc cache_ok_set_pc\<close>)

lemma watch_inv_step:
  assumes "watch_step J w w'" "watch_inv w"
  shows "watch_inv w'"
  using assms
proof (induction rule: watch_step.induct)
  case (catalog iter w answer)
  have "watch_inv (w\<lparr>catalog_index := x\<rparr>)" for x
    by (rule watch_inv_cong [OF catalog(2)]) (use catalog(2) in \<open>simp_all add: watch_inv_def cache_ok_def exit_ok_def worker_done_def\<close>)
  then show ?case using reconcile_ok [OF _ catalog(1)] catalog(2)
    by (auto simp: catalog_answer_def split: sum.splits prod.splits option.splits)
next
  case (heads i w)
  then show ?case by (auto simp: worker_head_def intro: watch_inv_set_pc)
next
  case (answers i w answer)
  have "cache_ok (upd_worker i (\<lambda>k. k\<lparr>w_pc := WStore found, w_index := x\<rparr>) w)" for found x
    by (rule cache_ok_cong [of w]) (use answers in \<open>auto simp: watch_inv_def upd_worker_def nth_list_update\<close>)
  then have "watch_inv (upd_worker i (\<lambda>k. k\<lparr>w_pc := WStore found, w_index := x\<rparr>) w)" for found x
    by (intro watch_inv_cong [OF answers(3)])
      (use answers in \<open>auto simp: watch_inv_def upd_worker_def nth_list_update exit_ok_def worker_done_def\<close>)
  then show ?case using answers watch_inv_set_pc [of w i WSleep]
    by (auto simp: worker_answer_def upd_worker_def split: sum.splits prod.splits option.splits)
next
  case (stores i w found)
  let ?s = "w_service (workers w ! i)"
  let ?v = "w\<lparr>caches := AList.update ?s found (caches w), fetched := fetched w @ [(?s, found)]\<rparr>"
  have "cache_ok ?v" using stores by (auto simp: watch_inv_def cache_ok_def update_conv')
  then have "watch_inv ?v"
    by (rule watch_inv_cong [OF stores(3), rotated -2]) (use stores(3) in \<open>simp_all add: watch_inv_def exit_ok_def worker_done_def\<close>)
  then show ?case using stores(1) watch_inv_set_pc [of ?v i WHead] by (simp add: worker_store_def Let_def)
next
  case (wakes i w timer)
  then show ?case by (auto simp: worker_wake_def intro: watch_inv_set_pc)
next
  case (exits i w)
  let ?s = "w_service (workers w ! i)"
  let ?v = "w\<lparr>caches := AList.delete ?s (caches w)\<rparr>"
  have "cache_ok (worker_exit i w)"
    using exits by (auto simp: watch_inv_def cache_ok_def worker_exit_def set_pc_def upd_worker_def AList.delete_conv' nth_list_update split: if_splits; metis)
  moreover have "exit_ok (worker_exit i w)"
    unfolding worker_exit_def by (rule exit_ok_set_pc) (use exits in \<open>auto simp: watch_inv_def exit_ok_def worker_done_def\<close>)
  ultimately show ?case by (intro watch_inv_cong [OF exits(3)]) (simp_all add: worker_exit_def)
next
  case (group_stop w)
  then show ?case
    by (intro watch_inv_cong [OF group_stop]) (auto simp: watcher_cancel_def watch_inv_def cache_ok_def exit_ok_def worker_done_def)
qed

lemma watch_inv_new: "watch_inv newWatcher"
  by (simp add: watch_inv_def works_ok_def distinct_keys_def cache_ok_def exit_ok_def newWatcher_def)

lemma watch_reachable_inv: "watch_reachable J w \<Longrightarrow> watch_inv w"
  by (induction rule: watch_reachable.induct) (simp_all add: watch_inv_new watch_inv_step)

text \<open>
  C19: However the goroutines of the watcher interleave, a service that the last catalog answer lists has
  exactly one worker that is not cancelled, and every other worker is cancelled; what is cached for a
  service was answered by Consul for that service, and some worker of it is still at work. So once the
  cancelled workers are gone, the members are those of listed services only, and when all workers are
  gone the cache is empty.
\<close>

theorem consul_watch_coherent:
  assumes "watch_reachable J w"
  shows "(\<forall>s \<in> set (listed w). \<exists>!i. i < length (workers w) \<and> w_service (workers w ! i) = s \<and> \<not> w_cancelled (workers w ! i))
    \<and> (\<forall>i < length (workers w). w_service (workers w ! i) \<notin> set (listed w) \<longrightarrow> w_cancelled (workers w ! i))
    \<and> (\<forall>s found. map_of (caches w) s = Some found \<longrightarrow> (s, found) \<in> set (fetched w)
         \<and> (\<exists>i < length (workers w). w_service (workers w ! i) = s \<and> w_pc (workers w ! i) \<noteq> WDone))
    \<and> ((\<forall>i < length (workers w). w_cancelled (workers w ! i) \<longrightarrow> w_pc (workers w ! i) = WDone) \<longrightarrow> dom (map_of (caches w)) \<subseteq> set (listed w))
    \<and> ((\<forall>i < length (workers w). w_pc (workers w ! i) = WDone) \<longrightarrow> caches w = [])"
proof -
  have inv: "watch_inv w" using watch_reachable_inv [OF assms] .
  have live: "w_service (workers w ! i) = s \<and> \<not> w_cancelled (workers w ! i) \<longleftrightarrow> map_of (works w) s = Some i" if "i < length (workers w)" for s i
    using inv that by (auto simp: watch_inv_def works_ok_def)
  have in_range: "i < length (workers w)" if "map_of (works w) s = Some i" for s i
    using inv that by (auto simp: watch_inv_def works_ok_def)
  have dom: "s \<in> set (listed w) \<longleftrightarrow> map_of (works w) s \<noteq> None" for s using inv by (auto simp: watch_inv_def)
  have cache: "(s, found) \<in> set (fetched w) \<and> (\<exists>i < length (workers w). w_service (workers w ! i) = s \<and> w_pc (workers w ! i) \<noteq> WDone)"
    if "map_of (caches w) s = Some found" for s found using inv that by (auto simp: watch_inv_def cache_ok_def)
  have one: "\<exists>!i. i < length (workers w) \<and> w_service (workers w ! i) = s \<and> \<not> w_cancelled (workers w ! i)" if listed: "s \<in> set (listed w)" for s
  proof -
    obtain i where i: "map_of (works w) s = Some i" using listed dom by auto
    show ?thesis
    proof (rule ex1I [of _ i])
      show "i < length (workers w) \<and> w_service (workers w ! i) = s \<and> \<not> w_cancelled (workers w ! i)"
        using in_range [OF i] live [OF in_range [OF i], of s] i by simp
    next
      fix j assume "j < length (workers w) \<and> w_service (workers w ! j) = s \<and> \<not> w_cancelled (workers w ! j)"
      then show "j = i" using live [of j s] i by simp
    qed
  qed
  have gone: "w_cancelled (workers w ! i)" if "i < length (workers w)" "w_service (workers w ! i) \<notin> set (listed w)" for i
    using that(2) live [OF that(1), of "w_service (workers w ! i)"] dom [of "w_service (workers w ! i)"] by auto
  have members: "dom (map_of (caches w)) \<subseteq> set (listed w)"
    if "\<forall>i < length (workers w). w_cancelled (workers w ! i) \<longrightarrow> w_pc (workers w ! i) = WDone"
  proof
    fix s assume "s \<in> dom (map_of (caches w))"
    then obtain i where "i < length (workers w)" "w_service (workers w ! i) = s" "w_pc (workers w ! i) \<noteq> WDone" using cache by blast
    then show "s \<in> set (listed w)" using that live [of i s] dom [of s] by auto
  qed
  have empty: "caches w = []" if "\<forall>i < length (workers w). w_pc (workers w ! i) = WDone"
  proof (rule ccontr)
    assume "caches w \<noteq> []"
    then obtain s found rest where "caches w = (s, found) # rest" by (metis surj_pair neq_Nil_conv)
    then show False using cache [of s found] that by auto
  qed
  show ?thesis
  proof (intro conjI ballI)
    fix s assume "s \<in> set (listed w)" then show "\<exists>!i. i < length (workers w) \<and> w_service (workers w ! i) = s \<and> \<not> w_cancelled (workers w ! i)" by (rule one)
  next
    show "\<forall>i < length (workers w). w_service (workers w ! i) \<notin> set (listed w) \<longrightarrow> w_cancelled (workers w ! i)" using gone by blast
  next
    show "\<forall>s found. map_of (caches w) s = Some found \<longrightarrow> (s, found) \<in> set (fetched w)
      \<and> (\<exists>i < length (workers w). w_service (workers w ! i) = s \<and> w_pc (workers w ! i) \<noteq> WDone)" using cache by blast
  qed (use members empty in blast)+
qed

end
