(* ===== verification/ConsulExamples.thy ===== *)
theory ConsulExamples
  imports ConsulWatch
begin

text \<open>
  A node that goes to Consul and back, and runs of the watcher of one service.
\<close>

definition worker_node :: NodeInfo where
  "worker_node = \<lparr>node_ID = ''node-1'', node_Name = ''worker'', Address = ''10.0.0.1:9000'', node_Status = [], StartedAt = 123, Version = ''v1.2.3'',
     Meta = Some [''zone'' \<mapsto> ''west'']\<rparr>"

definition sample_json :: json_lib where
  "sample_json = \<lparr>json_Marshal = (\<lambda>n. if n = worker_node then Inr ''{}'' else Inl (Plain ''unsupported'')),
     json_Unmarshal = (\<lambda>s. if s = ''{}'' then Inr worker_node else Inl (Plain ''malformed'')), duration_String = (\<lambda>_. ''5s'')\<rparr>"

lemma worker_meta: "[''zone'' \<mapsto> ''west''](nodeInfoMetaKey := None) = [''zone'' \<mapsto> ''west'']" "[''zone'' \<mapsto> ''west''] \<noteq> Map.empty"
  by (auto simp: nodeInfoMetaKey_def fun_eq_iff)

lemma sample_json_ok: "json_roundtrip sample_json"
  using worker_meta(2) by (auto simp: json_roundtrip_def sample_json_def json_normal_def worker_node_def)

lemma worker_address: "splitAddress ''10.0.0.1:9000'' = Inr (''10.0.0.1'', 9000)"
  by code_simp

theorem consul_registration_roundtrip_witness:
  "\<exists>r. instanceToRegistration sample_json worker_node DefaultOptions = Inr r
    \<and> entriesToInstances sample_json [Some (registered_entry r [Some HealthPassing])] = [(''node-1'', worker_node\<lparr>node_Status := HealthPassing\<rparr>)]"
proof -
  have "worker_node\<lparr>Meta := meta_delete nodeInfoMetaKey (Meta worker_node)\<rparr> = worker_node"
    by (simp add: worker_node_def meta_delete_def worker_meta)
  then obtain r where r: "instanceToRegistration sample_json worker_node DefaultOptions = Inr r"
    by (auto simp: instanceToRegistration_def worker_node_def worker_address Let_def jsoncodec_Marshal_def sample_json_def)
  have p: "worker_node\<lparr>Meta := public_meta worker_node\<rparr> = worker_node"
    by (simp add: worker_node_def public_meta_def worker_meta)
  have "entriesToInstances sample_json [Some (registered_entry r [Some HealthPassing])] =
      [(node_ID worker_node, worker_node\<lparr>Meta := public_meta worker_node, node_Status := HealthPassing\<rparr>)]"
    using consul_registration_roundtrip [OF sample_json_ok r, of "[Some HealthPassing]"]
    by (simp add: HealthCritical_def HealthWarning_def HealthPassing_def)
  then show ?thesis using r p by (intro exI [of _ r]) (simp add: worker_node_def)
qed

subsection \<open>The watcher\<close>

definition list_worker :: "watcher \<Rightarrow> watcher" where
  "list_worker = catalog_answer (\<lambda>xs. xs) (Inr ([''consul'', ''worker''], Some 7))"

definition list_nothing :: "watcher \<Rightarrow> watcher" where
  "list_nothing = catalog_answer (\<lambda>xs. xs) (Inr ([''consul''], Some 8))"

text \<open>The service appears, and its worker queries once and stores the answer.\<close>

definition watch1 :: watcher where
  "watch1 = worker_store 0 [] (worker_answer sample_json (Inr ([], Some 3)) 0 (worker_head 0 (list_worker newWatcher)))"

text \<open>It disappears and appears again: a second worker starts and stores its answer, then the first one notices that it is cancelled and exits.\<close>

definition watch2 :: watcher where
  "watch2 = worker_store 1 [] (worker_answer sample_json (Inr ([], Some 4)) 1 (worker_head 1 (list_worker (list_nothing watch1))))"

definition watch3 :: watcher where
  "watch3 = worker_exit 0 (worker_head 0 watch2)"

lemmas watch_eval = list_worker_def list_nothing_def catalog_answer_def watcher_services_def reconcileServices_def start_worker_def stop_worker_def
  worker_head_def worker_answer_def worker_store_def worker_exit_def fetchService_def entriesToInstances_def set_pc_def upd_worker_def worker_done_def
  newWatcher_def Let_def

text \<open>The state after each of the runs.\<close>

lemma watch1_state: "watch1 = \<lparr>caches = [(''worker'', [])], catalog_index = 7, works = [(''worker'', 0)],
    workers = [\<lparr>w_service = ''worker'', w_cancelled = False, w_index = 3, w_pc = WHead\<rparr>], group_cancelled = False, listed = [''worker''], fetched = [(''worker'', [])]\<rparr>"
  by (simp add: watch1_def watch_eval)

lemma watch2_state: "watch2 = \<lparr>caches = [(''worker'', [])], catalog_index = 7, works = [(''worker'', 1)],
    workers = [\<lparr>w_service = ''worker'', w_cancelled = True, w_index = 3, w_pc = WHead\<rparr>, \<lparr>w_service = ''worker'', w_cancelled = False, w_index = 4, w_pc = WHead\<rparr>],
    group_cancelled = False, listed = [''worker''], fetched = [(''worker'', []), (''worker'', [])]\<rparr>"
  by (simp add: watch2_def watch1_state watch_eval)

lemma watch3_state: "watch3 = \<lparr>caches = [], catalog_index = 7, works = [(''worker'', 1)],
    workers = [\<lparr>w_service = ''worker'', w_cancelled = True, w_index = 3, w_pc = WDone\<rparr>, \<lparr>w_service = ''worker'', w_cancelled = False, w_index = 4, w_pc = WHead\<rparr>],
    group_cancelled = False, listed = [''worker''], fetched = [(''worker'', []), (''worker'', [])]\<rparr>"
  by (simp add: watch3_def watch2_state watch_eval)

lemma watch_runs:
  "watch_reachable sample_json w \<Longrightarrow> watch_reachable sample_json (list_worker w)"
  "watch_reachable sample_json w \<Longrightarrow> watch_reachable sample_json (list_nothing w)"
  by (auto simp: list_worker_def list_nothing_def intro: watch_next watch_step.catalog)

lemma worker_runs:
  assumes "watch_reachable sample_json w" "i < length (workers w)" "w_pc (workers w ! i) = WHead"
    "w_pc (workers (worker_head i w) ! i) = WQuery" "length (workers (worker_head i w)) = length (workers w)"
    "w_pc (workers (worker_answer sample_json (Inr ([], Some x)) i (worker_head i w)) ! i) = WStore []"
    "length (workers (worker_answer sample_json (Inr ([], Some x)) i (worker_head i w))) = length (workers w)"
  shows "watch_reachable sample_json (worker_store i [] (worker_answer sample_json (Inr ([], Some x)) i (worker_head i w)))"
proof -
  have "watch_reachable sample_json (worker_head i w)" using watch_next [OF assms(1) watch_step.heads] assms(2,3) .
  then have "watch_reachable sample_json (worker_answer sample_json (Inr ([], Some x)) i (worker_head i w))"
    using watch_next [OF _ watch_step.answers] assms(2,4,5) by simp
  then show ?thesis using watch_next [OF _ watch_step.stores] assms(2,6,7) by simp
qed

lemma watch1_reachable: "watch_reachable sample_json watch1"
  unfolding watch1_def by (rule worker_runs [OF watch_runs(1) [OF watch_start]]) (simp_all add: watch_eval)

lemma watch2_reachable: "watch_reachable sample_json watch2"
  unfolding watch2_def by (rule worker_runs [OF watch_runs(1) [OF watch_runs(2) [OF watch1_reachable]]]) (simp_all add: watch_eval watch1_state)

lemma watch3_reachable: "watch_reachable sample_json watch3"
proof -
  have "watch_reachable sample_json (worker_head 0 watch2)" by (rule watch_next [OF watch2_reachable watch_step.heads]) (simp_all add: watch2_state)
  then show ?thesis unfolding watch3_def by (rule watch_next [OF _ watch_step.exits]) (simp_all add: watch_eval watch2_state)
qed

theorem consul_watch_coherent_witness:
  "listed watch1 = [''worker''] \<and> map_of (caches watch1) ''worker'' = Some []
    \<and> (\<exists>!i. i < length (workers watch1) \<and> w_service (workers watch1 ! i) = ''worker'' \<and> \<not> w_cancelled (workers watch1 ! i))"
proof -
  have "listed watch1 = [''worker'']" "map_of (caches watch1) ''worker'' = Some []" by (simp_all add: watch1_state)
  then show ?thesis using consul_watch_coherent [OF watch1_reachable] by simp
qed

text \<open>
  The exit of the first worker removes what the second one has stored: the service is listed, its worker
  has its instances, no cancelled worker is left, and the registry knows no member of the service until
  the next answer.
\<close>

lemma exit_clears_successor:
  "watch_reachable sample_json watch3 \<and> listed watch3 = [''worker''] \<and> (''worker'', []) \<in> set (fetched watch3)
    \<and> map w_cancelled (workers watch3) = [True, False] \<and> map w_pc (workers watch3) = [WDone, WHead]
    \<and> map_of (caches watch2) ''worker'' = Some [] \<and> map_of (caches watch3) ''worker'' = None"
  using watch3_reachable by (simp add: watch2_state watch3_state)

end
