(* ===== verification/ClusterConsul.thy ===== *)
theory ClusterConsul
  imports ClusterNode ConsulWatch
begin

text \<open>
  The registry as the cluster component uses it (\<^verbatim>\<open>member.RegistryAPI\<close>), and the Consul registry as its
  implementation. What the cluster relies on is the locale \<open>discovery\<close>; \<open>map_order\<close> fixes the orders in
  which Go ranges over the two maps of the cache.
\<close>

locale discovery =
  fixes R :: "'r RegistryAPI" and ok :: "'r \<Rightarrow> bool"
  assumes by_id_member: "ok r \<Longrightarrow> reg_MemberById R x r = (n, True) \<Longrightarrow> n \<in> set (reg_AllMembers R r)"
begin

text \<open>A member that can be looked up and is not connected is dialed by the next tick of the connector, if it is its turn.\<close>

lemma found_member_dialed:
  assumes "ok r" "reg_MemberById R x r = (n, True)" "\<not> cl_cancelled c" "node_ID (cl_node c) < node_ID n"
    and "ConnectionState_of (node_ID n) t = PeerStateIdle"
  shows "(node_ID n, Address n) \<in> set (connector_tick R c t r)"
proof -
  have "n \<in> set (reg_AllMembers R r)" using by_id_member assms(1,2) by blast
  moreover have "connectMember c t n = Some (node_ID n, Address n)" using assms(4,5) by (simp add: connectMember_def)
  ultimately show ?thesis using assms(3) by (force simp: connector_tick_def in_map_filter)
qed

end

subsection \<open>The Consul registry\<close>

text \<open>
  The calls of the client, the constructor of the client and the orders of the ranges are the environment of the
  registry. \<^verbatim>\<open>Join\<close> on a registry that does not run is a nil dereference.
\<close>

record 'c consul_env =
  ce_json :: json_lib
  ce_api :: "'c consul_api"
  ce_new :: "consul_config \<Rightarrow> 'c result"
  ce_self :: "'c \<Rightarrow> err"
  ce_base :: consul_config

definition running_watcher :: "'c consul_registry \<Rightarrow> watcher" where
  "running_watcher r = (case rg_watcher r of None \<Rightarrow> newWatcher | Some w \<Rightarrow> w)"

definition consul_members :: "((string \<times> instances) list \<Rightarrow> (string \<times> instances) list) \<Rightarrow> (instances \<Rightarrow> instances) \<Rightarrow> 'c consul_env \<Rightarrow> 'c consul_registry RegistryAPI" where
  "consul_members iter iter2 E =
     \<lparr>reg_Run = Registry_Run (ce_new E) (ce_self E) (ce_base E),
      reg_Join = (\<lambda>node r. case Registry_Join (ce_json E) (ce_api E) node r of None \<Rightarrow> (r, Some nil_dereference) | Some x \<Rightarrow> x),
      reg_Leave = Registry_Leave (ce_api E),
      reg_AllMembers = (\<lambda>r. Registry_AllMembers iter iter2 (running_watcher r)),
      reg_Members = (\<lambda>service r. Registry_Members iter2 service (running_watcher r)),
      reg_MemberById = (\<lambda>serviceId r. Registry_MemberById iter serviceId (running_watcher r))\<rparr>"

locale map_order =
  fixes iter :: "(string \<times> instances) list \<Rightarrow> (string \<times> instances) list" and iter2 :: "instances \<Rightarrow> instances"
  assumes iter_set: "set (iter xs) = set xs" and iter2_set: "set (iter2 ys) = set ys"
begin

lemma consul_by_id:
  assumes "reg_MemberById (consul_members iter iter2 E) x r = (n, True)"
  shows "n \<in> set (reg_AllMembers (consul_members iter iter2 E) r)"
  using assms member_by_id_spec(2) [of iter "running_watcher r" iter2 x n True, OF iter_set iter2_set] by (simp add: consul_members_def)

end

sublocale map_order \<subseteq> consul: discovery "consul_members iter iter2 E" "\<lambda>r. rg_watcher r \<noteq> None"
  by unfold_locales (rule consul_by_id)

interpretation insertion_order: map_order "\<lambda>xs. xs" "\<lambda>ys. ys"
  by unfold_locales simp_all

interpretation reverse_order: map_order rev rev
  by unfold_locales simp_all

subsection \<open>Starting a cluster over Consul\<close>

text \<open>
  When \<^verbatim>\<open>Start\<close> of the cluster succeeds with the Consul registry, the client was created and answered, the node is
  valid and was registered, it has a keeper, and the connector runs. \<^verbatim>\<open>Join\<close> never meets the nil registration: \<^verbatim>\<open>Start\<close>
  returns before it when \<^verbatim>\<open>Run\<close> fails.
\<close>

theorem cluster_start_joins:
  assumes "Cluster_start_hook (consul_members iter iter2 E) t c r = (c', r', None)"
  shows "has_handler t \<and> cl_connector c' \<and> NodeInfo_Validate (cl_node c) = None
    \<and> (\<exists>client reg agent'. ce_new E (toConsulConfig (ce_base E) (rg_options r)) = Inr client \<and> ce_self E client = None
        \<and> instanceToRegistration (ce_json E) (cl_node c) (rg_options r) = Inr reg \<and> api_ServiceRegister (ce_api E) reg client = (agent', None)
        \<and> (\<exists>g i. rg_reg r' = Some g \<and> agent g = agent' \<and> map_of (keepers g) (node_ID (cl_node c)) = Some i \<and> \<not> k_cancelled (keeper_pool g ! i)))
    \<and> rg_watcher r' = Some newWatcher"
proof -
  have handler: "has_handler t" using assms by (auto simp: Cluster_start_hook_def transport_Run_def split: if_splits)
  obtain r1 where run: "Registry_Run (ce_new E) (ce_self E) (ce_base E) r = (r1, None)"
    and join: "reg_Join (consul_members iter iter2 E) (cl_node c) r1 = (r', None)" and c': "c' = c\<lparr>cl_connector := True\<rparr>"
    using assms handler by (auto simp: Cluster_start_hook_def transport_Run_def Cluster_Join_def consul_members_def split: prod.splits option.splits)
  obtain client where client: "ce_new E (toConsulConfig (ce_base E) (rg_options r)) = Inr client" "ce_self E client = None"
    and r1: "r1 = r\<lparr>rg_client := Some client, rg_reg := Some (newRegistration (rg_options r) True client), rg_watcher := Some newWatcher\<rparr>"
    using run by (auto simp: Registry_Run_def initClient_def split: sum.splits option.splits)
  obtain g where g: "consul_join (ce_json E) (ce_api E) (cl_node c) (newRegistration (rg_options r) True client) = (g, None)" "r' = r1\<lparr>rg_reg := Some g\<rparr>"
    using join by (auto simp: consul_members_def Registry_Join_def r1 nil_dereference_def split: prod.splits)
  obtain reg agent' where reg: "NodeInfo_Validate (cl_node c) = None" "instanceToRegistration (ce_json E) (cl_node c) (rg_options r) = Inr reg"
      "api_ServiceRegister (ce_api E) reg client = (agent', None)" "g = join_keep (node_ID (cl_node c)) ((newRegistration (rg_options r) True client)\<lparr>agent := agent'\<rparr>)"
    using g(1) by (auto simp: consul_join_def join_register_def newRegistration_def split: option.splits sum.splits prod.splits)
  have "agent g = agent'" "map_of (keepers g) (node_ID (cl_node c)) = Some 0" "\<not> k_cancelled (keeper_pool g ! 0)"
    by (simp_all add: reg(4) join_keep_def newRegistration_def)
  then show ?thesis using handler c' client reg(1,2,3) g(2) by (auto simp: r1)
qed

end
