(* ===== verification/Udp.thy ===== *)
theory Udp
  imports Connection Frame "HOL-Library.AList"
begin

text \<open>
  \<^verbatim>\<open>network/udp_server.go\<close> and \<^verbatim>\<open>network/udp_connection.go\<close>: connections over datagrams, which the server tells apart
  by source address and session.

  A \<^verbatim>\<open>*UDPConnection\<close> is an index into \<open>udp_pool\<close>; a source address is the text that \<^verbatim>\<open>UDPAddr.String\<close> gives.
  \<open>received\<close> records the datagrams put into the queues of the connections, each with its source; the
  argument \<open>from\<close> of \<open>udp_recv\<close> serves only that.
\<close>

record 'u UDPConnection =
  udp_base :: "'u baseConn"
  remoteAddr :: string
  sessionID :: "64 word"
  sendSequence :: "64 word"
  receiveCh :: "bytes list"

record 'u UDPServer =
  udp_config :: UDPConfig
  connections :: "(string \<times> nat) list"
  remoteAddrDict :: "(string \<times> nat) list"
  udp_pool :: "'u UDPConnection list"
  udp_send :: "(bytes \<times> string) list"
  received :: "(nat \<times> string \<times> bytes) list"

definition NewUDPServer :: "UDPConfig \<Rightarrow> 'u UDPServer" where
  "NewUDPServer config = \<lparr>udp_config = UDPConfig_Normalize config, connections = [], remoteAddrDict = [], udp_pool = [], udp_send = [], received = []\<rparr>"

definition udpConnectionKey :: "string \<Rightarrow> 64 word \<Rightarrow> string" where
  "udpConnectionKey addr session = addr @ ''/'' @ show_nat (unat session)"

definition upd_udp :: "nat \<Rightarrow> ('u UDPConnection \<Rightarrow> 'u UDPConnection) \<Rightarrow> 'u UDPServer \<Rightarrow> 'u UDPServer" where
  "upd_udp i f s = s\<lparr>udp_pool := (udp_pool s)[i := f (udp_pool s ! i)]\<rparr>"

definition conn_key :: "'u UDPConnection \<Rightarrow> string" where
  "conn_key c = udpConnectionKey (remoteAddr c) (sessionID c)"

subsection \<open>Operations\<close>

definition newUDPConnection :: "64 word \<Rightarrow> int \<Rightarrow> bool list \<Rightarrow> string \<Rightarrow> 64 word \<Rightarrow> 'u UDPServer \<Rightarrow> 'u UDPConnection" where
  "newUDPConnection cid now ps addr session s =
     \<lparr>udp_base = newBaseConnWithRole cid (CommonConfig.truncate (udp_config s)) ConnectionRoleServer now ps,
      remoteAddr = addr, sessionID = session, sendSequence = 0, receiveCh = []\<rparr>"

text \<open>A full queue drops the datagram.\<close>

definition udp_recv :: "string \<Rightarrow> bytes \<Rightarrow> nat \<Rightarrow> 'u UDPServer \<Rightarrow> 'u UDPServer" where
  "udp_recv from data i s =
     (if length (receiveCh (udp_pool s ! i)) < 2048
      then upd_udp i (\<lambda>c. c\<lparr>receiveCh := receiveCh c @ [data]\<rparr>) (s\<lparr>received := received s @ [(i, from, data)]\<rparr>)
      else s)"

definition removeConnection :: "nat \<Rightarrow> 'u UDPServer \<Rightarrow> 'u UDPServer" where
  "removeConnection i s =
     (let c = udp_pool s ! i;
          s = s\<lparr>connections := AList.delete (conn_key c) (connections s)\<rparr>
      in if map_of (remoteAddrDict s) (remoteAddr c) = Some i
         then s\<lparr>remoteAddrDict := AList.delete (remoteAddr c) (remoteAddrDict s)\<rparr> else s)"

definition close_base :: "err \<Rightarrow> nat \<Rightarrow> 'u UDPServer \<Rightarrow> 'u UDPServer" where
  "close_base e i s = upd_udp i (\<lambda>c. c\<lparr>udp_base := Close (udp_base c) e\<rparr>) s"

definition udp_Close :: "err \<Rightarrow> nat \<Rightarrow> 'u UDPServer \<Rightarrow> 'u UDPServer" where
  "udp_Close e i s = removeConnection i (close_base e i s)"

definition udp_create :: "64 word \<Rightarrow> int \<Rightarrow> bool list \<Rightarrow> string \<Rightarrow> 64 word \<Rightarrow> 'u UDPServer \<Rightarrow> 'u UDPServer" where
  "udp_create cid now ps addr session s =
     s\<lparr>udp_pool := udp_pool s @ [newUDPConnection cid now ps addr session s],
       connections := AList.update (udpConnectionKey addr session) (length (udp_pool s)) (connections s),
       remoteAddrDict := AList.update addr (length (udp_pool s)) (remoteAddrDict s)\<rparr>"

text \<open>\<^verbatim>\<open>runStart\<close>: when it fails, the \<^verbatim>\<open>Close\<close> that it calls is that of the UDP connection.\<close>

definition udp_runStart :: "'u conn_env \<Rightarrow> nat \<Rightarrow> 'u UDPServer \<Rightarrow> 'u UDPServer" where
  "udp_runStart env i s =
     (case runStart env (udp_base (udp_pool s ! i)) of
        (b, e) \<Rightarrow> (let s = upd_udp i (\<lambda>c. c\<lparr>udp_base := b\<rparr>) s in if e = None then s else removeConnection i s))"

definition transmit :: "'u conn_env \<Rightarrow> 64 word \<Rightarrow> int \<Rightarrow> bool list \<Rightarrow> string \<Rightarrow> bytes \<Rightarrow> 'u UDPServer \<Rightarrow> 'u UDPServer" where
  "transmit env cid now ps addr data s =
     (case DecodeUDPHeader data of
        Inl e \<Rightarrow> s
      | Inr header \<Rightarrow>
          (case map_of (connections s) (udpConnectionKey addr (SessionID header)) of
             Some i \<Rightarrow> udp_recv addr data i s
           | None \<Rightarrow>
               (let s = (case map_of (remoteAddrDict s) addr of
                           None \<Rightarrow> s
                         | Some current \<Rightarrow> udp_Close (Some (Plain ''connection reset'')) current s);
                    i = length (udp_pool s);
                    s = udp_runStart env i (udp_create cid now ps addr (SessionID header) s)
                in udp_recv addr data i s)))"

definition udp_trySend :: "bytes \<times> string \<Rightarrow> 'u UDPServer \<Rightarrow> 'u UDPServer \<times> err" where
  "udp_trySend packet s =
     (if int (length (udp_send s)) < ServerSendChanSize (udp_config s) then (s\<lparr>udp_send := udp_send s @ [packet]\<rparr>, None)
      else (s, Some (Plain ''send channel is full'')))"

definition udp_writeRaw :: "bytes \<Rightarrow> nat \<Rightarrow> 'u UDPServer \<Rightarrow> 'u UDPServer \<times> err" where
  "udp_writeRaw data i s0 =
     (let s = upd_udp i (\<lambda>c. c\<lparr>sendSequence := sendSequence c + 1\<rparr>) s0;
          c = udp_pool s ! i
      in case EncodeUDPHeader \<lparr>SessionID = sessionID c, Sequence = sendSequence c\<rparr> of
           Inl e \<Rightarrow> (s, Some e)
         | Inr header \<Rightarrow>
             (case udp_trySend (header @ data, remoteAddr c) s of
                (s, Some e) \<Rightarrow> (s, Some ErrNetworkChannelFull)
              | (s, None) \<Rightarrow> (s, None)))"

text \<open>\<^verbatim>\<open>UDPConnection.onProcess\<close>, and an iteration of its read loop with a datagram: after an error the loop closes the connection.\<close>

definition udp_onProcess :: "'u conn_env \<Rightarrow> int \<Rightarrow> bytes \<Rightarrow> 'u baseConn \<Rightarrow> 'u baseConn \<times> err" where
  "udp_onProcess env now data b =
     (if length data < UDPHeaderLen then (b, Some ErrInvalidUDPHeader)
      else (case onProcess env now b (drop UDPHeaderLen data) of (b, _, e) \<Rightarrow> (b, e)))"

definition udp_readLoop_iteration :: "'u conn_env \<Rightarrow> int \<Rightarrow> nat \<Rightarrow> 'u UDPServer \<Rightarrow> 'u UDPServer" where
  "udp_readLoop_iteration env now i s =
     (case receiveCh (udp_pool s ! i) of
        [] \<Rightarrow> s
      | data # rest \<Rightarrow>
          (case udp_onProcess env now data (udp_base (udp_pool s ! i)) of
             (b, e) \<Rightarrow>
               (let s = upd_udp i (\<lambda>c. c\<lparr>receiveCh := rest, udp_base := b\<rparr>) s in
                if e = None then s else udp_Close e i s)))"

subsection \<open>Interleaving\<close>

text \<open>
  One goroutine reads the socket and runs \<^verbatim>\<open>transmit\<close>, whose steps are those of \<open>reader\<close>; the connections run
  their own goroutines: they change their base connection in any way that keeps a closed one closed, take
  datagrams, write, and call \<^verbatim>\<open>removeConnection\<close> after the base connection is closed, possibly more than once,
  since the write loop and the read loop both close the connection at their end.
\<close>

datatype reader =
    RIdle
  | RReset string UDPHeader bytes "nat option"
  | RRemove string UDPHeader bytes nat
  | RCreate string UDPHeader bytes
  | RRecv string nat bytes

record 'u udp_sys =
  srv :: "'u UDPServer"
  reader :: reader

definition udp_open :: "'u UDPServer \<Rightarrow> nat \<Rightarrow> bool" where
  "udp_open s i \<longleftrightarrow> i < length (udp_pool s) \<and> state (udp_base (udp_pool s ! i)) \<noteq> ConnectionStateClosed"

inductive udp_step :: "'u conn_env \<Rightarrow> 'u udp_sys \<Rightarrow> 'u udp_sys \<Rightarrow> bool" for env where
  finds: "reader u = RIdle \<Longrightarrow> DecodeUDPHeader data = Inr header \<Longrightarrow> map_of (connections (srv u)) (udpConnectionKey addr (SessionID header)) = Some i \<Longrightarrow>
    udp_step env u (u\<lparr>reader := RRecv addr i data\<rparr>)"
| misses: "reader u = RIdle \<Longrightarrow> DecodeUDPHeader data = Inr header \<Longrightarrow> map_of (connections (srv u)) (udpConnectionKey addr (SessionID header)) = None \<Longrightarrow>
    udp_step env u (u\<lparr>reader := RReset addr header data (map_of (remoteAddrDict (srv u)) addr)\<rparr>)"
| resets: "reader u = RReset addr header data (Some c) \<Longrightarrow>
    udp_step env u (u\<lparr>srv := close_base (Some (Plain ''connection reset'')) c (srv u), reader := RRemove addr header data c\<rparr>)"
| nothing: "reader u = RReset addr header data None \<Longrightarrow> udp_step env u (u\<lparr>reader := RCreate addr header data\<rparr>)"
| removes: "reader u = RRemove addr header data c \<Longrightarrow>
    udp_step env u (u\<lparr>srv := removeConnection c (srv u), reader := RCreate addr header data\<rparr>)"
| creates: "reader u = RCreate addr header data \<Longrightarrow>
    udp_step env u (u\<lparr>srv := udp_runStart env (length (udp_pool (srv u))) (udp_create cid now ps addr (SessionID header) (srv u)),
      reader := RRecv addr (length (udp_pool (srv u))) data\<rparr>)"
| recvs: "reader u = RRecv addr i data \<Longrightarrow> udp_step env u (u\<lparr>srv := udp_recv addr data i (srv u), reader := RIdle\<rparr>)"
| works: "i < length (udp_pool (srv u)) \<Longrightarrow> (state (udp_base (udp_pool (srv u) ! i)) = ConnectionStateClosed \<Longrightarrow> state b = ConnectionStateClosed) \<Longrightarrow>
    udp_step env u (u\<lparr>srv := upd_udp i (\<lambda>c. c\<lparr>udp_base := b\<rparr>) (srv u)\<rparr>)"
| takes: "receiveCh (udp_pool (srv u) ! i) = data # rest \<Longrightarrow> udp_step env u (u\<lparr>srv := upd_udp i (\<lambda>c. c\<lparr>receiveCh := rest\<rparr>) (srv u)\<rparr>)"
| writes: "udp_writeRaw data i (srv u) = (s, e) \<Longrightarrow> udp_step env u (u\<lparr>srv := s\<rparr>)"
| forgets: "i < length (udp_pool (srv u)) \<Longrightarrow> state (udp_base (udp_pool (srv u) ! i)) = ConnectionStateClosed \<Longrightarrow>
    udp_step env u (u\<lparr>srv := removeConnection i (srv u)\<rparr>)"
| sends: "udp_send (srv u) = packet # rest \<Longrightarrow> udp_step env u (u\<lparr>srv := (srv u)\<lparr>udp_send := rest\<rparr>\<rparr>)"

inductive udp_reachable :: "'u conn_env \<Rightarrow> UDPConfig \<Rightarrow> 'u udp_sys \<Rightarrow> bool" for env config where
  udp_start: "udp_reachable env config \<lparr>srv = NewUDPServer config, reader = RIdle\<rparr>"
| udp_next: "udp_reachable env config u \<Longrightarrow> udp_step env u v \<Longrightarrow> udp_reachable env config v"

subsection \<open>Datagrams and connections\<close>

lemma show_nat_no_slash: "CHR ''/'' \<notin> set (show_nat n)"
  using show_nat_digits [of "CHR ''/''" n] by auto

lemma udp_key_inj: "udpConnectionKey a s = udpConnectionKey b t \<longleftrightarrow> a = b \<and> s = t"
proof
  assume e: "udpConnectionKey a s = udpConnectionKey b t"
  let ?d = "\<lambda>x :: 64 word. rev (show_nat (unat x))"
  have "takeWhile (\<lambda>c. c \<noteq> CHR ''/'') (?d x @ CHR ''/'' # rev y) = ?d x" for x y
    using show_nat_no_slash [of "unat x"] by (subst takeWhile_append2) auto
  moreover have "?d s @ CHR ''/'' # rev a = ?d t @ CHR ''/'' # rev b" using arg_cong [OF e, of rev] by (simp add: udpConnectionKey_def)
  ultimately have "?d s = ?d t" by metis
  then show "a = b \<and> s = t" using e by (simp add: udpConnectionKey_def word_unat_eq_iff)
qed simp

definition tagged :: "string \<Rightarrow> bytes \<Rightarrow> 'u UDPConnection \<Rightarrow> bool" where
  "tagged from data c \<longleftrightarrow> from = remoteAddr c \<and> (\<exists>h. DecodeUDPHeader data = Inr h \<and> SessionID h = sessionID c)"

definition maps_ok :: "'u UDPServer \<Rightarrow> bool" where
  "maps_ok s \<longleftrightarrow> (\<forall>k i. map_of (connections s) k = Some i \<longrightarrow> i < length (udp_pool s) \<and> conn_key (udp_pool s ! i) = k)
     \<and> (\<forall>a i. map_of (remoteAddrDict s) a = Some i \<longrightarrow> i < length (udp_pool s) \<and> remoteAddr (udp_pool s ! i) = a)
     \<and> (\<forall>i. udp_open s i \<longrightarrow> map_of (remoteAddrDict s) (remoteAddr (udp_pool s ! i)) = Some i)"

definition recv_ok :: "'u UDPServer \<Rightarrow> bool" where
  "recv_ok s \<longleftrightarrow> (\<forall>i from data. (i, from, data) \<in> set (received s) \<longrightarrow> i < length (udp_pool s) \<and> tagged from data (udp_pool s ! i))
     \<and> (\<forall>i < length (udp_pool s). length (receiveCh (udp_pool s ! i)) \<le> 2048)"

definition all_closed :: "string \<Rightarrow> 'u UDPServer \<Rightarrow> bool" where
  "all_closed addr s \<longleftrightarrow> (\<forall>i. udp_open s i \<longrightarrow> remoteAddr (udp_pool s ! i) \<noteq> addr)"

definition reader_ok :: "'u UDPServer \<Rightarrow> reader \<Rightarrow> bool" where
  "reader_ok s r =
     (case r of
        RIdle \<Rightarrow> True
      | RReset addr h data cur \<Rightarrow> DecodeUDPHeader data = Inr h \<and> (\<forall>c. cur = Some c \<longrightarrow> c < length (udp_pool s))
          \<and> (\<forall>i. udp_open s i \<and> remoteAddr (udp_pool s ! i) = addr \<longrightarrow> cur = Some i)
      | RRemove addr h data c \<Rightarrow> DecodeUDPHeader data = Inr h \<and> c < length (udp_pool s) \<and> \<not> udp_open s c \<and> all_closed addr s
      | RCreate addr h data \<Rightarrow> DecodeUDPHeader data = Inr h \<and> all_closed addr s
      | RRecv addr i data \<Rightarrow> i < length (udp_pool s) \<and> tagged addr data (udp_pool s ! i))"

definition udp_inv :: "'u udp_sys \<Rightarrow> bool" where
  "udp_inv u \<longleftrightarrow> maps_ok (srv u) \<and> recv_ok (srv u) \<and> reader_ok (srv u) (reader u)"

text \<open>A change of the pool that keeps the names of the connections and opens none.\<close>

definition same_pool :: "'u UDPServer \<Rightarrow> 'u UDPServer \<Rightarrow> bool" where
  "same_pool s t \<longleftrightarrow> length (udp_pool t) = length (udp_pool s) \<and> (\<forall>i. udp_open t i \<longrightarrow> udp_open s i)
     \<and> (\<forall>i < length (udp_pool s). remoteAddr (udp_pool t ! i) = remoteAddr (udp_pool s ! i) \<and> sessionID (udp_pool t ! i) = sessionID (udp_pool s ! i))"

lemma same_pool_ok:
  assumes "same_pool s t"
  shows "connections t = connections s \<Longrightarrow> remoteAddrDict t = remoteAddrDict s \<Longrightarrow> maps_ok s \<Longrightarrow> maps_ok t"
    and "received t = received s \<Longrightarrow> (\<And>i. i < length (udp_pool s) \<Longrightarrow> length (receiveCh (udp_pool t ! i)) \<le> length (receiveCh (udp_pool s ! i))) \<Longrightarrow> recv_ok s \<Longrightarrow> recv_ok t"
    and "reader_ok s r \<Longrightarrow> reader_ok t r"
proof -
  have open': "udp_open t i \<Longrightarrow> udp_open s i \<and> remoteAddr (udp_pool t ! i) = remoteAddr (udp_pool s ! i)" for i
    using assms by (auto simp: same_pool_def udp_open_def)
  show "connections t = connections s \<Longrightarrow> remoteAddrDict t = remoteAddrDict s \<Longrightarrow> maps_ok s \<Longrightarrow> maps_ok t"
    using assms open' by (auto simp: maps_ok_def same_pool_def conn_key_def)
  show "received t = received s \<Longrightarrow> (\<And>i. i < length (udp_pool s) \<Longrightarrow> length (receiveCh (udp_pool t ! i)) \<le> length (receiveCh (udp_pool s ! i))) \<Longrightarrow> recv_ok s \<Longrightarrow> recv_ok t"
    using assms by (auto simp: recv_ok_def same_pool_def tagged_def; meson order.trans)
  show "reader_ok s r \<Longrightarrow> reader_ok t r"
    using assms open' by (auto simp: reader_ok_def same_pool_def all_closed_def tagged_def split: reader.splits)
qed

lemma upd_udp_fields [simp]:
  "length (udp_pool (upd_udp i f s)) = length (udp_pool s)" "connections (upd_udp i f s) = connections s" "remoteAddrDict (upd_udp i f s) = remoteAddrDict s"
  "received (upd_udp i f s) = received s" "udp_config (upd_udp i f s) = udp_config s" "udp_send (upd_udp i f s) = udp_send s"
  by (simp_all add: upd_udp_def)

lemma upd_udp_nth: "j < length (udp_pool s) \<Longrightarrow> udp_pool (upd_udp i f s) ! j = (if j = i then f (udp_pool s ! i) else udp_pool s ! j)"
  by (cases "j = i") (simp_all add: upd_udp_def)

lemma upd_same_pool:
  assumes "\<And>c. remoteAddr (f c) = remoteAddr c \<and> sessionID (f c) = sessionID c"
    and "state (udp_base (udp_pool s ! i)) = ConnectionStateClosed \<Longrightarrow> state (udp_base (f (udp_pool s ! i))) = ConnectionStateClosed"
  shows "same_pool s (upd_udp i f s)"
  using assms by (auto simp: same_pool_def udp_open_def upd_udp_nth split: if_splits)

text \<open>Forgetting a closed connection.\<close>

lemma remove_fields [simp]:
  "udp_pool (removeConnection i s) = udp_pool s" "received (removeConnection i s) = received s" "udp_open (removeConnection i s) = udp_open s"
  by (simp_all add: removeConnection_def Let_def udp_open_def fun_eq_iff)

lemma remove_ok:
  assumes "\<not> udp_open s i"
  shows "maps_ok s \<Longrightarrow> maps_ok (removeConnection i s)" "recv_ok s \<Longrightarrow> recv_ok (removeConnection i s)" "reader_ok s r \<Longrightarrow> reader_ok (removeConnection i s) r"
proof -
  have c: "map_of (connections (removeConnection i s)) k = Some j \<Longrightarrow> map_of (connections s) k = Some j" for k j
    by (auto simp: removeConnection_def Let_def AList.delete_conv' split: if_splits)
  have d: "map_of (remoteAddrDict (removeConnection i s)) a = (if a = remoteAddr (udp_pool s ! i) \<and> map_of (remoteAddrDict s) a = Some i then None else map_of (remoteAddrDict s) a)" for a
    by (auto simp: removeConnection_def Let_def AList.delete_conv')
  show "maps_ok s \<Longrightarrow> maps_ok (removeConnection i s)" using assms d by (auto simp: maps_ok_def dest!: c split: if_splits)
  show "recv_ok s \<Longrightarrow> recv_ok (removeConnection i s)" by (simp add: recv_ok_def)
  show "reader_ok s r \<Longrightarrow> reader_ok (removeConnection i s) r" by (simp add: reader_ok_def all_closed_def cong: reader.case_cong)
qed

text \<open>A new connection, before it is started.\<close>

lemma create_ok:
  assumes "maps_ok s" "recv_ok s" "all_closed addr s"
  shows "maps_ok (udp_create cid now ps addr session s)" "recv_ok (udp_create cid now ps addr session s)"
proof -
  let ?t = "udp_create cid now ps addr session s"
  have pool: "udp_pool ?t = udp_pool s @ [newUDPConnection cid now ps addr session s]" "received ?t = received s" by (simp_all add: udp_create_def)
  have new: "remoteAddr (newUDPConnection cid now ps addr session s) = addr" "conn_key (newUDPConnection cid now ps addr session s) = udpConnectionKey addr session"
      "receiveCh (newUDPConnection cid now ps addr session s) = []"
    by (simp_all add: newUDPConnection_def conn_key_def)
  have op: "udp_open ?t i \<Longrightarrow> i < length (udp_pool s) \<Longrightarrow> udp_open s i" for i by (simp add: udp_open_def pool nth_append)
  have len: "udp_open ?t i \<Longrightarrow> i < Suc (length (udp_pool s))" for i by (simp add: udp_open_def pool)
  show "recv_ok ?t" using assms(2) new(3) by (auto simp: recv_ok_def pool nth_append less_Suc_eq)
  have "map_of (connections ?t) = (map_of (connections s))(udpConnectionKey addr session \<mapsto> length (udp_pool s))"
    "map_of (remoteAddrDict ?t) = (map_of (remoteAddrDict s))(addr \<mapsto> length (udp_pool s))"
    by (simp_all add: udp_create_def update_conv')
  note m = this
  have "map_of (remoteAddrDict ?t) (remoteAddr (udp_pool ?t ! i)) = Some i" if "udp_open ?t i" for i
  proof (cases "i < length (udp_pool s)")
    case True
    then show ?thesis using op [OF that True] assms(1,3) by (auto simp: maps_ok_def all_closed_def m pool nth_append)
  next
    case False
    then show ?thesis using len [OF that] by (simp add: m pool nth_append new less_Suc_eq)
  qed
  then show "maps_ok ?t" using assms(1) by (auto simp: maps_ok_def m pool nth_append new split: if_splits) (auto simp: less_Suc_eq)
qed

lemma runStart_closes: "runStart env b = (b', Some e) \<Longrightarrow> state b' = ConnectionStateClosed"
  by (auto simp: runStart_def Close_def stop_timer_def split: prod.splits option.splits if_splits)

lemma started_ok:
  assumes "maps_ok s" "recv_ok s" "i < length (udp_pool s)" "tagged addr data (udp_pool s ! i)" "state (udp_base (udp_pool s ! i)) \<noteq> ConnectionStateClosed"
  shows "maps_ok (udp_runStart env i s)" "recv_ok (udp_runStart env i s)" "reader_ok (udp_runStart env i s) (RRecv addr i data)"
proof -
  obtain b e where b: "runStart env (udp_base (udp_pool s ! i)) = (b, e)" by fastforce
  let ?t = "upd_udp i (\<lambda>c. c\<lparr>udp_base := b\<rparr>) s"
  have same: "same_pool s ?t" by (rule upd_same_pool) (use assms(5) in auto)
  have "reader_ok s (RRecv addr i data)" using assms(3,4) by (simp add: reader_ok_def)
  then have t: "maps_ok ?t" "recv_ok ?t" "reader_ok ?t (RRecv addr i data)"
    using same_pool_ok [OF same] assms(1,2) by (auto simp: upd_udp_nth)
  have "\<not> udp_open ?t i" if "e \<noteq> None" using that runStart_closes b by (auto simp: udp_open_def upd_udp_nth)
  then show "maps_ok (udp_runStart env i s)" "recv_ok (udp_runStart env i s)" "reader_ok (udp_runStart env i s) (RRecv addr i data)"
    using t remove_ok [of ?t i] by (simp_all add: udp_runStart_def b Let_def)
qed

lemma recv_recv_ok:
  assumes "recv_ok s" "i < length (udp_pool s)" "tagged addr data (udp_pool s ! i)"
  shows "recv_ok (udp_recv addr data i s)"
  using assms by (auto simp: recv_ok_def udp_recv_def upd_udp_def nth_list_update tagged_def)

text \<open>A step that changes one connection only, without opening it.\<close>

lemma udp_inv_upd:
  assumes "udp_inv u" "\<And>c. remoteAddr (f c) = remoteAddr c \<and> sessionID (f c) = sessionID c \<and> length (receiveCh (f c)) \<le> length (receiveCh c)"
    and "state (udp_base (udp_pool (srv u) ! i)) = ConnectionStateClosed \<Longrightarrow> state (udp_base (f (udp_pool (srv u) ! i))) = ConnectionStateClosed"
  shows "udp_inv (u\<lparr>srv := upd_udp i f (srv u)\<rparr>)"
proof -
  have same: "same_pool (srv u) (upd_udp i f (srv u))" by (rule upd_same_pool) (use assms(2,3) in auto)
  show ?thesis using same_pool_ok [OF same] assms(1,2) by (auto simp: udp_inv_def upd_udp_nth)
qed

lemma udp_inv_send: "udp_inv u \<Longrightarrow> udp_inv (u\<lparr>srv := (srv u)\<lparr>udp_send := q\<rparr>\<rparr>)"
proof -
  have same: "same_pool (srv u) ((srv u)\<lparr>udp_send := q\<rparr>)" by (simp add: same_pool_def udp_open_def)
  show "udp_inv u \<Longrightarrow> udp_inv (u\<lparr>srv := (srv u)\<lparr>udp_send := q\<rparr>\<rparr>)" using same_pool_ok [OF same] by (simp add: udp_inv_def)
qed

lemma udp_inv_step:
  assumes "udp_step env u v" "udp_inv u"
  shows "udp_inv v"
  using assms
proof (induction rule: udp_step.induct)
  case (finds u data header addr i)
  then have "i < length (udp_pool (srv u))" "conn_key (udp_pool (srv u) ! i) = udpConnectionKey addr (SessionID header)"
    by (simp_all add: udp_inv_def maps_ok_def)
  then show ?case using finds(2,4) by (auto simp: udp_inv_def reader_ok_def conn_key_def udp_key_inj tagged_def)
next
  case (misses u data header addr)
  then show ?case by (auto simp: udp_inv_def reader_ok_def maps_ok_def)
next
  case (resets u addr header data c)
  let ?f = "\<lambda>k. k\<lparr>udp_base := Close (udp_base k) (Some (Plain ''connection reset''))\<rparr>"
  have inv: "udp_inv (u\<lparr>srv := upd_udp c ?f (srv u)\<rparr>)" by (rule udp_inv_upd [OF resets(2)]) (auto simp: Close_def)
  have "state (Close b e) = ConnectionStateClosed" for b :: "'a baseConn" and e by (simp add: Close_def stop_timer_def)
  moreover have "same_pool (srv u) (upd_udp c ?f (srv u))" by (rule upd_same_pool) (auto simp: Close_def)
  ultimately show ?case using inv resets
    by (auto simp: udp_inv_def reader_ok_def close_base_def all_closed_def udp_open_def upd_udp_nth split: if_splits)
next
  case (nothing u addr header data)
  then show ?case by (auto simp: udp_inv_def reader_ok_def all_closed_def)
next
  case (removes u addr header data c)
  then show ?case using remove_ok [of "srv u" c] by (auto simp: udp_inv_def reader_ok_def all_closed_def)
next
  case (creates u addr header data cid now ps)
  let ?t = "udp_create cid now ps addr (SessionID header) (srv u)"
  have n: "length (udp_pool (srv u)) < length (udp_pool ?t)" "tagged addr data (udp_pool ?t ! length (udp_pool (srv u)))"
    "state (udp_base (udp_pool ?t ! length (udp_pool (srv u)))) \<noteq> ConnectionStateClosed"
    using creates by (auto simp: udp_create_def newUDPConnection_def newBaseConnWithRole_def touch_def tagged_def udp_inv_def reader_ok_def)
  show ?case using started_ok [OF create_ok n] creates by (auto simp: udp_inv_def reader_ok_def)
next
  case (recvs u addr i data)
  have "i < length (udp_pool (srv u))" using recvs by (simp add: udp_inv_def reader_ok_def)
  then have "same_pool (srv u) (udp_recv addr data i (srv u))" by (auto simp: udp_recv_def same_pool_def udp_open_def upd_udp_def nth_list_update)
  moreover have "connections (udp_recv addr data i (srv u)) = connections (srv u)" "remoteAddrDict (udp_recv addr data i (srv u)) = remoteAddrDict (srv u)"
    by (simp_all add: udp_recv_def)
  ultimately show ?case using recvs recv_recv_ok same_pool_ok(1) by (fastforce simp: udp_inv_def reader_ok_def)
next
  case (works i u b)
  then show ?case by (intro udp_inv_upd) auto
next
  case (takes u i data rest)
  have same: "same_pool (srv u) (upd_udp i (\<lambda>c. c\<lparr>receiveCh := rest\<rparr>) (srv u))" by (rule upd_same_pool) auto
  show ?case using same_pool_ok [OF same] takes by (auto simp: udp_inv_def upd_udp_nth)
next
  case (writes data i u s e)
  have inv: "udp_inv (u\<lparr>srv := upd_udp i (\<lambda>c. c\<lparr>sendSequence := sendSequence c + 1\<rparr>) (srv u)\<rparr>)"
    by (rule udp_inv_upd [OF writes(2)]) auto
  have "\<exists>q. s = (upd_udp i (\<lambda>c. c\<lparr>sendSequence := sendSequence c + 1\<rparr>) (srv u))\<lparr>udp_send := q\<rparr>"
    using writes(1) by (auto simp: udp_writeRaw_def Let_def udp_trySend_def split: sum.splits prod.splits option.splits if_splits intro: exI [of _ "udp_send s"])
  then obtain q where "u\<lparr>srv := s\<rparr> = u\<lparr>srv := (upd_udp i (\<lambda>c. c\<lparr>sendSequence := sendSequence c + 1\<rparr>) (srv u))\<lparr>udp_send := q\<rparr>\<rparr>" by blast
  then show ?case using udp_inv_send [OF inv, of q] by simp
next
  case (forgets i u)
  then show ?case using remove_ok [of "srv u" i] by (auto simp: udp_inv_def udp_open_def)
next
  case (sends u packet rest)
  then show ?case using udp_inv_send by blast
qed

lemma udp_reachable_inv: "udp_reachable env config u \<Longrightarrow> udp_inv u"
proof (induction rule: udp_reachable.induct)
  case udp_start
  show ?case by (simp add: udp_inv_def maps_ok_def recv_ok_def reader_ok_def NewUDPServer_def udp_open_def)
qed (rule udp_inv_step)

text \<open>
  C20: However the reader of the socket and the goroutines of the connections interleave, a datagram is
  only ever queued for a connection of its own source address and session, two connections that are
  not closed have different source addresses, and no queue grows beyond its capacity.
\<close>

theorem udp_isolation:
  assumes "udp_reachable env config u"
  shows "(\<forall>(i, from, data) \<in> set (received (srv u)). i < length (udp_pool (srv u)) \<and> from = remoteAddr (udp_pool (srv u) ! i)
      \<and> (\<exists>h. DecodeUDPHeader data = Inr h \<and> SessionID h = sessionID (udp_pool (srv u) ! i)))
    \<and> (udp_open (srv u) i \<and> udp_open (srv u) j \<and> remoteAddr (udp_pool (srv u) ! i) = remoteAddr (udp_pool (srv u) ! j) \<longrightarrow> i = j)
    \<and> (\<forall>k < length (udp_pool (srv u)). length (receiveCh (udp_pool (srv u) ! k)) \<le> 2048)"
proof -
  have inv: "udp_inv u" using udp_reachable_inv [OF assms] .
  have "i = j" if "udp_open (srv u) i" "udp_open (srv u) j" "remoteAddr (udp_pool (srv u) ! i) = remoteAddr (udp_pool (srv u) ! j)"
    using inv that by (metis udp_inv_def maps_ok_def option.inject)
  then show ?thesis using inv by (auto simp: udp_inv_def recv_ok_def tagged_def)
qed

text \<open>A datagram that a connection hands to the server carries its session and the next sequence number in front of the data.\<close>

lemma udp_packet:
  assumes "udp_writeRaw data i s = (t, None)" "i < length (udp_pool s)"
  shows "\<exists>packet. udp_send t = udp_send s @ [(packet, remoteAddr (udp_pool s ! i))] \<and> drop UDPHeaderLen packet = data
    \<and> DecodeUDPHeader packet = Inr \<lparr>SessionID = sessionID (udp_pool s ! i), Sequence = sendSequence (udp_pool s ! i) + 1\<rparr>"
proof -
  let ?h = "\<lparr>SessionID = sessionID (udp_pool s ! i), Sequence = sendSequence (udp_pool s ! i) + 1\<rparr>"
  obtain header where h: "EncodeUDPHeader ?h = Inr header" "udp_send t = udp_send s @ [(header @ data, remoteAddr (udp_pool s ! i))]"
    using assms by (auto simp: udp_writeRaw_def udp_trySend_def Let_def upd_udp_nth split: sum.splits prod.splits option.splits if_splits)
  have "SessionID ?h \<noteq> 0" using h(1) by (auto simp: EncodeUDPHeader_def)
  then have "DecodeUDPHeader (header @ data) = Inr ?h" "length header = UDPHeaderLen"
    using udp_header_roundtrip [of ?h data] h(1) by auto
  then show ?thesis using h(2) by auto
qed

end
