(* ===== verification/UdpExamples.thy ===== *)
theory UdpExamples
  imports Udp
begin

text \<open>
  Runs of a UDP server with datagrams of session 5 from one source.
\<close>

definition udp_env :: "unit conn_env" where
  "udp_env = \<lparr>env_handler = DefaultTransportHandler, env_crypto = undefined, env_key = undefined\<rparr>"

definition ping :: bytes where
  "ping = be_put 8 (5 :: 64 word) @ be_put 8 (1 :: 64 word)"

definition ping_header :: UDPHeader where
  "ping_header = \<lparr>SessionID = 5, Sequence = 1\<rparr>"

lemma ping_decodes: "DecodeUDPHeader ping = Inr ping_header"
  by code_simp

abbreviation udp_run :: "unit udp_sys \<Rightarrow> bool" where
  "udp_run \<equiv> udp_reachable udp_env DefaultUDPConfig"

text \<open>The first datagram opens connection 0.\<close>

definition udp0 :: "unit UDPServer" where
  "udp0 = udp_runStart udp_env 0 (udp_create 1 0 [] ''a:1'' 5 (NewUDPServer DefaultUDPConfig))"

definition udp1 :: "unit UDPServer" where
  "udp1 = udp_recv ''a:1'' ping 0 udp0"

lemma key5: "udpConnectionKey ''a:1'' 5 = ''a:1/5''"
  by code_simp

lemma udp_created: "udp_run \<lparr>srv = udp0, reader = RRecv ''a:1'' 0 ping\<rparr>"
proof -
  let ?u = "\<lparr>srv = NewUDPServer DefaultUDPConfig, reader = RIdle\<rparr> :: unit udp_sys"
  have "udp_run (?u\<lparr>reader := RReset ''a:1'' ping_header ping (map_of (remoteAddrDict (srv ?u)) ''a:1'')\<rparr>)"
    by (rule udp_next [OF udp_start udp_step.misses]) (simp_all add: ping_decodes NewUDPServer_def)
  then have "udp_run (?u\<lparr>reader := RReset ''a:1'' ping_header ping None\<rparr>)" by (simp add: NewUDPServer_def)
  from udp_next [OF this udp_step.nothing] have "udp_run (?u\<lparr>reader := RCreate ''a:1'' ping_header ping\<rparr>)" by simp
  from udp_next [OF this udp_step.creates, of "''a:1''" ping_header ping 1 0 "[]"] show ?thesis
    by (simp add: udp0_def ping_header_def NewUDPServer_def)
qed

lemma udp1_reachable: "udp_run \<lparr>srv = udp1, reader = RIdle\<rparr>"
  using udp_next [OF udp_created udp_step.recvs] by (simp add: udp1_def)

lemma udp1_facts: "length (udp_pool udp1) = 1" "remoteAddr (udp_pool udp1 ! 0) = ''a:1''" "sessionID (udp_pool udp1 ! 0) = 5"
  "receiveCh (udp_pool udp1 ! 0) = [ping]" "connections udp1 = [(''a:1/5'', 0)]" "remoteAddrDict udp1 = [(''a:1'', 0)]" "received udp1 = [(0, ''a:1'', ping)]"
  by code_simp+

theorem udp_isolation_witness:
  "received udp1 = [(0, ''a:1'', ping)] \<and> remoteAddr (udp_pool udp1 ! 0) = ''a:1'' \<and> (\<exists>h. DecodeUDPHeader ping = Inr h \<and> SessionID h = sessionID (udp_pool udp1 ! 0))"
  using udp_isolation [OF udp1_reachable, of 0 0] by (simp add: udp1_facts)

subsection \<open>A late \<^verbatim>\<open>removeConnection\<close>\<close>

text \<open>Connection 0 times out and its write loop closes and removes it; then the same client sends again, which opens connection 1.\<close>

definition udp2 :: "unit UDPServer" where
  "udp2 = upd_udp 0 (\<lambda>c. c\<lparr>udp_base := Close (udp_base (udp_pool udp1 ! 0)) (Some ErrHeartbeatTimeout)\<rparr>) udp1"

definition udp3 :: "unit UDPServer" where
  "udp3 = removeConnection 0 udp2"

definition udp4 :: "unit UDPServer" where
  "udp4 = udp_recv ''a:1'' ping 1 (udp_runStart udp_env 1 (udp_create 2 0 [] ''a:1'' 5 udp3))"

text \<open>Only now the read loop of connection 0 ends and removes it once more.\<close>

definition udp5 :: "unit UDPServer" where
  "udp5 = removeConnection 0 udp4"

lemma udp_facts:
  "length (udp_pool udp2) = 1" "baseConn.state (udp_base (udp_pool udp2 ! 0)) = ConnectionStateClosed" "length (udp_pool udp3) = 1"
  "connections udp3 = []" "remoteAddrDict udp3 = []" "length (udp_pool udp4) = 2" "baseConn.state (udp_base (udp_pool udp4 ! 0)) = ConnectionStateClosed"
  "length (udp_pool udp5) = 2" "baseConn.state (udp_base (udp_pool udp5 ! 1)) = ConnectionStateReady" "connections udp5 = []" "remoteAddrDict udp5 = [(''a:1'', 1)]"
  "conn_key (udp_pool udp5 ! 1) = ''a:1/5''"
  by code_simp+

lemma udp3_reachable: "udp_run \<lparr>srv = udp3, reader = RIdle\<rparr>"
proof -
  have "udp_run \<lparr>srv = udp2, reader = RIdle\<rparr>"
    using udp_next [OF udp1_reachable udp_step.works, of 0 "Close (udp_base (udp_pool udp1 ! 0)) (Some ErrHeartbeatTimeout)"]
    by (simp add: udp1_facts udp2_def Close_def)
  from udp_next [OF this udp_step.forgets, of 0] show ?thesis by (simp add: udp_facts udp3_def)
qed

lemma udp5_reachable: "udp_run \<lparr>srv = udp5, reader = RIdle\<rparr>"
proof -
  let ?u = "\<lparr>srv = udp3, reader = RIdle\<rparr>"
  have "udp_run (?u\<lparr>reader := RReset ''a:1'' ping_header ping (map_of (remoteAddrDict (srv ?u)) ''a:1'')\<rparr>)"
    by (rule udp_next [OF udp3_reachable udp_step.misses]) (simp_all add: ping_decodes udp_facts)
  then have "udp_run (?u\<lparr>reader := RReset ''a:1'' ping_header ping None\<rparr>)" by (simp add: udp_facts)
  from udp_next [OF this udp_step.nothing] have "udp_run (?u\<lparr>reader := RCreate ''a:1'' ping_header ping\<rparr>)" by simp
  from udp_next [OF this udp_step.creates, of "''a:1''" ping_header ping 2 0 "[]"]
  have "udp_run \<lparr>srv = udp_runStart udp_env 1 (udp_create 2 0 [] ''a:1'' 5 udp3), reader = RRecv ''a:1'' 1 ping\<rparr>"
    by (simp add: ping_header_def udp_facts)
  from udp_next [OF this udp_step.recvs] have "udp_run \<lparr>srv = udp4, reader = RIdle\<rparr>" by (simp add: udp4_def)
  from udp_next [OF this udp_step.forgets, of 0] show ?thesis by (simp add: udp_facts udp5_def)
qed

text \<open>
  The second removal takes the entry of connection 1 out of the map: an open connection is not found any more, and the
  next datagram of its client closes it and opens another one.
\<close>

lemma late_removal_breaks_connection:
  "udp_run \<lparr>srv = udp5, reader = RIdle\<rparr> \<and> udp_open udp5 1 \<and> map_of (connections udp5) (conn_key (udp_pool udp5 ! 1)) = None
    \<and> \<not> udp_open (transmit udp_env 3 0 [] ''a:1'' ping udp5) 1"
proof -
  have "\<not> udp_open (transmit udp_env 3 0 [] ''a:1'' ping udp5) 1" by code_simp
  then show ?thesis using udp5_reachable by (simp add: udp_open_def udp_facts del: One_nat_def)
qed

end
