(* ===== verification/WebSocket.thy ===== *)
theory WebSocket
  imports ConnStream
begin

text \<open>
  \<^verbatim>\<open>network/websocket_connection.go\<close>: a connection over a WebSocket, which reads the stream of frames out of messages
  and says why it closes.

  What the WebSocket library returns is an argument: \<^verbatim>\<open>NextReader\<close> gives a message with its reads or an error, and a
  read gives some bytes and an error, \<^verbatim>\<open>io.EOF\<close> at the end of the message, together with the time.
\<close>

record 'u WebSocketConnection =
  ws_base :: "'u baseConn"
  ws_buffer :: Buffer

definition newWebSocketConnection :: "64 word \<Rightarrow> WebSocketConfig \<Rightarrow> int \<Rightarrow> bool list \<Rightarrow> 'u WebSocketConnection" where
  "newWebSocketConnection cid config now ps =
     (let readBufferCap = MaxInboundSize config + tcpReadChunkSize in
      \<lparr>ws_base = newBaseConnWithRole cid (CommonConfig.truncate config) ConnectionRoleServer now ps,
       ws_buffer = Buffer_New readBufferCap [readBufferCap]\<rparr>)"

subsection \<open>Reading\<close>

type_synonym ws_read = "int \<times> bytes \<times> err"

datatype ws_message = DataMessage "ws_read list" | OtherMessage "ws_read list"

definition ws_chunk :: "'u conn_env \<Rightarrow> int \<Rightarrow> bytes \<Rightarrow> 'u WebSocketConnection \<Rightarrow> ('u WebSocketConnection \<times> err) option" where
  "ws_chunk env now chunk c =
     (if chunk = [] then Some (c, None)
      else (case Buffer_Write (ws_buffer c) chunk of
              None \<Rightarrow> None
            | Some (buf1, _, Some e) \<Rightarrow> Some (c\<lparr>ws_buffer := buf1\<rparr>, Some e)
            | Some (buf1, _, None) \<Rightarrow>
                (case processReadBuffer Buffer_Bytes Buffer_Len Buffer_Skip env now (ws_base c) buf1 of
                   None \<Rightarrow> None
                 | Some (b, buf2, e) \<Rightarrow> Some (c\<lparr>ws_base := b, ws_buffer := buf2\<rparr>, e))))"

text \<open>The inner loop over the reads of a message.\<close>

fun ws_reads :: "'u conn_env \<Rightarrow> ws_read list \<Rightarrow> 'u WebSocketConnection \<Rightarrow> ('u WebSocketConnection \<times> err) option" where
  "ws_reads env [] c = Some (c, None)"
| "ws_reads env ((now, chunk, readErr) # rs) c =
     (case ws_chunk env now chunk c of
        None \<Rightarrow> None
      | Some (c, Some e) \<Rightarrow> Some (c, Some e)
      | Some (c, None) \<Rightarrow>
          (case readErr of
             None \<Rightarrow> ws_reads env rs c
           | Some e \<Rightarrow> if errors_is e io_EOF then Some (c, None) else Some (c, Some e)))"

text \<open>\<^verbatim>\<open>readLoop\<close> with its deferred \<^verbatim>\<open>Close\<close>.\<close>

fun ws_readLoop :: "'u conn_env \<Rightarrow> ws_message result list \<Rightarrow> 'u WebSocketConnection \<Rightarrow> ('u WebSocketConnection \<times> err) option" where
  "ws_readLoop env [] c = Some (c, None)"
| "ws_readLoop env (Inl e # ms) c = Some (c\<lparr>ws_base := Close (ws_base c) (Some e)\<rparr>, Some e)"
| "ws_readLoop env (Inr (OtherMessage rs) # ms) c = ws_readLoop env ms c"
| "ws_readLoop env (Inr (DataMessage rs) # ms) c =
     (case ws_reads env rs c of
        None \<Rightarrow> None
      | Some (c, Some e) \<Rightarrow> Some (c\<lparr>ws_base := Close (ws_base c) (Some e)\<rparr>, Some e)
      | Some (c, None) \<Rightarrow> ws_readLoop env ms c)"

subsection \<open>Closing\<close>

text \<open>\<^verbatim>\<open>utf8.ValidString\<close>\<close>

definition cont_byte :: "nat \<Rightarrow> bool" where
  "cont_byte n \<longleftrightarrow> 128 \<le> n \<and> n \<le> 191"

fun utf8_valid :: "nat list \<Rightarrow> bool" where
  "utf8_valid [] = True"
| "utf8_valid (a # bs) =
     (if a < 128 then utf8_valid bs
      else if 194 \<le> a \<and> a \<le> 223 then (case bs of b # rs \<Rightarrow> cont_byte b \<and> utf8_valid rs | [] \<Rightarrow> False)
      else if 224 \<le> a \<and> a \<le> 239 then
        (case bs of b # c # rs \<Rightarrow> cont_byte b \<and> (a = 224 \<longrightarrow> 160 \<le> b) \<and> (a = 237 \<longrightarrow> b \<le> 159) \<and> cont_byte c \<and> utf8_valid rs | _ \<Rightarrow> False)
      else if 240 \<le> a \<and> a \<le> 244 then
        (case bs of b # c # d # rs \<Rightarrow> cont_byte b \<and> (a = 240 \<longrightarrow> 144 \<le> b) \<and> (a = 244 \<longrightarrow> b \<le> 143) \<and> cont_byte c \<and> cont_byte d \<and> utf8_valid rs | _ \<Rightarrow> False)
      else False)"

definition utf8_ValidString :: "string \<Rightarrow> bool" where
  "utf8_ValidString s = utf8_valid (map of_char s)"

function trim_valid :: "string \<Rightarrow> string" where
  "trim_valid reason = (if utf8_ValidString reason then reason else trim_valid (butlast reason))"
  by auto

lemma not_valid_nonempty: "\<not> utf8_ValidString s \<Longrightarrow> s \<noteq> []"
  by (auto simp: utf8_ValidString_def)

termination trim_valid
  by (relation "measure length") (auto dest: not_valid_nonempty)

declare trim_valid.simps [simp del]

text \<open>The status codes of RFC 6455.\<close>

definition CloseNormalClosure :: nat where "CloseNormalClosure = 1000"
definition CloseMessageTooBig :: nat where "CloseMessageTooBig = 1009"
definition CloseInternalServerErr :: nat where "CloseInternalServerErr = 1011"

text \<open>The close frame that \<^verbatim>\<open>closeSocket\<close> writes, if any; \<open>peer_close\<close> tells whether an error has a \<^verbatim>\<open>CloseError\<close> of the library in its tree.\<close>

definition ws_closeSocket :: "(go_error \<Rightarrow> bool) \<Rightarrow> err \<Rightarrow> (nat \<times> string) option" where
  "ws_closeSocket peer_close cause =
     (case cause of
        None \<Rightarrow> Some (CloseNormalClosure, [])
      | Some e \<Rightarrow>
          if peer_close e then None
          else (let code = (if errors_is e ErrFrameTooLarge then CloseMessageTooBig else CloseInternalServerErr);
                    reason = error_string e;
                    reason = (if length reason > 123 then take 123 reason else reason)
                in Some (code, trim_valid reason)))"

lemma trim_valid_ok: "utf8_ValidString (trim_valid s) \<and> (\<exists>n. trim_valid s = take n s)"
proof (induction s rule: trim_valid.induct)
  case (1 s)
  show ?case
  proof (cases "utf8_ValidString s")
    case True
    then show ?thesis by (auto simp: trim_valid.simps [of s] intro: exI [of _ "length s"])
  next
    case False
    with 1 obtain n where "utf8_ValidString (trim_valid (butlast s))" "trim_valid (butlast s) = take n (butlast s)" by blast
    then show ?thesis using False by (auto simp: trim_valid.simps [of s] butlast_conv_take)
  qed
qed

text \<open>The close frame always fits a control frame, and its reason is valid UTF-8 and the beginning of the message of the error.\<close>

lemma ws_close_frame_fits:
  assumes "ws_closeSocket peer_close cause = Some (code, reason)"
  shows "2 + length reason \<le> 125 \<and> utf8_ValidString reason
    \<and> (cause = None \<longrightarrow> code = CloseNormalClosure \<and> reason = []) \<and> (\<forall>e. cause = Some e \<longrightarrow> (\<exists>n. reason = take n (error_string e)))"
proof (cases cause)
  case None
  then show ?thesis using assms by (simp add: ws_closeSocket_def utf8_ValidString_def)
next
  case (Some e)
  then have r: "reason = trim_valid (take 123 (error_string e))"
    using assms by (simp add: ws_closeSocket_def Let_def split: if_splits)
  obtain n where n: "trim_valid (take 123 (error_string e)) = take n (take 123 (error_string e))" "utf8_ValidString reason" using trim_valid_ok r by metis
  then have "length reason \<le> 123" by (simp add: r)
  then show ?thesis using Some n r by (auto intro: exI [of _ "min n 123"])
qed

subsection \<open>Message boundaries do not matter\<close>

definition as_tcp :: "'u WebSocketConnection \<Rightarrow> 'u TCPConnection" where
  "as_tcp c = \<lparr>tcp_base = ws_base c, readBuffer = ws_buffer c\<rparr>"

definition from_tcp :: "'u TCPConnection \<Rightarrow> 'u WebSocketConnection" where
  "from_tcp c = \<lparr>ws_base = tcp_base c, ws_buffer = readBuffer c\<rparr>"

lemma from_as_tcp [simp]: "from_tcp (as_tcp c) = c" "as_tcp (from_tcp d) = d"
  by (simp_all add: from_tcp_def as_tcp_def)

lemma from_tcp_close [simp]: "(from_tcp d)\<lparr>ws_base := Close (ws_base (from_tcp d)) e\<rparr> = from_tcp (d\<lparr>tcp_base := Close (tcp_base d) e\<rparr>)"
  by (simp add: from_tcp_def)

text \<open>The chunks of a message that is read to its end: its last read reports \<^verbatim>\<open>io.EOF\<close>, with or without bytes.\<close>

definition whole_message :: "ws_message result \<Rightarrow> bool" where
  "whole_message m = (case m of
      Inr (DataMessage rs) \<Rightarrow> rs \<noteq> [] \<and> snd (snd (last rs)) = Some io_EOF \<and> (\<forall>r \<in> set (butlast rs). snd (snd r) = None)
    | Inr (OtherMessage rs) \<Rightarrow> True | Inl e \<Rightarrow> False)"

definition read_chunks :: "ws_read list \<Rightarrow> (int \<times> bytes) list" where
  "read_chunks rs = map (\<lambda>(now, chunk, _). (now, chunk)) (filter (\<lambda>(_, chunk, _). chunk \<noteq> []) rs)"

fun message_chunks :: "ws_message result list \<Rightarrow> (int \<times> bytes) list" where
  "message_chunks [] = []"
| "message_chunks (Inr (DataMessage rs) # ms) = read_chunks rs @ message_chunks ms"
| "message_chunks (m # ms) = message_chunks ms"

lemma ws_chunk_tcp:
  "chunk \<noteq> [] \<Longrightarrow> ws_chunk env now chunk c = map_option (apfst from_tcp) (readLoop_iteration env now (as_tcp c) (Inr chunk))"
  by (auto simp: ws_chunk_def readLoop_iteration_def as_tcp_def from_tcp_def split: option.splits prod.splits)

lemma readLoop_append:
  "readLoop env (xs @ ys) c =
     (case readLoop env xs c of None \<Rightarrow> None | Some (c, Some e) \<Rightarrow> Some (c, Some e) | Some (c, None) \<Rightarrow> readLoop env ys c)"
  by (induction env xs c rule: readLoop.induct) (auto split: option.splits prod.splits)

text \<open>The reads of a whole message, with the \<^verbatim>\<open>Close\<close> after an error.\<close>

lemma ws_reads_tcp:
  assumes "rs \<noteq> []" "snd (snd (last rs)) = Some io_EOF" "\<forall>r \<in> set (butlast rs). snd (snd r) = None"
  shows "map_option (\<lambda>(c, e). (if e = None then c else c\<lparr>ws_base := Close (ws_base c) e\<rparr>, e)) (ws_reads env rs c) =
     map_option (apfst from_tcp) (readLoop env (map (apsnd Inr) (read_chunks rs)) (as_tcp c))"
  using assms
proof (induction rs arbitrary: c)
  case (Cons r rs)
  obtain now chunk re where r: "r = (now, chunk, re)" by (cases r)
  have re: "re = (if rs = [] then Some io_EOF else None)" using Cons.prems by (auto simp: r)
  have eof: "errors_is io_EOF io_EOF" by (simp add: io_EOF_def)
  have rest: "rs \<noteq> [] \<Longrightarrow> map_option (\<lambda>(c, e). (if e = None then c else c\<lparr>ws_base := Close (ws_base c) e\<rparr>, e)) (ws_reads env rs d) =
     map_option (apfst from_tcp) (readLoop env (map (apsnd Inr) (read_chunks rs)) (as_tcp d))" for d
    using Cons.prems by (intro Cons.IH) (auto split: if_splits)
  show ?case
  proof (cases "chunk = []")
    case True
    then show ?thesis using rest [of c] re by (cases "rs = []") (auto simp: r ws_chunk_def read_chunks_def eof)
  next
    case False
    then show ?thesis using rest re
      by (cases "rs = []") (auto simp: r ws_chunk_tcp read_chunks_def eof split: option.splits prod.splits)
  qed
qed simp

lemma ws_readLoop_tcp:
  assumes "\<And>m. m \<in> set ms \<Longrightarrow> whole_message m"
  shows "ws_readLoop env ms c = map_option (apfst from_tcp) (readLoop env (map (apsnd Inr) (message_chunks ms)) (as_tcp c))"
  using assms
proof (induction env ms c rule: ws_readLoop.induct)
  case (4 env rs ms c)
  have w: "rs \<noteq> []" "snd (snd (last rs)) = Some io_EOF" "\<forall>r \<in> set (butlast rs). snd (snd r) = None"
    using 4(2) [of "Inr (DataMessage rs)"] by (simp_all add: whole_message_def)
  show ?case
  proof (cases "ws_reads env rs c")
    case None
    then show ?thesis using ws_reads_tcp [OF w, of env c] by (simp add: readLoop_append)
  next
    case (Some ce)
    obtain d e where de: "ws_reads env rs c = Some (d, e)" using Some by (cases ce) auto
    show ?thesis
    proof (cases e)
      case None
      then have "readLoop env (map (apsnd Inr) (read_chunks rs)) (as_tcp c) = Some (as_tcp d, None)"
        using ws_reads_tcp [OF w, of env c] de by (auto simp: map_option_case split: option.splits)
      moreover have "ws_readLoop env ms d = map_option (apfst from_tcp) (readLoop env (map (apsnd Inr) (message_chunks ms)) (as_tcp d))"
        using 4 de None by auto
      ultimately show ?thesis using de None by (simp add: readLoop_append)
    next
      case (Some x)
      then have "map_option (apfst from_tcp) (readLoop env (map (apsnd Inr) (read_chunks rs)) (as_tcp c)) = Some (d\<lparr>ws_base := Close (ws_base d) (Some x)\<rparr>, Some x)"
        using ws_reads_tcp [OF w, of env c] de by simp
      then show ?thesis using de Some by (auto simp: readLoop_append split: option.splits)
    qed
  qed
next
  case (2 env e ms c)
  then have "whole_message (Inl e)" by simp
  then show ?case by (simp add: whole_message_def)
qed auto

text \<open>
  Reading whole messages does to the connection what processing the whole stream at once does, however the frames
  are spread over messages and the messages over reads.
\<close>

theorem ws_read_messages:
  assumes "17 \<le> MaxInboundSize config" "options b = CommonConfig.truncate (config :: WebSocketConfig)"
    and "\<And>m. m \<in> set ms \<Longrightarrow> whole_message m" "\<forall>(t, ch) \<in> set (message_chunks ms). int (length ch) \<le> tcpReadChunkSize"
    and "process_stream env now b (concat (map snd (message_chunks ms))) = (b', r, e)"
  shows "\<exists>t rb. ws_readLoop env ms ((newWebSocketConnection cid config t0 ps)\<lparr>ws_base := b\<rparr>) =
      Some (\<lparr>ws_base = (case e of None \<Rightarrow> b'\<lparr>lastActive := t\<rparr> | Some _ \<Rightarrow> Close (b'\<lparr>lastActive := t\<rparr>) e), ws_buffer = rb\<rparr>, e)
    \<and> (e = None \<longrightarrow> Buffer_Bytes rb = r)"
proof -
  let ?cap = "MaxInboundSize config + tcpReadChunkSize"
  let ?rb = "Buffer_New ?cap [?cap]"
  have opt: "MaxInboundSize (options b) = MaxInboundSize config" using assms(2) by (simp add: CommonConfig.defs)
  have cap: "int (buf_maxCap ?rb) = ?cap" using assms(1) by (simp add: Buffer_New_def Let_def config_consts)
  have idle: "onProcess env now b (Buffer_Bytes ?rb) = (b, 0, None)" by (simp add: onProcess_def Decode_short)
  have ne: "ch \<noteq> []" if "(t, ch) \<in> set (message_chunks ms)" for t ch
    using that by (induction ms rule: message_chunks.induct) (auto simp: read_chunks_def)
  have "\<exists>t rb'. readLoop env (map (apsnd Inr) (message_chunks ms)) \<lparr>tcp_base = b, readBuffer = ?rb\<rparr> =
      Some (\<lparr>tcp_base = (case e of None \<Rightarrow> b'\<lparr>lastActive := t\<rparr> | Some _ \<Rightarrow> Close (b'\<lparr>lastActive := t\<rparr>) e), readBuffer = rb'\<rparr>, e)
    \<and> (e = None \<longrightarrow> Buffer_Bytes rb' = r)"
    by (rule readLoop_chunks [OF Buffer_New_wf, of b ?cap "[?cap]" "message_chunks ms" env now b' r e]) (use assms opt cap idle ne in auto)
  then show ?thesis using ws_readLoop_tcp [OF assms(3), of ms env "\<lparr>ws_base = b, ws_buffer = ?rb\<rparr>"]
    by (auto simp: newWebSocketConnection_def Let_def as_tcp_def from_tcp_def)
qed

end
