(* ===== verification/Spec2Isabelle.thy ===== *)
theory Spec2Isabelle
  imports ConnDelivery NodeRuntime LogicalExamples TransportExamples GatewayExamples ConsulExamples ClusterConsul UdpExamples WebSocket
begin

text \<open>
  A verification library for ActorMesh, a distributed actor framework in Go: actors with mailboxes on a
  node, nodes connected into a cluster by TCP, logical actors that a directory in Redis places on one node at a time,
  and a gateway that gives clients an agent actor each.

  \<^bold>\<open>The program.\<close> A node (\<^verbatim>\<open>node/\<close>) runs components (\<^verbatim>\<open>pkg/component\<close>): the actor system (\<^verbatim>\<open>actor/\<close>), the cluster
  (\<^verbatim>\<open>cluster/\<close>) with its registry (\<^verbatim>\<open>cluster/member/consul\<close>) and its transport (\<^verbatim>\<open>cluster/transport/nettransport\<close>), the router of
  the logical actors (\<^verbatim>\<open>logicalactor/\<close>) and possibly a gateway (\<^verbatim>\<open>gateway/\<close>). The transport and the gateway work on connections
  (\<^verbatim>\<open>network/\<close>), which cut a byte stream into frames (\<^verbatim>\<open>network/protocol\<close>) through a receive buffer (\<^verbatim>\<open>pkg/buffer\<close>), transform
  bodies (\<^verbatim>\<open>network/codec\<close>) and encrypt them (\<^verbatim>\<open>network/encrypt\<close>). An ask to another node goes as a protobuf message
  (\<^verbatim>\<open>actor/remote.go\<close>) through the transport to the actor system of that node and back.

  \<^bold>\<open>Conventions.\<close> A struct is a record with its fields, an enumeration a datatype, a sized integer a word or an integer with the
  truncation written out. A pointer to a mutable object is an index into a list of all such objects. Go errors are the datatype
  \<open>go_error\<close> (theory \<open>GoErrors\<close>), on which \<^verbatim>\<open>errors.Is\<close>, \<^verbatim>\<open>errors.As\<close> and \<^verbatim>\<open>Error()\<close> are functions; a result is a sum or a pair with
  an optional error. What a mutex protects is one step; where the code leaves a lock, or uses an atomic variable, an operation is cut
  into several definitions, and a step relation interleaves them. Libraries and services (protobuf, gzip, the
  cryptographic primitives, JSON, Redis, the Consul client, WebSocket) are parameters; what the code relies on is a named hypothesis
  (such as \<open>proto_roundtrip\<close>, \<open>redis_ok\<close>, \<open>lru_ok\<close>, \<open>crypto_agrees\<close>, \<open>json_roundtrip\<close>), and the example theories instantiate
  it. The order in which Go ranges over a map is an argument (\<open>iter\<close>), and so is the clock. Log output is left out.

  \<^bold>\<open>Foundations.\<close> \<open>Prelude\<close>: bytes, big-endian integers, slices, decimal printing, \<^verbatim>\<open>%q\<close>, \<^verbatim>\<open>strings.TrimSpace\<close>. \<open>GoErrors\<close>: errors and
  \<^verbatim>\<open>actor/errors.go\<close>. \<open>HostPort\<close>: endpoints as text, with their round trip. \<open>Crc32\<close>: the checksum, and that it detects a changed byte.

  \<^bold>\<open>Network.\<close> \<open>Frame\<close> (\<^verbatim>\<open>network/protocol\<close>): encoding and decoding are inverse on a stream, the decoder is canonical, and a damaged body
  is rejected. \<open>Buffer\<close> (\<^verbatim>\<open>pkg/buffer\<close>) refines a byte list; its interface is the locale \<open>ibuffer\<close>, which the read loop uses.
  \<open>Codec\<close>, \<open>Cipher\<close>: pipelines and encryption are undone by the receiver. \<open>NetConfig\<close>: configurations. \<open>Connection\<close>
  (\<^verbatim>\<open>base_connection.go\<close>, \<^verbatim>\<open>tcp_connection.go\<close>): the operations of a connection. \<open>ConnStream\<close>: the read loop does the same however the stream is cut
  (\<open>tcp_read_chunking\<close>), with the locale \<open>conn_preorder\<close> for what no operation undoes. \<open>ConnLifecycle\<close>: the goroutines of a
  connection interleaved; callbacks come in order, and accepted messages reach the wire in order. \<open>ConnDelivery\<close>: what one
  end accepts the other end delivers, and the handshake makes both ends ready. \<open>WebSocket\<close>: reading messages is reading their
  stream, and the close frame fits. \<open>Udp\<close>, \<open>UdpExamples\<close>: datagrams reach only the connection of their source and session.

  \<^bold>\<open>Actors.\<close> \<open>Mpsc\<close> (\<^verbatim>\<open>pkg/mpsc\<close>): the lock-free queue refines a list queue (locale \<open>mpsc_queue\<close>). \<open>Mailbox\<close>: one consumer, first in
  first out, no lost wake-up, over atomic steps. \<open>RequestManager\<close>: every request is completed at most once. \<open>Snowflake\<close>: increasing
  identifiers. \<open>ActorTypes\<close>, \<open>ProtoCodec\<close>, \<open>ActorSystem\<close>, \<open>ActorRun\<close>: the actor system of a node and the execution of actors, which are
  programs over their context. \<open>ActorInv\<close>: life cycle of processes, registry and stop, with the locale \<open>sending\<close> for all
  operations that only send. \<open>ActorAsk\<close>: asks are answered once and never hang. \<open>ActorRoundtrip\<close>: asks from end to end, on
  one node and between two. \<open>ActorExamples\<close>: the runs on which these properties are applied.

  \<^bold>\<open>Components and nodes.\<close> \<open>Component\<close>: the lifecycle controller and the component manager. \<open>NodeRuntime\<close>: start and shutdown order (locale
  \<open>lifecycle_pass\<close>). \<open>Member\<close>: what a node says of itself.

  \<^bold>\<open>Cluster.\<close> \<open>Transport\<close>, \<open>TransportInv\<close>, \<open>TransportExamples\<close>: peers and hello, and that a node has at most one live connection to another
  one, provided a connection keeps to one node identifier (\<open>nm\<close>); two races that leave a dead registration are
  shown as runs. \<open>ClusterNode\<close>: the cluster component, and delivery from \<^verbatim>\<open>SendToNode\<close> to the handler of the other node. \<open>Consul\<close>,
  \<open>ConsulWatch\<close>, \<open>ConsulExamples\<close>: registration in Consul and back, keepers, subscriptions, the watcher with its goroutines. \<open>ClusterConsul\<close>: the registry
  as the cluster uses it (locales \<open>discovery\<close> and \<open>map_order\<close>), implemented by Consul.

  \<^bold>\<open>Logical actors.\<close> \<open>LogicalTypes\<close>, \<open>Placement\<close>: identities and round robin. \<open>RedisDirectory\<close>: the directory with its scripts and cache;
  \<open>OwnerLease\<close>: the scripts refine a table of leases; \<open>DirectoryContract\<close>: the interface as a locale, interpreted by the Redis directory;
  \<open>DirectoryCache\<close>: the caches of all nodes under concurrency. \<open>Router\<close>, \<open>RouterActor\<close>: resolution, routing and
  activation. \<open>LogicalMesh\<close>: a logical actor is active on at most one node. \<open>DirectoryExamples\<close>, \<open>LogicalExamples\<close>: instances.

  \<^bold>\<open>Gateway.\<close> \<open>Gateway\<close>: route tables and agents; a request is answered on its connection. \<open>GatewayBridge\<close>: the callbacks of all client
  connections interleaved, and the wait group of the agents. \<open>GatewayExamples\<close>: instances, and the race that leaks an agent.

  \<^bold>\<open>Bounds and loops.\<close> Loops over data are recursive functions on that data. A loop of the code that might not end is a
  \<^verbatim>\<open>partial_function\<close> into \<open>option\<close> or a function that returns \<open>None\<close> when its inputs end (the doubling loop of the buffer, the loop over the receive
  buffer, the identifier generator waiting for the clock), and the lemmas show that a result is returned. The loop of \<^verbatim>\<open>resolveOwner\<close> has the bound
  of the code (\<open>maxOwnerResolveAttempts\<close>). The fuel of \<open>TrimSpace\<close> is the length of the text, each round removing at least one
  character. Counters that wrap (request and subscription identifiers, sequence numbers) are words, and the properties that need it
  assume fewer than \<open>2^64\<close> uses.

  \<^bold>\<open>Not modelled.\<close> Generated protobuf code; log output (\<^verbatim>\<open>pkg/glog\<close>); the accept loops of the TCP and WebSocket servers and the
  socket calls, which are calls of the operating system; \<^verbatim>\<open>pkg/timer\<close>, \<^verbatim>\<open>pkg/stopper\<close>, \<^verbatim>\<open>pkg/fileutil\<close> and the root package, which only call the
  standard library (an expiring timer is a step of the component that set it); the wiring of concrete components in
  \<^verbatim>\<open>node/node.go\<close>. Data races in the sense of the Go memory model are outside the step relations, which
  interleave whole steps.
\<close>

end
